(* ===== verification/Prelude.thy ===== *)
theory Prelude
  imports Main
begin

section \<open>Prelude: asynchronous programs, loops over lists, decimal strings\<close>

text \<open>
  What every component of the model shares.
  \<^item> \<open>prog\<close>: an \<open>async\<close> function of the service is a state transformer that ends either with a
    thrown value (\<open>Inl\<close>) or with a result (\<open>Inr\<close>). \<open>bindE\<close> is \<open>await\<close> followed by the rest of
    the body, \<open>tryCatch\<close> is \<open>try { .. } catch (e) { .. }\<close>, \<open>forE\<close> is \<open>for (const x of xs)\<close>.
  \<^item> \<open>moves R m\<close> and \<open>keeps I m\<close>: what a program can do to the state, whether it returns or throws.
    The collection \<open>moves_intro\<close> holds the rules that push them through programs, so that the frame or
    invariant proof of an operation is one \<open>intro\<close> over the lemmas of its steps.
  \<^item> The collection \<open>run\<close> holds what to unfold to execute a program on a concrete world, for the witnesses.
  \<^item> \<open>string_of_int\<close>, \<open>Number\<close>, \<open>joinWith\<close>, \<open>splitOn\<close>: the string operations the code uses to
    build Redis keys and to store lists of ids, with their round trips.
\<close>

named_theorems moves_intro \<open>rules that prove which states a program can lead to\<close>
named_theorems run \<open>definitions to unfold when a program is executed on a concrete state\<close>
named_theorems inv_elim \<open>inversion rules for programs that ended with a result\<close>

subsection \<open>Programs with state and exceptions\<close>

type_synonym ('s, 'e, 'a) prog = "'s \<Rightarrow> ('e + 'a) \<times> 's"

definition returnE :: "'a \<Rightarrow> ('s, 'e, 'a) prog" where
  "returnE x s = (Inr x, s)"

definition throwE :: "'e \<Rightarrow> ('s, 'e, 'a) prog" where
  "throwE e s = (Inl e, s)"

definition bindE :: "('s, 'e, 'a) prog \<Rightarrow> ('a \<Rightarrow> ('s, 'e, 'b) prog) \<Rightarrow> ('s, 'e, 'b) prog" where
  "bindE m f s = (case m s of (Inl e, s') \<Rightarrow> (Inl e, s') | (Inr x, s') \<Rightarrow> f x s')"

definition seqE :: "('s, 'e, 'a) prog \<Rightarrow> ('s, 'e, 'b) prog \<Rightarrow> ('s, 'e, 'b) prog" where
  "seqE m n = bindE m (\<lambda>_. n)"

definition tryCatch :: "('s, 'e, 'a) prog \<Rightarrow> ('e \<Rightarrow> ('s, 'e, 'a) prog) \<Rightarrow> ('s, 'e, 'a) prog" where
  "tryCatch m h s = (case m s of (Inl e, s') \<Rightarrow> h e s' | (Inr x, s') \<Rightarrow> (Inr x, s'))"

text \<open>\<open>finally\<close>: the clean-up runs on both exits; if it throws, its exception wins, as in JavaScript.\<close>

definition tryFinally :: "('s, 'e, 'a) prog \<Rightarrow> ('s, 'e, unit) prog \<Rightarrow> ('s, 'e, 'a) prog" where
  "tryFinally m c s =
     (case m s of (r, s') \<Rightarrow> (case c s' of (Inl e, s'') \<Rightarrow> (Inl e, s'') | (Inr _, s'') \<Rightarrow> (r, s'')))"

text \<open>\<open>if (b) throw e;\<close> and \<open>if (b) await m;\<close>\<close>

definition throwIf :: "bool \<Rightarrow> 'e \<Rightarrow> ('s, 'e, unit) prog" where
  "throwIf b e = (if b then throwE e else returnE ())"

definition whenE :: "bool \<Rightarrow> ('s, 'e, unit) prog \<Rightarrow> ('s, 'e, unit) prog" where
  "whenE b m = (if b then m else returnE ())"

definition getE :: "('s \<Rightarrow> 'a) \<Rightarrow> ('s, 'e, 'a) prog" where
  "getE f s = (Inr (f s), s)"

definition modifyE :: "('s \<Rightarrow> 's) \<Rightarrow> ('s, 'e, unit) prog" where
  "modifyE f s = (Inr (), f s)"

fun forE :: "'a list \<Rightarrow> ('a \<Rightarrow> ('s, 'e, unit) prog) \<Rightarrow> ('s, 'e, unit) prog" where
  "forE [] f = returnE ()"
| "forE (x # xs) f = seqE (f x) (forE xs f)"

lemmas prog_defs = returnE_def throwE_def bindE_def seqE_def tryCatch_def tryFinally_def
  throwIf_def whenE_def getE_def modifyE_def

lemma returnE_app [simp]: "returnE x s = (Inr x, s)" by (simp add: returnE_def)
lemma throwE_app [simp]: "throwE e s = (Inl e, s)" by (simp add: throwE_def)
lemma getE_app [simp]: "getE f s = (Inr (f s), s)" by (simp add: getE_def)
lemma modifyE_app [simp]: "modifyE f s = (Inr (), f s)" by (simp add: modifyE_def)
lemma throwIf_True [simp]: "throwIf True e = throwE e" by (simp add: throwIf_def)
lemma throwIf_False [simp]: "throwIf False e = returnE ()" by (simp add: throwIf_def)
lemma whenE_True [simp]: "whenE True m = m" by (simp add: whenE_def)
lemma whenE_False [simp]: "whenE False m = returnE ()" by (simp add: whenE_def)

lemma bindE_Inr: "m s = (Inr x, s') \<Longrightarrow> bindE m f s = f x s'" by (simp add: bindE_def)
lemma bindE_Inl: "m s = (Inl e, s') \<Longrightarrow> bindE m f s = (Inl e, s')" by (simp add: bindE_def)
lemma seqE_Inr: "m s = (Inr x, s') \<Longrightarrow> seqE m n s = n s'" by (simp add: seqE_def bindE_def)
lemma seqE_Inl: "m s = (Inl e, s') \<Longrightarrow> seqE m n s = (Inl e, s')" by (simp add: seqE_def bindE_def)
lemma bindE_returnE [simp]: "bindE (returnE x) f = f x" by (rule ext) (simp add: bindE_def)
lemma bindE_throwE [simp]: "bindE (throwE e) f = throwE e" by (rule ext) (simp add: bindE_def)
lemma seqE_returnE [simp]: "seqE (returnE x) m = m" by (simp add: seqE_def)
lemma seqE_throwE [simp]: "seqE (throwE e) m = throwE e" by (simp add: seqE_def)
lemma tryCatch_Inr: "m s = (Inr x, s') \<Longrightarrow> tryCatch m h s = (Inr x, s')" by (simp add: tryCatch_def)
lemma tryCatch_Inl: "m s = (Inl e, s') \<Longrightarrow> tryCatch m h s = h e s'" by (simp add: tryCatch_def)

text \<open>The monad laws, so that a refactoring of a body by inlining is an equation.\<close>

lemma bindE_return_right: "bindE m returnE = m"
  by (rule ext) (auto simp: bindE_def split: prod.splits sum.splits)

lemma bindE_assoc: "bindE (bindE m f) g = bindE m (\<lambda>x. bindE (f x) g)"
  by (rule ext) (auto simp: bindE_def split: prod.splits sum.splits)

text \<open>Inversion: a sequence that returned ran every step to its result.\<close>

lemma bindE_InrE [inv_elim, elim!]:
  assumes "bindE m f s = (Inr y, s'')"
  obtains x s' where "m s = (Inr x, s')" and "f x s' = (Inr y, s'')"
  using assms by (auto simp: bindE_def split: prod.splits sum.splits)

lemma seqE_InrE [inv_elim, elim!]:
  assumes "seqE m n s = (Inr y, s'')"
  obtains x s' where "m s = (Inr x, s')" and "n s' = (Inr y, s'')"
  using assms by (auto simp: seqE_def)

text \<open>The two ways a sequence can end.\<close>

lemma bindE_cases:
  assumes "bindE m f s = (r, s'')"
  obtains (thrown) e where "m s = (Inl e, s'')" and "r = Inl e"
  | (went) x s' where "m s = (Inr x, s')" and "f x s' = (r, s'')"
  using assms by (auto simp: bindE_def split: prod.splits sum.splits)

lemma seqE_cases:
  assumes "seqE m n s = (r, s'')"
  obtains (thrown) e where "m s = (Inl e, s'')" and "r = Inl e"
  | (went) x s' where "m s = (Inr x, s')" and "n s' = (r, s'')"
  using assms unfolding seqE_def by (rule bindE_cases)

lemma throwIf_InrE [inv_elim, elim!]:
  assumes "throwIf b e s = (Inr y, s')"
  obtains "\<not> b" and "s' = s"
  using assms by (auto simp: throwIf_def split: if_splits)

text \<open>Naming the outcome of a program that was run on a concrete state.\<close>

lemma run_result: "r = m \<Longrightarrow> fst r = x \<Longrightarrow> m = (x, snd r)"
  by auto

lemma result_Inr: "\<not> isl r \<Longrightarrow> \<exists>x. r = Inr x"
  by (cases r) auto

subsection \<open>Step relations and kept predicates\<close>

text \<open>
  \<open>moves R m\<close>: from every state, program \<open>m\<close> ends, by a result or by an exception, in a state related
  to it by \<open>R\<close>. For a reflexive and transitive \<open>R\<close> the relation goes through every construct of a
  program; the locale \<open>step_relation\<close> proves that once, and each of its interpretations in the theories
  below (which tables a program can write, which settings it leaves alone, which messages it can only
  append) adds its rules to \<open>moves_intro\<close>.
\<close>

definition moves :: "('s \<Rightarrow> 's \<Rightarrow> bool) \<Rightarrow> ('s, 'e, 'a) prog \<Rightarrow> bool" where
  "moves R m \<longleftrightarrow> (\<forall>s. R s (snd (m s)))"

lemma movesI: "(\<And>s r s'. m s = (r, s') \<Longrightarrow> R s s') \<Longrightarrow> moves R m"
  by (simp add: moves_def) (metis prod.collapse)

lemma movesD: "moves R m \<Longrightarrow> m s = (r, s') \<Longrightarrow> R s s'"
  by (metis moves_def snd_conv)

lemma moves_mono: "moves R m \<Longrightarrow> (\<And>s t. R s t \<Longrightarrow> Q s t) \<Longrightarrow> moves Q m"
  by (simp add: moves_def)

lemma moves_modifyE [moves_intro]: "(\<And>s. R s (f s)) \<Longrightarrow> moves R (modifyE f)"
  by (simp add: moves_def)

locale step_relation =
  fixes R :: "'s \<Rightarrow> 's \<Rightarrow> bool"
  assumes R_refl: "R s s"
    and R_trans: "R s t \<Longrightarrow> R t u \<Longrightarrow> R s u"
begin

lemma moves_returnE [moves_intro, simp]: "moves R (returnE x)" by (simp add: moves_def R_refl)
lemma moves_throwE [moves_intro, simp]: "moves R (throwE e)" by (simp add: moves_def R_refl)
lemma moves_getE [moves_intro, simp]: "moves R (getE f)" by (simp add: moves_def R_refl)

lemma moves_throwIf [moves_intro, simp]: "moves R (throwIf b e)"
  by (simp add: throwIf_def)

lemma moves_bindE [moves_intro]:
  assumes m: "moves R m" and f: "\<And>x. moves R (f x)"
  shows "moves R (bindE m f)"
proof (rule movesI)
  fix s r s'
  assume run: "bindE m f s = (r, s')"
  obtain q t where q: "m s = (q, t)" by (cases "m s")
  from movesD [OF m q] have st: "R s t" .
  show "R s s'"
  proof (cases q)
    case (Inl e)
    with run q st show ?thesis by (simp add: bindE_def)
  next
    case (Inr x)
    with run q have "f x t = (r, s')" by (simp add: bindE_def)
    from movesD [OF f this] st show ?thesis by (rule R_trans [rotated])
  qed
qed

lemma moves_seqE [moves_intro]: "moves R m \<Longrightarrow> moves R n \<Longrightarrow> moves R (seqE m n)"
  unfolding seqE_def by (rule moves_bindE)

lemma moves_tryCatch [moves_intro]:
  assumes m: "moves R m" and h: "\<And>e. moves R (h e)"
  shows "moves R (tryCatch m h)"
proof (rule movesI)
  fix s r s'
  assume run: "tryCatch m h s = (r, s')"
  obtain q t where q: "m s = (q, t)" by (cases "m s")
  from movesD [OF m q] have st: "R s t" .
  show "R s s'"
  proof (cases q)
    case (Inr e)
    with run q st show ?thesis by (simp add: tryCatch_def)
  next
    case (Inl e)
    with run q have "h e t = (r, s')" by (simp add: tryCatch_def)
    from movesD [OF h this] st show ?thesis by (rule R_trans [rotated])
  qed
qed

lemma moves_tryFinally [moves_intro]:
  assumes m: "moves R m" and c: "moves R c"
  shows "moves R (tryFinally m c)"
proof (rule movesI)
  fix s r s'
  assume run: "tryFinally m c s = (r, s')"
  obtain q t where q: "m s = (q, t)" by (cases "m s")
  obtain p u where p: "c t = (p, u)" by (cases "c t")
  from run q p have "s' = u" by (auto simp: tryFinally_def split: sum.splits)
  with movesD [OF m q] movesD [OF c p] show "R s s'" by (auto intro: R_trans)
qed

lemma moves_whenE [moves_intro]: "(b \<Longrightarrow> moves R m) \<Longrightarrow> moves R (whenE b m)"
  by (simp add: whenE_def)

lemma moves_forE [moves_intro]: "(\<And>x. x \<in> set xs \<Longrightarrow> moves R (f x)) \<Longrightarrow> moves R (forE xs f)"
  by (induction xs) (auto intro: moves_seqE)

end

lemma moves_if [moves_intro]:
  "(b \<Longrightarrow> moves R m) \<Longrightarrow> (\<not> b \<Longrightarrow> moves R n) \<Longrightarrow> moves R (if b then m else n)"
  by simp

lemma moves_case_option [moves_intro]:
  "moves R m \<Longrightarrow> (\<And>x. moves R (f x)) \<Longrightarrow> moves R (case v of None \<Rightarrow> m | Some x \<Rightarrow> f x)"
  by (cases v) auto

lemma moves_case_prod [moves_intro]:
  "(\<And>x y. moves R (f x y)) \<Longrightarrow> moves R (case p of (x, y) \<Rightarrow> f x y)"
  by (cases p) auto

lemma moves_case_sum [moves_intro]:
  "(\<And>x. moves R (f x)) \<Longrightarrow> (\<And>x. moves R (g x)) \<Longrightarrow> moves R (case v of Inl x \<Rightarrow> f x | Inr x \<Rightarrow> g x)"
  by (cases v) auto

lemma moves_Let [moves_intro]: "moves R (f v) \<Longrightarrow> moves R (let x = v in f x)"
  by simp

text \<open>A kept predicate is a step relation: it holds after if it held before.\<close>

definition keeping :: "('s \<Rightarrow> bool) \<Rightarrow> 's \<Rightarrow> 's \<Rightarrow> bool" where
  "keeping I s t \<longleftrightarrow> (I s \<longrightarrow> I t)"

interpretation keeping: step_relation "keeping I" for I :: "'s \<Rightarrow> bool"
  by unfold_locales (auto simp: keeping_def)

abbreviation keeps :: "('s \<Rightarrow> bool) \<Rightarrow> ('s, 'e, 'a) prog \<Rightarrow> bool" where
  "keeps I \<equiv> moves (keeping I)"

lemma keepsI: "(\<And>s r s'. I s \<Longrightarrow> m s = (r, s') \<Longrightarrow> I s') \<Longrightarrow> keeps I m"
  by (auto intro!: movesI simp: keeping_def)

lemma keepsD: "keeps I m \<Longrightarrow> I s \<Longrightarrow> m s = (r, s') \<Longrightarrow> I s'"
  by (auto dest: movesD simp: keeping_def)

subsection \<open>Decimal strings: String(n) and Number(s)\<close>

definition digit_char :: "nat \<Rightarrow> char" where
  "digit_char d = char_of (48 + d)"

definition char_digit :: "char \<Rightarrow> nat option" where
  "char_digit c =
     (let k = of_char c :: nat in if 48 \<le> k \<and> k \<le> 57 then Some (k - 48) else None)"

fun string_of_nat :: "nat \<Rightarrow> string" where
  "string_of_nat n =
     (if n < 10 then [digit_char n] else string_of_nat (n div 10) @ [digit_char (n mod 10)])"

declare string_of_nat.simps [simp del]

definition string_of_int :: "int \<Rightarrow> string" where
  "string_of_int i = (if i < 0 then CHR ''-'' # string_of_nat (nat (- i)) else string_of_nat (nat i))"

fun nat_of_digits :: "nat \<Rightarrow> string \<Rightarrow> nat option" where
  "nat_of_digits acc [] = Some acc"
| "nat_of_digits acc (c # cs) =
     (case char_digit c of None \<Rightarrow> None | Some d \<Rightarrow> nat_of_digits (10 * acc + d) cs)"

text \<open>
  \<open>Number(s)\<close> on the strings the service itself writes: an optional sign and decimal digits.
  \<open>Number("")\<close> is 0. \<open>None\<close> is \<open>NaN\<close>. JavaScript's fractions, exponents, hexadecimal forms and
  surrounding white space are outside this function: no id, counter or offer list is written so.
\<close>

definition Number :: "string \<Rightarrow> int option" where
  "Number s =
     (case s of
        [] \<Rightarrow> Some 0
      | c # cs \<Rightarrow>
          (if c = CHR ''-'' then (if cs = [] then None else map_option (\<lambda>n. - int n) (nat_of_digits 0 cs))
           else map_option int (nat_of_digits 0 s)))"

lemma char_digit_digit_char [simp]: "d < 10 \<Longrightarrow> char_digit (digit_char d) = Some d"
  by (simp add: char_digit_def digit_char_def)

lemma nat_of_digits_append:
  "nat_of_digits acc (xs @ ys) =
     (case nat_of_digits acc xs of None \<Rightarrow> None | Some a \<Rightarrow> nat_of_digits a ys)"
  by (induction xs arbitrary: acc) (auto split: option.splits)

lemma nat_of_digits_string_of_nat: "nat_of_digits 0 (string_of_nat n) = Some n"
proof (induction n rule: string_of_nat.induct)
  case (1 n)
  show ?case
  proof (cases "n < 10")
    case True
    then show ?thesis by (subst string_of_nat.simps) simp
  next
    case False
    with "1.IH" show ?thesis
      by (subst string_of_nat.simps) (simp add: nat_of_digits_append)
  qed
qed

lemma string_of_nat_not_Nil [simp]: "string_of_nat n \<noteq> []"
  by (subst string_of_nat.simps) simp

lemma digit_char_range: "d < 10 \<Longrightarrow> 48 \<le> (of_char (digit_char d) :: nat) \<and> (of_char (digit_char d) :: nat) \<le> 57"
  by (simp add: digit_char_def)

lemma string_of_nat_chars:
  "c \<in> set (string_of_nat n) \<Longrightarrow> 48 \<le> (of_char c :: nat) \<and> (of_char c :: nat) \<le> 57"
proof (induction n rule: string_of_nat.induct)
  case (1 n)
  show ?case
  proof (cases "n < 10")
    case True
    then have "c = digit_char n" using "1.prems" by (subst (asm) string_of_nat.simps) simp
    with True show ?thesis by (simp add: digit_char_range)
  next
    case False
    then have "c \<in> set (string_of_nat (n div 10)) \<or> c = digit_char (n mod 10)"
      using "1.prems" by (subst (asm) string_of_nat.simps) auto
    with False "1.IH" show ?thesis by (auto simp: digit_char_range)
  qed
qed

lemma string_of_int_chars:
  "c \<in> set (string_of_int i) \<Longrightarrow> c = CHR ''-'' \<or> (48 \<le> (of_char c :: nat) \<and> (of_char c :: nat) \<le> 57)"
  by (auto simp: string_of_int_def split: if_splits dest: string_of_nat_chars)

lemma string_of_int_not_Nil [simp]: "string_of_int i \<noteq> []"
  by (simp add: string_of_int_def)

lemma comma_not_in_string_of_int [simp]: "CHR '','' \<notin> set (string_of_int i)"
proof
  assume "CHR '','' \<in> set (string_of_int i)"
  from string_of_int_chars [OF this] show False by simp
qed

lemma minus_not_in_string_of_nat: "CHR ''-'' \<notin> set (string_of_nat n)"
proof
  assume "CHR ''-'' \<in> set (string_of_nat n)"
  from string_of_nat_chars [OF this] show False by simp
qed

lemma Number_string_of_int [simp]: "Number (string_of_int i) = Some i"
proof (cases "i < 0")
  case True
  then show ?thesis
    by (simp add: string_of_int_def Number_def nat_of_digits_string_of_nat)
next
  case False
  obtain c cs where s: "string_of_nat (nat i) = c # cs"
    by (metis neq_Nil_conv string_of_nat_not_Nil)
  then have "c \<noteq> CHR ''-''"
    using minus_not_in_string_of_nat [of "nat i"] by auto
  moreover have "nat_of_digits 0 (c # cs) = Some (nat i)"
    using nat_of_digits_string_of_nat [of "nat i"] s by simp
  ultimately show ?thesis
    using False by (simp add: string_of_int_def Number_def s)
qed

lemma string_of_int_inj [simp]: "string_of_int i = string_of_int j \<longleftrightarrow> i = j"
  by (metis Number_string_of_int option.inject)

subsection \<open>Array.join and String.split with a one-character separator\<close>

fun joinWith :: "char \<Rightarrow> string list \<Rightarrow> string" where
  "joinWith c [] = []"
| "joinWith c [s] = s"
| "joinWith c (s # t # ss) = s @ c # joinWith c (t # ss)"

fun splitOn :: "char \<Rightarrow> string \<Rightarrow> string list" where
  "splitOn c [] = [[]]"
| "splitOn c (x # xs) =
     (if x = c then [] # splitOn c xs
      else (case splitOn c xs of [] \<Rightarrow> [[x]] | s # ss \<Rightarrow> (x # s) # ss))"

lemma splitOn_not_Nil [simp]: "splitOn c s \<noteq> []"
  by (induction s) (auto split: list.splits)

lemma splitOn_no_sep: "c \<notin> set s \<Longrightarrow> splitOn c s = [s]"
  by (induction s) auto

lemma splitOn_append_sep: "c \<notin> set s \<Longrightarrow> splitOn c (s @ c # t) = s # splitOn c t"
  by (induction s) auto

lemma splitOn_joinWith:
  "ss \<noteq> [] \<Longrightarrow> \<forall>s\<in>set ss. c \<notin> set s \<Longrightarrow> splitOn c (joinWith c ss) = ss"
  by (induction c ss rule: joinWith.induct) (auto simp: splitOn_no_sep splitOn_append_sep)

text \<open>The list of agent ids of an offer: \<open>ids.join(",")\<close> and \<open>offered.split(",").map(Number)\<close>.\<close>

definition joinIds :: "int list \<Rightarrow> string" where
  "joinIds ids = joinWith (CHR '','') (map string_of_int ids)"

definition splitIds :: "string \<Rightarrow> int option list" where
  "splitIds s = map Number (splitOn (CHR '','') s)"

lemma splitIds_joinIds: "ids \<noteq> [] \<Longrightarrow> splitIds (joinIds ids) = map Some ids"
  by (simp add: splitIds_def joinIds_def splitOn_joinWith comp_def)

lemma joinWith_not_Nil: "ss \<noteq> [] \<Longrightarrow> \<forall>s\<in>set ss. s \<noteq> [] \<Longrightarrow> joinWith c ss \<noteq> []"
  by (induction c ss rule: joinWith.induct) auto

lemma joinIds_not_Nil [simp]: "ids \<noteq> [] \<Longrightarrow> joinIds ids \<noteq> []"
  by (simp add: joinIds_def joinWith_not_Nil)

subsection \<open>Tables as lists of rows\<close>

text \<open>\<open>UPDATE .. WHERE .. RETURNING\<close>: the rows after the update that the condition selected before it.\<close>

definition update_where :: "('r \<Rightarrow> bool) \<Rightarrow> ('r \<Rightarrow> 'r) \<Rightarrow> 'r list \<Rightarrow> 'r list" where
  "update_where p f rs = map (\<lambda>r. if p r then f r else r) rs"

definition returning :: "('r \<Rightarrow> bool) \<Rightarrow> ('r \<Rightarrow> 'r) \<Rightarrow> 'r list \<Rightarrow> 'r list" where
  "returning p f rs = map f (filter p rs)"

lemma length_update_where [simp]: "length (update_where p f rs) = length rs"
  by (simp add: update_where_def)

lemma update_where_none: "\<forall>r\<in>set rs. \<not> p r \<Longrightarrow> update_where p f rs = rs"
  by (auto simp: update_where_def intro: map_idI)

lemma update_where_Nil [simp]: "update_where p f [] = []"
  by (simp add: update_where_def)

lemma update_where_Cons [simp]:
  "update_where p f (r # rs) = (if p r then f r else r) # update_where p f rs"
  by (simp add: update_where_def)

lemma update_where_append [simp]:
  "update_where p f (rs @ ts) = update_where p f rs @ update_where p f ts"
  by (simp add: update_where_def)

lemma set_update_where: "x \<in> set (update_where p f rs) \<Longrightarrow> \<exists>r\<in>set rs. x = (if p r then f r else r)"
  by (auto simp: update_where_def)

lemma map_update_where: "(\<And>r. p r \<Longrightarrow> g (f r) = g r) \<Longrightarrow> map g (update_where p f rs) = map g rs"
  by (auto simp: update_where_def)

lemma returning_Nil_iff: "returning p f rs = [] \<longleftrightarrow> (\<forall>r\<in>set rs. \<not> p r)"
  by (simp add: returning_def filter_empty_conv)

lemma filter_update_where: "(\<And>r. p r \<Longrightarrow> p (f r)) \<Longrightarrow> filter p (update_where p f rs) = returning p f rs"
  by (induction rs) (auto simp: returning_def)

lemma find_None_filter: "List.find p xs = None \<longleftrightarrow> filter p xs = []"
  by (induction xs) auto

lemma find_filter: "List.find p xs = (case filter p xs of [] \<Rightarrow> None | x # _ \<Rightarrow> Some x)"
  by (induction xs) auto

lemma find_Some_mem: "List.find p xs = Some x \<Longrightarrow> x \<in> set xs \<and> p x"
  by (induction xs) (auto split: if_splits)

lemma sum_list_update_where_other:
  "(\<And>r. p r \<Longrightarrow> g (f r) = g r) \<Longrightarrow> sum_list (map g (update_where p f rs)) = sum_list (map g rs)"
  by (simp add: map_update_where)

lemmas run_Prelude [run] =
  bindE_def seqE_def tryCatch_def tryFinally_def returning_def Let_def

end
