(* ===== verification/Errors.thy ===== *)
theory Errors
  imports Prelude
begin

section \<open>Thrown values and the central error handler\<close>

text \<open>
  \<open>exn\<close> is everything the service throws: an \<open>AppError\<close> (\<open>src/lib/error/AppError.ts\<close>: message,
  HTTP status, operational flag), the body parser's \<open>SyntaxError\<close>, and any other \<open>Error\<close> with its
  message (a failing driver, a \<open>TypeError\<close>). The constants are the module-level errors of the
  \<open>errors.ts\<close> files. \<open>errorHandler\<close> is the express error handler: the status and the message that
  reach the client. Logging and stack traces are not modelled, and the \<open>cause\<close> chained to an error
  is never read by the code, so it is left out.
\<close>

datatype exn =
    AppError string int bool   \<comment> \<open>message, statusCode, isOperational\<close>
  | BodyParserError string     \<comment> \<open>SyntaxError of type entity.parse.failed\<close>
  | JsError string             \<comment> \<open>any other Error, with its message\<close>

definition appError :: "string \<Rightarrow> int \<Rightarrow> exn" where
  "appError msg code = AppError msg code True"

text \<open>\<open>(err as Error).message\<close>\<close>

fun exn_message :: "exn \<Rightarrow> string" where
  "exn_message (AppError m _ _) = m"
| "exn_message (BodyParserError m) = m"
| "exn_message (JsError m) = m"

subsection \<open>app/order/errors.ts\<close>

definition OrderNotFoundError :: exn where
  "OrderNotFoundError = appError ''OrderNotFound'' 404"

definition BranchNotAcceptingOrdersError :: exn where
  "BranchNotAcceptingOrdersError = appError ''BranchNotAcceptingOrders'' 409"

definition CancellationWindowExpiredError :: exn where
  "CancellationWindowExpiredError = appError ''CancellationWindowExpired'' 409"

definition ReasonRequiredError :: exn where
  "ReasonRequiredError = appError ''Reason required for this transition'' 400"

definition OnlinePaymentNotAvailableError :: exn where
  "OnlinePaymentNotAvailableError = appError ''OnlinePaymentNotAvailableInRegion'' 409"

definition InvalidBackfillYearError :: exn where
  "InvalidBackfillYearError =
     appError ''InvalidBackfillYear: year query param must be a whole number, e.g. ?year=2025'' 400"

definition invalidStatusTransitionError :: "string \<Rightarrow> string \<Rightarrow> exn" where
  "invalidStatusTransitionError frm target =
     appError (''InvalidStatusTransition: '' @ frm @ '' -> '' @ target) 409"

subsection \<open>app/agent/errors.ts\<close>

definition OfflineWhilePickedForbidden :: exn where
  "OfflineWhilePickedForbidden = appError ''OfflineWhilePickedForbidden'' 409"

definition OfferNotFoundOrExpiredError :: exn where
  "OfferNotFoundOrExpiredError = appError ''OfferNotFoundOrExpired'' 404"

definition NotInCandidateListError :: exn where
  "NotInCandidateListError = appError ''NotInCandidateList'' 403"

definition OrderAlreadyClaimedError :: exn where
  "OrderAlreadyClaimedError = appError ''OrderAlreadyClaimed'' 409"

definition OrderNotInReadyStateError :: exn where
  "OrderNotInReadyStateError = appError ''OrderNotInReadyState'' 409"

definition NotYourTaskError :: exn where
  "NotYourTaskError = appError ''NotYourTask'' 403"

definition OrderNotInAssignedStateError :: exn where
  "OrderNotInAssignedStateError = appError ''OrderNotInAssignedState'' 409"

definition InvalidAgentTransitionError :: exn where
  "InvalidAgentTransitionError = appError ''InvalidAgentTransition'' 400"

subsection \<open>app/payment/errors.ts and app/finance/errors.ts\<close>

definition PaymentProviderUnavailableError :: exn where
  "PaymentProviderUnavailableError = appError ''Payment provider unavailable'' 503"

definition PaymentNotFoundError :: exn where
  "PaymentNotFoundError = appError ''PaymentNotFound'' 404"

definition InvalidWebhookSignatureError :: exn where
  "InvalidWebhookSignatureError = appError ''InvalidSignature'' 401"

definition MalformedWebhookError :: exn where
  "MalformedWebhookError = appError ''MalformedWebhook'' 400"

definition InsufficientBalanceError :: exn where
  "InsufficientBalanceError = appError ''InsufficientBalance'' 409"

definition RestaurantNotFoundError :: exn where
  "RestaurantNotFoundError = appError ''RestaurantNotFound'' 404"

subsection \<open>lib: auth, websocket, sharding, core-client\<close>

definition NotAuthenticated :: exn where
  "NotAuthenticated = appError ''User not authenticated'' 401"

definition UnAuthorisedError :: exn where
  "UnAuthorisedError = appError ''User not authorised'' 403"

definition WsNoTokenError :: exn where
  "WsNoTokenError = appError ''No token provided'' 401"

definition RegionNotResolvedError :: exn where
  "RegionNotResolvedError =
     appError ''Region not resolved. Provide ?region= or X-Region header, or authenticate.'' 400"

text \<open>\<open>${candidate}\<close> prints \<open>undefined\<close> for a missing candidate.\<close>

definition unknownRegionError :: "string option \<Rightarrow> string list \<Rightarrow> exn" where
  "unknownRegionError candidate known =
     appError (''Unknown region: '' @ [CHR 0x22] @
       (case candidate of None \<Rightarrow> ''undefined'' | Some c \<Rightarrow> c) @ [CHR 0x22] @
       ''. Known: '' @ joinWith (CHR '','') known) 400"

definition coreServiceUnavailableError :: exn where
  "coreServiceUnavailableError = AppError ''Core service unavailable'' 503 True"

definition coreUpstreamError :: "int \<Rightarrow> string \<Rightarrow> exn" where
  "coreUpstreamError status body =
     appError (''core-service '' @ string_of_int status @ '': '' @ body) status"

lemmas error_defs = appError_def OrderNotFoundError_def BranchNotAcceptingOrdersError_def
  CancellationWindowExpiredError_def ReasonRequiredError_def OnlinePaymentNotAvailableError_def
  InvalidBackfillYearError_def invalidStatusTransitionError_def OfflineWhilePickedForbidden_def
  OfferNotFoundOrExpiredError_def NotInCandidateListError_def OrderAlreadyClaimedError_def
  OrderNotInReadyStateError_def NotYourTaskError_def OrderNotInAssignedStateError_def
  InvalidAgentTransitionError_def PaymentProviderUnavailableError_def PaymentNotFoundError_def
  InvalidWebhookSignatureError_def MalformedWebhookError_def InsufficientBalanceError_def
  RestaurantNotFoundError_def NotAuthenticated_def UnAuthorisedError_def WsNoTokenError_def
  RegionNotResolvedError_def unknownRegionError_def coreServiceUnavailableError_def
  coreUpstreamError_def

subsection \<open>lib/error/errorHandler.ts\<close>

definition isBodyParserSyntaxError :: "exn \<Rightarrow> bool" where
  "isBodyParserSyntaxError err = (case err of BodyParserError _ \<Rightarrow> True | _ \<Rightarrow> False)"

fun statusCode :: "exn \<Rightarrow> int" where
  "statusCode (AppError _ c _) = c"
| "statusCode _ = 500"

fun isOperational :: "exn \<Rightarrow> bool" where
  "isOperational (AppError _ _ o') = o'"
| "isOperational _ = False"

definition toAppError :: "exn \<Rightarrow> exn" where
  "toAppError err =
     (if isBodyParserSyntaxError err then AppError ''Malformed request body'' 400 True
      else (case err of AppError m c b \<Rightarrow> AppError m c b | _ \<Rightarrow> AppError (exn_message err) 500 False))"

text \<open>The response: status and the string of \<open>{error: ..}\<close>.\<close>

definition errorHandler :: "exn \<Rightarrow> int \<times> string" where
  "errorHandler err =
     (let appErr = toAppError err
      in if isOperational appErr then (statusCode appErr, exn_message appErr)
         else (500, ''Something went wrong''))"

text \<open>An internal error never reaches the client with its message.\<close>

lemma errorHandler_internal: "errorHandler (JsError m) = (500, ''Something went wrong'')"
  by (simp add: errorHandler_def toAppError_def isBodyParserSyntaxError_def)

lemma errorHandler_appError: "errorHandler (appError m c) = (c, m)"
  by (simp add: errorHandler_def toAppError_def isBodyParserSyntaxError_def appError_def)

end
