(* ===== verification/OrderStatus.thy ===== *)
theory OrderStatus
  imports Errors
begin

section \<open>The order status machine\<close>

text \<open>
  \<open>src/app/order/enums.ts\<close> and \<open>src/app/order/service/order-status.service.ts\<close>: the enumerations,
  the transition table and \<open>assertTransition\<close>. The table is the abstract contract of every service
  that writes \<open>orders.status\<close>: \<open>status_step\<close> is its step relation, \<open>status_run\<close> its runs. Later
  theories prove which of their writes are steps of it.
\<close>

datatype order_status =
    PENDING_PAYMENT | PLACED | ACCEPTED | REJECTED | PREPARING
  | READY | ASSIGNED | PICKED | DELIVERED | CANCELLED

fun status_value :: "order_status \<Rightarrow> string" where
  "status_value PENDING_PAYMENT = ''pending_payment''"
| "status_value PLACED = ''placed''"
| "status_value ACCEPTED = ''accepted''"
| "status_value REJECTED = ''rejected''"
| "status_value PREPARING = ''preparing''"
| "status_value READY = ''ready''"
| "status_value ASSIGNED = ''assigned''"
| "status_value PICKED = ''picked''"
| "status_value DELIVERED = ''delivered''"
| "status_value CANCELLED = ''cancelled''"

datatype payment_method = ONLINE | COD

fun payment_method_value :: "payment_method \<Rightarrow> string" where
  "payment_method_value ONLINE = ''online''"
| "payment_method_value COD = ''cod''"

datatype status_actor = CUSTOMER | RESTAURANT_MEMBER | AGENT | SYSTEM | ADMIN

fun status_actor_value :: "status_actor \<Rightarrow> string" where
  "status_actor_value CUSTOMER = ''customer''"
| "status_actor_value RESTAURANT_MEMBER = ''restaurant_member''"
| "status_actor_value AGENT = ''agent''"
| "status_actor_value SYSTEM = ''system''"
| "status_actor_value ADMIN = ''admin''"

text \<open>The timestamp columns a transition can stamp.\<close>

datatype stamp = AcceptedAt | RejectedAt | ReadyAt | AssignedAt | PickedAt | DeliveredAt | CancelledAt

record transition_rule =
  actors :: "status_actor list"
  stamp_col :: "stamp option"
  requiresReason :: bool

definition rule :: "status_actor list \<Rightarrow> stamp option \<Rightarrow> bool \<Rightarrow> transition_rule option" where
  "rule as st rr = Some \<lparr>actors = as, stamp_col = st, requiresReason = rr\<rparr>"

fun TRANSITIONS :: "order_status \<Rightarrow> order_status \<Rightarrow> transition_rule option" where
  "TRANSITIONS PENDING_PAYMENT PLACED = rule [SYSTEM] None False"
| "TRANSITIONS PENDING_PAYMENT CANCELLED = rule [CUSTOMER, SYSTEM] (Some CancelledAt) False"
| "TRANSITIONS PLACED ACCEPTED = rule [RESTAURANT_MEMBER] (Some AcceptedAt) False"
| "TRANSITIONS PLACED REJECTED = rule [RESTAURANT_MEMBER] (Some RejectedAt) True"
| "TRANSITIONS PLACED CANCELLED =
     rule [CUSTOMER, RESTAURANT_MEMBER, SYSTEM, ADMIN] (Some CancelledAt) True"
| "TRANSITIONS ACCEPTED PREPARING = rule [RESTAURANT_MEMBER] None False"
| "TRANSITIONS ACCEPTED CANCELLED = rule [RESTAURANT_MEMBER, ADMIN] (Some CancelledAt) True"
| "TRANSITIONS PREPARING READY = rule [RESTAURANT_MEMBER] (Some ReadyAt) False"
| "TRANSITIONS PREPARING CANCELLED = rule [RESTAURANT_MEMBER, ADMIN] (Some CancelledAt) True"
| "TRANSITIONS READY ASSIGNED = rule [SYSTEM] (Some AssignedAt) False"
| "TRANSITIONS READY CANCELLED = rule [RESTAURANT_MEMBER, ADMIN] (Some CancelledAt) True"
| "TRANSITIONS ASSIGNED PICKED = rule [AGENT] (Some PickedAt) False"
| "TRANSITIONS ASSIGNED CANCELLED = rule [ADMIN] (Some CancelledAt) True"
| "TRANSITIONS PICKED DELIVERED = rule [AGENT] (Some DeliveredAt) False"
| "TRANSITIONS _ _ = None"

definition CUSTOMER_CANCEL_WINDOW_MS :: int where
  "CUSTOMER_CANCEL_WINDOW_MS = 60 * 1000"

text \<open>
  \<open>String.prototype.trim\<close>: the white space code units below 256 (tab to carriage return, space,
  no-break space).
\<close>

definition is_space :: "char \<Rightarrow> bool" where
  "is_space c = (let k = of_char c :: nat in (9 \<le> k \<and> k \<le> 13) \<or> k = 32 \<or> k = 160)"

definition trim :: "string \<Rightarrow> string" where
  "trim s = rev (dropWhile is_space (rev (dropWhile is_space s)))"

text \<open>\<open>!reason || reason.trim().length === 0\<close>\<close>

definition blank :: "string option \<Rightarrow> bool" where
  "blank r = (case r of None \<Rightarrow> True | Some s \<Rightarrow> s = [] \<or> length (trim s) = 0)"

record transition_ctx =
  ctx_actor :: status_actor
  ctx_reason :: "string option"
  ctx_placedAt :: "int option"
  ctx_acceptedAt :: "int option"

definition assertTransition ::
  "int \<Rightarrow> order_status \<Rightarrow> order_status \<Rightarrow> transition_ctx \<Rightarrow> exn + stamp option" where
  "assertTransition now frm target ctx =
     (case TRANSITIONS frm target of
        None \<Rightarrow> Inl (invalidStatusTransitionError (status_value frm) (status_value target))
      | Some allowed \<Rightarrow>
          if ctx_actor ctx \<notin> set (actors allowed)
          then Inl (invalidStatusTransitionError (status_value frm) (status_value target))
          else if requiresReason allowed \<and> blank (ctx_reason ctx) then Inl ReasonRequiredError
          else if ctx_actor ctx = CUSTOMER \<and> target = CANCELLED \<and> frm = PLACED \<and>
             (ctx_acceptedAt ctx \<noteq> None \<or>
              (case ctx_placedAt ctx of None \<Rightarrow> False
               | Some p \<Rightarrow> now - p > CUSTOMER_CANCEL_WINDOW_MS))
          then Inl CancellationWindowExpiredError
          else Inr (stamp_col allowed))"

subsection \<open>The table as a step relation\<close>

inductive status_step :: "order_status \<Rightarrow> status_actor \<Rightarrow> order_status \<Rightarrow> bool" where
  status_stepI: "TRANSITIONS f t = Some r \<Longrightarrow> a \<in> set (actors r) \<Longrightarrow> status_step f a t"

inductive_simps status_step_iff: "status_step f a t"

text \<open>A run: the list of statuses an order goes through, each by some actor's step.\<close>

inductive status_run :: "order_status \<Rightarrow> order_status list \<Rightarrow> order_status \<Rightarrow> bool" where
  run_nil: "status_run f [] f"
| run_step: "status_step f a g \<Longrightarrow> status_run g ts t \<Longrightarrow> status_run f (g # ts) t"

inductive_cases status_run_NilE [elim!]: "status_run f [] t"
inductive_cases status_run_ConsE [elim!]: "status_run f (g # ts) t"

text \<open>\<open>frm\<close> is a status whose table row is empty.\<close>

definition terminal :: "order_status \<Rightarrow> bool" where
  "terminal s \<longleftrightarrow> s \<in> {REJECTED, DELIVERED, CANCELLED}"

text \<open>The position in the life cycle; a linear order on statuses in which every step goes up.\<close>

fun status_rank :: "order_status \<Rightarrow> nat" where
  "status_rank PENDING_PAYMENT = 0"
| "status_rank PLACED = 1"
| "status_rank ACCEPTED = 2"
| "status_rank PREPARING = 3"
| "status_rank READY = 4"
| "status_rank ASSIGNED = 5"
| "status_rank PICKED = 6"
| "status_rank DELIVERED = 7"
| "status_rank REJECTED = 8"
| "status_rank CANCELLED = 9"

lemma status_rank_inj: "status_rank s = status_rank t \<Longrightarrow> s = t"
  by (cases s; cases t) simp_all

instantiation order_status :: linorder
begin

definition less_eq_order_status :: "order_status \<Rightarrow> order_status \<Rightarrow> bool" where
  "less_eq_order_status s t \<longleftrightarrow> status_rank s \<le> status_rank t"

definition less_order_status :: "order_status \<Rightarrow> order_status \<Rightarrow> bool" where
  "less_order_status s t \<longleftrightarrow> status_rank s < status_rank t"

instance
  by standard (auto simp: less_eq_order_status_def less_order_status_def dest: status_rank_inj)

end

lemma TRANSITIONS_less: "TRANSITIONS f t = Some r \<Longrightarrow> f < t"
  by (cases f; cases t) (auto simp: less_order_status_def)

lemma status_step_less: "status_step f a t \<Longrightarrow> f < t"
  by (auto simp: status_step_iff dest: TRANSITIONS_less)

lemma TRANSITIONS_terminal: "terminal f \<Longrightarrow> TRANSITIONS f t = None"
  by (cases f; cases t) (auto simp: terminal_def)

lemma status_run_rank: "status_run f ts t \<Longrightarrow> status_rank f + length ts \<le> status_rank t"
proof (induction rule: status_run.induct)
  case (run_nil f)
  show ?case by simp
next
  case (run_step f a g ts t)
  from status_step_less [OF run_step.hyps(1)] have "status_rank f < status_rank g"
    by (simp add: less_order_status_def)
  with run_step.IH show ?case by simp
qed

lemma status_run_append: "status_run f ts t \<Longrightarrow> status_run t us u \<Longrightarrow> status_run f (ts @ us) u"
  by (induction rule: status_run.induct) (auto intro: status_run.intros)

text \<open>What \<open>assertTransition\<close> accepts.\<close>

lemma assertTransition_Inr_iff:
  "assertTransition now f t ctx = Inr st \<longleftrightarrow>
     (\<exists>r. TRANSITIONS f t = Some r \<and> ctx_actor ctx \<in> set (actors r) \<and> st = stamp_col r \<and>
        (requiresReason r \<longrightarrow> \<not> blank (ctx_reason ctx)) \<and>
        (ctx_actor ctx = CUSTOMER \<and> t = CANCELLED \<and> f = PLACED \<longrightarrow>
           ctx_acceptedAt ctx = None \<and>
           (\<forall>p. ctx_placedAt ctx = Some p \<longrightarrow> now - p \<le> CUSTOMER_CANCEL_WINDOW_MS)))"
  by (auto simp: assertTransition_def split: option.splits if_splits)

lemma assertTransition_step: "assertTransition now f t ctx = Inr st \<Longrightarrow> status_step f (ctx_actor ctx) t"
  by (auto simp: assertTransition_Inr_iff intro: status_step.intros)

text \<open>Every refusal is one of three client errors; nothing else is thrown.\<close>

lemma assertTransition_Inl:
  "assertTransition now f t ctx = Inl e \<Longrightarrow>
     e \<in> {invalidStatusTransitionError (status_value f) (status_value t), ReasonRequiredError,
           CancellationWindowExpiredError}"
  by (auto simp: assertTransition_def split: option.splits if_splits)

lemmas run_OrderStatus [run] =
  assertTransition_def rule_def blank_def trim_def is_space_def CUSTOMER_CANCEL_WINDOW_MS_def

end
