(* ===== verification/Util.thy ===== *)
theory Util
  imports Complex_Main Errors
begin

section \<open>pkg/utils: money, time, retry\<close>

text \<open>
  Money is an integer number of minor units. JavaScript numbers that hold ids, money and counts are
  modelled as \<open>int\<close> (they stay far below \<open>2^53\<close>, where double arithmetic on integers is exact);
  the only fractional values, major units, are rationals. Instants (\<open>Date\<close>) are milliseconds since
  the epoch.
\<close>

subsection \<open>money.ts\<close>

text \<open>\<open>Math.round\<close> rounds half up.\<close>

definition math_round :: "rat \<Rightarrow> int" where
  "math_round x = \<lfloor>x + 1 / 2\<rfloor>"

definition toMinor :: "rat \<Rightarrow> int" where
  "toMinor majorUnits = math_round (majorUnits * 100)"

definition fromMinor :: "int \<Rightarrow> rat" where
  "fromMinor minor = of_int minor / 100"

fun sum_loop :: "int \<Rightarrow> int list \<Rightarrow> int" where
  "sum_loop acc [] = acc"
| "sum_loop acc (v # vs) = sum_loop (acc + v) vs"

definition sumMinor :: "int list \<Rightarrow> int" where
  "sumMinor values = sum_loop 0 values"

definition multiplyMinor :: "int \<Rightarrow> int \<Rightarrow> int" where
  "multiplyMinor unitPriceMinor quantity = unitPriceMinor * quantity"

lemma sum_loop_eq: "sum_loop a vs = a + sum_list vs"
  by (induction vs arbitrary: a) auto

lemma sumMinor_eq [simp]: "sumMinor vs = sum_list vs"
  by (simp add: sumMinor_def sum_loop_eq)

lemma toMinor_fromMinor: "toMinor (fromMinor n) = n"
proof -
  have "(of_int n / 100 * 100 + 1 / 2 :: rat) = of_int n + 1 / 2" by simp
  then show ?thesis
    unfolding toMinor_def fromMinor_def math_round_def by (simp add: floor_unique)
qed

text \<open>
  \<open>Number.prototype.toFixed(2)\<close>: the integer \<open>n\<close> with \<open>n / 100\<close> closest to the value, the larger one
  on a tie, printed with two decimals; a negative value is printed with a sign.
\<close>

definition two_digits :: "nat \<Rightarrow> string" where
  "two_digits n = [digit_char (n div 10), digit_char (n mod 10)]"

definition toFixed2 :: "rat \<Rightarrow> string" where
  "toFixed2 x =
     (let n = nat (math_round (\<bar>x\<bar> * 100)); s = string_of_nat (n div 100) @ ''.'' @ two_digits (n mod 100)
      in if x < 0 then CHR ''-'' # s else s)"

text \<open>The amount sent to the provider has the exact value of the minor units.\<close>

lemma toFixed2_fromMinor:
  "0 \<le> n \<Longrightarrow> toFixed2 (fromMinor n) = string_of_nat (nat n div 100) @ ''.'' @ two_digits (nat n mod 100)"
proof -
  assume n: "0 \<le> n"
  then have "(0::rat) \<le> fromMinor n" by (simp add: fromMinor_def)
  moreover from this have "math_round (\<bar>fromMinor n\<bar> * 100) = n"
    using toMinor_fromMinor [of n] by (simp add: toMinor_def)
  ultimately show ?thesis by (simp add: toFixed2_def Let_def)
qed

subsection \<open>time.ts\<close>

datatype time_unit = D | H | M | S

fun multipliers :: "time_unit \<Rightarrow> int" where
  "multipliers S = 1000"
| "multipliers M = 60 * 1000"
| "multipliers H = 60 * 60 * 1000"
| "multipliers D = 24 * 60 * 60 * 1000"

definition toMs :: "int \<Rightarrow> time_unit \<Rightarrow> int" where
  "toMs v u = v * multipliers u"

text \<open>The division by 1000 is exact for every unit.\<close>

definition toSeconds :: "int \<Rightarrow> time_unit \<Rightarrow> int" where
  "toSeconds v u = toMs v u div 1000"

lemma toSeconds_exact: "1000 * toSeconds v u = toMs v u"
  by (cases u) (simp_all add: toSeconds_def toMs_def)

text \<open>
  The calendar of ECMAScript: \<open>day_from_year y\<close> is the day number of 1 January of year \<open>y\<close>
  (\<open>DayFromYear\<close>), \<open>Date.UTC(y, 0, 1)\<close> its instant (two-digit years count from 1900), and
  \<open>utcFullYear t\<close> is \<open>getUTCFullYear\<close>: the year whose days contain the instant.
\<close>

definition ms_per_day :: int where
  "ms_per_day = 86400000"

definition day_from_year :: "int \<Rightarrow> int" where
  "day_from_year y =
     365 * (y - 1970) + (y - 1969) div 4 - (y - 1901) div 100 + (y - 1601) div 400"

definition year_start :: "int \<Rightarrow> int" where
  "year_start y = ms_per_day * day_from_year y"

definition startOfUtcYear :: "int \<Rightarrow> int" where
  "startOfUtcYear y = year_start (if 0 \<le> y \<and> y \<le> 99 then 1900 + y else y)"

definition utcFullYear :: "int \<Rightarrow> int" where
  "utcFullYear t =
     (let d = t div ms_per_day; y = 1970 + (400 * d) div 146097
      in if d < day_from_year y then y - 1 else if day_from_year (y + 1) \<le> d then y + 1 else y)"

definition currentUtcYear :: "int \<Rightarrow> int" where
  "currentUtcYear now = utcFullYear now"

lemma div_bounds: "0 < c \<Longrightarrow> (x::int) - (c - 1) \<le> c * (x div c) \<and> c * (x div c) \<le> x"
proof -
  assume c: "0 < c"
  have e: "x = c * (x div c) + x mod c" by simp
  have "0 \<le> x mod c" and "x mod c < c"
    using c by (simp_all add: pos_mod_bound)
  with e show ?thesis by linarith
qed

lemma day_from_year_bounds:
  "146097 * y - 287812090 \<le> 400 * day_from_year y \<and>
   400 * day_from_year y \<le> 146097 * y - 287810190"
proof -
  have a: "(y - 1969) - 3 \<le> 4 * ((y - 1969) div 4)" "4 * ((y - 1969) div 4) \<le> y - 1969"
    using div_bounds [of 4 "y - 1969"] by auto
  have b: "(y - 1901) - 99 \<le> 100 * ((y - 1901) div 100)" "100 * ((y - 1901) div 100) \<le> y - 1901"
    using div_bounds [of 100 "y - 1901"] by auto
  have c: "(y - 1601) - 399 \<le> 400 * ((y - 1601) div 400)" "400 * ((y - 1601) div 400) \<le> y - 1601"
    using div_bounds [of 400 "y - 1601"] by auto
  show ?thesis
    using a b c by (simp add: day_from_year_def algebra_simps)
qed

lemmas day_from_year_lower = day_from_year_bounds [THEN conjunct1]
lemmas day_from_year_upper = day_from_year_bounds [THEN conjunct2]

lemma day_from_year_mono: "x \<le> y \<Longrightarrow> day_from_year x \<le> day_from_year y"
proof -
  assume le: "x \<le> y"
  show ?thesis
  proof (cases "x = y")
    case False
    with le have "x + 1 \<le> y" by simp
    with day_from_year_upper [of x] day_from_year_lower [of y] show ?thesis by linarith
  qed simp
qed

lemma year_start_mono: "x \<le> y \<Longrightarrow> year_start x \<le> year_start y"
  by (simp add: year_start_def ms_per_day_def day_from_year_mono)

text \<open>\<open>getUTCFullYear\<close> returns the year that contains the instant.\<close>

lemma utcFullYear_contains: "year_start (utcFullYear t) \<le> t \<and> t < year_start (utcFullYear t + 1)"
proof -
  define d where "d = t div ms_per_day"
  define y where "y = 1970 + (400 * d) div 146097"
  have q: "400 * d - 146096 \<le> 146097 * y - 287811090" "146097 * y - 287811090 \<le> 400 * d"
    using div_bounds [of 146097 "400 * d"] by (auto simp: y_def)
  have lo: "day_from_year (y - 1) \<le> d"
    using q day_from_year_upper [of "y - 1"] by (simp add: algebra_simps)
  have hi: "d < day_from_year (y + 2)"
    using q day_from_year_lower [of "y + 2"] by (simp add: algebra_simps)
  have Y: "utcFullYear t =
      (if d < day_from_year y then y - 1 else if day_from_year (y + 1) \<le> d then y + 1 else y)"
    by (simp add: utcFullYear_def Let_def d_def y_def)
  have in_year: "day_from_year (utcFullYear t) \<le> d \<and> d < day_from_year (utcFullYear t + 1)"
    using lo hi by (auto simp: Y add.assoc)
  have t: "ms_per_day * d \<le> t" "t < ms_per_day * (d + 1)"
    using div_bounds [of ms_per_day t] by (auto simp: d_def ms_per_day_def)
  have "ms_per_day * day_from_year (utcFullYear t) \<le> ms_per_day * d"
    using in_year by (simp add: ms_per_day_def)
  moreover have "ms_per_day * (d + 1) \<le> ms_per_day * day_from_year (utcFullYear t + 1)"
    using in_year by (simp add: ms_per_day_def)
  ultimately show ?thesis
    using t unfolding year_start_def by linarith
qed

lemma utcFullYear_less_iff: "utcFullYear t < y \<longleftrightarrow> t < year_start y"
proof
  assume "utcFullYear t < y"
  then have "year_start (utcFullYear t + 1) \<le> year_start y" by (intro year_start_mono) simp
  with utcFullYear_contains [of t] show "t < year_start y" by linarith
next
  assume t: "t < year_start y"
  show "utcFullYear t < y"
  proof (rule ccontr)
    assume "\<not> utcFullYear t < y"
    then have "year_start y \<le> year_start (utcFullYear t)" by (intro year_start_mono) simp
    with utcFullYear_contains [of t] t show False by linarith
  qed
qed

text \<open>
  \<open>Date.prototype.toISOString\<close> for the years 0 to 9999: the date from the day of the year, the time
  from the milliseconds of the day.
\<close>

definition leap_year :: "int \<Rightarrow> bool" where
  "leap_year y \<longleftrightarrow> (y mod 4 = 0 \<and> y mod 100 \<noteq> 0) \<or> y mod 400 = 0"

definition month_lengths :: "int \<Rightarrow> int list" where
  "month_lengths y = [31, if leap_year y then 29 else 28, 31, 30, 31, 30, 31, 31, 30, 31, 30, 31]"

fun month_day :: "int list \<Rightarrow> int \<Rightarrow> int \<Rightarrow> int \<times> int" where
  "month_day [] m d = (m, d + 1)"
| "month_day (l # ls) m d = (if d < l then (m, d + 1) else month_day ls (m + 1) (d - l))"

definition padStart :: "nat \<Rightarrow> string \<Rightarrow> string" where
  "padStart len s = replicate (len - length s) CHR ''0'' @ s"

definition pad :: "nat \<Rightarrow> int \<Rightarrow> string" where
  "pad len n = padStart len (string_of_int n)"

definition toISOString :: "int \<Rightarrow> string" where
  "toISOString t =
     (let y = utcFullYear t; d = t div ms_per_day - day_from_year y;
          md = month_day (month_lengths y) 1 d; ms = t mod ms_per_day
      in pad 4 y @ ''-'' @ pad 2 (fst md) @ ''-'' @ pad 2 (snd md) @ ''T'' @
         pad 2 (ms div 3600000) @ '':'' @ pad 2 (ms div 60000 mod 60) @ '':'' @
         pad 2 (ms div 1000 mod 60) @ ''.'' @ pad 3 (ms mod 1000) @ ''Z'')"

subsection \<open>retry.ts\<close>

text \<open>
  \<open>retry\<close> over any program \<open>fn\<close>; \<open>sleep\<close> is the timer. The loop counts the attempts that remain, so
  \<open>i === attempts - 1\<close> is \<open>k = 0\<close>. With no attempt at all the code throws \<open>undefined\<close>, the value
  \<open>lastErr\<close> starts with.
\<close>

record 'e retry_options =
  attempts :: nat
  initialDelayMs :: int
  maxDelayMs :: int
  isRetryable :: "('e \<Rightarrow> bool) option"

fun retry_loop ::
  "(int \<Rightarrow> ('s, 'e, unit) prog) \<Rightarrow> ('s, 'e, 'a) prog \<Rightarrow> 'e retry_options \<Rightarrow> nat \<Rightarrow> int \<Rightarrow> 'e \<Rightarrow>
   ('s, 'e, 'a) prog" where
  "retry_loop sleep fn opts 0 delay lastErr = throwE lastErr"
| "retry_loop sleep fn opts (Suc k) delay lastErr =
     tryCatch fn (\<lambda>err.
       if (case isRetryable opts of None \<Rightarrow> False | Some p \<Rightarrow> \<not> p err) then throwE err
       else if k = 0 then throwE err
       else seqE (sleep delay)
              (retry_loop sleep fn opts k (min (delay * 2) (maxDelayMs opts)) err))"

definition retry ::
  "(int \<Rightarrow> ('s, 'e, unit) prog) \<Rightarrow> 'e \<Rightarrow> ('s, 'e, 'a) prog \<Rightarrow> 'e retry_options \<Rightarrow> ('s, 'e, 'a) prog" where
  "retry sleep undef fn opts = retry_loop sleep fn opts (attempts opts) (initialDelayMs opts) undef"

context step_relation begin

lemma moves_retry_loop:
  "moves R fn \<Longrightarrow> (\<And>d. moves R (sleep d)) \<Longrightarrow> moves R (retry_loop sleep fn opts k delay e)"
  by (induction k arbitrary: delay e) (auto intro!: moves_tryCatch moves_seqE)

lemma moves_retry [moves_intro]:
  "moves R fn \<Longrightarrow> (\<And>d. moves R (sleep d)) \<Longrightarrow> moves R (retry sleep undef fn opts)"
  unfolding retry_def by (rule moves_retry_loop)

end

lemmas run_Util [run] =
  retry_def toSeconds_def toMs_def multiplyMinor_def

end
