(* ===== verification/Schema.thy ===== *)
theory Schema
  imports OrderStatus Util
begin

section \<open>Entities, tables and shards\<close>

text \<open>
  The rows of the tables of one shard (\<open>src/migrations\<close>) and the entity classes the repositories
  read them into (\<open>entity/*.entity.ts\<close>). One record serves for both; \<open>Rows\<close> shows
  that \<open>toEntity\<close> of each repository reads back what was stored, from the columns the migrations create. A table is the list of its rows in
  insertion order; \<open>seqs\<close> holds the sequences behind the \<open>BIGSERIAL\<close> columns, which a rollback does
  not take back. Latitudes and longitudes are fixed-point numbers (\<open>DECIMAL(10,7)\<close>). A public id is
  compared as text: every id is written by \<open>randomUUID\<close> in its canonical form.
\<close>

subsection \<open>JSON documents\<close>

text \<open>
  Payloads of events, WebSocket messages and responses. A number is given by the text \<open>String(n)\<close>
  prints for it.
\<close>

datatype json =
    JNull
  | JBool bool
  | JNum string
  | JStr string
  | JArr "json list"
  | JObj "(string \<times> json) list"

definition jint :: "int \<Rightarrow> json" where
  "jint n = JNum (string_of_int n)"

definition jopt :: "('a \<Rightarrow> json) \<Rightarrow> 'a option \<Rightarrow> json" where
  "jopt f v = (case v of None \<Rightarrow> JNull | Some x \<Rightarrow> f x)"

definition jdate :: "int \<Rightarrow> json" where
  "jdate t = JStr (toISOString t)"

text \<open>
  A coordinate is stored with seven decimals (\<open>DECIMAL(10,7)\<close>); \<open>String\<close> of the number drops trailing
  zeros and prints values below \<open>1e-6\<close> with an exponent.
\<close>

definition coordinate_text :: "int \<Rightarrow> string" where
  "coordinate_text n =
     (let m = nat \<bar>n\<bar>;
          frac = rev (dropWhile (\<lambda>c. c = CHR ''0'') (rev (padStart 7 (string_of_nat (m mod 10000000)))))
      in (if n < 0 then ''-'' else []) @
         (if 0 < m \<and> m < 10 then string_of_nat m @ ''e-7''
          else string_of_nat (m div 10000000) @ (if frac = [] then [] else CHR ''.'' # frac)))"

definition jcoord :: "int \<Rightarrow> json" where
  "jcoord n = JNum (coordinate_text n)"

text \<open>Property access \<open>v?.k\<close>: \<open>None\<close> is \<open>undefined\<close>. A later duplicate key wins, as in \<open>JSON.parse\<close>.\<close>

definition jget :: "string \<Rightarrow> json \<Rightarrow> json option" where
  "jget k v = (case v of JObj kvs \<Rightarrow> map_of (rev kvs) k | _ \<Rightarrow> None)"

text \<open>Truthiness of \<open>v?.k\<close>.\<close>

definition truthy :: "json option \<Rightarrow> bool" where
  "truthy v =
     (case v of
        None \<Rightarrow> False
      | Some JNull \<Rightarrow> False
      | Some (JBool b) \<Rightarrow> b
      | Some (JNum n) \<Rightarrow> n \<noteq> ''0'' \<and> n \<noteq> ''NaN''
      | Some (JStr s) \<Rightarrow> s \<noteq> []
      | Some _ \<Rightarrow> True)"

subsection \<open>app/order\<close>

record order_entity =
  o_id :: int
  o_region :: string
  o_publicId :: string
  o_countryCode :: string
  o_restaurantId :: int
  o_restaurantOwnerId :: int
  o_branchId :: int
  o_customerId :: int
  o_customerAddressId :: int
  o_deliveryLat :: int
  o_deliveryLng :: int
  o_deliveryAddressTextSnapshot :: string
  o_branchLat :: int
  o_branchLng :: int
  o_status :: order_status
  o_subtotal :: int
  o_deliveryFee :: int
  o_serviceFee :: int
  o_total :: int
  o_commission :: int
  o_currency :: string
  o_paymentMethod :: payment_method
  o_deliveryAgentId :: "int option"
  o_createdAt :: int
  o_updatedAt :: int
  o_acceptedAt :: "int option"
  o_rejectedAt :: "int option"
  o_readyAt :: "int option"
  o_assignedAt :: "int option"
  o_pickedAt :: "int option"
  o_deliveredAt :: "int option"
  o_cancelledAt :: "int option"

record order_item_entity =
  i_id :: int
  i_region :: string
  i_orderId :: int
  i_productId :: int
  i_quantity :: int
  i_unitPriceSnapshot :: int
  i_nameSnapshot :: string
  i_imageUrlSnapshot :: "string option"
  i_lineTotal :: int
  i_createdAt :: int

subsection \<open>app/payment\<close>

datatype payment_session_status =
  INITIALIZED | PENDING | AUTHORIZED | CAPTURED | FAILED | EXPIRED | SESSION_CANCELLED

datatype transaction_type =
  CHARGE | REFUND | COMMISSION | PAYOUT | COD_COLLECTION | SERVICE_FEE | DELIVERY_FEE | ADJUSTMENT

fun transaction_type_value :: "transaction_type \<Rightarrow> string" where
  "transaction_type_value CHARGE = ''charge''"
| "transaction_type_value REFUND = ''refund''"
| "transaction_type_value COMMISSION = ''commission''"
| "transaction_type_value PAYOUT = ''payout''"
| "transaction_type_value COD_COLLECTION = ''cod_collection''"
| "transaction_type_value SERVICE_FEE = ''service_fee''"
| "transaction_type_value DELIVERY_FEE = ''delivery_fee''"
| "transaction_type_value ADJUSTMENT = ''adjustment''"

datatype transaction_method = TX_ONLINE | TX_COD | BANK_TRANSFER | TX_SYSTEM

fun transaction_method_value :: "transaction_method \<Rightarrow> string" where
  "transaction_method_value TX_ONLINE = ''online''"
| "transaction_method_value TX_COD = ''cod''"
| "transaction_method_value BANK_TRANSFER = ''bank_transfer''"
| "transaction_method_value TX_SYSTEM = ''system''"

datatype transaction_status = TX_PENDING | TX_SUCCEEDED | TX_FAILED | TX_REVERSED

fun transaction_status_value :: "transaction_status \<Rightarrow> string" where
  "transaction_status_value TX_PENDING = ''pending''"
| "transaction_status_value TX_SUCCEEDED = ''succeeded''"
| "transaction_status_value TX_FAILED = ''failed''"
| "transaction_status_value TX_REVERSED = ''reversed''"

definition KASHIER_PROVIDER_ID :: int where
  "KASHIER_PROVIDER_ID = 1"

definition COD_PROVIDER_ID :: int where
  "COD_PROVIDER_ID = 2"

record payment_session_entity =
  s_id :: int
  s_region :: string
  s_orderId :: int
  s_providerId :: int
  s_providerSessionId :: string
  s_redirectUrl :: string
  s_amount :: int
  s_currency :: string
  s_status :: payment_session_status
  s_rawInitPayload :: json
  s_rawLastPayload :: "json option"
  s_createdAt :: int
  s_updatedAt :: int

record transaction_entity =
  t_id :: int
  t_region :: string
  t_orderId :: "int option"
  t_transactionType :: transaction_type
  t_method :: transaction_method
  t_providerId :: "int option"
  t_providerReferenceId :: "string option"
  t_status :: transaction_status
  t_amount :: int
  t_currency :: string
  t_srcAccId :: "int option"
  t_dstAccId :: "int option"
  t_isRefunded :: bool
  t_refundedPaymentId :: "int option"
  t_idempotencyKey :: "string option"
  t_createdAt :: int
  t_updatedAt :: int

record webhook_event_entity =
  w_id :: int
  w_region :: string
  w_providerId :: int
  w_providerEventId :: string
  w_signature :: string
  w_payload :: json
  w_receivedAt :: int
  w_processedAt :: "int option"
  w_processError :: "string option"

subsection \<open>app/finance, app/agent, lib/events\<close>

record restaurant_balance_entity =
  b_restaurantId :: int
  b_region :: string
  b_currency :: string
  b_balance :: int
  b_updatedAt :: int

record agent_earning_entity =
  e_id :: int
  e_region :: string
  e_agentId :: int
  e_orderId :: int
  e_amount :: int
  e_currency :: string
  e_earnedAt :: int

record outbox_row =
  x_id :: int
  x_aggregateType :: string
  x_aggregateId :: string
  x_eventType :: string
  x_eventId :: string
  x_payload :: json
  x_createdAt :: int
  x_dispatchedAt :: "int option"
  x_attempts :: int
  x_lastError :: "string option"

subsection \<open>Shards\<close>

record tables =
  orders :: "order_entity list"
  order_items :: "order_item_entity list"
  payment_sessions :: "payment_session_entity list"
  transactions :: "transaction_entity list"
  webhook_events :: "webhook_event_entity list"
  balances :: "restaurant_balance_entity list"
  earnings :: "agent_earning_entity list"
  outbox :: "outbox_row list"

record seqs =
  q_orders :: int
  q_items :: int
  q_sessions :: int
  q_transactions :: int
  q_webhooks :: int
  q_earnings :: int
  q_outbox :: int

record shard =
  tabs :: tables
  sqs :: seqs

text \<open>
  An \<open>INT\<close> column holds a 32-bit signed integer; Postgres refuses a value outside it. \<open>INT\<close> columns
  of the model: the money columns, \<open>quantity\<close>, \<open>attempts\<close>.
\<close>

definition int4 :: "int \<Rightarrow> bool" where
  "int4 n \<longleftrightarrow> - 2147483648 \<le> n \<and> n \<le> 2147483647"

definition int4_error :: exn where
  "int4_error = JsError ''integer out of range''"

definition unique_error :: exn where
  "unique_error = JsError ''duplicate key value violates unique constraint''"

definition check_error :: exn where
  "check_error = JsError ''new row violates check constraint''"

text \<open>\<open>const [row] = []; toEntity(row)\<close>: reading a column of \<open>undefined\<close>.\<close>

definition undefined_row_error :: exn where
  "undefined_row_error = JsError ''Cannot read properties of undefined''"

end
