(* ===== verification/World.thy ===== *)
theory World
  imports Schema
begin

section \<open>The world a handler runs in\<close>

text \<open>
  The state that the handlers of the API and worker processes share, and the primitive effects.
  \<^item> \<open>outside\<close> holds what is not in the repository: which database, Redis or broker call fails
    (\<open>dbFault\<close>, \<open>redisFault\<close>, \<open>brokerFault\<close>, indexed by the number of the step), what core-service
    and Kashier answer to each attempt, the distances of \<open>GEOSEARCH\<close>, the HMAC, the random UUIDs and
    Postgres's conversion of texts to timestamps.
    No operation writes it, and every theorem is for all of its values unless it says otherwise.
  \<^item> \<open>env\<close> is \<open>src/lib/config/env.ts\<close> after parsing, with the fields the modelled code reads.
  \<^item> \<open>shards\<close> are the hot and archive Postgres clusters of every region, \<open>redis\<close> the one Redis,
    \<open>permCache\<close> the in-process permission map, \<open>trace\<close> the outgoing calls and messages in order.
  A program \<open>'a io\<close> is one request; its steps run without another request in between. Theorems about
  races split a request where the code awaits and interleave the parts explicitly.
\<close>

subsection \<open>core-service and Kashier\<close>

record core_branch =
  cb_id :: int
  cb_restaurantId :: int
  cb_restaurantOwnerId :: int
  cb_restaurantStatus :: string
  cb_region :: string
  cb_isActive :: bool
  cb_acceptOrders :: bool
  cb_deliveryFee :: int
  cb_commissionBps :: int
  cb_currency :: string
  cb_lat :: int
  cb_lng :: int
  cb_name :: string
  cb_addressText :: string

record core_product =
  cp_productId :: int
  cp_name :: string
  cp_imageUrl :: "string option"
  cp_price :: int
  cp_stock :: int
  cp_isAvailable :: bool

text \<open>\<open>Partial<CoreBranchProduct>\<close>: what an event-driven cache entry may hold.\<close>

record product_patch =
  pp_productId :: "int option"
  pp_name :: "string option"
  pp_imageUrl :: "string option option"
  pp_price :: "int option"
  pp_stock :: "int option"
  pp_isAvailable :: "bool option"

record core_address =
  ca_id :: int
  ca_userId :: int
  ca_country :: string
  ca_city :: string
  ca_street :: string
  ca_building :: string
  ca_lat :: int
  ca_lng :: int

type_synonym stock_item = "int \<times> int"   \<comment> \<open>productId, quantity\<close>

text \<open>One HTTP attempt: no answer, or a status with its text and the decoded \<open>data\<close> of the body.\<close>

datatype 'a http = Unreachable | Response int string "'a option"

record core_request =
  rq_method :: string
  rq_path :: string
  rq_items :: "stock_item list"
  rq_idempotencyKey :: "string option"
  rq_correlationId :: "string option"

record kashier_session =
  ks_id :: string
  ks_sessionUrl :: string
  ks_expireAt :: "string option"
  ks_raw :: json

subsection \<open>Redis values\<close>

text \<open>
  A string value is plain text, or a JSON text, which is represented by the value it denotes:
  \<open>JSON.parse\<close> of plain text fails.
\<close>

datatype rtext =
    Text string
  | BranchText core_branch
  | ProductText product_patch
  | BodyText json

datatype rvalue =
    RString rtext
  | RHash "(string \<times> string) list"
  | RSet "string list"
  | RGeo "(string \<times> (int \<times> int)) list"   \<comment> \<open>member, (lng, lat)\<close>

text \<open>An entry is a value and the instant at which it expires.\<close>

type_synonym redis = "string \<Rightarrow> (rvalue \<times> int option) option"

subsection \<open>Effects that leave the service\<close>

datatype effect =
    CoreHttp core_request
  | KashierHttp json
  | WsEmit string string json        \<comment> \<open>room, event, payload\<close>
  | Publish string string json       \<comment> \<open>exchange, routing key, envelope\<close>
  | Sleep int

record outside =
  dbFault :: "nat \<Rightarrow> string option"
  redisFault :: "nat \<Rightarrow> string option"
  brokerFault :: "nat \<Rightarrow> string option"
  coreBranch :: "nat \<Rightarrow> core_request \<Rightarrow> core_branch http"
  coreBranches :: "nat \<Rightarrow> core_request \<Rightarrow> core_branch list http"
  coreProducts :: "nat \<Rightarrow> core_request \<Rightarrow> core_product list http"
  coreStock :: "nat \<Rightarrow> core_request \<Rightarrow> unit http"
  coreAddress :: "nat \<Rightarrow> core_request \<Rightarrow> core_address http"
  corePermissions :: "nat \<Rightarrow> core_request \<Rightarrow> string list option http"
  kashierSessions :: "nat \<Rightarrow> json \<Rightarrow> kashier_session http"
  geoDistance :: "int \<times> int \<Rightarrow> int \<times> int \<Rightarrow> int"
  hmacSha256 :: "string \<Rightarrow> string \<Rightarrow> string"
  uuidAt :: "nat \<Rightarrow> string"
  timestampCast :: "string \<Rightarrow> int option"

subsection \<open>lib/config/env.ts\<close>

record env =
  regions :: "string list"
  onlineRegions :: "string list"
  sessionTimeoutMin :: int
  internalApiKey :: string
  kashierApiKey :: string
  kashierMerchantId :: string
  kashierPaymentType :: string
  kashierWebhookUrl :: string
  kashierReturnUrl :: string
  presenceStaleSec :: int
  radiusMeters :: int
  candidates :: nat
  offerTtlSec :: int
  claimTtlSec :: int
  maxAttempts :: int
  batch :: nat
  agentEarningShareBps :: int
  outboundExchange :: string
  outboundBatchSize :: nat
  archivalBatchSize :: nat
  archivalMaxRuntimeMin :: int

datatype cluster = Hot | Archive

type_synonym conn = "cluster \<times> string"

record world =
  clock :: int
  env :: env
  ext :: outside
  steps :: nat
  shards :: "conn \<Rightarrow> shard"
  redis :: redis
  permCache :: "string \<Rightarrow> (string list \<times> int) option"
  trace :: "effect list"

type_synonym 'a io = "(world, exn, 'a) prog"

subsection \<open>Primitive effects\<close>

definition now :: "int io" where
  "now = getE clock"

definition emit :: "effect \<Rightarrow> unit io" where
  "emit e = modifyE (\<lambda>w. w\<lparr>trace := trace w @ [e]\<rparr>)"

text \<open>\<open>io.to(room).emit(event, payload)\<close>\<close>

definition wsEmit :: "string \<Rightarrow> string \<Rightarrow> json \<Rightarrow> unit io" where
  "wsEmit room event payload = emit (WsEmit room event payload)"

definition randomUUID :: "string io" where
  "randomUUID w = (Inr (uuidAt (ext w) (steps w)), w\<lparr>steps := Suc (steps w)\<rparr>)"

definition tick :: "world \<Rightarrow> world" where
  "tick w = w\<lparr>steps := Suc (steps w)\<rparr>"

lemma tick_simps [simp]:
  "clock (tick w) = clock w" "env (tick w) = env w" "ext (tick w) = ext w"
  "shards (tick w) = shards w" "redis (tick w) = redis w" "permCache (tick w) = permCache w"
  "trace (tick w) = trace w" "steps (tick w) = Suc (steps w)"
  by (simp_all add: tick_def)

lemma tick_shards [simp]: "(tick w)\<lparr>shards := shards w\<rparr> = tick w"
  by (cases w) (simp add: tick_def)

text \<open>
  One SQL statement on a connection: it may fail before it has any effect; otherwise \<open>f\<close> computes, from
  \<open>NOW()\<close> and the shard, an error or a result and the new shard.
\<close>

definition stmt :: "conn \<Rightarrow> (int \<Rightarrow> shard \<Rightarrow> exn + ('a \<times> shard)) \<Rightarrow> 'a io" where
  "stmt c f w =
     (case dbFault (ext w) (steps w) of
        Some msg \<Rightarrow> (Inl (JsError msg), tick w)
      | None \<Rightarrow>
          (case f (clock w) (shards w c) of
             Inl e \<Rightarrow> (Inl e, tick w)
           | Inr (x, sh) \<Rightarrow> (Inr x, (tick w)\<lparr>shards := (shards w)(c := sh)\<rparr>)))"

text \<open>A query: a statement that reads.\<close>

definition query :: "conn \<Rightarrow> (tables \<Rightarrow> 'a) \<Rightarrow> 'a io" where
  "query c f = stmt c (\<lambda>_ sh. Inr (f (tabs sh), sh))"

lemma stmt_InrE [inv_elim, elim!]:
  assumes "stmt c f w = (Inr x, w')"
  obtains sh where "f (clock w) (shards w c) = Inr (x, sh)" and "w' = (tick w)\<lparr>shards := (shards w)(c := sh)\<rparr>"
  using assms by (auto simp: stmt_def split: option.splits sum.splits prod.splits)

lemma stmt_Inl: "stmt c f w = (Inl e, w') \<Longrightarrow> w' = tick w"
  by (auto simp: stmt_def split: option.splits sum.splits)

text \<open>A query changes nothing but the number of steps.\<close>

lemma query_InrE [inv_elim, elim!]:
  assumes "query c f w = (Inr x, w')"
  obtains "x = f (tabs (shards w c))" and "w' = tick w"
  using assms unfolding query_def by (cases w) (auto simp: tick_def)

lemma stmt_ok: "dbFault (ext w) (steps w) = None \<Longrightarrow> f (clock w) (shards w c) = Inr (x, sh) \<Longrightarrow>
    stmt c f w = (Inr x, (tick w)\<lparr>shards := (shards w)(c := sh)\<rparr>)"
  by (simp add: stmt_def)

lemma query_ok: "dbFault (ext w) (steps w) = None \<Longrightarrow> query c f w = (Inr (f (tabs (shards w c))), tick w)"
  by (cases w) (simp add: query_def stmt_def tick_def)

text \<open>\<open>BEGIN\<close>, \<open>COMMIT\<close>, \<open>ROLLBACK\<close>: round trips that can fail.\<close>

definition roundtrip :: "conn \<Rightarrow> unit io" where
  "roundtrip c = stmt c (\<lambda>_ sh. Inr ((), sh))"

lemma roundtrip_ok: "dbFault (ext w) (steps w) = None \<Longrightarrow> roundtrip c w = (Inr (), tick w)"
  by (cases w) (simp add: roundtrip_def stmt_def tick_def)

text \<open>The tables go back to their state before the transaction, the sequences do not.\<close>

definition restore :: "conn \<Rightarrow> world \<Rightarrow> world \<Rightarrow> world" where
  "restore c before after =
     after\<lparr>shards := (shards after)(c := (shards after c)\<lparr>tabs := tabs (shards before c)\<rparr>)\<rparr>"

text \<open>
  The pattern every service uses:
  \<^verbatim>\<open>
  const trx = await conn.transaction();
  try { .. body .. ; await trx.commit(); }
  catch (err) { await trx.rollback(); .. handler .. }
  \<close>
  A failing \<open>COMMIT\<close> has not committed. When \<open>ROLLBACK\<close> itself fails the server drops the
  transaction all the same, but the rest of the \<open>catch\<close> block does not run.
\<close>

definition transaction :: "conn \<Rightarrow> 'a io \<Rightarrow> (exn \<Rightarrow> 'a io) \<Rightarrow> 'a io" where
  "transaction c body handler w0 =
     (case roundtrip c w0 of
        (Inl e, w1) \<Rightarrow> (Inl e, w1)
      | (Inr _, w1) \<Rightarrow>
          (case bindE body (\<lambda>x. seqE (roundtrip c) (returnE x)) w1 of
             (Inr x, w2) \<Rightarrow> (Inr x, w2)
           | (Inl e, w2) \<Rightarrow> seqE (roundtrip c) (handler e) (restore c w1 w2)))"

subsection \<open>Regions and connections: lib/sharding/regions.ts, lib/knex\<close>

definition lower_char :: "char \<Rightarrow> char" where
  "lower_char c =
     (let k = of_char c :: nat in if 65 \<le> k \<and> k \<le> 90 then char_of (k + 32) else c)"

definition toLowerCase :: "string \<Rightarrow> string" where
  "toLowerCase s = map lower_char s"

definition normalizeRegion :: "string option \<Rightarrow> string option" where
  "normalizeRegion candidate = map_option toLowerCase candidate"

definition region_set :: "env \<Rightarrow> string list" where
  "region_set e = map toLowerCase (regions e)"

text \<open>\<open>!!norm && set.has(norm)\<close>: the empty string is falsy.\<close>

definition isRegion :: "env \<Rightarrow> string option \<Rightarrow> bool" where
  "isRegion e candidate =
     (case normalizeRegion candidate of None \<Rightarrow> False | Some n \<Rightarrow> n \<noteq> [] \<and> n \<in> set (region_set e))"

definition assertRegion :: "string option \<Rightarrow> string io" where
  "assertRegion candidate =
     bindE (getE env) (\<lambda>e.
     case normalizeRegion candidate of
       None \<Rightarrow> throwE (unknownRegionError candidate (regions e))
     | Some n \<Rightarrow>
         if n = [] \<or> n \<notin> set (region_set e) then throwE (unknownRegionError candidate (regions e))
         else returnE n)"

text \<open>
  \<open>getHotShard\<close> and \<open>getArchiveShard\<close>: the region is checked in its normal form, and the shard
  configuration is then looked up under the name as given (\<open>env.hotShards[region]\<close>), which is
  \<open>undefined\<close> when only the case differs.
\<close>

definition getShard :: "cluster \<Rightarrow> string \<Rightarrow> conn io" where
  "getShard cl region =
     seqE (assertRegion (Some region))
    (bindE (getE env) (\<lambda>e.
     if region \<in> set (regions e) then returnE (cl, region)
     else throwE (JsError ''Cannot read properties of undefined (reading host)'')))"

definition db :: "string \<Rightarrow> conn io" where
  "db region = getShard Hot region"

definition dbArchive :: "string \<Rightarrow> conn io" where
  "dbArchive region = getShard Archive region"

text \<open>A region as the configuration should name it: lower case, not empty, configured.\<close>

definition known_region :: "world \<Rightarrow> string \<Rightarrow> bool" where
  "known_region w r \<longleftrightarrow> r \<in> set (regions (env w)) \<and> toLowerCase r = r \<and> r \<noteq> []"

lemma assertRegion_known: "known_region w r \<Longrightarrow> assertRegion (Some r) w = (Inr r, w)"
  by (force simp: assertRegion_def known_region_def normalizeRegion_def bindE_def region_set_def)

lemma getShard_known: "known_region w r \<Longrightarrow> getShard cl r w = (Inr (cl, r), w)"
  by (simp add: getShard_def seqE_def bindE_def assertRegion_known) (simp add: known_region_def)

lemma db_known [simp]: "known_region w r \<Longrightarrow> db r w = (Inr (Hot, r), w)"
  by (simp add: db_def getShard_known)

lemma dbArchive_known [simp]: "known_region w r \<Longrightarrow> dbArchive r w = (Inr (Archive, r), w)"
  by (simp add: dbArchive_def getShard_known)

lemma assertRegion_pure: "snd (assertRegion r w) = w"
  by (simp add: assertRegion_def bindE_def split: option.splits)

lemma getShard_pure: "snd (getShard cl r w) = w"
proof -
  have "snd (assertRegion (Some r) w) = w" by (rule assertRegion_pure)
  then show ?thesis
    by (cases "assertRegion (Some r) w") (auto simp: getShard_def seqE_def bindE_def split: sum.splits)
qed

lemma getShard_Inr: "getShard cl r w = (Inr c, w') \<Longrightarrow> c = (cl, r) \<and> w' = w"
  using getShard_pure [of cl r w]
  by (auto simp: getShard_def seqE_def bindE_def split: prod.splits sum.splits if_splits)

lemma db_InrE [inv_elim, elim!]:
  assumes "db r w = (Inr c, w')"
  obtains "c = (Hot, r)" and "w' = w"
  using assms getShard_Inr [of Hot r w c w'] by (auto simp: db_def)

lemma db_thrown: "db r w = (Inl e, w') \<Longrightarrow> w' = w"
  using getShard_pure [of Hot r w] by (simp add: db_def)

lemma dbArchive_InrE [inv_elim, elim!]:
  assumes "dbArchive r w = (Inr c, w')"
  obtains "c = (Archive, r)" and "w' = w"
  using assms getShard_Inr [of Archive r w c w'] by (auto simp: dbArchive_def)

subsection \<open>Transactions are atomic\<close>

definition tables_of :: "world \<Rightarrow> conn \<Rightarrow> tables" where
  "tables_of w c = tabs (shards w c)"

text \<open>
  Which effects a program has, whatever the relation. A \<open>quiet_relation\<close> allows everything but a write to a
  database, a \<open>shard_relation\<close> also writes through one connection, a \<open>hot_relation\<close> through the connection
  \<open>db(region)\<close> of one region. The operations of the later theories are shown once, inside these locales,
  to move only within such a relation; the interpretations below turn each of them into a frame rule: which
  shards it leaves alone, and that it never touches configuration, clock and outside.
\<close>

locale quiet_relation = step_relation R for R :: "world \<Rightarrow> world \<Rightarrow> bool" +
  assumes R_steps: "R w (w\<lparr>steps := n\<rparr>)"
    and R_redis: "R w (w\<lparr>redis := rd\<rparr>)"
    and R_trace: "R w (w\<lparr>trace := trace w @ es\<rparr>)"
    and R_permCache: "R w (w\<lparr>permCache := pc\<rparr>)"
begin

lemma R_tick: "R w (tick w)"
  unfolding tick_def by (rule R_steps)

lemma moves_query [moves_intro]: "moves R (query c f)"
  by (rule movesI) (auto simp: query_def stmt_def R_tick split: option.splits)

lemma moves_roundtrip [moves_intro]: "moves R (roundtrip c)"
  by (rule movesI) (auto simp: roundtrip_def stmt_def R_tick split: option.splits)

lemma moves_emit [moves_intro]: "moves R (emit e)"
  unfolding emit_def by (intro moves_modifyE R_trace)

lemma moves_wsEmit [moves_intro]: "moves R (wsEmit r ev p)"
  unfolding wsEmit_def by (rule moves_emit)

lemma moves_randomUUID [moves_intro]: "moves R randomUUID"
  by (rule movesI) (auto simp: randomUUID_def R_steps)

lemma moves_now [moves_intro]: "moves R now"
  unfolding now_def by (rule moves_getE)

lemma moves_assertRegion [moves_intro]: "moves R (assertRegion r)"
  by (simp add: moves_def assertRegion_pure R_refl)

lemma moves_db [moves_intro]: "moves R (db r)" "moves R (dbArchive r)"
  by (simp_all add: moves_def db_def dbArchive_def getShard_pure R_refl)

text \<open>A handler gets its connection from \<open>db(region)\<close>, so only that one matters for the rest.\<close>

lemma moves_bind_db:
  assumes "moves R (f (Hot, g))"
  shows "moves R (bindE (db g) f)"
proof (rule movesI)
  fix w r w'
  assume run: "bindE (db g) f w = (r, w')"
  obtain q v where q: "db g w = (q, v)" by (cases "db g w")
  have v: "v = w" using getShard_pure [of Hot g w] q by (simp add: db_def)
  show "R w w'"
  proof (cases q)
    case (Inl e)
    with q run v show ?thesis by (simp add: bindE_def R_refl)
  next
    case (Inr c)
    with q have "c = (Hot, g)" by auto
    with Inr q run v have "f (Hot, g) w = (r, w')" by (simp add: bindE_def)
    then show ?thesis by (rule movesD [OF assms])
  qed
qed

end

text \<open>
  A transaction on a connection moves within a relation when its body and its handler do and a rollback leads to a
  state the relation allows from the state the transaction started in.
\<close>

locale restoring_relation = quiet_relation R for R :: "world \<Rightarrow> world \<Rightarrow> bool" +
  fixes c :: conn
  assumes R_restore: "R w w' \<Longrightarrow> R w (restore c w w')"
begin

lemma moves_transaction [moves_intro]:
  assumes body: "moves R body" and handler: "\<And>e. moves R (handler e)"
  shows "moves R (transaction c body handler)"
proof (rule movesI)
  fix w r w'
  assume tr: "transaction c body handler w = (r, w')"
  let ?m = "bindE body (\<lambda>x. seqE (roundtrip c) (returnE x))"
  obtain r1 w1 where b: "roundtrip c w = (r1, w1)" by (cases "roundtrip c w")
  obtain r2 w2 where m: "?m w1 = (r2, w2)" by (cases "?m w1")
  have s1: "R w w1" using moves_roundtrip b by (rule movesD)
  have "moves R ?m" using body by (intro moves_intro)
  then have s2: "R w1 w2" using m by (rule movesD)
  have h: "moves R (seqE (roundtrip c) (handler e))" for e using handler by (intro moves_intro)
  have rs: "R w1 (restore c w1 w2)" using s2 by (rule R_restore)
  show "R w w'"
  proof (cases r1)
    case (Inl e)
    with b tr s1 show ?thesis by (simp add: transaction_def)
  next
    case r1: (Inr u)
    show ?thesis
    proof (cases r2)
      case (Inr x)
      with r1 b m tr s1 s2 show ?thesis by (auto simp: transaction_def intro: R_trans)
    next
      case (Inl e2)
      with r1 b m tr have "seqE (roundtrip c) (handler e2) (restore c w1 w2) = (r, w')"
        by (simp add: transaction_def)
      from R_trans [OF s1 R_trans [OF rs movesD [OF h this]]] show ?thesis .
    qed
  qed
qed

end

locale shard_relation = quiet_relation R for R :: "world \<Rightarrow> world \<Rightarrow> bool" +
  fixes c :: conn
  assumes R_shard: "R w (w\<lparr>shards := (shards w)(c := sh)\<rparr>)"
begin

lemma moves_stmt [moves_intro]: "moves R (stmt c f)"
proof (rule movesI)
  fix w r w'
  assume "stmt c f w = (r, w')"
  then show "R w w'"
    using R_trans [OF R_tick R_shard, of w] R_tick [of w]
    by (auto simp: stmt_def split: option.splits sum.splits prod.splits)
qed

end

sublocale shard_relation \<subseteq> restoring_relation R c
  by unfold_locales (use R_trans R_shard in \<open>auto simp: restore_def\<close>)

locale hot_relation = shard_relation R "(Hot, g)" for R :: "world \<Rightarrow> world \<Rightarrow> bool" and g :: string
begin

lemmas moves_bind_hot [moves_intro] = moves_bind_db [where g = g]

end

text \<open>
  Relations on the tables of every connection. A statement moves within one when it does so on the tables it
  gets; a transaction when its body and its handler do, because a rollback puts tables back that the
  relation started from.
\<close>

definition per_table :: "(tables \<Rightarrow> tables \<Rightarrow> bool) \<Rightarrow> world \<Rightarrow> world \<Rightarrow> bool" where
  "per_table Q w w' \<longleftrightarrow> (\<forall>c. Q (tables_of w c) (tables_of w' c))"

locale table_relation =
  fixes Q :: "tables \<Rightarrow> tables \<Rightarrow> bool"
  assumes Q_refl: "Q tb tb"
    and Q_trans: "Q tb tb' \<Longrightarrow> Q tb' tb'' \<Longrightarrow> Q tb tb''"

sublocale table_relation \<subseteq> quiet_relation "per_table Q"
proof
  show "per_table Q s u" if "per_table Q s t" "per_table Q t u" for s t u
    using that Q_trans unfolding per_table_def by blast
qed (simp_all add: per_table_def tables_of_def Q_refl)

context table_relation begin

lemma moves_stmt_Q:
  assumes "\<And>t sh x sh'. f t sh = Inr (x, sh') \<Longrightarrow> Q (tabs sh) (tabs sh')"
  shows "moves (per_table Q) (stmt c f)"
proof (rule movesI)
  fix w r w'
  assume "stmt c f w = (r, w')"
  with assms show "per_table Q w w'"
    by (auto simp: stmt_def per_table_def tables_of_def Q_refl split: option.splits sum.splits prod.splits)
qed

end

sublocale table_relation \<subseteq> restoring_relation "per_table Q" c for c
  by unfold_locales (auto simp: per_table_def restore_def tables_of_def Q_refl)

text \<open>A table, or anything computed from the tables, that a program leaves as it is.\<close>

definition same :: "(tables \<Rightarrow> 'a) \<Rightarrow> tables \<Rightarrow> tables \<Rightarrow> bool" where
  "same f tb tb' \<longleftrightarrow> f tb' = f tb"

interpretation same: table_relation "same f" for f :: "tables \<Rightarrow> 'a"
  by unfold_locales (auto simp: same_def)

lemma sameD: "moves (per_table (same f)) m \<Longrightarrow> m w = (r, w') \<Longrightarrow> f (tables_of w' c) = f (tables_of w c)"
  by (cases c) (drule (1) movesD, simp add: per_table_def same_def)

definition shards_kept :: "world \<Rightarrow> world \<Rightarrow> bool" where
  "shards_kept w w' \<longleftrightarrow> shards w' = shards w"

definition others_kept :: "conn \<Rightarrow> world \<Rightarrow> world \<Rightarrow> bool" where
  "others_kept c w w' \<longleftrightarrow> (\<forall>c'. c' \<noteq> c \<longrightarrow> shards w' c' = shards w c')"

text \<open>Configuration, clock and outside never change.\<close>

definition same_setting :: "world \<Rightarrow> world \<Rightarrow> bool" where
  "same_setting w w' \<longleftrightarrow> env w' = env w \<and> ext w' = ext w \<and> clock w' = clock w"

text \<open>What was sent cannot be taken back.\<close>

definition trace_grows :: "world \<Rightarrow> world \<Rightarrow> bool" where
  "trace_grows w w' \<longleftrightarrow> (\<exists>es. trace w' = trace w @ es)"

interpretation shards_kept: quiet_relation shards_kept
  by unfold_locales (auto simp: shards_kept_def)

interpretation others_kept: shard_relation "others_kept c" c for c
  by unfold_locales (auto simp: others_kept_def)

interpretation others_hot: hot_relation "others_kept (Hot, g)" g for g
  by unfold_locales

interpretation same_setting: shard_relation same_setting c for c
  by unfold_locales (auto simp: same_setting_def)

interpretation trace_grows: shard_relation trace_grows c for c
  by unfold_locales (auto simp: trace_grows_def)

interpretation trace_hot: hot_relation trace_grows g for g
  by unfold_locales

interpretation setting_hot: hot_relation same_setting g for g
  by unfold_locales

lemma shards_keptD: "moves shards_kept m \<Longrightarrow> m w = (r, w') \<Longrightarrow> shards w' = shards w"
  by (drule (1) movesD) (simp add: shards_kept_def)

lemma tables_keptD: "moves shards_kept m \<Longrightarrow> m w = (r, w') \<Longrightarrow> tables_of w' = tables_of w"
  by (drule (1) shards_keptD) (simp add: tables_of_def fun_eq_iff)

lemma others_keptD: "moves (others_kept c) m \<Longrightarrow> m w = (r, w') \<Longrightarrow> c' \<noteq> c \<Longrightarrow> shards w' c' = shards w c'"
  by (cases c') (drule (1) movesD, simp add: others_kept_def)

lemma same_settingD:
  "moves same_setting m \<Longrightarrow> m w = (r, w') \<Longrightarrow> env w' = env w \<and> ext w' = ext w \<and> clock w' = clock w"
  by (drule (1) movesD) (simp add: same_setting_def)

text \<open>
  Atomicity: a transaction whose body writes only its own shard and whose handler writes none leaves
  every table of every shard as it was, unless it commits.
\<close>

lemma transaction_atomic:
  assumes body: "moves (others_kept c) body" and handler: "\<And>e. moves shards_kept (handler e)"
    and tr: "transaction c body handler w = (Inl e, w')"
  shows "tables_of w' = tables_of w"
proof -
  obtain r1 w1 where b: "roundtrip c w = (r1, w1)" by (cases "roundtrip c w")
  have s1: "shards w1 = shards w" using shards_kept.moves_roundtrip b by (rule shards_keptD)
  show ?thesis
  proof (cases r1)
    case (Inl e1)
    with b tr s1 show ?thesis by (simp add: transaction_def tables_of_def fun_eq_iff)
  next
    case (Inr u)
    let ?m = "bindE body (\<lambda>x. seqE (roundtrip c) (returnE x))"
    obtain r2 w2 where m: "?m w1 = (r2, w2)" by (cases "?m w1")
    have "moves (others_kept c) ?m" using body by (intro moves_intro)
    then have s2: "\<And>c'. c' \<noteq> c \<Longrightarrow> shards w2 c' = shards w1 c'" using m by (rule others_keptD)
    from b Inr m tr obtain e2 where r2: "r2 = Inl e2"
      and t: "seqE (roundtrip c) (handler e2) (restore c w1 w2) = (Inl e, w')"
      by (cases r2) (simp_all add: transaction_def)
    have "moves shards_kept (seqE (roundtrip c) (handler e2))" using handler by (intro moves_intro)
    then have "shards w' = shards (restore c w1 w2)" using t by (rule shards_keptD)
    with s1 s2 show ?thesis
      by (auto simp: tables_of_def restore_def fun_eq_iff)
  qed
qed

text \<open>A transaction that returned ran its body from the state before, and committed it.\<close>

lemma roundtrip_Inr: "roundtrip c w = (Inr u, w') \<Longrightarrow> w' = tick w"
  by (cases w) (auto simp: roundtrip_def stmt_def tick_def split: option.splits)

lemma transaction_returned:
  assumes tr: "transaction c body handler w = (Inr x, w')"
    and throws: "\<And>e s y s'. handler e s \<noteq> (Inr y, s')"
  obtains w2 where "body (tick w) = (Inr x, w2)" and "w' = tick w2"
proof -
  let ?m = "bindE body (\<lambda>x. seqE (roundtrip c) (returnE x))"
  obtain r1 w1 where b: "roundtrip c w = (r1, w1)" by (cases "roundtrip c w")
  obtain r2 w2 where m: "?m w1 = (r2, w2)" by (cases "?m w1")
  obtain r3 w3 where c: "roundtrip c (restore c w1 w2) = (r3, w3)" by (cases "roundtrip c (restore c w1 w2)")
  from tr b obtain u where r1: "r1 = Inr u" by (cases r1) (simp_all add: transaction_def)
  with b have w1: "w1 = tick w" by (simp add: roundtrip_Inr)
  have "?m w1 = (Inr x, w')"
    using tr throws b r1 m c by (cases r2; cases r3) (simp_all add: transaction_def seqE_def bindE_def)
  then obtain w4 where body: "body w1 = (Inr x, w4)" and r4: "seqE (roundtrip c) (returnE x) w4 = (Inr x, w')"
    by (cases "body w1"; cases "fst (body w1)") (auto simp: bindE_def seqE_def split: prod.splits sum.splits)
  obtain r5 w5 where c5: "roundtrip c w4 = (r5, w5)" by (cases "roundtrip c w4")
  with r4 have "w' = tick w4" by (cases r5) (simp_all add: seqE_def bindE_def roundtrip_Inr)
  with body w1 show ?thesis using that by blast
qed

lemma transaction_Inr:
  assumes "transaction c body throwE w = (Inr x, w')"
  obtains w2 where "body (tick w) = (Inr x, w2)" and "w' = tick w2"
  using transaction_returned [OF assms] by auto

lemmas run_World [run] =
  stmt_def query_def roundtrip_def restore_def transaction_def tick_def randomUUID_def emit_def
  wsEmit_def now_def db_def dbArchive_def getShard_def assertRegion_def normalizeRegion_def
  region_set_def toLowerCase_def lower_char_def tables_of_def int4_def

end
