(* ===== verification/OutboxRepo.thy ===== *)
theory OutboxRepo
  imports World
begin

section \<open>The transactional outbox table\<close>

text \<open>
  \<open>src/lib/events/outbox.repo.ts\<close>, \<open>event-types.ts\<close>, \<open>types.ts\<close>. \<open>claimBatch\<close> takes the set of row ids that
  other transactions have locked at that moment: \<open>FOR UPDATE SKIP LOCKED\<close> passes over them.
\<close>

definition ORDER_PLACED :: string where "ORDER_PLACED = ''order.placed''"
definition ORDER_ACCEPTED :: string where "ORDER_ACCEPTED = ''order.accepted''"
definition ORDER_REJECTED :: string where "ORDER_REJECTED = ''order.rejected''"
definition ORDER_DELIVERED :: string where "ORDER_DELIVERED = ''order.delivered''"
definition ORDER_CANCELLED :: string where "ORDER_CANCELLED = ''order.cancelled''"
definition PAYMENT_COMPLETED :: string where "PAYMENT_COMPLETED = ''payment.completed''"
definition PAYMENT_FAILED :: string where "PAYMENT_FAILED = ''payment.failed''"

record outbox_input =
  ox_aggregateType :: string
  ox_aggregateId :: string
  ox_eventType :: string
  ox_payload :: json

definition outbox_new_row :: "int \<Rightarrow> int \<Rightarrow> string \<Rightarrow> outbox_input \<Rightarrow> outbox_row" where
  "outbox_new_row newId t eventId n =
     \<lparr>x_id = newId, x_aggregateType = ox_aggregateType n, x_aggregateId = ox_aggregateId n,
      x_eventType = ox_eventType n, x_eventId = eventId, x_payload = ox_payload n, x_createdAt = t,
      x_dispatchedAt = None, x_attempts = 0, x_lastError = None\<rparr>"

definition set_outbox :: "outbox_row list \<Rightarrow> shard \<Rightarrow> shard" where
  "set_outbox rows sh = sh\<lparr>tabs := (tabs sh)\<lparr>outbox := rows\<rparr>\<rparr>"

text \<open>The rows of one \<open>INSERT\<close>, each with the event id drawn for it.\<close>

fun outbox_rows :: "int \<Rightarrow> int \<Rightarrow> (string \<times> outbox_input) list \<Rightarrow> outbox_row list" where
  "outbox_rows q t [] = []"
| "outbox_rows q t ((u, n) # ns) = outbox_new_row (q + 1) t u n # outbox_rows (q + 1) t ns"

definition insert_outbox_rows :: "(string \<times> outbox_input) list \<Rightarrow> conn \<Rightarrow> unit io" where
  "insert_outbox_rows ns c = stmt c (\<lambda>t sh.
     let q = q_outbox (sqs sh); rows = outbox_rows q t ns
     in if \<not> distinct (map x_eventId rows) \<or>
           (\<exists>e\<in>set (map x_eventId rows). e \<in> x_eventId ` set (outbox (tabs sh)))
        then Inl unique_error
        else Inr ((), (set_outbox (outbox (tabs sh) @ rows) sh)\<lparr>sqs := (sqs sh)\<lparr>q_outbox := q + int (length ns)\<rparr>\<rparr>))"

definition insertOutboxEvent :: "conn \<Rightarrow> outbox_input \<Rightarrow> unit io" where
  "insertOutboxEvent c n = bindE randomUUID (\<lambda>u. insert_outbox_rows [(u, n)] c)"

fun withUUIDs :: "'a list \<Rightarrow> (string \<times> 'a) list io" where
  "withUUIDs [] = returnE []"
| "withUUIDs (n # ns) = bindE randomUUID (\<lambda>u. bindE (withUUIDs ns) (\<lambda>rest. returnE ((u, n) # rest)))"

definition insertOutboxEvents :: "conn \<Rightarrow> outbox_input list \<Rightarrow> unit io" where
  "insertOutboxEvents c ns =
     (if ns = [] then returnE () else bindE (withUUIDs ns) (\<lambda>us. insert_outbox_rows us c))"

definition pending_row :: "outbox_row \<Rightarrow> bool" where
  "pending_row x \<longleftrightarrow> x_dispatchedAt x = None"

definition claim_rows :: "int set \<Rightarrow> nat \<Rightarrow> outbox_row list \<Rightarrow> outbox_row list" where
  "claim_rows locked limit rows =
     take limit (sort_key x_id (filter (\<lambda>x. pending_row x \<and> x_id x \<notin> locked) rows))"

definition claimBatch :: "int set \<Rightarrow> conn \<Rightarrow> nat \<Rightarrow> outbox_row list io" where
  "claimBatch locked c limit = query c (\<lambda>tb. claim_rows locked limit (outbox tb))"

definition mark_dispatched :: "int list \<Rightarrow> int \<Rightarrow> outbox_row list \<Rightarrow> outbox_row list" where
  "mark_dispatched ids t rows = update_where (\<lambda>x. x_id x \<in> set ids) (\<lambda>x. x\<lparr>x_dispatchedAt := Some t\<rparr>) rows"

definition markDispatchedBatch :: "conn \<Rightarrow> int list \<Rightarrow> unit io" where
  "markDispatchedBatch c ids =
     (if ids = [] then returnE ()
      else stmt c (\<lambda>t sh. Inr ((), set_outbox (mark_dispatched ids t (outbox (tabs sh))) sh)))"

definition markFailed :: "conn \<Rightarrow> int \<Rightarrow> string \<Rightarrow> unit io" where
  "markFailed c xid err = stmt c (\<lambda>t sh.
     if \<exists>x\<in>set (outbox (tabs sh)). x_id x = xid \<and> \<not> int4 (x_attempts x + 1) then Inl int4_error
     else Inr ((), set_outbox (update_where (\<lambda>x. x_id x = xid)
                     (\<lambda>x. x\<lparr>x_attempts := x_attempts x + 1, x_lastError := Some (take 2000 err)\<rparr>)
                     (outbox (tabs sh))) sh))"

context quiet_relation begin

lemma moves_withUUIDs [moves_intro]: "moves R (withUUIDs ns)"
  by (induction ns) (auto simp only: withUUIDs.simps intro!: moves_intro)

lemma moves_claimBatch [moves_intro]: "moves R (claimBatch l c n)"
  unfolding claimBatch_def by (intro moves_intro)

end

context shard_relation begin

lemma moves_outbox_writes [moves_intro]:
  "moves R (insert_outbox_rows ns c)" "moves R (markDispatchedBatch c ids)" "moves R (markFailed c x e)"
  unfolding insert_outbox_rows_def markDispatchedBatch_def markFailed_def by (intro moves_intro)+

lemma moves_insertOutboxEvent [moves_intro]: "moves R (insertOutboxEvent c n)"
  unfolding insertOutboxEvent_def by (intro moves_intro)

lemma moves_insertOutboxEvents [moves_intro]: "moves R (insertOutboxEvents c ns)"
  unfolding insertOutboxEvents_def by (intro moves_intro)

end

lemma set_outbox_simps [simp]:
  "outbox (tabs (set_outbox xs sh)) = xs" "orders (tabs (set_outbox xs sh)) = orders (tabs sh)"
  "order_items (tabs (set_outbox xs sh)) = order_items (tabs sh)"
  "payment_sessions (tabs (set_outbox xs sh)) = payment_sessions (tabs sh)"
  "transactions (tabs (set_outbox xs sh)) = transactions (tabs sh)"
  "balances (tabs (set_outbox xs sh)) = balances (tabs sh)"
  "earnings (tabs (set_outbox xs sh)) = earnings (tabs sh)" "sqs (set_outbox xs sh) = sqs sh"
  by (simp_all add: set_outbox_def)

lemma same_outbox_writes [moves_intro]:
  fixes f :: "tables \<Rightarrow> 'a"
  assumes "\<And>tb xs. f (tb\<lparr>outbox := xs\<rparr>) = f tb"
  shows "moves (per_table (same f)) (insert_outbox_rows ns c)" "moves (per_table (same f)) (markDispatchedBatch c ids)"
    "moves (per_table (same f)) (markFailed c x e)"
  unfolding insert_outbox_rows_def markDispatchedBatch_def markFailed_def
  by (intro moves_intro same.moves_stmt_Q; auto simp: same_def assms set_outbox_def Let_def split: if_splits)+

lemma same_insertOutboxEvent [moves_intro]:
  fixes f :: "tables \<Rightarrow> 'a"
  assumes "\<And>tb xs. f (tb\<lparr>outbox := xs\<rparr>) = f tb"
  shows "moves (per_table (same f)) (insertOutboxEvent c n)" "moves (per_table (same f)) (insertOutboxEvents c ns)"
  unfolding insertOutboxEvent_def insertOutboxEvents_def by (intro moves_intro assms)+

lemmas run_OutboxRepo [run] =
  outbox_new_row_def set_outbox_def insert_outbox_rows_def insertOutboxEvent_def pending_row_def
  claim_rows_def claimBatch_def mark_dispatched_def markDispatchedBatch_def markFailed_def

lemma insertOutboxEvent_ok:
  assumes "\<forall>k. dbFault (ext w) k = None" and "uuidAt (ext w) (steps w) \<notin> x_eventId ` set (outbox (tables_of w c))"
  shows "insertOutboxEvent c n w =
    (let q = q_outbox (sqs (shards w c)); x = outbox_new_row (q + 1) (clock w) (uuidAt (ext w) (steps w)) n
     in (Inr (), (tick (tick w))\<lparr>shards := (shards w)(c := (set_outbox (outbox (tables_of w c) @ [x]) (shards w c))
          \<lparr>sqs := (sqs (shards w c))\<lparr>q_outbox := q + 1\<rparr>\<rparr>)\<rparr>))"
  using assms
  by (simp add: insertOutboxEvent_def insert_outbox_rows_def randomUUID_def bindE_def stmt_def Let_def tables_of_def
      outbox_new_row_def tick_def)

end
