(* ===== verification/OrderDtos.thy ===== *)
theory OrderDtos
  imports Schema OutboxRepo
begin

section \<open>What leaves the order module: responses and event payloads\<close>

text \<open>
  \<open>src/app/order/dto/order.response.dto.ts\<close> and the payload builders at the end of
  \<open>order.service.ts\<close>, as JSON objects with their fields in the order the code writes them. A field the
  code leaves \<open>undefined\<close> is absent.
\<close>

subsection \<open>Responses\<close>

definition OrderItemResponseDTO :: "order_item_entity \<Rightarrow> json" where
  "OrderItemResponseDTO i =
     JObj [(''productId'', jint (i_productId i)), (''name'', JStr (i_nameSnapshot i)),
           (''imageUrl'', jopt JStr (i_imageUrlSnapshot i)), (''quantity'', jint (i_quantity i)),
           (''unitPrice'', jint (i_unitPriceSnapshot i)), (''lineTotal'', jint (i_lineTotal i))]"

record payment_info =
  pi_sessionId :: string
  pi_providerSessionId :: string
  pi_redirectUrl :: string
  pi_expiresAt :: string

definition payment_info_json :: "payment_info \<Rightarrow> json" where
  "payment_info_json p =
     JObj [(''sessionId'', JStr (pi_sessionId p)), (''providerSessionId'', JStr (pi_providerSessionId p)),
           (''redirectUrl'', JStr (pi_redirectUrl p)), (''expiresAt'', JStr (pi_expiresAt p))]"

definition order_response_fields :: "order_entity \<Rightarrow> order_item_entity list \<Rightarrow> (string \<times> json) list" where
  "order_response_fields o' items =
     [(''publicId'', JStr (o_publicId o')), (''status'', JStr (status_value (o_status o'))),
      (''paymentMethod'', JStr (payment_method_value (o_paymentMethod o'))),
      (''branch'', JObj [(''id'', jint (o_branchId o'))]),
      (''restaurant'', JObj [(''id'', jint (o_restaurantId o'))]),
      (''customerAddress'', JObj [(''lat'', jcoord (o_deliveryLat o')), (''lng'', jcoord (o_deliveryLng o')),
         (''addressText'', JStr (o_deliveryAddressTextSnapshot o'))]),
      (''subtotal'', jint (o_subtotal o')), (''deliveryFee'', jint (o_deliveryFee o')),
      (''serviceFee'', jint (o_serviceFee o')), (''total'', jint (o_total o')),
      (''currency'', JStr (o_currency o')), (''items'', JArr (map OrderItemResponseDTO items)),
      (''createdAt'', jdate (o_createdAt o'))]"

definition OrderResponseDTO :: "order_entity \<Rightarrow> order_item_entity list \<Rightarrow> payment_info option \<Rightarrow> json" where
  "OrderResponseDTO o' items payment =
     JObj (order_response_fields o' items @
           (case payment of None \<Rightarrow> [] | Some p \<Rightarrow> [(''payment'', payment_info_json p)]))"

definition OrderSummaryResponseDTO :: "order_entity \<Rightarrow> nat \<Rightarrow> json" where
  "OrderSummaryResponseDTO o' itemsCount =
     JObj [(''publicId'', JStr (o_publicId o')), (''status'', JStr (status_value (o_status o'))),
           (''total'', jint (o_total o')), (''currency'', JStr (o_currency o')),
           (''itemsCount'', jint (int itemsCount)), (''restaurant'', JObj [(''id'', jint (o_restaurantId o'))]),
           (''branchId'', jint (o_branchId o')), (''createdAt'', jdate (o_createdAt o'))]"

definition OrderStatusResponseDTO :: "order_entity \<Rightarrow> json" where
  "OrderStatusResponseDTO o' =
     JObj [(''publicId'', JStr (o_publicId o')), (''status'', JStr (status_value (o_status o'))),
           (''updatedAt'', jdate (o_updatedAt o'))]"

definition history_entry :: "order_status \<Rightarrow> int option \<Rightarrow> (order_status \<times> int) list" where
  "history_entry s ts = (case ts of None \<Rightarrow> [] | Some t \<Rightarrow> [(s, t)])"

definition buildHistory :: "order_entity \<Rightarrow> (order_status \<times> int) list" where
  "buildHistory o' =
     (if o_paymentMethod o' = ONLINE
      then [(PENDING_PAYMENT, o_createdAt o'), (PLACED, o_createdAt o')]
      else [(PLACED, o_createdAt o')]) @
     history_entry ACCEPTED (o_acceptedAt o') @ history_entry REJECTED (o_rejectedAt o') @
     history_entry READY (o_readyAt o') @ history_entry ASSIGNED (o_assignedAt o') @
     history_entry PICKED (o_pickedAt o') @ history_entry DELIVERED (o_deliveredAt o') @
     history_entry CANCELLED (o_cancelledAt o')"

definition OrderDetailResponseDTO :: "order_entity \<Rightarrow> order_item_entity list \<Rightarrow> json" where
  "OrderDetailResponseDTO o' items =
     JObj (order_response_fields o' items @
           [(''history'', JArr (map (\<lambda>(s, t). JObj [(''status'', JStr (status_value s)), (''ts'', jdate t)])
               (buildHistory o')))])"

definition OrderHistoryItemResponseDTO :: "order_item_entity \<Rightarrow> json" where
  "OrderHistoryItemResponseDTO i =
     JObj [(''productId'', jint (i_productId i)), (''quantity'', jint (i_quantity i)),
           (''unitPrice'', jint (i_unitPriceSnapshot i)), (''lineTotal'', jint (i_lineTotal i))]"

definition OrderHistoryResponseDTO :: "order_entity \<Rightarrow> order_item_entity list \<Rightarrow> json" where
  "OrderHistoryResponseDTO o' items =
     JObj [(''orderId'', JStr (o_publicId o')), (''restaurantId'', jint (o_restaurantId o')),
           (''branchId'', jint (o_branchId o')), (''total'', jint (o_total o')),
           (''currency'', JStr (o_currency o')), (''items'', JArr (map OrderHistoryItemResponseDTO items)),
           (''placedAt'', jdate (o_createdAt o'))]"

subsection \<open>Event payloads\<close>

definition buildOrderPlacedPayload :: "order_entity \<Rightarrow> order_item_entity list \<Rightarrow> json" where
  "buildOrderPlacedPayload o' items =
     JObj [(''orderId'', JStr (o_publicId o')), (''region'', JStr (o_region o')),
           (''countryCode'', JStr (o_countryCode o')), (''restaurantId'', jint (o_restaurantId o')),
           (''branchId'', jint (o_branchId o')), (''customerId'', jint (o_customerId o')),
           (''status'', JStr (status_value (o_status o'))),
           (''paymentMethod'', JStr (payment_method_value (o_paymentMethod o'))),
           (''subtotal'', jint (o_subtotal o')), (''deliveryFee'', jint (o_deliveryFee o')),
           (''serviceFee'', jint (o_serviceFee o')), (''total'', jint (o_total o')),
           (''currency'', JStr (o_currency o')), (''items'', JArr (map OrderHistoryItemResponseDTO items)),
           (''placedAt'', jdate (o_createdAt o'))]"

definition buildOrderTransitionPayload :: "order_entity \<Rightarrow> string option \<Rightarrow> status_actor \<Rightarrow> json" where
  "buildOrderTransitionPayload o' reason who =
     JObj [(''orderId'', JStr (o_publicId o')), (''region'', JStr (o_region o')),
           (''restaurantId'', jint (o_restaurantId o')), (''branchId'', jint (o_branchId o')),
           (''customerId'', jint (o_customerId o')), (''status'', JStr (status_value (o_status o'))),
           (''reason'', jopt JStr reason), (''actor'', JStr (status_actor_value who)),
           (''occurredAt'', jdate (o_updatedAt o'))]"

definition order_event :: "string \<Rightarrow> string \<Rightarrow> json \<Rightarrow> outbox_input" where
  "order_event publicId eventType payload =
     \<lparr>ox_aggregateType = ''order'', ox_aggregateId = publicId, ox_eventType = eventType, ox_payload = payload\<rparr>"

text \<open>A page of the backfill export carries the fields of the live event unchanged.\<close>

lemma history_matches_placed:
  assumes "k \<in> {''orderId'', ''restaurantId'', ''branchId'', ''total'', ''currency'', ''items'', ''placedAt''}"
  shows "jget k (OrderHistoryResponseDTO o' items) = jget k (buildOrderPlacedPayload o' items)"
  using assms
  by (elim insertE emptyE) (simp_all add: OrderHistoryResponseDTO_def buildOrderPlacedPayload_def jget_def)

end
