(* ===== verification/Pagination.thy ===== *)
theory Pagination
  imports Util "HOL-Library.Product_Lexorder"
begin

section \<open>Cursor pagination\<close>

text \<open>
  \<open>src/lib/http/pagination/parse-query.ts\<close> and \<open>cursor-pagination.ts\<close>. A query is modelled by the rows
  it selects; \<open>col r\<close> is the value of its sort column in microseconds, the resolution of a Postgres
  \<open>timestamp\<close>, and the driver reads it as a \<open>Date\<close> in whole milliseconds (\<open>rowDate\<close>). \<open>cast\<close> is
  Postgres's conversion of a text to a timestamp (in microseconds), a parameter. An instant stands for
  the naive digits the column holds, so the local getters of \<open>formatNaiveTimestampCursor\<close> print it in
  the same calendar as \<open>toISOString\<close>; the process zone has no gap at the rows' timestamps.
  The column filters (\<open>applyFilters\<close>, \<open>parseFilters\<close>) are in \<open>Filters\<close>.
\<close>

datatype sort_order = Asc | Desc

record pagination_params =
  pg_cursor :: "string option"
  pg_limit :: nat
  pg_sortBy :: string
  pg_sortOrder :: sort_order

record pagination_meta =
  nextCursor :: "string option"
  hasMore :: bool
  count :: nat

subsection \<open>parse-query.ts\<close>

definition DEFAULT_SORT_BY :: string where "DEFAULT_SORT_BY = ''createdAt''"
definition DEFAULT_LIMIT :: nat where "DEFAULT_LIMIT = 20"
definition MAX_LIMIT :: nat where "MAX_LIMIT = 100"

text \<open>A query parameter is text or missing; \<open>Number(undefined)\<close> is \<open>NaN\<close>.\<close>

definition parsePaginationQuery :: "(string \<rightharpoonup> string) \<Rightarrow> string list \<Rightarrow> pagination_params" where
  "parsePaginationQuery q allowedSortBy =
     \<lparr>pg_cursor = q ''cursor'',
      pg_limit =
        (case Option.bind (q ''limit'') Number of
           Some n \<Rightarrow> if n > 0 then min MAX_LIMIT (nat n) else DEFAULT_LIMIT
         | None \<Rightarrow> DEFAULT_LIMIT),
      pg_sortBy =
        (case q ''sortBy'' of Some s \<Rightarrow> if s \<in> set allowedSortBy then s else DEFAULT_SORT_BY | None \<Rightarrow> DEFAULT_SORT_BY),
      pg_sortOrder = (if q ''sortOrder'' = Some ''asc'' then Asc else Desc)\<rparr>"

subsection \<open>The cursor\<close>

definition formatNaiveTimestampCursor :: "int \<Rightarrow> string" where
  "formatNaiveTimestampCursor t =
     (let y = utcFullYear t; d = t div ms_per_day - day_from_year y;
          md = month_day (month_lengths y) 1 d; ms = t mod ms_per_day
      in string_of_int y @ ''-'' @ pad 2 (fst md) @ ''-'' @ pad 2 (snd md) @ '' '' @
         pad 2 (ms div 3600000) @ '':'' @ pad 2 (ms div 60000 mod 60) @ '':'' @
         pad 2 (ms div 1000 mod 60) @ ''.'' @ pad 3 (ms mod 1000))"

definition CURSOR_TIEBREAKER_SEP :: string where
  "CURSOR_TIEBREAKER_SEP = ''||''"

definition encodeCursor :: "string \<Rightarrow> int option \<Rightarrow> string" where
  "encodeCursor sortValue idv =
     (case idv of None \<Rightarrow> sortValue | Some i \<Rightarrow> sortValue @ CURSOR_TIEBREAKER_SEP @ string_of_int i)"

text \<open>The text before and after the last occurrence of the separator (\<open>lastIndexOf\<close>).\<close>

fun splitLastSep :: "string \<Rightarrow> (string \<times> string) option" where
  "splitLastSep [] = None"
| "splitLastSep (c # cs) =
     (case splitLastSep cs of
        Some (a, b) \<Rightarrow> Some (c # a, b)
      | None \<Rightarrow> if c = CHR ''|'' \<and> take 1 cs = ''|'' then Some ([], drop 1 cs) else None)"

definition decodeCursor :: "string \<Rightarrow> string \<times> string option" where
  "decodeCursor cursor =
     (case splitLastSep cursor of None \<Rightarrow> (cursor, None) | Some (a, b) \<Rightarrow> (a, Some b))"

subsection \<open>applyCursorPagination and buildPaginationResult\<close>

text \<open>The order of the query, and \<open>(sortColumn, id) op (value, id)\<close> with \<open>op\<close> the strict comparison.\<close>

definition row_key :: "sort_order \<Rightarrow> ('r \<Rightarrow> int) \<Rightarrow> ('r \<Rightarrow> int) \<Rightarrow> 'r \<Rightarrow> int \<times> int" where
  "row_key so col idf r = (case so of Asc \<Rightarrow> (col r, idf r) | Desc \<Rightarrow> (- col r, - idf r))"

definition op :: "sort_order \<Rightarrow> int \<Rightarrow> int \<Rightarrow> bool" where
  "op so a b = (case so of Asc \<Rightarrow> a > b | Desc \<Rightarrow> a < b)"

definition cast_error :: exn where
  "cast_error = JsError ''invalid input syntax''"

text \<open>\<open>BIGINT\<close> input: the empty text is refused.\<close>

definition castInt :: "string \<Rightarrow> int option" where
  "castInt s = (if s = [] then None else Number s)"

definition applyCursorPagination ::
  "(string \<Rightarrow> int option) \<Rightarrow> ('r \<Rightarrow> int) \<Rightarrow> ('r \<Rightarrow> int) \<Rightarrow> pagination_params \<Rightarrow> 'r list \<Rightarrow> exn + 'r list" where
  "applyCursorPagination cast col idf params rows =
     (let so = pg_sortOrder params;
          page = \<lambda>keep. Inr (take (pg_limit params + 1) (sort_key (row_key so col idf) (filter keep rows)))
      in if pg_sortBy params = [] then Inr rows
         else if pg_cursor params = None \<or> pg_cursor params = Some [] then page (\<lambda>_. True)
         else
           (case decodeCursor (the (pg_cursor params)) of
              (sortValue, Some i) \<Rightarrow>
                (case (cast sortValue, castInt i) of
                   (Some v, Some n) \<Rightarrow> page (\<lambda>r. op so (col r) v \<or> col r = v \<and> op so (idf r) n)
                 | _ \<Rightarrow> Inl cast_error)
            | (sortValue, None) \<Rightarrow>
                (case cast sortValue of
                   Some v \<Rightarrow> page (\<lambda>r. op so (col r) v)
                 | None \<Rightarrow> Inl cast_error)))"

definition buildPaginationResult ::
  "('r \<Rightarrow> int) \<Rightarrow> ('r \<Rightarrow> int) \<Rightarrow> 'r list \<Rightarrow> nat \<Rightarrow> 'r list \<times> pagination_meta" where
  "buildPaginationResult date idf rows limit =
     (let more = length rows > limit;
          data = (if more then take limit rows else rows)
      in (data,
          \<lparr>nextCursor =
             (if data \<noteq> [] \<and> more
              then Some (encodeCursor (formatNaiveTimestampCursor (date (last data))) (Some (idf (last data))))
              else None),
           hasMore = more, count = length data\<rparr>))"

text \<open>The repositories' use of the two: one page of a query.\<close>

definition rowDate :: "('r \<Rightarrow> int) \<Rightarrow> 'r \<Rightarrow> int" where
  "rowDate col r = col r div 1000"

definition page_of ::
  "(string \<Rightarrow> int option) \<Rightarrow> ('r \<Rightarrow> int) \<Rightarrow> ('r \<Rightarrow> int) \<Rightarrow> pagination_params \<Rightarrow> 'r list \<Rightarrow>
   exn + ('r list \<times> pagination_meta)" where
  "page_of cast col idf params rows =
     (case applyCursorPagination cast col idf params rows of
        Inl e \<Rightarrow> Inl e
      | Inr rs \<Rightarrow> Inr (buildPaginationResult (rowDate col) idf rs (pg_limit params)))"

subsection \<open>Round trip of the cursor\<close>

lemma splitLastSep_none: "CHR ''|'' \<notin> set s \<Longrightarrow> splitLastSep s = None"
  by (induction s) auto

lemma splitLastSep_sep: "CHR ''|'' \<notin> set b \<Longrightarrow> splitLastSep (a @ ''||'' @ b) = Some (a, b)"
proof (induction a)
  case Nil
  have "splitLastSep (CHR ''|'' # b) = None"
    using Nil by (cases b) (auto simp: splitLastSep_none)
  then show ?case by simp
next
  case (Cons c a)
  then show ?case by simp
qed

lemma bar_not_in_string_of_int [simp]: "CHR ''|'' \<notin> set (string_of_int i)"
proof
  assume "CHR ''|'' \<in> set (string_of_int i)"
  from string_of_int_chars [OF this] show False by simp
qed

lemma decodeCursor_encodeCursor: "decodeCursor (encodeCursor s (Some i)) = (s, Some (string_of_int i))"
  using splitLastSep_sep [of "string_of_int i" s]
  by (simp add: decodeCursor_def encodeCursor_def CURSOR_TIEBREAKER_SEP_def)

lemma encodeCursor_not_Nil: "encodeCursor s (Some i) \<noteq> []"
  by (simp add: encodeCursor_def)

lemma castInt_string_of_int [simp]: "castInt (string_of_int i) = Some i"
  by (simp add: castInt_def)

subsection \<open>Following the cursors visits every row once\<close>

lemma row_key_less:
  "row_key so col idf s < row_key so col idf r \<longleftrightarrow>
     op so (col r) (col s) \<or> col r = col s \<and> op so (idf r) (idf s)"
  by (cases so) (auto simp: row_key_def op_def less_prod_def')

text \<open>In a strictly sorted list, the elements above the last of a prefix are the rest.\<close>

lemma filter_above_prefix:
  assumes s: "sorted_wrt (\<lambda>x y. key x < (key y :: 'k::linorder)) (xs @ ys)" and ne: "xs \<noteq> []"
  shows "filter (\<lambda>x. key (last xs) < key x) (xs @ ys) = ys"
proof -
  have "\<not> key (last xs) < key x" if "x \<in> set xs" for x
  proof (cases "x = last xs")
    case False
    have "xs = butlast xs @ [last xs]" using ne by simp
    with that False have x: "x \<in> set (butlast xs)" by (metis Un_iff empty_iff insert_iff list.set set_append)
    have "sorted_wrt (\<lambda>x y. key x < key y) (butlast xs @ [last xs])"
      using s ne by (simp add: sorted_wrt_append)
    with x have "key x < key (last xs)" by (simp add: sorted_wrt_append)
    then show ?thesis by simp
  qed simp
  moreover have "key (last xs) < key y" if "y \<in> set ys" for y
    using s ne that by (simp add: sorted_wrt_append)
  ultimately show ?thesis by (auto simp: filter_empty_conv intro: filter_True)
qed

definition keyset :: "sort_order \<Rightarrow> ('r \<Rightarrow> int) \<Rightarrow> ('r \<Rightarrow> int) \<Rightarrow> 'r list \<Rightarrow> 'r list" where
  "keyset so col idf rows = sort_key (row_key so col idf) rows"

lemma keyset_strict:
  assumes "distinct (map idf rows)"
  shows "sorted_wrt (\<lambda>x y. row_key so col idf x < row_key so col idf y) (keyset so col idf rows)"
proof -
  let ?k = "row_key so col idf"
  have d: "distinct (map idf (keyset so col idf rows))"
    using assms by (metis keyset_def distinct_map distinct_sort set_sort)
  then have "distinct (map ?k (keyset so col idf rows))"
    by (cases so) (auto simp: distinct_map inj_on_def row_key_def)
  moreover have "sorted (map ?k (keyset so col idf rows))" by (simp add: keyset_def)
  ultimately have "sorted_wrt (<) (map ?k (keyset so col idf rows))"
    by (simp add: strict_sorted_iff)
  then show ?thesis by (simp add: sorted_wrt_map)
qed

text \<open>What a cursor says about a position in the list of all rows.\<close>

definition cursor_after :: "('r \<Rightarrow> int) \<Rightarrow> ('r \<Rightarrow> int) \<Rightarrow> 'r list \<Rightarrow> string option" where
  "cursor_after date idf xs =
     (if xs = [] then None
      else Some (encodeCursor (formatNaiveTimestampCursor (date (last xs))) (Some (idf (last xs)))))"

lemma page_after_prefix:
  assumes d: "distinct (map idf rows)"
    and cast: "\<forall>r\<in>set rows. cast (formatNaiveTimestampCursor (rowDate col r)) = Some (col r)"
    and pos: "keyset (pg_sortOrder params) col idf rows = xs @ ys"
    and sb: "pg_sortBy params \<noteq> []" and cur: "pg_cursor params = cursor_after (rowDate col) idf xs"
  shows "applyCursorPagination cast col idf params rows = Inr (take (pg_limit params + 1) ys)"
proof (cases "xs = []")
  case True
  then show ?thesis
    using pos sb cur by (simp add: applyCursorPagination_def cursor_after_def keyset_def Let_def)
next
  case False
  let ?so = "pg_sortOrder params" let ?k = "row_key (pg_sortOrder params) col idf"
  have mem: "last xs \<in> set rows"
    using False pos by (metis UnI1 keyset_def last_in_set set_append set_sort)
  have c: "cast (formatNaiveTimestampCursor (rowDate col (last xs))) = Some (col (last xs))"
    using cast mem by blast
  have "filter (\<lambda>r. ?k (last xs) < ?k r) (keyset ?so col idf rows) = ys"
    using keyset_strict [OF d, of ?so col] False unfolding pos by (rule filter_above_prefix)
  then have "sort_key ?k (filter (\<lambda>r. ?k (last xs) < ?k r) rows) = ys"
    by (simp add: keyset_def filter_sort)
  then show ?thesis
    using False sb cur c
    by (simp add: applyCursorPagination_def cursor_after_def decodeCursor_encodeCursor encodeCursor_not_Nil
        Let_def row_key_less)
qed

text \<open>A client that follows \<open>nextCursor\<close> until it is \<open>null\<close>, at most \<open>fuel\<close> times.\<close>

fun all_pages ::
  "nat \<Rightarrow> (string \<Rightarrow> int option) \<Rightarrow> ('r \<Rightarrow> int) \<Rightarrow> ('r \<Rightarrow> int) \<Rightarrow> pagination_params \<Rightarrow> 'r list \<Rightarrow> exn + 'r list" where
  "all_pages 0 cast col idf params rows = Inr []"
| "all_pages (Suc n) cast col idf params rows =
     (case page_of cast col idf params rows of
        Inl e \<Rightarrow> Inl e
      | Inr (data, meta) \<Rightarrow>
          (case nextCursor meta of
             None \<Rightarrow> Inr data
           | Some c \<Rightarrow>
               (case all_pages n cast col idf (params\<lparr>pg_cursor := Some c\<rparr>) rows of
                  Inl e \<Rightarrow> Inl e
                | Inr ds \<Rightarrow> Inr (data @ ds))))"

lemma all_pages_from:
  assumes d: "distinct (map idf rows)"
    and cast: "\<forall>r\<in>set rows. cast (formatNaiveTimestampCursor (rowDate col r)) = Some (col r)"
    and lim: "0 < pg_limit params" and sb: "pg_sortBy params \<noteq> []"
  shows "keyset (pg_sortOrder params) col idf rows = xs @ ys \<Longrightarrow>
     pg_cursor params = cursor_after (rowDate col) idf xs \<Longrightarrow> length ys < fuel \<Longrightarrow>
     all_pages fuel cast col idf params rows = Inr ys"
  using lim sb
proof (induction fuel arbitrary: params xs ys)
  case (Suc n)
  let ?l = "pg_limit params"
  have page: "applyCursorPagination cast col idf params rows = Inr (take (?l + 1) ys)"
    using page_after_prefix [OF d cast Suc.prems(1) Suc.prems(5,2)] .
  show ?case
  proof (cases "length ys \<le> ?l")
    case True
    then show ?thesis
      by (simp add: page_of_def page buildPaginationResult_def Let_def)
  next
    case False
    define zs where "zs = take ?l ys"
    have zs: "zs \<noteq> []" "take ?l (take (Suc ?l) ys) = zs" "zs @ drop ?l ys = ys"
      using False Suc.prems(4) by (auto simp: zs_def min_def)
    define c where "c = encodeCursor (formatNaiveTimestampCursor (rowDate col (last zs))) (Some (idf (last zs)))"
    have cur: "cursor_after (rowDate col) idf (xs @ zs) = Some c"
      using zs(1) by (simp add: cursor_after_def c_def)
    let ?p = "params\<lparr>pg_cursor := cursor_after (rowDate col) idf (xs @ zs)\<rparr>"
    have "all_pages n cast col idf ?p rows = Inr (drop ?l ys)"
    proof (rule Suc.IH [of ?p "xs @ zs"])
      show "length (drop ?l ys) < n"
        using Suc.prems(3,4) False by (simp add: less_diff_conv2 not_le)
    qed (use Suc.prems zs in auto)
    then show ?thesis
      using False zs cur by (simp add: page_of_def page buildPaginationResult_def Let_def flip: c_def)
  qed
qed simp

text \<open>C10: a client that follows \<open>nextCursor\<close> from the first page sees every row of the query exactly once,
  in the order of the query, whatever the page size, when ids are distinct, the timestamps are whole
  milliseconds and Postgres reads back the timestamps the cursor prints.\<close>

theorem pagination_complete:
  assumes "distinct (map idf rows)"
    and "\<forall>r\<in>set rows. cast (formatNaiveTimestampCursor (rowDate col r)) = Some (col r)"
    and "0 < pg_limit params" and "pg_sortBy params \<noteq> []" and "pg_cursor params = None"
    and "length rows < fuel"
  shows "all_pages fuel cast col idf params rows = Inr (sort_key (row_key (pg_sortOrder params) col idf) rows)"
proof -
  let ?ys = "sort_key (row_key (pg_sortOrder params) col idf) rows"
  have "keyset (pg_sortOrder params) col idf rows = [] @ ?ys" by (simp add: keyset_def)
  moreover have "pg_cursor params = cursor_after (rowDate col) idf []"
    using assms(5) by (simp add: cursor_after_def)
  moreover have "length ?ys < fuel" using assms(6) by simp
  ultimately show ?thesis
    by (rule all_pages_from [OF assms(1-4)])
qed

theorem pagination_complete_witness:
  "all_pages 4 [formatNaiveTimestampCursor 5 \<mapsto> 5000, formatNaiveTimestampCursor 7 \<mapsto> 7000] fst snd
     \<lparr>pg_cursor = None, pg_limit = 1, pg_sortBy = ''createdAt'', pg_sortOrder = Desc\<rparr>
     [(5000, 1), (7000, 2), (5000, 3 :: int)] = Inr [(7000, 2), (5000, 3), (5000, 1)]"
proof -
  have ne: "formatNaiveTimestampCursor 5 \<noteq> formatNaiveTimestampCursor 7" by code_simp
  show ?thesis
    by (subst pagination_complete) (use ne in \<open>auto simp: rowDate_def row_key_def less_prod_def'\<close>)
qed

text \<open>the timestamps of Postgres have microseconds, and the cursor has milliseconds: of two rows created
  within one millisecond, the second one of a descending list is never shown when the page ends between
  them. The comment in \<open>cursor-pagination.ts\<close> claims that no row is skipped.\<close>

theorem pagination_skips_within_millisecond:
  assumes "cast (formatNaiveTimestampCursor (a div 1000)) = Some (1000 * (a div 1000))"
    and "1000 * (a div 1000) < b" and "b < a"
  shows "all_pages (Suc (Suc fuel)) cast fst snd
     \<lparr>pg_cursor = None, pg_limit = 1, pg_sortBy = ''createdAt'', pg_sortOrder = Desc\<rparr> [(a, i), (b, j)] = Inr [(a, i)]"
  using assms
  by (simp add: page_of_def applyCursorPagination_def buildPaginationResult_def rowDate_def row_key_def op_def
      decodeCursor_encodeCursor encodeCursor_not_Nil less_eq_prod_def less_prod_def Let_def)

theorem pagination_skips_within_millisecond_witness:
  "all_pages 2 [formatNaiveTimestampCursor 1000 \<mapsto> 1000000] fst snd
     \<lparr>pg_cursor = None, pg_limit = 1, pg_sortBy = ''createdAt'', pg_sortOrder = Desc\<rparr>
     [(1000500, 1), (1000400, 2 :: int)] = Inr [(1000500, 1)]"
  using pagination_skips_within_millisecond
    [of "[formatNaiveTimestampCursor 1000 \<mapsto> 1000000]" 1000500 1000400 0 1 2] by (simp add: numeral_2_eq_2)

end
