(* ===== verification/OrderRepo.thy ===== *)
theory OrderRepo
  imports World Pagination
begin

section \<open>Orders and their items in the database\<close>

text \<open>
  \<open>src/app/order/repository/order.repo.ts\<close> and \<open>order-item.repo.ts\<close>: one program per function, on the
  connection it is given. Where the SQL leaves the order of equal sort keys open the model keeps
  insertion order. \<open>created_at\<close> is a whole number of milliseconds here; what finer timestamps do to the
  lists is in \<open>Pagination\<close>. The list queries get no extra filters: the services always pass an
  empty list.
\<close>

subsection \<open>Inserting and reading orders\<close>

record create_order_input =
  n_region :: string
  n_publicId :: string
  n_countryCode :: string
  n_restaurantId :: int
  n_restaurantOwnerId :: int
  n_branchId :: int
  n_customerId :: int
  n_customerAddressId :: int
  n_deliveryLat :: int
  n_deliveryLng :: int
  n_deliveryAddressTextSnapshot :: string
  n_branchLat :: int
  n_branchLng :: int
  n_status :: order_status
  n_subtotal :: int
  n_deliveryFee :: int
  n_serviceFee :: int
  n_total :: int
  n_currency :: string
  n_paymentMethod :: payment_method

definition order_row :: "int \<Rightarrow> int \<Rightarrow> create_order_input \<Rightarrow> order_entity" where
  "order_row newId t n =
     \<lparr>o_id = newId, o_region = n_region n, o_publicId = n_publicId n, o_countryCode = n_countryCode n,
      o_restaurantId = n_restaurantId n, o_restaurantOwnerId = n_restaurantOwnerId n,
      o_branchId = n_branchId n, o_customerId = n_customerId n, o_customerAddressId = n_customerAddressId n,
      o_deliveryLat = n_deliveryLat n, o_deliveryLng = n_deliveryLng n,
      o_deliveryAddressTextSnapshot = n_deliveryAddressTextSnapshot n,
      o_branchLat = n_branchLat n, o_branchLng = n_branchLng n, o_status = n_status n,
      o_subtotal = n_subtotal n, o_deliveryFee = n_deliveryFee n, o_serviceFee = n_serviceFee n,
      o_total = n_total n, o_commission = 0, o_currency = n_currency n, o_paymentMethod = n_paymentMethod n,
      o_deliveryAgentId = None, o_createdAt = t, o_updatedAt = t, o_acceptedAt = None, o_rejectedAt = None,
      o_readyAt = None, o_assignedAt = None, o_pickedAt = None, o_deliveredAt = None, o_cancelledAt = None\<rparr>"

definition set_orders :: "order_entity list \<Rightarrow> shard \<Rightarrow> shard" where
  "set_orders os sh = sh\<lparr>tabs := (tabs sh)\<lparr>orders := os\<rparr>\<rparr>"

definition createOrder :: "create_order_input \<Rightarrow> conn \<Rightarrow> order_entity io" where
  "createOrder n c = stmt c (\<lambda>t sh.
     if \<not> (int4 (n_subtotal n) \<and> int4 (n_deliveryFee n) \<and> int4 (n_serviceFee n) \<and> int4 (n_total n))
     then Inl int4_error
     else
       (let newId = q_orders (sqs sh) + 1; row = order_row newId t n
        in Inr (row, (set_orders (orders (tabs sh) @ [row]) sh)\<lparr>sqs := (sqs sh)\<lparr>q_orders := newId\<rparr>\<rparr>)))"

definition first_row :: "'r list \<Rightarrow> 'r option" where
  "first_row rs = (case rs of [] \<Rightarrow> None | r # _ \<Rightarrow> Some r)"

definition findOwnerIdForRestaurant :: "int \<Rightarrow> conn \<Rightarrow> int option io" where
  "findOwnerIdForRestaurant restaurantId c = query c (\<lambda>tb.
     map_option o_restaurantOwnerId
       (first_row (sort_key (\<lambda>o'. - o_createdAt o')
          (filter (\<lambda>o'. o_restaurantId o' = restaurantId) (orders tb)))))"

definition findOrderByPublicId :: "string \<Rightarrow> conn \<Rightarrow> order_entity option io" where
  "findOrderByPublicId publicId c = query c (\<lambda>tb. List.find (\<lambda>o'. o_publicId o' = publicId) (orders tb))"

definition findReadyUnassigned :: "nat \<Rightarrow> conn \<Rightarrow> order_entity list io" where
  "findReadyUnassigned limit c = query c (\<lambda>tb.
     take limit (sort_key o_createdAt
       (filter (\<lambda>o'. o_status o' = READY \<and> o_deliveryAgentId o' = None) (orders tb))))"

subsection \<open>Conditional writes\<close>

definition claimable :: "string \<Rightarrow> order_entity \<Rightarrow> bool" where
  "claimable publicId o' \<longleftrightarrow>
     o_publicId o' = publicId \<and> o_status o' = READY \<and> o_deliveryAgentId o' = None"

definition claim_row :: "int \<Rightarrow> int \<Rightarrow> order_entity \<Rightarrow> order_entity" where
  "claim_row agentId t o' =
     o'\<lparr>o_status := ASSIGNED, o_deliveryAgentId := Some agentId, o_assignedAt := Some t, o_updatedAt := t\<rparr>"

definition claimReadyOrderForAgent :: "string \<Rightarrow> int \<Rightarrow> conn \<Rightarrow> order_entity option io" where
  "claimReadyOrderForAgent publicId agentId c = stmt c (\<lambda>t sh.
     let os = orders (tabs sh)
     in Inr (first_row (returning (claimable publicId) (claim_row agentId t) os),
             set_orders (update_where (claimable publicId) (claim_row agentId t) os) sh))"

definition releasable :: "int \<Rightarrow> order_entity \<Rightarrow> bool" where
  "releasable agentId o' \<longleftrightarrow> o_deliveryAgentId o' = Some agentId \<and> o_status o' = ASSIGNED"

definition release_row :: "int \<Rightarrow> order_entity \<Rightarrow> order_entity" where
  "release_row t o' =
     o'\<lparr>o_status := READY, o_deliveryAgentId := None, o_assignedAt := None, o_updatedAt := t\<rparr>"

definition releaseAssignedOrderToReady :: "int \<Rightarrow> conn \<Rightarrow> nat io" where
  "releaseAssignedOrderToReady agentId c = stmt c (\<lambda>t sh.
     let os = orders (tabs sh)
     in Inr (length (filter (releasable agentId) os),
             set_orders (update_where (releasable agentId) (release_row t) os) sh))"

text \<open>\<open>ORDER BY assigned_at DESC\<close>: nulls come first.\<close>

definition nulls_first_desc :: "int option \<Rightarrow> int \<times> int" where
  "nulls_first_desc v = (case v of None \<Rightarrow> (0, 0) | Some t \<Rightarrow> (1, - t))"

definition findAgentTasks :: "int \<Rightarrow> string list option \<Rightarrow> nat \<Rightarrow> conn \<Rightarrow> order_entity list io" where
  "findAgentTasks agentId statuses limit c = query c (\<lambda>tb.
     take limit (sort_key (\<lambda>o'. nulls_first_desc (o_assignedAt o'))
       (filter (\<lambda>o'. o_deliveryAgentId o' = Some agentId \<and>
                  (case statuses of None \<Rightarrow> True | Some ss \<Rightarrow> ss = [] \<or> status_value (o_status o') \<in> set ss))
          (orders tb))))"

definition updateOrderCommission :: "string \<Rightarrow> int \<Rightarrow> conn \<Rightarrow> unit io" where
  "updateOrderCommission publicId commission c = stmt c (\<lambda>t sh.
     if \<not> int4 commission then Inl int4_error
     else Inr ((), set_orders (update_where (\<lambda>o'. o_publicId o' = publicId)
                     (\<lambda>o'. o'\<lparr>o_commission := commission, o_updatedAt := t\<rparr>) (orders (tabs sh))) sh))"

fun set_stamp :: "stamp \<Rightarrow> int \<Rightarrow> order_entity \<Rightarrow> order_entity" where
  "set_stamp AcceptedAt t o' = o'\<lparr>o_acceptedAt := Some t\<rparr>"
| "set_stamp RejectedAt t o' = o'\<lparr>o_rejectedAt := Some t\<rparr>"
| "set_stamp ReadyAt t o' = o'\<lparr>o_readyAt := Some t\<rparr>"
| "set_stamp AssignedAt t o' = o'\<lparr>o_assignedAt := Some t\<rparr>"
| "set_stamp PickedAt t o' = o'\<lparr>o_pickedAt := Some t\<rparr>"
| "set_stamp DeliveredAt t o' = o'\<lparr>o_deliveredAt := Some t\<rparr>"
| "set_stamp CancelledAt t o' = o'\<lparr>o_cancelledAt := Some t\<rparr>"

definition status_row :: "order_status \<Rightarrow> stamp option \<Rightarrow> int \<Rightarrow> order_entity \<Rightarrow> order_entity" where
  "status_row status st t o' =
     (let u = o'\<lparr>o_status := status, o_updatedAt := t\<rparr>
      in case st of None \<Rightarrow> u | Some s \<Rightarrow> set_stamp s t u)"

text \<open>\<open>toEntity(undefined)\<close> throws when no row has the public id; the update is then empty.\<close>

definition updateOrderStatus :: "string \<Rightarrow> order_status \<Rightarrow> stamp option \<Rightarrow> conn \<Rightarrow> order_entity io" where
  "updateOrderStatus publicId status st c = stmt c (\<lambda>t sh.
     let p = (\<lambda>o'. o_publicId o' = publicId); os = orders (tabs sh)
     in case returning p (status_row status st t) os of
          [] \<Rightarrow> Inl undefined_row_error
        | r # _ \<Rightarrow> Inr (r, set_orders (update_where p (status_row status st t) os) sh))"

subsection \<open>Lists\<close>

definition created_micros :: "order_entity \<Rightarrow> int" where
  "created_micros o' = 1000 * o_createdAt o'"

definition page_query ::
  "(order_entity \<Rightarrow> bool) \<Rightarrow> pagination_params \<Rightarrow> conn \<Rightarrow> (order_entity list \<times> pagination_meta) io" where
  "page_query keep params c w =
     stmt c (\<lambda>_ sh.
       case page_of (timestampCast (ext w)) created_micros o_id params (filter keep (orders (tabs sh))) of
         Inl e \<Rightarrow> Inl e
       | Inr r \<Rightarrow> Inr (r, sh)) w"

definition findOrdersByCustomer ::
  "int \<Rightarrow> int \<Rightarrow> int \<Rightarrow> pagination_params \<Rightarrow> conn \<Rightarrow> (order_entity list \<times> pagination_meta) io" where
  "findOrdersByCustomer customerId yearStart yearEnd =
     page_query (\<lambda>o'. o_customerId o' = customerId \<and> yearStart \<le> o_createdAt o' \<and> o_createdAt o' < yearEnd)"

record restaurant_filter =
  rf_restaurantId :: int
  rf_branchId :: int
  rf_status :: "string option"
  rf_from :: "int option"
  rf_to :: "int option"

definition restaurant_filter_keeps :: "restaurant_filter \<Rightarrow> order_entity \<Rightarrow> bool" where
  "restaurant_filter_keeps f o' \<longleftrightarrow>
     o_restaurantId o' = rf_restaurantId f \<and> o_branchId o' = rf_branchId f \<and>
     (case rf_status f of None \<Rightarrow> True | Some s \<Rightarrow> s = [] \<or> status_value (o_status o') = s) \<and>
     (case rf_from f of None \<Rightarrow> True | Some t \<Rightarrow> t \<le> o_createdAt o') \<and>
     (case rf_to f of None \<Rightarrow> True | Some t \<Rightarrow> o_createdAt o' < t)"

definition findOrdersByRestaurantBranch ::
  "restaurant_filter \<Rightarrow> pagination_params \<Rightarrow> conn \<Rightarrow> (order_entity list \<times> pagination_meta) io" where
  "findOrdersByRestaurantBranch f = page_query (restaurant_filter_keeps f)"

definition findOrdersForBackfill ::
  "int \<Rightarrow> int \<Rightarrow> pagination_params \<Rightarrow> conn \<Rightarrow> (order_entity list \<times> pagination_meta) io" where
  "findOrdersForBackfill yearStart yearEnd =
     page_query (\<lambda>o'. o_status o' \<noteq> PENDING_PAYMENT \<and> yearStart \<le> o_createdAt o' \<and> o_createdAt o' < yearEnd)"

subsection \<open>order-item.repo.ts\<close>

record insert_item_input =
  ni_region :: string
  ni_orderId :: int
  ni_productId :: int
  ni_quantity :: int
  ni_unitPriceSnapshot :: int
  ni_nameSnapshot :: string
  ni_imageUrlSnapshot :: "string option"
  ni_lineTotal :: int

definition item_row :: "int \<Rightarrow> int \<Rightarrow> insert_item_input \<Rightarrow> order_item_entity" where
  "item_row newId t n =
     \<lparr>i_id = newId, i_region = ni_region n, i_orderId = ni_orderId n, i_productId = ni_productId n,
      i_quantity = ni_quantity n, i_unitPriceSnapshot = ni_unitPriceSnapshot n,
      i_nameSnapshot = ni_nameSnapshot n, i_imageUrlSnapshot = ni_imageUrlSnapshot n,
      i_lineTotal = ni_lineTotal n, i_createdAt = t\<rparr>"

fun item_rows :: "int \<Rightarrow> int \<Rightarrow> insert_item_input list \<Rightarrow> order_item_entity list" where
  "item_rows q t [] = []"
| "item_rows q t (n # ns) = item_row (q + 1) t n # item_rows (q + 1) t ns"

definition bulkInsertItems :: "insert_item_input list \<Rightarrow> conn \<Rightarrow> order_item_entity list io" where
  "bulkInsertItems ns c =
     (if ns = [] then returnE []
      else stmt c (\<lambda>t sh.
        if \<not> list_all (\<lambda>n. int4 (ni_quantity n) \<and> int4 (ni_unitPriceSnapshot n) \<and> int4 (ni_lineTotal n)) ns
        then Inl int4_error
        else if \<not> list_all (\<lambda>n. 0 < ni_quantity n) ns then Inl check_error
        else
          (let q = q_items (sqs sh); rows = item_rows q t ns
           in Inr (rows, sh\<lparr>tabs := (tabs sh)\<lparr>order_items := order_items (tabs sh) @ rows\<rparr>,
                           sqs := (sqs sh)\<lparr>q_items := q + int (length ns)\<rparr>\<rparr>))))"

definition items_of :: "int list \<Rightarrow> tables \<Rightarrow> order_item_entity list" where
  "items_of orderIds tb = sort_key i_id (filter (\<lambda>i. i_orderId i \<in> set orderIds) (order_items tb))"

definition findItemsByOrderIds :: "int list \<Rightarrow> conn \<Rightarrow> order_item_entity list io" where
  "findItemsByOrderIds orderIds c = (if orderIds = [] then returnE [] else query c (items_of orderIds))"

definition item_counts :: "int list \<Rightarrow> tables \<Rightarrow> int \<rightharpoonup> nat" where
  "item_counts orderIds tb oid =
     (let n = length (filter (\<lambda>i. i_orderId i = oid) (order_items tb))
      in if oid \<in> set orderIds \<and> n > 0 then Some n else None)"

definition countItemsByOrderIds :: "int list \<Rightarrow> conn \<Rightarrow> (int \<rightharpoonup> nat) io" where
  "countItemsByOrderIds orderIds c = (if orderIds = [] then returnE Map.empty else query c (item_counts orderIds))"

subsection \<open>Which shards the functions write\<close>

context quiet_relation begin

lemma moves_order_queries [moves_intro]:
  "moves R (findOwnerIdForRestaurant r c)" "moves R (findOrderByPublicId p c)"
  "moves R (findReadyUnassigned n c)" "moves R (findAgentTasks a ss n c)"
  "moves R (findItemsByOrderIds is c)" "moves R (countItemsByOrderIds is c)"
  unfolding findOwnerIdForRestaurant_def findOrderByPublicId_def findReadyUnassigned_def findAgentTasks_def
    findItemsByOrderIds_def countItemsByOrderIds_def
  by (intro moves_intro)+

lemma moves_page_query [moves_intro]: "moves R (page_query k ps c)"
  by (rule movesI) (auto simp: page_query_def stmt_def R_tick split: option.splits sum.splits)

lemma moves_order_lists [moves_intro]:
  "moves R (findOrdersByCustomer i s e ps c)" "moves R (findOrdersByRestaurantBranch f ps c)"
  "moves R (findOrdersForBackfill s e ps c)"
  unfolding findOrdersByCustomer_def findOrdersByRestaurantBranch_def findOrdersForBackfill_def
  by (intro moves_intro)+

end

context shard_relation begin

lemma moves_order_writes [moves_intro]:
  "moves R (createOrder n c)" "moves R (claimReadyOrderForAgent p a c)"
  "moves R (releaseAssignedOrderToReady a c)" "moves R (updateOrderCommission p m c)"
  "moves R (updateOrderStatus p s st c)" "moves R (bulkInsertItems ns c)"
  unfolding createOrder_def claimReadyOrderForAgent_def releaseAssignedOrderToReady_def
    updateOrderCommission_def updateOrderStatus_def bulkInsertItems_def
  by (intro moves_intro)+

end

subsection \<open>Facts about the row updates\<close>

lemma set_stamp_simps [simp]:
  "o_status (set_stamp s t x) = o_status x" "o_publicId (set_stamp s t x) = o_publicId x"
  "o_id (set_stamp s t x) = o_id x" "o_total (set_stamp s t x) = o_total x"
  "o_updatedAt (set_stamp s t x) = o_updatedAt x" "o_createdAt (set_stamp s t x) = o_createdAt x"
  by (cases s; simp)+

lemma status_row_simps [simp]:
  "o_status (status_row s st t x) = s" "o_publicId (status_row s st t x) = o_publicId x"
  "o_id (status_row s st t x) = o_id x" "o_total (status_row s st t x) = o_total x"
  "o_updatedAt (status_row s st t x) = t" "o_createdAt (status_row s st t x) = o_createdAt x"
  by (simp_all add: status_row_def Let_def split: option.splits)

lemma set_orders_simps [simp]:
  "orders (tabs (set_orders os sh)) = os" "order_items (tabs (set_orders os sh)) = order_items (tabs sh)"
  "payment_sessions (tabs (set_orders os sh)) = payment_sessions (tabs sh)"
  "transactions (tabs (set_orders os sh)) = transactions (tabs sh)"
  "webhook_events (tabs (set_orders os sh)) = webhook_events (tabs sh)"
  "balances (tabs (set_orders os sh)) = balances (tabs sh)"
  "earnings (tabs (set_orders os sh)) = earnings (tabs sh)"
  "outbox (tabs (set_orders os sh)) = outbox (tabs sh)" "sqs (set_orders os sh) = sqs sh"
  by (simp_all add: set_orders_def)

lemma length_item_rows [simp]: "length (item_rows q t ns) = length ns"
  by (induction ns arbitrary: q) auto

lemma map_item_rows: "(\<And>q n. f (item_row q t n) = g n) \<Longrightarrow> map f (item_rows q t ns) = map g ns"
  by (induction ns arbitrary: q) auto

subsection \<open>What the functions leave alone\<close>

lemma same_order_writes [moves_intro]:
  fixes f :: "tables \<Rightarrow> 'a"
  assumes "\<And>tb os. f (tb\<lparr>orders := os\<rparr>) = f tb"
  shows "moves (per_table (same f)) (createOrder n c)" "moves (per_table (same f)) (claimReadyOrderForAgent p a c)"
    "moves (per_table (same f)) (releaseAssignedOrderToReady a c)"
    "moves (per_table (same f)) (updateOrderCommission p m c)"
    "moves (per_table (same f)) (updateOrderStatus p s st c)"
  unfolding createOrder_def claimReadyOrderForAgent_def releaseAssignedOrderToReady_def updateOrderCommission_def
    updateOrderStatus_def
  by (rule same.moves_stmt_Q; force simp: same_def set_orders_def assms Let_def split: if_splits list.splits)+

lemma same_bulkInsertItems [moves_intro]:
  fixes f :: "tables \<Rightarrow> 'a"
  assumes "\<And>tb is. f (tb\<lparr>order_items := is\<rparr>) = f tb"
  shows "moves (per_table (same f)) (bulkInsertItems ns c)"
  unfolding bulkInsertItems_def
  by (intro moves_intro same.moves_stmt_Q) (auto simp: same_def assms Let_def split: if_splits)

lemmas run_OrderRepo [run] =
  order_row_def set_orders_def createOrder_def first_row_def findOrderByPublicId_def claimable_def
  claim_row_def claimReadyOrderForAgent_def releasable_def release_row_def
  releaseAssignedOrderToReady_def updateOrderCommission_def status_row_def updateOrderStatus_def
  item_row_def bulkInsertItems_def items_of_def findItemsByOrderIds_def countItemsByOrderIds_def

lemma updateOrderStatus_ok:
  assumes "dbFault (ext w) (steps w) = None" and "List.find (\<lambda>o'. o_publicId o' = p) (orders (tables_of w c)) = Some o'"
  shows "updateOrderStatus p s st c w = (Inr (status_row s st (clock w) o'), (tick w)\<lparr>shards := (shards w)(c :=
      set_orders (update_where (\<lambda>o'. o_publicId o' = p) (status_row s st (clock w)) (orders (tables_of w c))) (shards w c))\<rparr>)"
  using assms by (auto simp: updateOrderStatus_def stmt_def Let_def tables_of_def returning_def find_filter split: list.splits)

end
