(* ===== verification/Cache.thy ===== *)
theory Cache
  imports World
begin

section \<open>The cache provider\<close>

text \<open>
  \<open>src/pkg/cache/cache.interface.ts\<close> and \<open>src/pkg/cache/redis.ts\<close>. Each operation is a pure function
  \<open>r_*\<close> on the Redis key space at an instant (the command), and a program \<open>cache_*\<close> (the method of
  \<open>RedisCacheProvider\<close>: one round trip, which can fail). The locale \<open>cache_provider\<close> is the part of the
  \<open>ICacheProvider\<close> contract that locks and de-duplication rest on; its client lemma is that of a
  number of attempts on one key during the time to live exactly the first succeeds.
\<close>

subsection \<open>Commands\<close>

definition expired :: "int \<Rightarrow> int option \<Rightarrow> bool" where
  "expired t e = (case e of None \<Rightarrow> False | Some d \<Rightarrow> d \<le> t)"

definition live :: "int \<Rightarrow> redis \<Rightarrow> string \<Rightarrow> rvalue option" where
  "live t r k = (case r k of None \<Rightarrow> None | Some (v, e) \<Rightarrow> if expired t e then None else Some v)"

definition wrongtype :: exn where
  "wrongtype = JsError ''WRONGTYPE Operation against a key holding the wrong kind of value''"

definition invalid_expire :: exn where
  "invalid_expire = JsError ''ERR invalid expire time''"

definition r_get :: "string \<Rightarrow> int \<Rightarrow> redis \<Rightarrow> exn + (rtext option \<times> redis)" where
  "r_get k t r =
     (case live t r k of
        None \<Rightarrow> Inr (None, r)
      | Some (RString v) \<Rightarrow> Inr (Some v, r)
      | Some _ \<Rightarrow> Inl wrongtype)"

text \<open>\<open>EX ttlSeconds\<close> when \<open>ttlSeconds\<close> is given and not 0, no expiry otherwise.\<close>

definition deadline :: "int \<Rightarrow> int option \<Rightarrow> int option" where
  "deadline t ttl = (case ttl of None \<Rightarrow> None | Some n \<Rightarrow> if n = 0 then None else Some (t + 1000 * n))"

definition bad_ttl :: "int option \<Rightarrow> bool" where
  "bad_ttl ttl = (case ttl of None \<Rightarrow> False | Some n \<Rightarrow> n < 0)"

definition r_set :: "string \<Rightarrow> rtext \<Rightarrow> int option \<Rightarrow> int \<Rightarrow> redis \<Rightarrow> exn + (unit \<times> redis)" where
  "r_set k v ttl t r =
     (if bad_ttl ttl then Inl invalid_expire
      else Inr ((), r(k \<mapsto> (RString v, deadline t ttl))))"

definition r_del :: "string \<Rightarrow> int \<Rightarrow> redis \<Rightarrow> exn + (int \<times> redis)" where
  "r_del k t r = Inr (if live t r k = None then 0 else 1, r(k := None))"

definition r_trySet :: "string \<Rightarrow> rtext \<Rightarrow> int option \<Rightarrow> int \<Rightarrow> redis \<Rightarrow> exn + (bool \<times> redis)" where
  "r_trySet k v ttl t r =
     (if bad_ttl ttl then Inl invalid_expire
      else if live t r k = None then Inr (True, r(k \<mapsto> (RString v, deadline t ttl)))
      else Inr (False, r))"

definition r_exists :: "string \<Rightarrow> int \<Rightarrow> redis \<Rightarrow> exn + (bool \<times> redis)" where
  "r_exists k t r = Inr (live t r k \<noteq> None, r)"

text \<open>\<open>INCR\<close> keeps the expiry of an existing counter.\<close>

definition r_incr :: "string \<Rightarrow> int \<Rightarrow> redis \<Rightarrow> exn + (int \<times> redis)" where
  "r_incr k t r =
     (case live t r k of
        None \<Rightarrow> Inr (1, r(k \<mapsto> (RString (Text (string_of_int 1)), None)))
      | Some (RString (Text s)) \<Rightarrow>
          (case Number s of
             None \<Rightarrow> Inl (JsError ''ERR value is not an integer or out of range'')
           | Some n \<Rightarrow>
               Inr (n + 1, r(k \<mapsto> (RString (Text (string_of_int (n + 1))),
                 (case r k of None \<Rightarrow> None | Some (_, e) \<Rightarrow> e)))))
      | Some (RString _) \<Rightarrow> Inl (JsError ''ERR value is not an integer or out of range'')
      | Some _ \<Rightarrow> Inl wrongtype)"

definition r_expire :: "string \<Rightarrow> int \<Rightarrow> int \<Rightarrow> redis \<Rightarrow> exn + (unit \<times> redis)" where
  "r_expire k ttl t r =
     Inr ((), (case live t r k of
                 None \<Rightarrow> r
               | Some v \<Rightarrow> if ttl \<le> 0 then r(k := None) else r(k \<mapsto> (v, Some (t + 1000 * ttl)))))"

text \<open>\<open>TTL\<close> rounds the remaining milliseconds to seconds.\<close>

definition r_ttl :: "string \<Rightarrow> int \<Rightarrow> redis \<Rightarrow> exn + (int \<times> redis)" where
  "r_ttl k t r =
     Inr ((case live t r k of
             None \<Rightarrow> - 2
           | Some _ \<Rightarrow>
               (case r k of Some (_, Some d) \<Rightarrow> (d - t + 500) div 1000 | _ \<Rightarrow> - 1)), r)"

text \<open>\<open>HSET\<close> of several fields over the live hash, then \<open>EXPIRE\<close>, in one \<open>MULTI\<close>.\<close>

definition hset_fields :: "(string \<times> string) list \<Rightarrow> (string \<times> string) list \<Rightarrow> (string \<times> string) list" where
  "hset_fields new old = new @ filter (\<lambda>(f, _). f \<notin> set (map fst new)) old"

definition r_hsetWithTtl ::
  "string \<Rightarrow> (string \<times> string) list \<Rightarrow> int option \<Rightarrow> int \<Rightarrow> redis \<Rightarrow> exn + (unit \<times> redis)" where
  "r_hsetWithTtl k fs ttl t r =
     (case live t r k of
        Some (RHash old) \<Rightarrow>
          Inr ((), r(k \<mapsto> (RHash (hset_fields fs old),
            (if deadline t ttl = None then (case r k of Some (_, e) \<Rightarrow> e | None \<Rightarrow> None)
             else deadline t ttl))))
      | None \<Rightarrow> Inr ((), r(k \<mapsto> (RHash (hset_fields fs []), deadline t ttl)))
      | Some _ \<Rightarrow> Inl wrongtype)"

definition r_sadd :: "string \<Rightarrow> string \<Rightarrow> int \<Rightarrow> redis \<Rightarrow> exn + (unit \<times> redis)" where
  "r_sadd k m t r =
     (case live t r k of
        None \<Rightarrow> Inr ((), r(k \<mapsto> (RSet [m], None)))
      | Some (RSet ms) \<Rightarrow>
          Inr ((), r(k \<mapsto> (RSet (if m \<in> set ms then ms else ms @ [m]), (case r k of Some (_, e) \<Rightarrow> e | None \<Rightarrow> None))))
      | Some _ \<Rightarrow> Inl wrongtype)"

definition r_srem :: "string \<Rightarrow> string \<Rightarrow> int \<Rightarrow> redis \<Rightarrow> exn + (unit \<times> redis)" where
  "r_srem k m t r =
     (case live t r k of
        None \<Rightarrow> Inr ((), r)
      | Some (RSet ms) \<Rightarrow>
          (let ms' = filter (\<lambda>x. x \<noteq> m) ms
           in Inr ((), if ms' = [] then r(k := None)
                       else r(k \<mapsto> (RSet ms', (case r k of Some (_, e) \<Rightarrow> e | None \<Rightarrow> None)))))
      | Some _ \<Rightarrow> Inl wrongtype)"

definition r_sismember :: "string \<Rightarrow> string \<Rightarrow> int \<Rightarrow> redis \<Rightarrow> exn + (bool \<times> redis)" where
  "r_sismember k m t r =
     (case live t r k of
        None \<Rightarrow> Inr (False, r)
      | Some (RSet ms) \<Rightarrow> Inr (m \<in> set ms, r)
      | Some _ \<Rightarrow> Inl wrongtype)"

definition r_geoadd :: "string \<Rightarrow> int \<Rightarrow> int \<Rightarrow> string \<Rightarrow> int \<Rightarrow> redis \<Rightarrow> exn + (unit \<times> redis)" where
  "r_geoadd k lng lat m t r =
     (case live t r k of
        None \<Rightarrow> Inr ((), r(k \<mapsto> (RGeo [(m, (lng, lat))], None)))
      | Some (RGeo ps) \<Rightarrow>
          Inr ((), r(k \<mapsto> (RGeo (filter (\<lambda>(x, _). x \<noteq> m) ps @ [(m, (lng, lat))]),
            (case r k of Some (_, e) \<Rightarrow> e | None \<Rightarrow> None))))
      | Some _ \<Rightarrow> Inl wrongtype)"

definition r_zrem :: "string \<Rightarrow> string \<Rightarrow> int \<Rightarrow> redis \<Rightarrow> exn + (unit \<times> redis)" where
  "r_zrem k m t r =
     (case live t r k of
        None \<Rightarrow> Inr ((), r)
      | Some (RGeo ps) \<Rightarrow>
          (let ps' = filter (\<lambda>(x, _). x \<noteq> m) ps
           in Inr ((), if ps' = [] then r(k := None)
                       else r(k \<mapsto> (RGeo ps', (case r k of Some (_, e) \<Rightarrow> e | None \<Rightarrow> None)))))
      | Some _ \<Rightarrow> Inl wrongtype)"

text \<open>\<open>GEOSEARCH .. BYRADIUS .. ASC COUNT n\<close>: the nearest members within the radius.\<close>

definition r_geosearch ::
  "(int \<times> int \<Rightarrow> int \<times> int \<Rightarrow> int) \<Rightarrow> string \<Rightarrow> int \<Rightarrow> int \<Rightarrow> int \<Rightarrow> nat \<Rightarrow> int \<Rightarrow> redis \<Rightarrow>
   exn + (string list \<times> redis)" where
  "r_geosearch metric k lng lat radius count t r =
     (if count = 0 then Inl (JsError ''ERR COUNT must be > 0'')
      else (case live t r k of
        None \<Rightarrow> Inr ([], r)
      | Some (RGeo ps) \<Rightarrow>
          Inr (take count (map fst (sort_key (\<lambda>(_, p). metric (lng, lat) p)
                 (filter (\<lambda>(_, p). metric (lng, lat) p \<le> radius) ps))), r)
      | Some _ \<Rightarrow> Inl wrongtype))"

subsection \<open>Methods of RedisCacheProvider\<close>

definition redisOp :: "(int \<Rightarrow> redis \<Rightarrow> exn + ('a \<times> redis)) \<Rightarrow> 'a io" where
  "redisOp f w =
     (case redisFault (ext w) (steps w) of
        Some msg \<Rightarrow> (Inl (JsError msg), tick w)
      | None \<Rightarrow>
          (case f (clock w) (redis w) of
             Inl e \<Rightarrow> (Inl e, tick w)
           | Inr (x, r) \<Rightarrow> (Inr x, (tick w)\<lparr>redis := r\<rparr>)))"

definition cache_get :: "string \<Rightarrow> rtext option io" where
  "cache_get k = redisOp (r_get k)"

definition cache_set :: "string \<Rightarrow> rtext \<Rightarrow> int option \<Rightarrow> unit io" where
  "cache_set k v ttl = redisOp (r_set k v ttl)"

definition cache_del :: "string \<Rightarrow> int io" where
  "cache_del k = redisOp (r_del k)"

definition cache_trySet :: "string \<Rightarrow> rtext \<Rightarrow> int option \<Rightarrow> bool io" where
  "cache_trySet k v ttl = redisOp (r_trySet k v ttl)"

definition cache_exists :: "string \<Rightarrow> bool io" where
  "cache_exists k = redisOp (r_exists k)"

definition cache_incr :: "string \<Rightarrow> int io" where
  "cache_incr k = redisOp (r_incr k)"

definition cache_expire :: "string \<Rightarrow> int \<Rightarrow> unit io" where
  "cache_expire k ttl = redisOp (r_expire k ttl)"

definition cache_ttl :: "string \<Rightarrow> int io" where
  "cache_ttl k = redisOp (r_ttl k)"

definition cache_hsetWithTtl :: "string \<Rightarrow> (string \<times> string) list \<Rightarrow> int option \<Rightarrow> unit io" where
  "cache_hsetWithTtl k fs ttl = redisOp (r_hsetWithTtl k fs ttl)"

definition cache_sadd :: "string \<Rightarrow> string \<Rightarrow> unit io" where
  "cache_sadd k m = redisOp (r_sadd k m)"

definition cache_srem :: "string \<Rightarrow> string \<Rightarrow> unit io" where
  "cache_srem k m = redisOp (r_srem k m)"

definition cache_sismember :: "string \<Rightarrow> string \<Rightarrow> bool io" where
  "cache_sismember k m = redisOp (r_sismember k m)"

definition cache_geoadd :: "string \<Rightarrow> int \<Rightarrow> int \<Rightarrow> string \<Rightarrow> unit io" where
  "cache_geoadd k lng lat m = redisOp (r_geoadd k lng lat m)"

definition cache_zrem :: "string \<Rightarrow> string \<Rightarrow> unit io" where
  "cache_zrem k m = redisOp (r_zrem k m)"

definition cache_geosearchByRadius :: "string \<Rightarrow> int \<Rightarrow> int \<Rightarrow> int \<Rightarrow> nat \<Rightarrow> string list io" where
  "cache_geosearchByRadius k lng lat radius count w =
     redisOp (r_geosearch (geoDistance (ext w)) k lng lat radius count) w"

lemmas cache_defs = cache_get_def cache_set_def cache_del_def cache_trySet_def cache_exists_def
  cache_incr_def cache_expire_def cache_ttl_def cache_hsetWithTtl_def cache_sadd_def cache_srem_def
  cache_sismember_def cache_geoadd_def cache_zrem_def

context quiet_relation begin

lemma moves_redisOp: "moves R (redisOp f)"
proof (rule movesI)
  fix w r w'
  assume "redisOp f w = (r, w')"
  then show "R w w'"
    using R_trans [OF R_tick R_redis, of w] R_tick [of w]
    by (auto simp: redisOp_def split: option.splits sum.splits)
qed

lemma moves_cache [moves_intro]:
  "moves R (cache_get k)" "moves R (cache_set k v ttl)" "moves R (cache_del k)"
  "moves R (cache_trySet k v ttl)" "moves R (cache_exists k)"
  "moves R (cache_incr k)" "moves R (cache_expire k n)" "moves R (cache_ttl k)"
  "moves R (cache_hsetWithTtl k fs ttl)" "moves R (cache_sadd k m)"
  "moves R (cache_srem k m)" "moves R (cache_sismember k m)"
  "moves R (cache_geoadd k x y m)" "moves R (cache_zrem k m)"
  by (simp_all add: cache_defs moves_redisOp)

lemma moves_geosearch [moves_intro]: "moves R (cache_geosearchByRadius k x y rad n)"
  by (rule movesI) (metis cache_geosearchByRadius_def moves_redisOp movesD)

end

subsection \<open>The locking contract\<close>

text \<open>
  \<open>lookup t r k\<close> is the live value of a key, \<open>acquire\<close> is \<open>trySet\<close> with a positive time to live in
  seconds, \<open>release\<close> is \<open>del\<close>.
\<close>

locale cache_provider =
  fixes lookup :: "int \<Rightarrow> 'r \<Rightarrow> string \<Rightarrow> 'v option"
    and acquire :: "string \<Rightarrow> 'u \<Rightarrow> int \<Rightarrow> int \<Rightarrow> 'r \<Rightarrow> bool \<times> 'r"
    and release :: "string \<Rightarrow> 'r \<Rightarrow> 'r"
  assumes acquire_free: "lookup t r k = None \<Longrightarrow> fst (acquire k v ttl t r)"
    and acquire_held: "lookup t r k \<noteq> None \<Longrightarrow> acquire k v ttl t r = (False, r)"
    and acquire_lookup: "fst (acquire k v ttl t r) \<Longrightarrow> 0 < ttl \<Longrightarrow> t \<le> t' \<Longrightarrow>
      lookup t' (snd (acquire k v ttl t r)) k \<noteq> None \<longleftrightarrow> t' < t + 1000 * ttl"
    and acquire_other: "k' \<noteq> k \<Longrightarrow> lookup t' (snd (acquire k v ttl t r)) k' = lookup t' r k'"
    and release_free: "lookup t (release k r) k = None"
    and release_other: "k' \<noteq> k \<Longrightarrow> lookup t (release k r) k' = lookup t r k'"
begin

text \<open>A number of attempts on one key, each at its own instant and with its own value.\<close>

fun attempts_on :: "string \<Rightarrow> int \<Rightarrow> (int \<times> 'u) list \<Rightarrow> 'r \<Rightarrow> bool list" where
  "attempts_on k ttl [] r = []"
| "attempts_on k ttl ((t, v) # xs) r =
     fst (acquire k v ttl t r) # attempts_on k ttl xs (snd (acquire k v ttl t r))"

lemma attempts_all_lose:
  "\<forall>(t, v)\<in>set xs. lookup t r k \<noteq> None \<Longrightarrow> attempts_on k ttl xs r = replicate (length xs) False"
  by (induction xs) (auto simp: acquire_held)

text \<open>Exactly the first attempt wins while the lock of the winner lives.\<close>

lemma attempts_one_winner:
  assumes free: "lookup t r k = None" and ttl: "0 < ttl"
    and window: "\<forall>(t', v)\<in>set xs. t \<le> t' \<and> t' < t + 1000 * ttl"
  shows "attempts_on k ttl ((t, v) # xs) r = True # replicate (length xs) False"
proof -
  have win: "fst (acquire k v ttl t r)" using free by (rule acquire_free)
  have "\<forall>(t', v')\<in>set xs. lookup t' (snd (acquire k v ttl t r)) k \<noteq> None"
    using window acquire_lookup [OF win ttl] by auto
  then show ?thesis using win by (simp add: attempts_all_lose)
qed

text \<open>After a release, or after the time to live, the lock is free again.\<close>

lemma acquire_after_release: "fst (acquire k v ttl t (release k r))"
  by (rule acquire_free) (rule release_free)

lemma acquire_after_expiry:
  assumes "fst (acquire k v ttl t r)" and "0 < ttl" and "t + 1000 * ttl \<le> t'"
  shows "fst (acquire k u ttl t' (snd (acquire k v ttl t r)))"
  using acquire_lookup [OF assms(1,2), of t'] assms(2,3) by (intro acquire_free) auto

end

definition acquire_lock :: "string \<Rightarrow> rtext \<Rightarrow> int \<Rightarrow> int \<Rightarrow> redis \<Rightarrow> bool \<times> redis" where
  "acquire_lock k v ttl t r =
     (case r_trySet k v (Some ttl) t r of Inl _ \<Rightarrow> (live t r k = None, r) | Inr x \<Rightarrow> x)"

definition release_lock :: "string \<Rightarrow> redis \<Rightarrow> redis" where
  "release_lock k r = r(k := None)"

interpretation redis_lock: cache_provider live acquire_lock release_lock
proof (unfold_locales, goal_cases)
  case (1 t r k v ttl)
  then show ?case by (simp add: acquire_lock_def r_trySet_def)
next
  case (2 t r k v ttl)
  then show ?case by (auto simp: acquire_lock_def r_trySet_def)
next
  case (3 k v ttl t r t')
  then have "live t r k = None"
    by (auto simp: acquire_lock_def r_trySet_def split: if_splits)
  with 3 show ?case
    by (auto simp: acquire_lock_def r_trySet_def bad_ttl_def live_def deadline_def expired_def)
next
  case (4 k' k t' v ttl t r)
  then show ?case by (simp add: acquire_lock_def r_trySet_def live_def)
next
  case (5 t k r)
  then show ?case by (simp add: release_lock_def live_def)
next
  case (6 k' k t r)
  then show ?case by (simp add: release_lock_def live_def)
qed

lemma r_trySet_acquire: "0 \<le> ttl \<Longrightarrow> r_trySet k v (Some ttl) t r = Inr (acquire_lock k v ttl t r)"
  by (simp add: acquire_lock_def r_trySet_def bad_ttl_def)

lemma r_del_release: "r_del k t r = Inr (if live t r k = None then 0 else 1, release_lock k r)"
  by (simp add: r_del_def release_lock_def)

lemmas run_Cache [run] =
  cache_defs redisOp_def r_get_def r_set_def r_del_def r_trySet_def r_exists_def r_incr_def
  r_expire_def r_ttl_def r_hsetWithTtl_def hset_fields_def r_sadd_def r_srem_def r_sismember_def
  r_geoadd_def r_zrem_def r_geosearch_def cache_geosearchByRadius_def live_def expired_def
  bad_ttl_def deadline_def

end
