(* ===== verification/CoreClient.thy ===== *)
theory CoreClient
  imports Cache
begin

section \<open>The client of core-service\<close>

text \<open>
  \<open>src/lib/core-client\<close>: the HTTP client with its retries (\<open>core-client.ts\<close>), the read-through caches
  of branches and products and the stock calls (\<open>branch.client.ts\<close>), addresses
  (\<open>address.client.ts\<close>) and permissions (\<open>rbac.client.ts\<close>). What core-service answers to an attempt is
  given by \<open>outside\<close>. The concurrent cache reads of a batch (\<open>Promise.all\<close>) are run in the order of the
  list. A cached product that has a name is a full row: entries are written whole from an answer of
  core-service and events only overwrite single fields of them.
\<close>

subsection \<open>core-client.ts\<close>

text \<open>What an attempt yields. The answer of a 204 is \<open>undefined\<close>.\<close>

definition http_outcome :: "'a http \<Rightarrow> exn + 'a option" where
  "http_outcome res =
     (case res of
        Unreachable \<Rightarrow> Inl coreServiceUnavailableError
      | Response status body data \<Rightarrow>
          if 500 \<le> status then Inl coreServiceUnavailableError
          else if status < 200 \<or> 299 < status then Inl (coreUpstreamError status body)
          else if status = 204 then Inr None
          else (case data of
                  None \<Rightarrow> Inl (JsError ''Unexpected end of JSON input'')
                | Some d \<Rightarrow> Inr (Some d)))"

definition fetchOnce ::
  "(outside \<Rightarrow> nat \<Rightarrow> core_request \<Rightarrow> 'a http) \<Rightarrow> core_request \<Rightarrow> 'a option io" where
  "fetchOnce answer req =
     seqE (emit (CoreHttp req)) (\<lambda>w. (http_outcome (answer (ext w) (steps w) req), tick w))"

definition core_isRetryable :: "exn \<Rightarrow> bool" where
  "core_isRetryable err = (case err of AppError _ c _ \<Rightarrow> c = 503 | _ \<Rightarrow> False)"

definition core_retry_options :: "exn retry_options" where
  "core_retry_options =
     \<lparr>attempts = 3, initialDelayMs = 50, maxDelayMs = 500, isRetryable = Some core_isRetryable\<rparr>"

definition sleepIo :: "int \<Rightarrow> unit io" where
  "sleepIo d = emit (Sleep d)"

definition core_request_io ::
  "(outside \<Rightarrow> nat \<Rightarrow> core_request \<Rightarrow> 'a http) \<Rightarrow> core_request \<Rightarrow> 'a option io" where
  "core_request_io answer req =
     retry sleepIo (JsError ''undefined'') (fetchOnce answer req) core_retry_options"

text \<open>\<open>res.data\<close>\<close>

definition envelope_data :: "'a option \<Rightarrow> 'a io" where
  "envelope_data r =
     (case r of None \<Rightarrow> throwE (JsError ''Cannot read properties of undefined (reading data)'') | Some d \<Rightarrow> returnE d)"

definition core_get :: "string \<Rightarrow> string option \<Rightarrow> core_request" where
  "core_get path correlationId =
     \<lparr>rq_method = ''GET'', rq_path = path, rq_items = [], rq_idempotencyKey = None,
      rq_correlationId = correlationId\<rparr>"

definition core_post :: "string \<Rightarrow> stock_item list \<Rightarrow> string option \<Rightarrow> string option \<Rightarrow> core_request" where
  "core_post path items idempotencyKey correlationId =
     \<lparr>rq_method = ''POST'', rq_path = path, rq_items = items, rq_idempotencyKey = idempotencyKey,
      rq_correlationId = correlationId\<rparr>"

text \<open>\<open>encodeURIComponent\<close> on 8-bit text.\<close>

definition unreserved :: "char \<Rightarrow> bool" where
  "unreserved c =
     (let k = of_char c :: nat
      in (48 \<le> k \<and> k \<le> 57) \<or> (65 \<le> k \<and> k \<le> 90) \<or> (97 \<le> k \<and> k \<le> 122) \<or>
         k \<in> {33, 39, 40, 41, 42, 45, 46, 95, 126})"

definition hex_digit :: "nat \<Rightarrow> char" where
  "hex_digit d = (if d < 10 then char_of (48 + d) else char_of (55 + d))"

definition encodeURIComponent :: "string \<Rightarrow> string" where
  "encodeURIComponent s =
     concat (map (\<lambda>c. if unreserved c then [c]
                      else [CHR ''%'', hex_digit (of_char c div 16), hex_digit (of_char c mod 16)]) s)"

subsection \<open>branch.client.ts: branches\<close>

definition BRANCH_CACHE_TTL :: int where "BRANCH_CACHE_TTL = toSeconds 1 H"
definition PRODUCT_CACHE_TTL :: int where "PRODUCT_CACHE_TTL = toSeconds 1 H"

definition branchCacheKey :: "int \<Rightarrow> string" where
  "branchCacheKey branchId = ''core:branch:'' @ string_of_int branchId"

definition productCacheKey :: "int \<Rightarrow> int \<Rightarrow> string" where
  "productCacheKey branchId productId =
     ''core:branch:'' @ string_of_int branchId @ '':product:'' @ string_of_int productId"

text \<open>\<open>promise.catch(() => ..)\<close>\<close>

definition ignoring :: "unit io \<Rightarrow> unit io" where
  "ignoring m = tryCatch m (\<lambda>_. returnE ())"

definition getBranch :: "int \<Rightarrow> string option \<Rightarrow> core_branch io" where
  "getBranch branchId correlationId =
     bindE (cache_get (branchCacheKey branchId)) (\<lambda>cached.
     (case cached of
        Some (BranchText b) \<Rightarrow> returnE b
      | _ \<Rightarrow>
          bindE (core_request_io coreBranch
                  (core_get (''/api/internal/branches/'' @ string_of_int branchId) correlationId)) (\<lambda>res.
          bindE (envelope_data res) (\<lambda>b.
          seqE (ignoring (cache_set (branchCacheKey branchId) (BranchText b) (Some BRANCH_CACHE_TTL)))
               (returnE b)))))"

text \<open>\<open>Array.from(new Set(xs))\<close> keeps first occurrences.\<close>

definition uniqueIds :: "int list \<Rightarrow> int list" where
  "uniqueIds xs = rev (remdups (rev xs))"

fun readBranches :: "int list \<Rightarrow> ((int \<times> core_branch) list \<times> int list) io" where
  "readBranches [] = returnE ([], [])"
| "readBranches (i # is) =
     bindE (cache_get (branchCacheKey i)) (\<lambda>raw.
     bindE (readBranches is) (\<lambda>(hits, misses).
     returnE (case raw of Some (BranchText b) \<Rightarrow> ((i, b) # hits, misses) | _ \<Rightarrow> (hits, i # misses))))"

fun writeBranches :: "core_branch list \<Rightarrow> unit io" where
  "writeBranches [] = returnE ()"
| "writeBranches (b # bs) =
     seqE (ignoring (cache_set (branchCacheKey (cb_id b)) (BranchText b) (Some BRANCH_CACHE_TTL)))
          (writeBranches bs)"

text \<open>The \<open>Map\<close> is given by its entries; later entries overwrite earlier ones.\<close>

definition getBranchesByIds :: "int list \<Rightarrow> string option \<Rightarrow> (int \<rightharpoonup> core_branch) io" where
  "getBranchesByIds branchIds correlationId =
     (if branchIds = [] then returnE Map.empty
      else
        bindE (readBranches (uniqueIds branchIds)) (\<lambda>(hits, misses).
        if misses = [] then returnE (map_of hits)
        else
          bindE (core_request_io coreBranches
                  (core_get (''/api/internal/branches?ids='' @
                     encodeURIComponent (joinIds misses)) correlationId)) (\<lambda>res.
          bindE (envelope_data res) (\<lambda>bs.
          seqE (writeBranches bs)
               (returnE (map_of hits ++ map_of (rev (map (\<lambda>b. (cb_id b, b)) bs))))))))"

subsection \<open>branch.client.ts: products and stock\<close>

definition patch_of_product :: "core_product \<Rightarrow> product_patch" where
  "patch_of_product p =
     \<lparr>pp_productId = Some (cp_productId p), pp_name = Some (cp_name p), pp_imageUrl = Some (cp_imageUrl p),
      pp_price = Some (cp_price p), pp_stock = Some (cp_stock p), pp_isAvailable = Some (cp_isAvailable p)\<rparr>"

definition product_of_patch :: "product_patch \<Rightarrow> core_product option" where
  "product_of_patch p =
     (case (pp_productId p, pp_name p, pp_imageUrl p, pp_price p, pp_stock p, pp_isAvailable p) of
        (Some i, Some n, Some u, Some c, Some s, Some a) \<Rightarrow>
          Some \<lparr>cp_productId = i, cp_name = n, cp_imageUrl = u, cp_price = c, cp_stock = s, cp_isAvailable = a\<rparr>
      | _ \<Rightarrow> None)"

lemma product_of_patch_of [simp]: "product_of_patch (patch_of_product p) = Some p"
  by (simp add: product_of_patch_def patch_of_product_def)

fun readProducts :: "int \<Rightarrow> int list \<Rightarrow> (core_product list \<times> int list) io" where
  "readProducts branchId [] = returnE ([], [])"
| "readProducts branchId (i # is) =
     bindE (cache_get (productCacheKey branchId i)) (\<lambda>raw.
     bindE (readProducts branchId is) (\<lambda>(hits, misses).
     returnE (case raw of
                Some (ProductText pp) \<Rightarrow>
                  (case product_of_patch pp of Some p \<Rightarrow> (p # hits, misses) | None \<Rightarrow> (hits, i # misses))
              | _ \<Rightarrow> (hits, i # misses))))"

fun writeProducts :: "int \<Rightarrow> core_product list \<Rightarrow> unit io" where
  "writeProducts branchId [] = returnE ()"
| "writeProducts branchId (p # ps) =
     seqE (ignoring (cache_set (productCacheKey branchId (cp_productId p)) (ProductText (patch_of_product p))
             (Some PRODUCT_CACHE_TTL)))
          (writeProducts branchId ps)"

definition getBranchProducts :: "int \<Rightarrow> int list \<Rightarrow> string option \<Rightarrow> core_product list io" where
  "getBranchProducts branchId productIds correlationId =
     (if productIds = [] then returnE []
      else
        bindE (readProducts branchId (uniqueIds productIds)) (\<lambda>(cached, misses).
        if misses = [] then returnE cached
        else
          bindE (core_request_io coreProducts
                  (core_get (''/api/internal/branches/'' @ string_of_int branchId @ ''/products?ids='' @
                     encodeURIComponent (joinIds misses)) correlationId)) (\<lambda>res.
          bindE (envelope_data res) (\<lambda>ps.
          seqE (writeProducts branchId ps) (returnE (cached @ ps))))))"

definition reserveStock :: "int \<Rightarrow> stock_item list \<Rightarrow> string option \<Rightarrow> string option \<Rightarrow> unit io" where
  "reserveStock branchId items idempotencyKey correlationId =
     bindE (core_request_io coreStock
             (core_post (''/api/internal/branches/'' @ string_of_int branchId @ ''/reserve-stock'')
                items idempotencyKey correlationId))
       envelope_data"

definition releaseStock :: "int \<Rightarrow> stock_item list \<Rightarrow> string option \<Rightarrow> string option \<Rightarrow> unit io" where
  "releaseStock branchId items idempotencyKey correlationId =
     bindE (core_request_io coreStock
             (core_post (''/api/internal/branches/'' @ string_of_int branchId @ ''/release-stock'')
                items idempotencyKey correlationId))
       envelope_data"

subsection \<open>address.client.ts and rbac.client.ts\<close>

definition getCustomerAddress :: "int \<Rightarrow> string option \<Rightarrow> core_address io" where
  "getCustomerAddress addressId correlationId =
     bindE (core_request_io coreAddress
             (core_get (''/api/customer/addresses/internal/'' @ string_of_int addressId) correlationId))
       envelope_data"

fun joinText :: "string \<Rightarrow> string list \<Rightarrow> string" where
  "joinText sep [] = []"
| "joinText sep [s] = s"
| "joinText sep (s # t # ss) = s @ sep @ joinText sep (t # ss)"

definition flattenAddress :: "core_address \<Rightarrow> string" where
  "flattenAddress a =
     joinText '', '' (filter (\<lambda>s. s \<noteq> []) [ca_building a, ca_street a, ca_city a, ca_country a])"

definition getPermissionsByRole :: "string \<Rightarrow> string list io" where
  "getPermissionsByRole role =
     bindE (core_request_io corePermissions
             (core_get (''/api/internal/rbac/permissions?role='' @ encodeURIComponent role) None)) (\<lambda>res.
     bindE (envelope_data res) (\<lambda>d.
     returnE (case d of None \<Rightarrow> [] | Some ps \<Rightarrow> ps)))"

subsection \<open>No call of the client writes a database\<close>

lemma moves_case_rtext [moves_intro]:
  "\<lbrakk>\<And>s. moves R (f s); \<And>b. moves R (g b); \<And>p. moves R (h p); \<And>j. moves R (k j)\<rbrakk> \<Longrightarrow>
   moves R (case v of Text s \<Rightarrow> f s | BranchText b \<Rightarrow> g b | ProductText p \<Rightarrow> h p | BodyText j \<Rightarrow> k j)"
  by (cases v) auto

context quiet_relation begin

lemma moves_fetchOnce [moves_intro]: "moves R (fetchOnce answer req)"
  unfolding fetchOnce_def
  by (intro moves_intro) (auto intro!: movesI R_tick)

lemma moves_core_request [moves_intro]: "moves R (core_request_io answer req)"
  unfolding core_request_io_def sleepIo_def by (intro moves_intro)

lemma moves_envelope [moves_intro]: "moves R (envelope_data r)"
  unfolding envelope_data_def by (intro moves_intro)

lemma moves_ignoring [moves_intro]: "moves R m \<Longrightarrow> moves R (ignoring m)"
  unfolding ignoring_def by (intro moves_intro)

lemma moves_getBranch [moves_intro]: "moves R (getBranch i c)"
  unfolding getBranch_def by (intro moves_intro)

lemma moves_readBranches [moves_intro]: "moves R (readBranches is)"
  by (induction "is") (auto simp only: readBranches.simps intro!: moves_intro)

lemma moves_writeBranches [moves_intro]: "moves R (writeBranches bs)"
  by (induction bs) (auto simp only: writeBranches.simps intro!: moves_intro)

lemma moves_getBranchesByIds [moves_intro]: "moves R (getBranchesByIds is c)"
  unfolding getBranchesByIds_def by (intro moves_intro)

lemma moves_readProducts [moves_intro]: "moves R (readProducts b is)"
  by (induction "is") (auto simp only: readProducts.simps intro!: moves_intro)

lemma moves_writeProducts [moves_intro]: "moves R (writeProducts b ps)"
  by (induction ps) (auto simp only: writeProducts.simps intro!: moves_intro)

lemma moves_getBranchProducts [moves_intro]: "moves R (getBranchProducts b is c)"
  unfolding getBranchProducts_def by (intro moves_intro)

lemma moves_stock [moves_intro]:
  "moves R (reserveStock b is k c)" "moves R (releaseStock b is k c)"
  unfolding reserveStock_def releaseStock_def by (intro moves_intro)+

lemma moves_address [moves_intro]: "moves R (getCustomerAddress i c)"
  unfolding getCustomerAddress_def by (intro moves_intro)

lemma moves_permissions [moves_intro]: "moves R (getPermissionsByRole r)"
  unfolding getPermissionsByRole_def by (intro moves_intro)

end

lemma core_request_run:
  "core_request_io answer req w =
     (let o' = \<lambda>k. http_outcome (answer (ext w) (steps w + k) req);
          again = \<lambda>k. (case o' k of Inl e \<Rightarrow> e = coreServiceUnavailableError | Inr _ \<Rightarrow> False);
          n = (if \<not> again 0 then 0 else if \<not> again 1 then 1 else 2)
      in (o' n, w\<lparr>steps := steps w + n + 1,
            trace := trace w @ take (2 * n + 1) [CoreHttp req, Sleep 50, CoreHttp req, Sleep 100, CoreHttp req]\<rparr>))"
proof -
  have r: "core_isRetryable e \<longleftrightarrow> e = coreServiceUnavailableError" if "http_outcome h = Inl e" for e and h :: "'a http"
    using that
    by (auto simp: http_outcome_def core_isRetryable_def coreServiceUnavailableError_def coreUpstreamError_def
        appError_def split: http.splits if_splits option.splits)
  have f: "fetchOnce answer req v = (http_outcome (answer (ext v) (steps v) req),
      v\<lparr>steps := Suc (steps v), trace := trace v @ [CoreHttp req]\<rparr>)" for v
    by (simp add: fetchOnce_def seqE_def bindE_def emit_def tick_def)
  show ?thesis
    by (auto simp: core_request_io_def retry_def core_retry_options_def eval_nat_numeral tryCatch_def f r
        sleepIo_def emit_def seqE_def bindE_def Let_def split: sum.splits dest: r)
qed

lemma core_request_trace:
  "\<exists>es. trace (snd (core_request_io answer req w)) = trace w @ CoreHttp req # es"
  unfolding core_request_run Let_def by (simp add: take_Cons')

text \<open>C16: a request to core-service makes at most three attempts, with pauses of 50 and 100 ms between
  them; only an unavailable core-service (no answer or a 5xx status, always reported as the documented
  503) is tried again, and the result is that of the last attempt made.\<close>

theorem core_request_attempts:
  "core_request_io answer req w =
     (let o' = \<lambda>k. http_outcome (answer (ext w) (steps w + k) req);
          again = \<lambda>k. (case o' k of Inl e \<Rightarrow> e = coreServiceUnavailableError | Inr _ \<Rightarrow> False);
          n = (if \<not> again 0 then 0 else if \<not> again 1 then 1 else 2)
      in (o' n, w\<lparr>steps := steps w + n + 1,
            trace := trace w @ take (2 * n + 1) [CoreHttp req, Sleep 50, CoreHttp req, Sleep 100, CoreHttp req]\<rparr>))"
  by (rule core_request_run)

lemmas run_CoreClient [run] =
  fetchOnce_def http_outcome_def core_retry_options_def core_isRetryable_def sleepIo_def
  core_request_io_def envelope_data_def ignoring_def getBranch_def getBranchProducts_def
  uniqueIds_def reserveStock_def releaseStock_def getCustomerAddress_def getPermissionsByRole_def
  eval_nat_numeral

end
