(* ===== verification/Access.thy ===== *)
theory Access
  imports CoreClient
begin

section \<open>Who may do what\<close>

text \<open>
  \<open>src/lib/auth\<close> (token extraction, role guards, \<open>rbac\<close>, the internal API key), the permission cache of
  \<open>src/lib/rbac\<close>, and the access checks of \<open>order.service.ts\<close>: \<open>canReadArchive\<close>, \<open>assertReadAccess\<close>,
  \<open>resolveStatusActor\<close>, \<open>assertRestaurantMemberPermission\<close>. A guard either passes (\<open>Next\<close>) or answers with
  a status and an error text. The verification of a JWT is \<open>jsonwebtoken\<close>'s and is a parameter.
\<close>

subsection \<open>Actors\<close>

record actor =
  ac_userId :: int
  ac_role :: string
  ac_restaurantId :: "int option"
  ac_restaurantRole :: "string option"
  ac_branchIds :: "int list option"

definition SYSTEM_ADMIN :: string where "SYSTEM_ADMIN = ''system_admin''"
definition RESTAURANT_USER :: string where "RESTAURANT_USER = ''restaurant_user''"
definition DELIVERY_AGENT :: string where "DELIVERY_AGENT = ''delivery_agent''"
definition OWNER :: string where "OWNER = ''owner''"

lemmas role_defs = SYSTEM_ADMIN_def RESTAURANT_USER_def DELIVERY_AGENT_def OWNER_def

definition branch_list :: "actor \<Rightarrow> int list" where
  "branch_list a = (case ac_branchIds a of None \<Rightarrow> [] | Some bs \<Rightarrow> bs)"

subsection \<open>guard.ts and api-key.ts\<close>

definition startsWith :: "string \<Rightarrow> string \<Rightarrow> bool" where
  "startsWith s p \<longleftrightarrow> take (length p) s = p"

definition extractToken :: "string option \<Rightarrow> string option \<Rightarrow> string option" where
  "extractToken cookie authorization =
     (if cookie \<noteq> None \<and> cookie \<noteq> Some [] then cookie
      else (case authorization of
              Some h \<Rightarrow> if startsWith h ''Bearer '' then Some (trim (drop (length ''Bearer '') h)) else None
            | None \<Rightarrow> None))"

text \<open>\<open>verify\<close> is \<open>jwt.verify\<close> with the access secret; \<open>None\<close> is its exception.\<close>

definition authenticate :: "(string \<Rightarrow> actor option) \<Rightarrow> string option \<Rightarrow> string option \<Rightarrow> exn + actor" where
  "authenticate verify cookie authorization =
     (case extractToken cookie authorization of
        None \<Rightarrow> Inl NotAuthenticated
      | Some token \<Rightarrow>
          if token = [] then Inl NotAuthenticated
          else (case verify token of None \<Rightarrow> Inl NotAuthenticated | Some a \<Rightarrow> Inr a))"

datatype guard = Next | Respond int string

definition requireInternalApiKey :: "env \<Rightarrow> string option \<Rightarrow> guard" where
  "requireInternalApiKey e header =
     (if internalApiKey e = [] then Respond 500 ''Internal api key not configured''
      else if header \<noteq> Some (internalApiKey e) then Respond 401 ''Invalid api key''
      else Next)"

subsection \<open>rbac.ts\<close>

definition requireAgent :: "actor option \<Rightarrow> guard" where
  "requireAgent user =
     (case user of
        None \<Rightarrow> Respond 401 ''User not authenticated''
      | Some a \<Rightarrow> if ac_role a \<noteq> DELIVERY_AGENT then Respond 403 ''Agent role required'' else Next)"

definition requireSystemAdmin :: "actor option \<Rightarrow> guard" where
  "requireSystemAdmin user =
     (case user of
        None \<Rightarrow> Respond 401 ''User not authenticated''
      | Some a \<Rightarrow> if ac_role a \<noteq> SYSTEM_ADMIN then Respond 403 ''system_admin role required'' else Next)"

text \<open>The parameter \<open>Number(req.params[paramName])\<close>; \<open>None\<close> is \<open>NaN\<close>.\<close>

definition requireRestaurantMember :: "actor option \<Rightarrow> int option \<Rightarrow> guard" where
  "requireRestaurantMember user param =
     (case param of
        None \<Rightarrow> Respond 400 ''missing restaurantId''
      | Some restaurantId \<Rightarrow>
          if restaurantId = 0 then Respond 400 ''missing restaurantId''
          else if map_option ac_role user = Some SYSTEM_ADMIN then Next
          else if Option.bind user ac_restaurantId \<noteq> Some restaurantId then Respond 403 ''Permission denied''
          else Next)"

text \<open>\<open>Number(req.params[p]) || Number(req.query[p])\<close>: a missing or zero branch id passes.\<close>

definition requireBranchAccess :: "actor option \<Rightarrow> int option \<Rightarrow> int option \<Rightarrow> guard" where
  "requireBranchAccess user param q =
     (if map_option ac_role user = Some SYSTEM_ADMIN then Next
      else if Option.bind user ac_restaurantRole = Some OWNER then Next
      else
        (let branchId = (if param = None \<or> param = Some 0 then q else param)
         in case branchId of
              None \<Rightarrow> Next
            | Some b \<Rightarrow>
                if b = 0 then Next
                else if b \<in> set (case user of None \<Rightarrow> [] | Some a \<Rightarrow> branch_list a) then Next
                else Respond 403 ''You do not have access to this branch''))"

subsection \<open>permission-cache.service.ts\<close>

definition PERMISSION_TTL :: int where
  "PERMISSION_TTL = toMs 1 H"

text \<open>A missing restaurant role is looked up as \<open>undefined\<close>.\<close>

definition role_name :: "string option \<Rightarrow> string" where
  "role_name r = (case r of None \<Rightarrow> ''undefined'' | Some s \<Rightarrow> s)"

definition getPermissions :: "string \<Rightarrow> string list io" where
  "getPermissions roleName =
     bindE (getE (\<lambda>w. permCache w roleName)) (\<lambda>cached.
     bindE now (\<lambda>t.
     if (case cached of None \<Rightarrow> False | Some (_, cachedAt) \<Rightarrow> t - cachedAt < PERMISSION_TTL)
     then returnE (fst (the cached))
     else
       bindE (getPermissionsByRole roleName) (\<lambda>permissions.
       seqE (modifyE (\<lambda>w. w\<lparr>permCache := (permCache w)(roleName \<mapsto> (permissions, clock w))\<rparr>))
            (returnE permissions))))"

definition hasPermission :: "string list \<Rightarrow> string \<Rightarrow> string \<Rightarrow> bool" where
  "hasPermission permissions resource action \<longleftrightarrow> resource @ '':'' @ action \<in> set permissions"

definition invalidatePermissions :: "string option \<Rightarrow> unit io" where
  "invalidatePermissions roleName =
     modifyE (\<lambda>w. w\<lparr>permCache :=
       (case roleName of
          None \<Rightarrow> Map.empty
        | Some r \<Rightarrow> if r = [] then Map.empty else (permCache w)(r := None))\<rparr>)"

definition handlePermissionsChanged :: "json \<Rightarrow> unit io" where
  "handlePermissionsChanged payload =
     invalidatePermissions (case jget ''role'' payload of Some (JStr r) \<Rightarrow> Some r | _ \<Rightarrow> None)"

definition rbac :: "string \<Rightarrow> string \<Rightarrow> bool \<Rightarrow> actor option \<Rightarrow> guard io" where
  "rbac resource action allowSystemAdmin user =
     (case user of
        None \<Rightarrow> throwE NotAuthenticated
      | Some a \<Rightarrow>
          if allowSystemAdmin \<and> ac_role a = SYSTEM_ADMIN then returnE Next
          else if ac_role a = RESTAURANT_USER then
            bindE (getPermissions (role_name (ac_restaurantRole a))) (\<lambda>permissions.
            returnE (if hasPermission permissions resource action then Next else Respond 403 ''Permission denied''))
          else returnE (Respond 403 ''Permission denied''))"

subsection \<open>Access checks of order.service.ts\<close>

definition canReadArchive :: "actor \<Rightarrow> bool" where
  "canReadArchive a \<longleftrightarrow>
     ac_role a = SYSTEM_ADMIN \<or> (ac_role a = RESTAURANT_USER \<and> ac_restaurantRole a = Some OWNER)"

definition assertReadAccess :: "actor \<Rightarrow> order_entity \<Rightarrow> exn + unit" where
  "assertReadAccess a o' =
     (if ac_role a = SYSTEM_ADMIN then Inr ()
      else if ac_userId a = o_customerId o' then Inr ()
      else if ac_role a = RESTAURANT_USER then
        (if ac_restaurantId a \<noteq> Some (o_restaurantId o') then Inl UnAuthorisedError
         else if ac_restaurantRole a = Some OWNER then Inr ()
         else if o_branchId o' \<in> set (branch_list a) then Inr ()
         else Inl UnAuthorisedError)
      else Inl UnAuthorisedError)"

text \<open>\<open>Number(null)\<close> is 0.\<close>

definition number_or_zero :: "int option \<Rightarrow> int" where
  "number_or_zero v = (case v of None \<Rightarrow> 0 | Some n \<Rightarrow> n)"

definition resolveStatusActor :: "actor \<Rightarrow> order_entity \<Rightarrow> exn + status_actor" where
  "resolveStatusActor a o' =
     (if ac_role a = SYSTEM_ADMIN then Inr ADMIN
      else if ac_role a = DELIVERY_AGENT \<and> ac_userId a = number_or_zero (o_deliveryAgentId o') then Inr AGENT
      else if ac_role a = RESTAURANT_USER then
        (if ac_restaurantId a \<noteq> Some (o_restaurantId o') then Inl UnAuthorisedError
         else if ac_restaurantRole a \<noteq> Some OWNER \<and> o_branchId o' \<notin> set (branch_list a) then Inl UnAuthorisedError
         else Inr RESTAURANT_MEMBER)
      else if ac_userId a = o_customerId o' then Inr CUSTOMER
      else Inl UnAuthorisedError)"

fun ORDER_STATUS_PERMISSION_ACTION :: "order_status \<Rightarrow> string option" where
  "ORDER_STATUS_PERMISSION_ACTION ACCEPTED = Some ''accept''"
| "ORDER_STATUS_PERMISSION_ACTION REJECTED = Some ''reject''"
| "ORDER_STATUS_PERMISSION_ACTION CANCELLED = Some ''cancel''"
| "ORDER_STATUS_PERMISSION_ACTION _ = None"

definition permission_action :: "order_status \<Rightarrow> string" where
  "permission_action target =
     (case ORDER_STATUS_PERMISSION_ACTION target of None \<Rightarrow> ''update'' | Some x \<Rightarrow> x)"

definition assertRestaurantMemberPermission :: "actor \<Rightarrow> order_status \<Rightarrow> unit io" where
  "assertRestaurantMemberPermission a target =
     bindE (getPermissions (role_name (ac_restaurantRole a))) (\<lambda>permissions.
     throwIf (\<not> hasPermission permissions ''orders'' (permission_action target)) UnAuthorisedError)"

subsection \<open>Lemmas\<close>

context quiet_relation begin

lemma moves_getPermissions [moves_intro]: "moves R (getPermissions r)"
  unfolding getPermissions_def by (intro moves_intro R_permCache)

lemma moves_member_permission [moves_intro]: "moves R (assertRestaurantMemberPermission a t)"
  unfolding assertRestaurantMemberPermission_def by (intro moves_intro)

end

lemma getPermissions_cached:
  "permCache w r = Some (ps, t) \<Longrightarrow> clock w - t < PERMISSION_TTL \<Longrightarrow> getPermissions r w = (Inr ps, w)"
  by (simp add: getPermissions_def bindE_def now_def)

text \<open>
  The one place that says which orders an actor other than the administrator may act on: his own, those of
  his restaurant in his branches (all branches for the owner), the one he delivers.
\<close>

definition concerns :: "actor \<Rightarrow> order_entity \<Rightarrow> bool" where
  "concerns a o' \<longleftrightarrow>
     ac_role a = SYSTEM_ADMIN \<or> ac_userId a = o_customerId o' \<or>
     (ac_role a = RESTAURANT_USER \<and> ac_restaurantId a = Some (o_restaurantId o') \<and>
      (ac_restaurantRole a = Some OWNER \<or> o_branchId o' \<in> set (branch_list a))) \<or>
     (ac_role a = DELIVERY_AGENT \<and> ac_userId a = number_or_zero (o_deliveryAgentId o'))"

lemma assertReadAccess_concerns: "assertReadAccess a o' = Inr () \<Longrightarrow> concerns a o'"
  by (auto simp: assertReadAccess_def concerns_def split: if_splits)

lemma resolveStatusActor_concerns: "resolveStatusActor a o' = Inr sa \<Longrightarrow> concerns a o'"
  by (auto simp: resolveStatusActor_def concerns_def split: if_splits)

lemma resolveStatusActor_never_system: "resolveStatusActor a o' \<noteq> Inr SYSTEM"
  by (auto simp: resolveStatusActor_def)

lemma resolveStatusActor_agent:
  "resolveStatusActor a o' = Inr AGENT \<longleftrightarrow>
     ac_role a = DELIVERY_AGENT \<and> ac_userId a = number_or_zero (o_deliveryAgentId o')"
  by (auto simp: resolveStatusActor_def role_defs)

lemmas run_Access [run] =
  role_defs branch_list_def getPermissions_def role_name_def hasPermission_def canReadArchive_def
  assertReadAccess_def number_or_zero_def resolveStatusActor_def permission_action_def
  assertRestaurantMemberPermission_def

end
