(* ===== verification/LedgerRepo.thy ===== *)
theory LedgerRepo
  imports World
begin

section \<open>Payments, balances and earnings in the database\<close>

text \<open>
  The repositories under \<open>src/app/payment/repository\<close>, \<open>src/app/finance/repository\<close> and
  \<open>src/app/agent/repository\<close>. The locale \<open>unique_table\<close> is the contract of
  \<open>INSERT .. ON CONFLICT .. DO NOTHING RETURNING\<close> that the settlement and the webhook rely on to be
  idempotent; it is interpreted for the ledger, the webhook log and the earnings. An \<open>INSERT\<close> that a
  constraint refuses leaves the sequence where it was: the gaps Postgres leaves are not modelled.
\<close>

subsection \<open>Tables with a unique key\<close>

text \<open>
  \<open>key r = None\<close> is a null key, which is unique to no row. \<open>ins r rows\<close> is the row returned, if any, and
  the table after.
\<close>

locale unique_table =
  fixes key :: "'r \<Rightarrow> 'k option"
    and ins :: "'r \<Rightarrow> 'r list \<Rightarrow> 'r option \<times> 'r list"
  assumes ins_taken: "key r \<noteq> None \<Longrightarrow> key r \<in> key ` set rows \<Longrightarrow> ins r rows = (None, rows)"
    and ins_fresh: "key r = None \<or> key r \<notin> key ` set rows \<Longrightarrow> ins r rows = (Some r, rows @ [r])"
begin

definition unique_keys :: "'r list \<Rightarrow> bool" where
  "unique_keys rows \<longleftrightarrow> distinct (filter (\<lambda>k. k \<noteq> None) (map key rows))"

lemma ins_cases:
  obtains "key r \<noteq> None" "key r \<in> key ` set rows" "ins r rows = (None, rows)"
  | "key r = None \<or> key r \<notin> key ` set rows" "ins r rows = (Some r, rows @ [r])"
  using ins_taken [of r rows] ins_fresh [of r rows] by (cases "key r = None \<or> key r \<notin> key ` set rows") auto

lemma ins_unique_keys: "unique_keys rows \<Longrightarrow> unique_keys (snd (ins r rows))"
  by (cases rule: ins_cases [of r rows]) (auto simp: unique_keys_def)

text \<open>Inserting a key again returns nothing and changes nothing.\<close>

lemma ins_again:
  assumes "key r = key r'" and "key r \<noteq> None"
  shows "ins r' (snd (ins r rows)) = (None, snd (ins r rows))"
proof (rule ins_taken)
  show "key r' \<noteq> None" using assms by simp
  show "key r' \<in> key ` set (snd (ins r rows))"
    by (cases rule: ins_cases [of r rows]) (use assms in auto)
qed

lemma ins_has_key: "key r \<noteq> None \<Longrightarrow> key r \<in> key ` set (snd (ins r rows))"
  by (cases rule: ins_cases [of r rows]) auto

lemma ins_prefix: "\<exists>more. snd (ins r rows) = rows @ more"
  by (cases rule: ins_cases [of r rows]) auto

text \<open>Of any number of inserts with one key exactly one returns a row, unless the key was taken.\<close>

fun inserts :: "'r list \<Rightarrow> 'r list \<Rightarrow> bool list \<times> 'r list" where
  "inserts [] rows = ([], rows)"
| "inserts (r # rs) rows =
     (let (out, rows') = ins r rows; (outs, rows'') = inserts rs rows' in ((out \<noteq> None) # outs, rows''))"

lemma inserts_taken:
  "k \<noteq> None \<Longrightarrow> k \<in> key ` set rows \<Longrightarrow> \<forall>r\<in>set rs. key r = k \<Longrightarrow>
   inserts rs rows = (replicate (length rs) False, rows)"
proof (induction rs)
  case (Cons r rs)
  have "ins r rows = (None, rows)" using Cons.prems by (intro ins_taken) auto
  with Cons show ?case by simp
qed simp

lemma inserts_one_winner:
  assumes "k \<noteq> None" and "k \<notin> key ` set rows" and "key r = k" and "\<forall>r\<in>set rs. key r = k"
  shows "inserts (r # rs) rows = (True # replicate (length rs) False, rows @ [r])"
proof -
  have "ins r rows = (Some r, rows @ [r])" using assms by (intro ins_fresh) simp
  moreover have "inserts rs (rows @ [r]) = (replicate (length rs) False, rows @ [r])"
    using assms by (intro inserts_taken [of k]) auto
  ultimately show ?thesis by simp
qed

end

text \<open>\<open>ON CONFLICT (key) DO NOTHING RETURNING ..\<close>\<close>

definition insert_or_skip :: "('r \<Rightarrow> 'k option) \<Rightarrow> 'r \<Rightarrow> 'r list \<Rightarrow> 'r option \<times> 'r list" where
  "insert_or_skip key r rows =
     (if key r \<noteq> None \<and> key r \<in> key ` set rows then (None, rows) else (Some r, rows @ [r]))"

definition webhook_key :: "webhook_event_entity \<Rightarrow> (int \<times> string) option" where
  "webhook_key e = Some (w_providerId e, w_providerEventId e)"

definition earning_key :: "agent_earning_entity \<Rightarrow> int option" where
  "earning_key e = Some (e_orderId e)"

interpretation ledger: unique_table t_idempotencyKey "insert_or_skip t_idempotencyKey"
  by unfold_locales (auto simp: insert_or_skip_def)

interpretation webhook_log: unique_table webhook_key "insert_or_skip webhook_key"
  by unfold_locales (auto simp: insert_or_skip_def)

interpretation earning_table: unique_table earning_key "insert_or_skip earning_key"
  by unfold_locales (auto simp: insert_or_skip_def)

subsection \<open>payment-session.repo.ts\<close>

record create_session_input =
  ns_region :: string
  ns_orderId :: int
  ns_providerId :: int
  ns_providerSessionId :: string
  ns_redirectUrl :: string
  ns_amount :: int
  ns_currency :: string
  ns_status :: payment_session_status
  ns_rawInitPayload :: json

definition session_row :: "int \<Rightarrow> int \<Rightarrow> create_session_input \<Rightarrow> payment_session_entity" where
  "session_row newId t n =
     \<lparr>s_id = newId, s_region = ns_region n, s_orderId = ns_orderId n, s_providerId = ns_providerId n,
      s_providerSessionId = ns_providerSessionId n, s_redirectUrl = ns_redirectUrl n,
      s_amount = ns_amount n, s_currency = ns_currency n, s_status = ns_status n,
      s_rawInitPayload = ns_rawInitPayload n, s_rawLastPayload = None, s_createdAt = t, s_updatedAt = t\<rparr>"

definition createSession :: "create_session_input \<Rightarrow> conn \<Rightarrow> payment_session_entity io" where
  "createSession n c = stmt c (\<lambda>t sh.
     if \<not> int4 (ns_amount n) then Inl int4_error
     else if ns_providerSessionId n \<in> s_providerSessionId ` set (payment_sessions (tabs sh)) then Inl unique_error
     else
       (let newId = q_sessions (sqs sh) + 1; row = session_row newId t n
        in Inr (row, sh\<lparr>tabs := (tabs sh)\<lparr>payment_sessions := payment_sessions (tabs sh) @ [row]\<rparr>,
                        sqs := (sqs sh)\<lparr>q_sessions := newId\<rparr>\<rparr>)))"

definition findSessionByProviderId :: "string \<Rightarrow> conn \<Rightarrow> payment_session_entity option io" where
  "findSessionByProviderId providerSessionId c = query c (\<lambda>tb.
     List.find (\<lambda>s. s_providerSessionId s = providerSessionId) (payment_sessions tb))"

definition active_sessions :: "int \<Rightarrow> payment_session_entity list \<Rightarrow> payment_session_entity list" where
  "active_sessions orderId ss =
     sort_key (\<lambda>s. - s_id s) (filter (\<lambda>s. s_orderId s = orderId \<and> s_status s \<in> {INITIALIZED, PENDING}) ss)"

definition findActiveSessionByOrderId :: "int \<Rightarrow> conn \<Rightarrow> payment_session_entity option io" where
  "findActiveSessionByOrderId orderId c = query c (\<lambda>tb.
     (case active_sessions orderId (payment_sessions tb) of [] \<Rightarrow> None | s # _ \<Rightarrow> Some s))"

definition session_update ::
  "payment_session_status \<Rightarrow> json option \<Rightarrow> int \<Rightarrow> payment_session_entity \<Rightarrow> payment_session_entity" where
  "session_update status raw t s =
     (let u = s\<lparr>s_status := status, s_updatedAt := t\<rparr>
      in case raw of None \<Rightarrow> u | Some p \<Rightarrow> u\<lparr>s_rawLastPayload := Some p\<rparr>)"

definition updateSession ::
  "int \<Rightarrow> payment_session_status \<Rightarrow> json option \<Rightarrow> conn \<Rightarrow> payment_session_entity io" where
  "updateSession sid status raw c = stmt c (\<lambda>t sh.
     let p = (\<lambda>s. s_id s = sid); ss = payment_sessions (tabs sh)
     in case returning p (session_update status raw t) ss of
          [] \<Rightarrow> Inl undefined_row_error
        | r # _ \<Rightarrow> Inr (r, sh\<lparr>tabs := (tabs sh)\<lparr>payment_sessions :=
                            update_where p (session_update status raw t) ss\<rparr>\<rparr>))"

subsection \<open>payment-webhook-event.repo.ts\<close>

record record_webhook_input =
  nw_region :: string
  nw_providerId :: int
  nw_providerEventId :: string
  nw_signature :: string
  nw_payload :: json

definition webhook_row :: "int \<Rightarrow> int \<Rightarrow> record_webhook_input \<Rightarrow> webhook_event_entity" where
  "webhook_row newId t n =
     \<lparr>w_id = newId, w_region = nw_region n, w_providerId = nw_providerId n,
      w_providerEventId = nw_providerEventId n, w_signature = nw_signature n, w_payload = nw_payload n,
      w_receivedAt = t, w_processedAt = None, w_processError = None\<rparr>"

definition recordWebhookOrSkip :: "record_webhook_input \<Rightarrow> conn \<Rightarrow> webhook_event_entity option io" where
  "recordWebhookOrSkip n c = stmt c (\<lambda>t sh.
     let newId = q_webhooks (sqs sh) + 1;
         (out, rows) = insert_or_skip webhook_key (webhook_row newId t n) (webhook_events (tabs sh))
     in Inr (out, sh\<lparr>tabs := (tabs sh)\<lparr>webhook_events := rows\<rparr>, sqs := (sqs sh)\<lparr>q_webhooks := newId\<rparr>\<rparr>))"

definition markWebhookProcessed :: "int \<Rightarrow> string option \<Rightarrow> conn \<Rightarrow> unit io" where
  "markWebhookProcessed wid err c = stmt c (\<lambda>t sh.
     Inr ((), sh\<lparr>tabs := (tabs sh)\<lparr>webhook_events :=
       update_where (\<lambda>e. w_id e = wid) (\<lambda>e. e\<lparr>w_processedAt := Some t, w_processError := err\<rparr>)
         (webhook_events (tabs sh))\<rparr>\<rparr>))"

subsection \<open>transaction.repo.ts\<close>

record create_transaction_input =
  nt_region :: string
  nt_orderId :: "int option"
  nt_transactionType :: transaction_type
  nt_method :: transaction_method
  nt_providerId :: "int option"
  nt_providerReferenceId :: "string option"
  nt_status :: transaction_status
  nt_amount :: int
  nt_currency :: string
  nt_srcAccId :: "int option"
  nt_dstAccId :: "int option"
  nt_idempotencyKey :: "string option"

definition transaction_row :: "int \<Rightarrow> int \<Rightarrow> create_transaction_input \<Rightarrow> transaction_entity" where
  "transaction_row newId t n =
     \<lparr>t_id = newId, t_region = nt_region n, t_orderId = nt_orderId n,
      t_transactionType = nt_transactionType n, t_method = nt_method n, t_providerId = nt_providerId n,
      t_providerReferenceId = nt_providerReferenceId n, t_status = nt_status n, t_amount = nt_amount n,
      t_currency = nt_currency n, t_srcAccId = nt_srcAccId n, t_dstAccId = nt_dstAccId n,
      t_isRefunded = False, t_refundedPaymentId = None, t_idempotencyKey = nt_idempotencyKey n,
      t_createdAt = t, t_updatedAt = t\<rparr>"

definition set_transactions :: "transaction_entity list \<Rightarrow> int \<Rightarrow> shard \<Rightarrow> shard" where
  "set_transactions rows q sh =
     sh\<lparr>tabs := (tabs sh)\<lparr>transactions := rows\<rparr>, sqs := (sqs sh)\<lparr>q_transactions := q\<rparr>\<rparr>"

definition createTransaction :: "create_transaction_input \<Rightarrow> conn \<Rightarrow> transaction_entity io" where
  "createTransaction n c = stmt c (\<lambda>t sh.
     if \<not> int4 (nt_amount n) then Inl int4_error
     else
       (let newId = q_transactions (sqs sh) + 1
        in case insert_or_skip t_idempotencyKey (transaction_row newId t n) (transactions (tabs sh)) of
             (None, _) \<Rightarrow> Inl unique_error
           | (Some row, rows) \<Rightarrow> Inr (row, set_transactions rows newId sh)))"

definition createTransactionIdempotent :: "create_transaction_input \<Rightarrow> conn \<Rightarrow> transaction_entity option io" where
  "createTransactionIdempotent n c = stmt c (\<lambda>t sh.
     if \<not> int4 (nt_amount n) then Inl int4_error
     else
       (let newId = q_transactions (sqs sh) + 1;
            (out, rows) = insert_or_skip t_idempotencyKey (transaction_row newId t n) (transactions (tabs sh))
        in Inr (out, set_transactions rows newId sh)))"

definition findTransactionById :: "int \<Rightarrow> conn \<Rightarrow> transaction_entity option io" where
  "findTransactionById tid c = query c (\<lambda>tb. List.find (\<lambda>x. t_id x = tid) (transactions tb))"

text \<open>The left join: the restaurant of the order of the transaction, if there is one.\<close>

definition findTransactionWithRestaurant :: "int \<Rightarrow> conn \<Rightarrow> (transaction_entity \<times> int option) option io" where
  "findTransactionWithRestaurant tid c = query c (\<lambda>tb.
     map_option (\<lambda>x. (x, Option.bind (t_orderId x) (\<lambda>oid.
         map_option o_restaurantId (List.find (\<lambda>o'. o_id o' = oid) (orders tb)))))
       (List.find (\<lambda>x. t_id x = tid) (transactions tb)))"

definition findTransactionByIdempotencyKey :: "string \<Rightarrow> conn \<Rightarrow> transaction_entity option io" where
  "findTransactionByIdempotencyKey k c = query c (\<lambda>tb.
     List.find (\<lambda>x. t_idempotencyKey x = Some k) (transactions tb))"

definition findPayouts :: "int \<Rightarrow> int \<Rightarrow> int \<Rightarrow> nat \<Rightarrow> conn \<Rightarrow> transaction_entity list io" where
  "findPayouts ownerId frm to limit c = query c (\<lambda>tb.
     take limit (sort_key (\<lambda>x. - t_createdAt x)
       (filter (\<lambda>x. t_transactionType x = PAYOUT \<and> t_dstAccId x = Some ownerId \<and>
                    frm \<le> t_createdAt x \<and> t_createdAt x < to) (transactions tb))))"

definition findTransactionsByOrderIds :: "int list \<Rightarrow> conn \<Rightarrow> transaction_entity list io" where
  "findTransactionsByOrderIds orderIds c =
     (if orderIds = [] then returnE []
      else query c (\<lambda>tb. sort_key t_id
             (filter (\<lambda>x. \<exists>oid\<in>set orderIds. t_orderId x = Some oid) (transactions tb))))"

subsection \<open>restaurant-balance.repo.ts\<close>

definition findByRestaurant :: "int \<Rightarrow> conn \<Rightarrow> restaurant_balance_entity list io" where
  "findByRestaurant restaurantId c = query c (\<lambda>tb. filter (\<lambda>b. b_restaurantId b = restaurantId) (balances tb))"

definition balance_at :: "int \<Rightarrow> string \<Rightarrow> restaurant_balance_entity \<Rightarrow> bool" where
  "balance_at restaurantId currency b \<longleftrightarrow> b_restaurantId b = restaurantId \<and> b_currency b = currency"

definition getForUpdate :: "int \<Rightarrow> string \<Rightarrow> conn \<Rightarrow> restaurant_balance_entity option io" where
  "getForUpdate restaurantId currency c = query c (\<lambda>tb. List.find (balance_at restaurantId currency) (balances tb))"

definition add_balance :: "int \<Rightarrow> int \<Rightarrow> restaurant_balance_entity \<Rightarrow> restaurant_balance_entity" where
  "add_balance delta t b = b\<lparr>b_balance := b_balance b + delta, b_updatedAt := t\<rparr>"

definition set_balances :: "restaurant_balance_entity list \<Rightarrow> shard \<Rightarrow> shard" where
  "set_balances bs sh = sh\<lparr>tabs := (tabs sh)\<lparr>balances := bs\<rparr>\<rparr>"

definition upsertIncrement :: "int \<Rightarrow> string \<Rightarrow> string \<Rightarrow> int \<Rightarrow> conn \<Rightarrow> restaurant_balance_entity io" where
  "upsertIncrement restaurantId region currency delta c = stmt c (\<lambda>t sh.
     let bs = balances (tabs sh); p = balance_at restaurantId currency
     in if \<not> int4 delta then Inl int4_error
        else (case List.find p bs of
                None \<Rightarrow>
                  (let row = \<lparr>b_restaurantId = restaurantId, b_region = region, b_currency = currency,
                              b_balance = delta, b_updatedAt = t\<rparr>
                   in Inr (row, set_balances (bs @ [row]) sh))
              | Some b \<Rightarrow>
                  if \<not> int4 (b_balance b + delta) then Inl int4_error
                  else Inr (add_balance delta t b, set_balances (update_where p (add_balance delta t) bs) sh)))"

definition sufficient :: "int \<Rightarrow> string \<Rightarrow> int \<Rightarrow> restaurant_balance_entity \<Rightarrow> bool" where
  "sufficient restaurantId currency amount b \<longleftrightarrow> balance_at restaurantId currency b \<and> amount \<le> b_balance b"

definition decrementIfSufficient :: "int \<Rightarrow> string \<Rightarrow> int \<Rightarrow> conn \<Rightarrow> restaurant_balance_entity option io" where
  "decrementIfSufficient restaurantId currency amount c = stmt c (\<lambda>t sh.
     let bs = balances (tabs sh); p = sufficient restaurantId currency amount
     in if \<not> int4 amount then Inl int4_error
        else if \<exists>b\<in>set (filter p bs). \<not> int4 (b_balance b - amount) then Inl int4_error
        else Inr ((case returning p (add_balance (- amount) t) bs of [] \<Rightarrow> None | b # _ \<Rightarrow> Some b),
                  set_balances (update_where p (add_balance (- amount) t) bs) sh))"

subsection \<open>agent-earning.repo.ts\<close>

definition earning_row :: "int \<Rightarrow> int \<Rightarrow> string \<Rightarrow> int \<Rightarrow> int \<Rightarrow> int \<Rightarrow> string \<Rightarrow> agent_earning_entity" where
  "earning_row newId t region agentId orderId amount currency =
     \<lparr>e_id = newId, e_region = region, e_agentId = agentId, e_orderId = orderId, e_amount = amount,
      e_currency = currency, e_earnedAt = t\<rparr>"

definition insertEarning :: "string \<Rightarrow> int \<Rightarrow> int \<Rightarrow> int \<Rightarrow> string \<Rightarrow> conn \<Rightarrow> agent_earning_entity option io" where
  "insertEarning region agentId orderId amount currency c = stmt c (\<lambda>t sh.
     if \<not> int4 amount then Inl int4_error
     else
       (let newId = q_earnings (sqs sh) + 1;
            (out, rows) = insert_or_skip earning_key
                            (earning_row newId t region agentId orderId amount currency) (earnings (tabs sh))
        in Inr (out, sh\<lparr>tabs := (tabs sh)\<lparr>earnings := rows\<rparr>, sqs := (sqs sh)\<lparr>q_earnings := newId\<rparr>\<rparr>)))"

definition earned_in :: "int \<Rightarrow> int \<Rightarrow> int \<Rightarrow> agent_earning_entity \<Rightarrow> bool" where
  "earned_in agentId frm to e \<longleftrightarrow> e_agentId e = agentId \<and> frm \<le> e_earnedAt e \<and> e_earnedAt e < to"

definition listByAgent :: "int \<Rightarrow> int \<Rightarrow> int \<Rightarrow> nat \<Rightarrow> conn \<Rightarrow> agent_earning_entity list io" where
  "listByAgent agentId frm to limit c = query c (\<lambda>tb.
     take limit (sort_key (\<lambda>e. - e_earnedAt e) (filter (earned_in agentId frm to) (earnings tb))))"

definition sumByAgent :: "int \<Rightarrow> int \<Rightarrow> int \<Rightarrow> conn \<Rightarrow> int io" where
  "sumByAgent agentId frm to c = query c (\<lambda>tb.
     sum_list (map e_amount (filter (earned_in agentId frm to) (earnings tb))))"

subsection \<open>Which shards the functions write\<close>

context quiet_relation begin

lemma moves_ledger_queries [moves_intro]:
  "moves R (findSessionByProviderId p c)" "moves R (findActiveSessionByOrderId i c)"
  "moves R (findTransactionById i c)" "moves R (findTransactionWithRestaurant i c)"
  "moves R (findTransactionByIdempotencyKey k c)" "moves R (findPayouts i f t n c)"
  "moves R (findTransactionsByOrderIds is c)" "moves R (findByRestaurant i c)"
  "moves R (getForUpdate i cur c)" "moves R (listByAgent i f t n c)"
  "moves R (sumByAgent i f t c)"
  unfolding findSessionByProviderId_def findActiveSessionByOrderId_def findTransactionById_def
    findTransactionWithRestaurant_def findTransactionByIdempotencyKey_def findPayouts_def
    findTransactionsByOrderIds_def findByRestaurant_def getForUpdate_def listByAgent_def sumByAgent_def
  by (intro moves_intro)+

end

context shard_relation begin

lemma moves_ledger_writes [moves_intro]:
  "moves R (createSession n c)" "moves R (updateSession i st r c)"
  "moves R (recordWebhookOrSkip nw c)" "moves R (markWebhookProcessed i e c)"
  "moves R (createTransaction nt c)" "moves R (createTransactionIdempotent nt c)"
  "moves R (upsertIncrement i rg cur d c)" "moves R (decrementIfSufficient i cur a c)"
  "moves R (insertEarning rg ag i a cur c)"
  unfolding createSession_def updateSession_def recordWebhookOrSkip_def markWebhookProcessed_def
    createTransaction_def createTransactionIdempotent_def upsertIncrement_def decrementIfSufficient_def
    insertEarning_def
  by (intro moves_intro)+

end

lemma set_balances_simps [simp]:
  "balances (tabs (set_balances bs sh)) = bs" "orders (tabs (set_balances bs sh)) = orders (tabs sh)"
  "transactions (tabs (set_balances bs sh)) = transactions (tabs sh)"
  "earnings (tabs (set_balances bs sh)) = earnings (tabs sh)" "outbox (tabs (set_balances bs sh)) = outbox (tabs sh)"
  "sqs (set_balances bs sh) = sqs sh"
  by (simp_all add: set_balances_def)

lemma set_transactions_simps [simp]:
  "transactions (tabs (set_transactions xs q sh)) = xs" "orders (tabs (set_transactions xs q sh)) = orders (tabs sh)"
  "balances (tabs (set_transactions xs q sh)) = balances (tabs sh)"
  "earnings (tabs (set_transactions xs q sh)) = earnings (tabs sh)"
  "outbox (tabs (set_transactions xs q sh)) = outbox (tabs sh)"
  by (simp_all add: set_transactions_def)

subsection \<open>What the functions leave alone\<close>

lemma same_session_writes [moves_intro]:
  fixes f :: "tables \<Rightarrow> 'a"
  assumes "\<And>tb xs. f (tb\<lparr>payment_sessions := xs\<rparr>) = f tb"
  shows "moves (per_table (same f)) (createSession n c)" "moves (per_table (same f)) (updateSession i st r c)"
  unfolding createSession_def updateSession_def
  by (rule same.moves_stmt_Q; force simp: same_def assms Let_def split: if_splits list.splits)+

lemma same_webhook_writes [moves_intro]:
  fixes f :: "tables \<Rightarrow> 'a"
  assumes "\<And>tb xs. f (tb\<lparr>webhook_events := xs\<rparr>) = f tb"
  shows "moves (per_table (same f)) (recordWebhookOrSkip nw c)" "moves (per_table (same f)) (markWebhookProcessed i e c)"
  unfolding recordWebhookOrSkip_def markWebhookProcessed_def
  by (rule same.moves_stmt_Q; auto simp: same_def assms Let_def split: prod.splits)+

lemma same_transaction_writes [moves_intro]:
  fixes f :: "tables \<Rightarrow> 'a"
  assumes "\<And>tb xs. f (tb\<lparr>transactions := xs\<rparr>) = f tb"
  shows "moves (per_table (same f)) (createTransaction nt c)"
    "moves (per_table (same f)) (createTransactionIdempotent nt c)"
  unfolding createTransaction_def createTransactionIdempotent_def
  by (rule same.moves_stmt_Q;
      auto simp: same_def assms set_transactions_def Let_def split: if_splits prod.splits option.splits)+

lemma same_balance_writes [moves_intro]:
  fixes f :: "tables \<Rightarrow> 'a"
  assumes "\<And>tb xs. f (tb\<lparr>balances := xs\<rparr>) = f tb"
  shows "moves (per_table (same f)) (upsertIncrement i rg cur d c)"
    "moves (per_table (same f)) (decrementIfSufficient i cur a c)"
  unfolding upsertIncrement_def decrementIfSufficient_def
  by (rule same.moves_stmt_Q; auto simp: same_def assms set_balances_def Let_def split: if_splits option.splits)+

lemma same_earning_writes [moves_intro]:
  fixes f :: "tables \<Rightarrow> 'a"
  assumes "\<And>tb xs. f (tb\<lparr>earnings := xs\<rparr>) = f tb"
  shows "moves (per_table (same f)) (insertEarning rg ag i a cur c)"
  unfolding insertEarning_def
  by (rule same.moves_stmt_Q; auto simp: same_def assms Let_def split: if_splits prod.splits)

lemmas run_LedgerRepo [run] =
  insert_or_skip_def webhook_key_def earning_key_def session_row_def createSession_def
  active_sessions_def findActiveSessionByOrderId_def session_update_def updateSession_def
  webhook_row_def recordWebhookOrSkip_def markWebhookProcessed_def transaction_row_def
  set_transactions_def createTransaction_def createTransactionIdempotent_def
  findTransactionByIdempotencyKey_def findTransactionWithRestaurant_def balance_at_def
  add_balance_def set_balances_def upsertIncrement_def sufficient_def decrementIfSufficient_def
  earning_row_def insertEarning_def

text \<open>What the writes do with the database up.\<close>

lemma createTransaction_ok:
  assumes "dbFault (ext w) (steps w) = None" and "int4 (nt_amount n)"
    and "nt_idempotencyKey n \<notin> t_idempotencyKey ` set (transactions (tables_of w c))"
  shows "createTransaction n c w =
    (let q = q_transactions (sqs (shards w c)) + 1; x = transaction_row q (clock w) n
     in (Inr x, (tick w)\<lparr>shards := (shards w)(c := set_transactions (transactions (tables_of w c) @ [x]) q (shards w c))\<rparr>))"
proof -
  let ?x = "transaction_row (q_transactions (sqs (shards w c)) + 1) (clock w) n"
  have "insert_or_skip t_idempotencyKey ?x (transactions (tabs (shards w c))) = (Some ?x, transactions (tabs (shards w c)) @ [?x])"
    using assms(3) by (intro ledger.ins_fresh) (simp add: transaction_row_def tables_of_def)
  with assms(1,2) show ?thesis
    by (simp add: createTransaction_def stmt_def Let_def tables_of_def)
qed

lemma updateSession_ok:
  assumes "dbFault (ext w) (steps w) = None" and "\<exists>s\<in>set (payment_sessions (tables_of w c)). s_id s = i"
  shows "\<exists>u. updateSession i st raw c w = (Inr u, (tick w)\<lparr>shards := (shards w)(c := (shards w c)\<lparr>tabs :=
      (tabs (shards w c))\<lparr>payment_sessions := update_where (\<lambda>s. s_id s = i) (session_update st raw (clock w))
         (payment_sessions (tables_of w c))\<rparr>\<rparr>)\<rparr>)"
proof -
  have "returning (\<lambda>s. s_id s = i) (session_update st raw (clock w)) (payment_sessions (tabs (shards w c))) \<noteq> []"
    using assms(2) by (auto simp: returning_Nil_iff tables_of_def)
  then show ?thesis using assms(1)
    by (auto simp: updateSession_def stmt_def Let_def tables_of_def neq_Nil_conv)
qed

lemma recordWebhookOrSkip_fresh:
  assumes "dbFault (ext w) (steps w) = None"
    and "Some (nw_providerId n, nw_providerEventId n) \<notin> webhook_key ` set (webhook_events (tables_of w c))"
  shows "recordWebhookOrSkip n c w =
    (let q = q_webhooks (sqs (shards w c)) + 1; x = webhook_row q (clock w) n
     in (Inr (Some x), (tick w)\<lparr>shards := (shards w)(c := (shards w c)
          \<lparr>tabs := (tabs (shards w c))\<lparr>webhook_events := webhook_events (tables_of w c) @ [x]\<rparr>,
           sqs := (sqs (shards w c))\<lparr>q_webhooks := q\<rparr>\<rparr>)\<rparr>))"
proof -
  let ?x = "webhook_row (q_webhooks (sqs (shards w c)) + 1) (clock w) n"
  have "insert_or_skip webhook_key ?x (webhook_events (tabs (shards w c))) = (Some ?x, webhook_events (tabs (shards w c)) @ [?x])"
    using assms(2) by (intro webhook_log.ins_fresh) (simp add: webhook_row_def webhook_key_def tables_of_def)
  with assms(1) show ?thesis
    by (simp add: recordWebhookOrSkip_def stmt_def Let_def tables_of_def)
qed

end
