(* ===== verification/Payment.thy ===== *)
theory Payment
  imports CoreClient LedgerRepo "HOL-Library.Char_ord" "HOL-Library.List_Lexorder"
begin

section \<open>Kashier and the payment service\<close>

text \<open>
  \<open>src/pkg/payments\<close> (webhook signatures, the Kashier client), \<open>src/app/payment/service/payment.service.ts\<close>
  and the payment DTOs. HMAC-SHA256 in hexadecimal is a parameter of the world. The locale
  \<open>webhook_verifier\<close> is the part of \<open>IPaymentProvider\<close> the webhook service rests on.
\<close>

subsection \<open>kashier.signature.ts\<close>

text \<open>\<open>String(v)\<close> of a JSON value.\<close>

fun js_string :: "json \<Rightarrow> string" where
  "js_string JNull = ''null''"
| "js_string (JBool b) = (if b then ''true'' else ''false'')"
| "js_string (JNum n) = n"
| "js_string (JStr s) = s"
| "js_string (JArr vs) = joinWith (CHR '','') (map (\<lambda>v. if v = JNull then [] else js_string v) vs)"
| "js_string (JObj kvs) = ''[object Object]''"

definition signed_field :: "json \<Rightarrow> string \<Rightarrow> string" where
  "signed_field data k =
     k @ ''='' @ encodeURIComponent
       (case jget k data of None \<Rightarrow> [] | Some v \<Rightarrow> if v = JNull then [] else js_string v)"

definition buildSignaturePayload :: "json \<Rightarrow> string list \<Rightarrow> string" where
  "buildSignaturePayload data signatureKeys = joinWith (CHR ''&'') (map (signed_field data) (sort signatureKeys))"

definition computeWebhookSignature :: "(string \<Rightarrow> string \<Rightarrow> string) \<Rightarrow> json \<Rightarrow> string list \<Rightarrow> string \<Rightarrow> string" where
  "computeWebhookSignature hmac data signatureKeys apiKey = hmac apiKey (buildSignaturePayload data signatureKeys)"

text \<open>\<open>Buffer.from(s, "hex")\<close> stops at the first pair that is not hexadecimal.\<close>

definition hex_value :: "char \<Rightarrow> nat option" where
  "hex_value c =
     (let k = of_char c :: nat
      in if 48 \<le> k \<and> k \<le> 57 then Some (k - 48)
         else if 65 \<le> k \<and> k \<le> 70 then Some (k - 55)
         else if 97 \<le> k \<and> k \<le> 102 then Some (k - 87) else None)"

fun hex_bytes :: "string \<Rightarrow> nat list" where
  "hex_bytes (a # b # s) =
     (case (hex_value a, hex_value b) of (Some x, Some y) \<Rightarrow> (16 * x + y) # hex_bytes s | _ \<Rightarrow> [])"
| "hex_bytes _ = []"

definition verifyWebhookSignature ::
  "(string \<Rightarrow> string \<Rightarrow> string) \<Rightarrow> json \<Rightarrow> string list \<Rightarrow> string \<Rightarrow> string \<Rightarrow> bool" where
  "verifyWebhookSignature hmac data signatureKeys apiKey providedSignature =
     (if providedSignature = [] then False
      else
        (let expected = computeWebhookSignature hmac data signatureKeys apiKey
         in if length expected \<noteq> length providedSignature then False
            else hex_bytes expected = hex_bytes providedSignature))"

locale webhook_verifier =
  fixes sign :: "json \<Rightarrow> string list \<Rightarrow> string"
    and signed_text :: "json \<Rightarrow> string list \<Rightarrow> string"
    and verify :: "json \<Rightarrow> string list \<Rightarrow> string \<Rightarrow> bool"
  assumes own_signature: "sign d ks \<noteq> [] \<Longrightarrow> verify d ks (sign d ks)"
    and no_signature: "\<not> verify d ks []"
    and text_decides: "signed_text d ks = signed_text d' ks' \<Longrightarrow> verify d ks s = verify d' ks' s"
begin

text \<open>A signature that was accepted once is accepted for every envelope with the same signed text.\<close>

lemma replay_accepted: "verify d ks s \<Longrightarrow> signed_text d' ks' = signed_text d ks \<Longrightarrow> verify d' ks' s"
  using text_decides by blast

lemma signature_present: "verify d ks s \<Longrightarrow> s \<noteq> []"
  using no_signature by auto

end

interpretation kashier_verifier: webhook_verifier
  "\<lambda>d ks. computeWebhookSignature hmac d ks key" buildSignaturePayload
  "\<lambda>d ks s. verifyWebhookSignature hmac d ks key s" for hmac key
  by unfold_locales (simp_all add: verifyWebhookSignature_def computeWebhookSignature_def Let_def)

subsection \<open>kashier.client.ts\<close>

text \<open>The rejections of the HTTP attempt carry the flag \<open>retryable\<close>; \<open>mapError\<close> drops it.\<close>

definition mapError :: "('e \<Rightarrow> 'f) \<Rightarrow> ('s, 'e, 'a) prog \<Rightarrow> ('s, 'f, 'a) prog" where
  "mapError f m s = (case m s of (Inl e, s') \<Rightarrow> (Inl (f e), s') | (Inr x, s') \<Rightarrow> (Inr x, s'))"

definition kashier_body :: "env \<Rightarrow> int \<Rightarrow> string \<Rightarrow> string \<Rightarrow> string \<Rightarrow> string \<Rightarrow> string \<Rightarrow> json" where
  "kashier_body e expireAt merchantOrderId amount currency description customerReference =
     JObj [(''merchantId'', JStr (kashierMerchantId e)), (''paymentType'', JStr (kashierPaymentType e)),
           (''amount'', JStr amount), (''currency'', JStr currency), (''order'', JStr merchantOrderId),
           (''type'', JStr ''one-time''), (''allowedMethods'', JStr ''card,wallet''), (''enable3DS'', JBool True),
           (''serverWebhook'', JStr (kashierWebhookUrl e)), (''merchantRedirect'', JStr (kashierReturnUrl e)),
           (''failureRedirect'', JBool False), (''description'', JStr description),
           (''interactionSource'', JStr ''ECOMMERCE''), (''expireAt'', jdate expireAt),
           (''customer'', JObj [(''reference'', JStr customerReference)])]"

definition kashier_attempt :: "json \<Rightarrow> (world, bool \<times> exn, kashier_session) prog" where
  "kashier_attempt body =
     seqE (modifyE (\<lambda>w. w\<lparr>trace := trace w @ [KashierHttp body]\<rparr>)) (\<lambda>w.
       (case kashierSessions (ext w) (steps w) body of
          Unreachable \<Rightarrow> Inl (True, JsError ''fetch failed'')
        | Response status text data \<Rightarrow>
            if 500 \<le> status then Inl (True, JsError (''kashier '' @ string_of_int status @ '': '' @ text))
            else if status < 200 \<or> 299 < status
            then Inl (False, JsError (''kashier '' @ string_of_int status @ '': '' @ text))
            else (case data of
                    None \<Rightarrow> Inl (True, JsError ''Unexpected end of JSON input'')
                  | Some d \<Rightarrow> Inr d), tick w))"

definition kashier_retry_options :: "(bool \<times> exn) retry_options" where
  "kashier_retry_options = \<lparr>attempts = 3, initialDelayMs = 200, maxDelayMs = 1500, isRetryable = Some fst\<rparr>"

definition kashierCreateSession ::
  "string \<Rightarrow> string \<Rightarrow> string \<Rightarrow> string \<Rightarrow> string \<Rightarrow> (kashier_session \<times> string) io" where
  "kashierCreateSession merchantOrderId amount currency description customerReference =
     bindE (getE env) (\<lambda>e. bindE now (\<lambda>t.
     let expireAt = t + sessionTimeoutMin e * 60 * 1000;
         body = kashier_body e expireAt merchantOrderId amount currency description customerReference
     in bindE (mapError snd
                (retry (\<lambda>d. modifyE (\<lambda>w. w\<lparr>trace := trace w @ [Sleep d]\<rparr>)) (True, JsError ''undefined'')
                   (kashier_attempt body) kashier_retry_options)) (\<lambda>response.
        if ks_id response = [] \<or> ks_sessionUrl response = []
        then throwE (JsError ''kashier: malformed session response'')
        else returnE (response,
               (case ks_expireAt response of None \<Rightarrow> toISOString expireAt | Some x \<Rightarrow> x)))))"

subsection \<open>payment.response.dto.ts\<close>

definition PaymentInitResponseDTO :: "payment_session_entity \<Rightarrow> string \<Rightarrow> json" where
  "PaymentInitResponseDTO s expiresAt =
     JObj [(''sessionId'', JStr (string_of_int (s_id s))), (''providerSessionId'', JStr (s_providerSessionId s)),
           (''redirectUrl'', JStr (s_redirectUrl s)), (''amount'', jint (s_amount s)),
           (''currency'', JStr (s_currency s)), (''expiresAt'', JStr expiresAt)]"

definition PROVIDER_NAME_BY_ID :: "int \<Rightarrow> string option" where
  "PROVIDER_NAME_BY_ID i =
     (if i = KASHIER_PROVIDER_ID then Some ''kashier'' else if i = COD_PROVIDER_ID then Some ''cod'' else None)"

definition PaymentResponseDTO :: "transaction_entity \<Rightarrow> json" where
  "PaymentResponseDTO x =
     JObj [(''id'', jint (t_id x)), (''orderId'', jopt jint (t_orderId x)),
           (''type'', JStr (transaction_type_value (t_transactionType x))),
           (''method'', JStr (transaction_method_value (t_method x))),
           (''provider'', jopt JStr (Option.bind (t_providerId x) PROVIDER_NAME_BY_ID)),
           (''providerReferenceId'', jopt JStr (t_providerReferenceId x)),
           (''status'', JStr (transaction_status_value (t_status x))), (''amount'', jint (t_amount x)),
           (''currency'', JStr (t_currency x)), (''isRefunded'', JBool (t_isRefunded x)),
           (''refundedPaymentId'', jopt jint (t_refundedPaymentId x)), (''createdAt'', jdate (t_createdAt x)),
           (''updatedAt'', jdate (t_updatedAt x))]"

subsection \<open>payment.service.ts\<close>

definition initOnlinePayment :: "order_entity \<Rightarrow> (payment_session_entity \<times> string) io" where
  "initOnlinePayment o' =
     bindE (db (o_region o')) (\<lambda>conn.
     bindE (getE env) (\<lambda>e.
     let sessionTtlMs = toMs (sessionTimeoutMin e) M
     in bindE (findActiveSessionByOrderId (o_id o') conn) (\<lambda>existing.
        case existing of
          Some s \<Rightarrow> returnE (s, toISOString (s_createdAt s + sessionTtlMs))
        | None \<Rightarrow>
            bindE (tryCatch
                     (kashierCreateSession (o_publicId o') (toFixed2 (fromMinor (o_total o'))) (o_currency o')
                        (''QuickBite order '' @ o_publicId o') (string_of_int (o_customerId o')))
                     (\<lambda>_. throwE PaymentProviderUnavailableError)) (\<lambda>(resp, expiresAt).
            bindE (createSession
                     \<lparr>ns_region = o_region o', ns_orderId = o_id o', ns_providerId = KASHIER_PROVIDER_ID,
                      ns_providerSessionId = ks_id resp, ns_redirectUrl = ks_sessionUrl resp,
                      ns_amount = o_total o', ns_currency = o_currency o', ns_status = INITIALIZED,
                      ns_rawInitPayload = ks_raw resp\<rparr> conn) (\<lambda>s.
            returnE (s, expiresAt))))))"

definition paymentGetById :: "int \<Rightarrow> int \<Rightarrow> string \<Rightarrow> json io" where
  "paymentGetById paymentId restaurantId region =
     bindE (db region) (\<lambda>conn.
     bindE (findTransactionWithRestaurant paymentId conn) (\<lambda>found.
     case found of
       None \<Rightarrow> throwE PaymentNotFoundError
     | Some (x, owner) \<Rightarrow>
         if owner \<noteq> None \<and> owner \<noteq> Some restaurantId then throwE UnAuthorisedError
         else returnE (PaymentResponseDTO x)))"

subsection \<open>Lemmas\<close>

lemma moves_mapError [moves_intro]: "moves R m \<Longrightarrow> moves R (mapError f m)"
  by (rule movesI) (auto simp: mapError_def dest: movesD split: prod.splits sum.splits)

context quiet_relation begin

lemma moves_kashier_attempt [moves_intro]: "moves R (kashier_attempt b)"
  unfolding kashier_attempt_def by (intro moves_intro R_trace) (auto intro!: movesI R_tick)

lemma moves_kashierCreateSession [moves_intro]: "moves R (kashierCreateSession m a c d r)"
  unfolding kashierCreateSession_def Let_def by (intro moves_intro R_trace)

lemma moves_paymentGetById [moves_intro]: "moves R (paymentGetById p r g)"
  unfolding paymentGetById_def by (intro moves_intro)

end

context hot_relation begin

lemma moves_initOnlinePayment [moves_intro]: "o_region o' = g \<Longrightarrow> moves R (initOnlinePayment o')"
  unfolding initOnlinePayment_def Let_def by (simp, intro moves_intro)

end

subsection \<open>What a signature covers\<close>

lemma joinWith_last: "xs \<noteq> [] \<Longrightarrow> \<exists>p. joinWith c xs = p @ last xs"
proof (induction c xs rule: joinWith.induct)
  case (3 c s t ss)
  then obtain p where "joinWith c (t # ss) = p @ last (t # ss)" by auto
  then have "joinWith c (s # t # ss) = (s @ c # p) @ last (s # t # ss)" by simp
  then show ?case by blast
qed auto

lemma sort_singleton [simp]: "sort [x] = [x]" by simp

text \<open>The text that was signed is also the signed text of an object with a single listed field.\<close>

lemma signed_text_reused:
  assumes "ks \<noteq> []"
  shows "\<exists>k v. \<forall>other. k \<notin> fst ` set other \<longrightarrow>
     buildSignaturePayload (JObj ((k, JStr v) # other)) [k] = buildSignaturePayload d ks"
proof -
  let ?fs = "map (signed_field d) (sort ks)"
  have ne: "sort ks \<noteq> []" using assms by (metis set_empty set_sort)
  then obtain p where p: "joinWith (CHR ''&'') ?fs = p @ last ?fs" using joinWith_last by blast
  let ?k = "last (sort ks)"
  define v where "v = (case jget ?k d of None \<Rightarrow> [] | Some v \<Rightarrow> if v = JNull then [] else js_string v)"
  have l: "last ?fs = ?k @ ''='' @ encodeURIComponent v"
    using ne by (simp add: last_map signed_field_def v_def)
  show ?thesis
  proof (intro exI allI impI)
    fix other :: "(string \<times> json) list"
    assume k: "p @ ?k \<notin> fst ` set other"
    have "map_of (rev other) (p @ ?k) = None" using k by (simp add: map_of_eq_None_iff)
    then show "buildSignaturePayload (JObj ((p @ ?k, JStr v) # other)) [p @ ?k] = buildSignaturePayload d ks"
      using p l by (simp add: buildSignaturePayload_def signed_field_def jget_def map_add_def)
  qed
qed

text \<open>the names of the signed fields are not escaped and come from the payload itself, so one accepted
  payload and its signature are enough to have any other fields accepted: with a suitable field name and
  value in front and that name as the only signed key, every further field of the payload is free (the
  transaction id, the order and the status among them).\<close>

theorem webhook_signature_covers_nothing_else:
  assumes "verifyWebhookSignature hmac data signatureKeys apiKey signature" and "signatureKeys \<noteq> []"
  shows "\<exists>k v. \<forall>other. k \<notin> fst ` set other \<longrightarrow>
     verifyWebhookSignature hmac (JObj ((k, JStr v) # other)) [k] apiKey signature"
proof -
  from signed_text_reused [OF assms(2), of data] obtain k v where
    "\<forall>other. k \<notin> fst ` set other \<longrightarrow>
       buildSignaturePayload (JObj ((k, JStr v) # other)) [k] = buildSignaturePayload data signatureKeys" by blast
  then show ?thesis
    using kashier_verifier.replay_accepted [OF assms(1)] by blast
qed

theorem webhook_signature_covers_nothing_else_witness:
  "\<exists>k v. \<forall>other. k \<notin> fst ` set other \<longrightarrow>
     verifyWebhookSignature (\<lambda>key t. ''0f'') (JObj ((k, JStr v) # other)) [k] ''key'' ''0F''"
  by (rule webhook_signature_covers_nothing_else
        [where data = "JObj [(''status'', JStr ''FAILED''), (''transactionId'', JStr ''TX-1'')]"
           and signatureKeys = "[''transactionId'', ''status'']"])
    (simp_all add: verifyWebhookSignature_def computeWebhookSignature_def hex_value_def)

end
