(* ===== verification/Orders.thy ===== *)
theory Orders
  imports OrderDtos OrderRepo Access Payment
begin

section \<open>The order service\<close>

text \<open>
  \<open>src/app/order/service/order.service.ts\<close> and the read side of \<open>core-data-cache.service.ts\<close>. A handler is
  one program; those whose reads and writes can interleave with another request are given as a read phase
  and a write phase, composed at the end. Logging is not modelled. \<open>Promise.all\<close> over two reads runs them
  in the order of the list.
\<close>

subsection \<open>Helpers\<close>

definition SERVICE_FEE_MINOR :: int where
  "SERVICE_FEE_MINOR = 1000"

definition RESTAURANT_ORDERS_CACHE_PREFIX :: "string \<Rightarrow> int \<Rightarrow> string" where
  "RESTAURANT_ORDERS_CACHE_PREFIX region branchId =
     region @ '':GET:/api/restaurant/orders?branchId='' @ string_of_int branchId"

definition invalidateBranchOrdersCache :: "string \<Rightarrow> int \<Rightarrow> unit io" where
  "invalidateBranchOrdersCache region branchId =
     ignoring (bindE (cache_del (RESTAURANT_ORDERS_CACHE_PREFIX region branchId)) (\<lambda>_. returnE ()))"

definition rejectFlagKey :: "int \<Rightarrow> string" where
  "rejectFlagKey branchId = ''branch:reject-new-orders:'' @ string_of_int branchId"

definition isBranchRejectingOrders :: "int \<Rightarrow> bool io" where
  "isBranchRejectingOrders branchId =
     bindE (cache_get (rejectFlagKey branchId)) (\<lambda>flag. returnE (flag = Some (Text ''1'')))"

text \<open>A check that throws or yields a value.\<close>

definition checked :: "exn + 'a \<Rightarrow> 'a io" where
  "checked r = (case r of Inl e \<Rightarrow> throwE e | Inr x \<Rightarrow> returnE x)"

record order_line_draft =
  d_productId :: int
  d_quantity :: int
  d_unitPrice :: int
  d_lineTotal :: int
  d_name :: string
  d_imageUrl :: "string option"

text \<open>An unavailable item: product, requested, available. The error carries the list as JSON text.\<close>

type_synonym unavailable_item = "int \<times> int \<times> int"

definition quoted :: "string \<Rightarrow> string" where
  "quoted s = CHR 0x22 # s @ [CHR 0x22]"

definition unavailable_text :: "unavailable_item \<Rightarrow> string" where
  "unavailable_text u =
     (case u of (p, r, a) \<Rightarrow>
        ''{'' @ quoted ''productId'' @ '':'' @ string_of_int p @ '','' @ quoted ''requested'' @ '':'' @
        string_of_int r @ '','' @ quoted ''available'' @ '':'' @ string_of_int a @ ''}'')"

definition outOfStockError :: "unavailable_item list \<Rightarrow> exn" where
  "outOfStockError offending =
     appError (''OutOfStock: ['' @ joinWith (CHR '','') (map unavailable_text offending) @ '']'') 409"

fun draft_loop ::
  "(int \<rightharpoonup> core_product) \<Rightarrow> stock_item list \<Rightarrow> unavailable_item list \<times> order_line_draft list" where
  "draft_loop byProduct [] = ([], [])"
| "draft_loop byProduct ((pid, q) # its) =
     (let (bad, drafts) = draft_loop byProduct its
      in case byProduct pid of
           None \<Rightarrow> ((pid, q, 0) # bad, drafts)
         | Some p \<Rightarrow>
             if \<not> cp_isAvailable p then ((pid, q, 0) # bad, drafts)
             else if cp_stock p < q then ((pid, q, cp_stock p) # bad, drafts)
             else (bad, \<lparr>d_productId = pid, d_quantity = q, d_unitPrice = cp_price p,
                        d_lineTotal = multiplyMinor (cp_price p) q, d_name = cp_name p,
                        d_imageUrl = cp_imageUrl p\<rparr> # drafts))"

definition byProduct :: "core_product list \<Rightarrow> int \<rightharpoonup> core_product" where
  "byProduct products = map_of (rev (map (\<lambda>p. (cp_productId p, p)) products))"

definition buildOrderLineDrafts ::
  "stock_item list \<Rightarrow> core_product list \<Rightarrow> exn + order_line_draft list" where
  "buildOrderLineDrafts requested products =
     (case draft_loop (byProduct products) requested of
        ([], drafts) \<Rightarrow> Inr drafts
      | (bad, _) \<Rightarrow> Inl (outOfStockError bad))"

definition releaseStockSafe :: "int \<Rightarrow> stock_item list \<Rightarrow> string \<Rightarrow> string option \<Rightarrow> unit io" where
  "releaseStockSafe branchId items idempotencyKey correlationId =
     ignoring (releaseStock branchId items (Some idempotencyKey) correlationId)"

definition voidOrderSafe :: "string \<Rightarrow> string \<Rightarrow> unit io" where
  "voidOrderSafe region publicId =
     ignoring (bindE (db region) (\<lambda>conn.
       transaction conn
         (bindE (updateOrderStatus publicId CANCELLED (Some CancelledAt) conn) (\<lambda>_. returnE ())) throwE))"

subsection \<open>placeOrder\<close>

record create_order_request =
  co_branchId :: int
  co_customerAddressId :: int
  co_paymentMethod :: payment_method
  co_items :: "stock_item list"

text \<open>Steps 1 to 4: what is checked and computed before stock is reserved.\<close>

record order_plan =
  pl_branch :: core_branch
  pl_region :: string
  pl_address :: core_address
  pl_drafts :: "order_line_draft list"
  pl_subtotal :: int
  pl_total :: int

definition planOrder ::
  "actor \<Rightarrow> create_order_request \<Rightarrow> string option \<Rightarrow> string option \<Rightarrow> order_plan io" where
  "planOrder a body region correlationId =
     bindE (getBranch (co_branchId body) correlationId) (\<lambda>branch.
     seqE (throwIf (\<not> cb_isActive branch \<or> \<not> cb_acceptOrders branch) BranchNotAcceptingOrdersError)
    (seqE (throwIf (cb_restaurantStatus branch \<noteq> ''active'') BranchNotAcceptingOrdersError)
    (bindE (isBranchRejectingOrders (co_branchId body)) (\<lambda>rejecting.
     seqE (throwIf rejecting BranchNotAcceptingOrdersError)
    (bindE (assertRegion (case region of None \<Rightarrow> Some (cb_region branch) | Some r \<Rightarrow> Some r)) (\<lambda>resolvedRegion.
     bindE (getE env) (\<lambda>e.
     seqE (throwIf (co_paymentMethod body = ONLINE \<and> resolvedRegion \<notin> set (onlineRegions e))
             OnlinePaymentNotAvailableError)
    (bindE (getCustomerAddress (co_customerAddressId body) correlationId) (\<lambda>address.
     seqE (throwIf (ca_userId address \<noteq> ac_userId a) UnAuthorisedError)
    (bindE (getBranchProducts (co_branchId body) (map fst (co_items body)) correlationId) (\<lambda>products.
     bindE (checked (buildOrderLineDrafts (co_items body) products)) (\<lambda>drafts.
     let subtotal = sumMinor (map d_lineTotal drafts)
     in returnE \<lparr>pl_branch = branch, pl_region = resolvedRegion, pl_address = address, pl_drafts = drafts,
                 pl_subtotal = subtotal,
                 pl_total = subtotal + cb_deliveryFee branch + SERVICE_FEE_MINOR\<rparr>))))))))))))"

definition order_input :: "actor \<Rightarrow> create_order_request \<Rightarrow> order_plan \<Rightarrow> string \<Rightarrow> create_order_input" where
  "order_input a body pl publicId =
     (let branch = pl_branch pl; address = pl_address pl
      in \<lparr>n_region = pl_region pl, n_publicId = publicId, n_countryCode = cb_region branch,
          n_restaurantId = cb_restaurantId branch, n_restaurantOwnerId = cb_restaurantOwnerId branch,
          n_branchId = cb_id branch, n_customerId = ac_userId a, n_customerAddressId = ca_id address,
          n_deliveryLat = ca_lat address, n_deliveryLng = ca_lng address,
          n_deliveryAddressTextSnapshot = flattenAddress address, n_branchLat = cb_lat branch,
          n_branchLng = cb_lng branch,
          n_status = (if co_paymentMethod body = ONLINE then PENDING_PAYMENT else PLACED),
          n_subtotal = pl_subtotal pl, n_deliveryFee = cb_deliveryFee branch, n_serviceFee = SERVICE_FEE_MINOR,
          n_total = pl_total pl, n_currency = cb_currency branch, n_paymentMethod = co_paymentMethod body\<rparr>)"

definition item_input :: "string \<Rightarrow> int \<Rightarrow> order_line_draft \<Rightarrow> insert_item_input" where
  "item_input region orderId l =
     \<lparr>ni_region = region, ni_orderId = orderId, ni_productId = d_productId l, ni_quantity = d_quantity l,
      ni_unitPriceSnapshot = d_unitPrice l, ni_nameSnapshot = d_name l, ni_imageUrlSnapshot = d_imageUrl l,
      ni_lineTotal = d_lineTotal l\<rparr>"

text \<open>Step 6: the body of the transaction.\<close>

definition placeOrder_body ::
  "actor \<Rightarrow> create_order_request \<Rightarrow> order_plan \<Rightarrow> string \<Rightarrow> conn \<Rightarrow> (order_entity \<times> order_item_entity list) io" where
  "placeOrder_body a body pl publicId trx =
     bindE (createOrder (order_input a body pl publicId) trx) (\<lambda>o'.
     bindE (bulkInsertItems (map (item_input (pl_region pl) (o_id o')) (pl_drafts pl)) trx) (\<lambda>items.
     seqE (whenE (o_status o' = PLACED)
             (insertOutboxEvent trx (order_event (o_publicId o') ORDER_PLACED (buildOrderPlacedPayload o' items))))
          (returnE (o', items))))"

text \<open>Steps 6 and 7: the transaction, and the payment session of an online order.\<close>

definition placeOrder_commit ::
  "actor \<Rightarrow> create_order_request \<Rightarrow> order_plan \<Rightarrow> string \<Rightarrow> string option \<Rightarrow>
   (order_entity \<times> order_item_entity list) io" where
  "placeOrder_commit a body pl publicId correlationId =
     bindE (db (pl_region pl)) (\<lambda>conn.
     transaction conn (placeOrder_body a body pl publicId conn)
       (\<lambda>err. seqE (releaseStockSafe (co_branchId body) (co_items body) publicId correlationId) (throwE err)))"

definition placeOrder_payment ::
  "create_order_request \<Rightarrow> order_plan \<Rightarrow> order_entity \<Rightarrow> string option \<Rightarrow> payment_info option io" where
  "placeOrder_payment body pl o' correlationId =
     (if co_paymentMethod body = ONLINE
      then
        tryCatch
          (bindE (initOnlinePayment o') (\<lambda>(s, expiresAt).
           returnE (Some \<lparr>pi_sessionId = string_of_int (s_id s), pi_providerSessionId = s_providerSessionId s,
                          pi_redirectUrl = s_redirectUrl s, pi_expiresAt = expiresAt\<rparr>)))
          (\<lambda>err.
           seqE (voidOrderSafe (pl_region pl) (o_publicId o'))
          (seqE (releaseStockSafe (co_branchId body) (co_items body) (o_publicId o') correlationId)
                (throwE err)))
      else returnE None)"

text \<open>Step 8: the cache and the announcement to the branch.\<close>

definition placeOrder_finish ::
  "create_order_request \<Rightarrow> order_plan \<Rightarrow> order_entity \<Rightarrow> order_item_entity list \<Rightarrow> payment_info option \<Rightarrow> json io" where
  "placeOrder_finish body pl o' items paymentInfo =
     seqE (invalidateBranchOrdersCache (pl_region pl) (cb_id (pl_branch pl)))
    (seqE (whenE (co_paymentMethod body = COD)
             (wsEmit (''branch:'' @ string_of_int (cb_id (pl_branch pl))) ''order.created''
                (OrderSummaryResponseDTO o' (length items))))
          (returnE (OrderResponseDTO o' items paymentInfo)))"

definition placeOrder ::
  "actor \<Rightarrow> create_order_request \<Rightarrow> string option \<Rightarrow> string option \<Rightarrow> json io" where
  "placeOrder a body region correlationId =
     bindE (planOrder a body region correlationId) (\<lambda>pl.
     bindE randomUUID (\<lambda>publicId.
     seqE (reserveStock (co_branchId body) (co_items body) (Some publicId) correlationId)
    (bindE (placeOrder_commit a body pl publicId correlationId) (\<lambda>(o', items).
     bindE (placeOrder_payment body pl o' correlationId) (\<lambda>paymentInfo.
     placeOrder_finish body pl o' items paymentInfo)))))"

subsection \<open>Reads\<close>

definition getOrder :: "actor \<Rightarrow> string \<Rightarrow> string \<Rightarrow> json io" where
  "getOrder a region publicId =
     bindE (db region) (\<lambda>conn.
     bindE (findOrderByPublicId publicId conn) (\<lambda>found.
     bindE (if found = None \<and> canReadArchive a
            then bindE (dbArchive region) (\<lambda>conn'.
                 bindE (findOrderByPublicId publicId conn') (\<lambda>found'. returnE (found', conn')))
            else returnE (found, conn)) (\<lambda>(found', conn').
     case found' of
       None \<Rightarrow> throwE OrderNotFoundError
     | Some o' \<Rightarrow>
         seqE (checked (assertReadAccess a o'))
        (bindE (findItemsByOrderIds [o_id o'] conn') (\<lambda>items.
         returnE (OrderDetailResponseDTO o' items))))))"

definition count_or_zero :: "(int \<rightharpoonup> nat) \<Rightarrow> order_entity \<Rightarrow> nat" where
  "count_or_zero counts o' = (case counts (o_id o') of None \<Rightarrow> 0 | Some n \<Rightarrow> n)"

definition summaries :: "(int \<rightharpoonup> nat) \<Rightarrow> order_entity list \<Rightarrow> json list" where
  "summaries counts os = map (\<lambda>o'. OrderSummaryResponseDTO o' (count_or_zero counts o')) os"

text \<open>\<open>year < currentUtcYear() ? dbArchive(region) : db(region)\<close>\<close>

definition yearShard :: "string \<Rightarrow> int \<Rightarrow> conn io" where
  "yearShard region year =
     bindE now (\<lambda>t. if year < currentUtcYear t then dbArchive region else db region)"

definition listCustomerOrders ::
  "actor \<Rightarrow> string \<Rightarrow> int \<Rightarrow> pagination_params \<Rightarrow> (json list \<times> pagination_meta) io" where
  "listCustomerOrders a region year pagination =
     bindE (yearShard region year) (\<lambda>conn.
     bindE (findOrdersByCustomer (ac_userId a) (startOfUtcYear year) (startOfUtcYear (year + 1)) pagination conn)
       (\<lambda>(os, meta).
     bindE (countItemsByOrderIds (map o_id os) conn) (\<lambda>counts.
     returnE (summaries counts os, meta))))"

definition listRestaurantOrdersAcrossClusters ::
  "string \<Rightarrow> restaurant_filter \<Rightarrow> int \<Rightarrow> pagination_params \<Rightarrow> (json list \<times> pagination_meta) io" where
  "listRestaurantOrdersAcrossClusters region f yearStart pagination =
     bindE (db region) (\<lambda>hotConn.
     bindE (dbArchive region) (\<lambda>archiveConn.
     bindE (findOrdersByRestaurantBranch (f\<lparr>rf_from := Some yearStart\<rparr>) pagination hotConn) (\<lambda>(hot, _).
     bindE (findOrdersByRestaurantBranch (f\<lparr>rf_to := Some yearStart\<rparr>) pagination archiveConn) (\<lambda>(arch, _).
     let merged = sort_key (\<lambda>o'. case pg_sortOrder pagination of Asc \<Rightarrow> o_createdAt o' | Desc \<Rightarrow> - o_createdAt o')
                    (hot @ arch);
         (os, meta) = buildPaginationResult o_createdAt o_id merged (pg_limit pagination);
         hotIds = set (map o_id hot)
     in bindE (countItemsByOrderIds (map o_id (filter (\<lambda>o'. o_id o' \<in> hotIds) os)) hotConn) (\<lambda>hotCounts.
        bindE (countItemsByOrderIds (map o_id (filter (\<lambda>o'. o_id o' \<notin> hotIds) os)) archiveConn) (\<lambda>archiveCounts.
        returnE (summaries (hotCounts ++ archiveCounts) os, meta)))))))"

definition listRestaurantOrders ::
  "string \<Rightarrow> restaurant_filter \<Rightarrow> pagination_params \<Rightarrow> (json list \<times> pagination_meta) io" where
  "listRestaurantOrders region f pagination =
     bindE now (\<lambda>t.
     let yearStart = startOfUtcYear (currentUtcYear t);
         archiveOnly = (case rf_to f of None \<Rightarrow> False | Some to \<Rightarrow> to \<le> yearStart);
         hotOnly = (\<not> archiveOnly \<and> (case rf_from f of None \<Rightarrow> True | Some frm \<Rightarrow> yearStart \<le> frm))
     in if hotOnly \<or> archiveOnly
        then bindE (if archiveOnly then dbArchive region else db region) (\<lambda>conn.
             bindE (findOrdersByRestaurantBranch f pagination conn) (\<lambda>(os, meta).
             bindE (countItemsByOrderIds (map o_id os) conn) (\<lambda>counts.
             returnE (summaries counts os, meta))))
        else listRestaurantOrdersAcrossClusters region f yearStart pagination)"

definition listOrdersForBackfill ::
  "string \<Rightarrow> int \<Rightarrow> pagination_params \<Rightarrow> (json list \<times> pagination_meta) io" where
  "listOrdersForBackfill region year pagination =
     bindE (yearShard region year) (\<lambda>conn.
     bindE (findOrdersForBackfill (startOfUtcYear year) (startOfUtcYear (year + 1)) pagination conn) (\<lambda>(os, meta).
     bindE (findItemsByOrderIds (map o_id os) conn) (\<lambda>items.
     returnE (map (\<lambda>o'. OrderHistoryResponseDTO o' (filter (\<lambda>i. i_orderId i = o_id o') items)) os, meta))))"

subsection \<open>updateStatus\<close>

record update_status_request =
  us_status :: order_status
  us_reason :: "string option"

fun OUTBOX_EVENT_FOR_STATUS :: "order_status \<Rightarrow> string option" where
  "OUTBOX_EVENT_FOR_STATUS ACCEPTED = Some ORDER_ACCEPTED"
| "OUTBOX_EVENT_FOR_STATUS REJECTED = Some ORDER_REJECTED"
| "OUTBOX_EVENT_FOR_STATUS CANCELLED = Some ORDER_CANCELLED"
| "OUTBOX_EVENT_FOR_STATUS _ = None"

definition STOCK_RELEASE_ELIGIBLE_FROM_STATUSES :: "order_status set" where
  "STOCK_RELEASE_ELIGIBLE_FROM_STATUSES = {PENDING_PAYMENT, PLACED, ACCEPTED}"

text \<open>The read phase: the order as it was read, the acting party and the column to stamp.\<close>

definition updateStatus_read ::
  "actor \<Rightarrow> string \<Rightarrow> string \<Rightarrow> update_status_request \<Rightarrow> (conn \<times> order_entity \<times> status_actor \<times> stamp option) io" where
  "updateStatus_read a region publicId body =
     bindE (db region) (\<lambda>conn.
     bindE (findOrderByPublicId publicId conn) (\<lambda>found.
     case found of
       None \<Rightarrow> throwE OrderNotFoundError
     | Some o' \<Rightarrow>
         bindE (checked (resolveStatusActor a o')) (\<lambda>who.
         seqE (whenE (who = RESTAURANT_MEMBER) (assertRestaurantMemberPermission a (us_status body)))
        (bindE now (\<lambda>t.
         bindE (checked (assertTransition t (o_status o') (us_status body)
                  \<lparr>ctx_actor = who, ctx_reason = us_reason body, ctx_placedAt = Some (o_createdAt o'),
                   ctx_acceptedAt = o_acceptedAt o'\<rparr>)) (\<lambda>st.
         returnE (conn, o', who, st)))))))"

definition updateStatus_body ::
  "order_entity \<Rightarrow> status_actor \<Rightarrow> stamp option \<Rightarrow> update_status_request \<Rightarrow> conn \<Rightarrow> order_entity io" where
  "updateStatus_body o' who st body trx =
     bindE (updateOrderStatus (o_publicId o') (us_status body) st trx) (\<lambda>updated.
     seqE (case OUTBOX_EVENT_FOR_STATUS (us_status body) of
             None \<Rightarrow> returnE ()
           | Some ev \<Rightarrow>
               insertOutboxEvent trx
                 (order_event (o_publicId updated) ev (buildOrderTransitionPayload updated (us_reason body) who)))
          (returnE updated))"

definition updateStatus_release :: "order_entity \<Rightarrow> update_status_request \<Rightarrow> conn \<Rightarrow> unit io" where
  "updateStatus_release o' body conn =
     whenE ((us_status body = CANCELLED \<or> us_status body = REJECTED) \<and>
            o_status o' \<in> STOCK_RELEASE_ELIGIBLE_FROM_STATUSES)
       (bindE (findItemsByOrderIds [o_id o'] conn) (\<lambda>items.
        releaseStockSafe (o_branchId o') (map (\<lambda>i. (i_productId i, i_quantity i)) items) (o_publicId o') None))"

definition updateStatus_write ::
  "string \<Rightarrow> update_status_request \<Rightarrow> conn \<times> order_entity \<times> status_actor \<times> stamp option \<Rightarrow> json io" where
  "updateStatus_write region body = (\<lambda>(conn, o', who, st).
     bindE (transaction conn (updateStatus_body o' who st body conn) throwE) (\<lambda>updated.
     seqE (updateStatus_release o' body conn)
    (seqE (invalidateBranchOrdersCache region (o_branchId o'))
    (let payload = OrderStatusResponseDTO updated
     in seqE (wsEmit (''customer:'' @ string_of_int (o_customerId updated)) ''order.status_changed'' payload)
       (seqE (wsEmit (''branch:'' @ string_of_int (o_branchId updated)) ''order.status_changed'' payload)
             (returnE payload))))))"

definition updateStatus :: "actor \<Rightarrow> string \<Rightarrow> string \<Rightarrow> update_status_request \<Rightarrow> json io" where
  "updateStatus a region publicId body =
     bindE (updateStatus_read a region publicId body) (updateStatus_write region body)"

subsection \<open>Frames\<close>

context quiet_relation begin

lemma moves_checked [moves_intro]: "moves R (checked r)"
  unfolding checked_def by (intro moves_intro)

lemma moves_order_helpers [moves_intro]:
  "moves R (invalidateBranchOrdersCache g b)" "moves R (isBranchRejectingOrders b)"
  "moves R (releaseStockSafe b is k cid)"
  unfolding invalidateBranchOrdersCache_def isBranchRejectingOrders_def releaseStockSafe_def
  by (intro moves_intro)+

lemma moves_planOrder [moves_intro]: "moves R (planOrder a body g cid)"
  unfolding planOrder_def Let_def by (intro moves_intro)

lemma moves_placeOrder_finish [moves_intro]: "moves R (placeOrder_finish body pl o' items pay)"
  unfolding placeOrder_finish_def by (intro moves_intro)

lemma moves_updateStatus_read [moves_intro]: "moves R (updateStatus_read a g p body)"
  unfolding updateStatus_read_def by (intro moves_intro)

lemma moves_updateStatus_release [moves_intro]: "moves R (updateStatus_release o' body conn)"
  unfolding updateStatus_release_def by (intro moves_intro)

lemma moves_order_reads [moves_intro]:
  "moves R (getOrder a g p)" "moves R (listCustomerOrders a g y ps)"
  "moves R (listRestaurantOrdersAcrossClusters g f t ps)" "moves R (listOrdersForBackfill g y ps)"
  unfolding getOrder_def listCustomerOrders_def yearShard_def listRestaurantOrdersAcrossClusters_def
    listOrdersForBackfill_def Let_def
  by (intro moves_intro)+

lemma moves_listRestaurantOrders [moves_intro]: "moves R (listRestaurantOrders g f ps)"
  unfolding listRestaurantOrders_def Let_def by (intro moves_intro)

end

context shard_relation begin

lemma moves_order_bodies [moves_intro]:
  "moves R (placeOrder_body a body pl p c)" "moves R (updateStatus_body o' who st body' c)"
  unfolding placeOrder_body_def updateStatus_body_def by (intro moves_intro)+

end

context hot_relation begin

lemma moves_voidOrderSafe [moves_intro]: "moves R (voidOrderSafe g p)"
  unfolding voidOrderSafe_def by (intro moves_intro)

lemma moves_placeOrder_commit [moves_intro]: "pl_region pl = g \<Longrightarrow> moves R (placeOrder_commit a body pl p cid)"
  unfolding placeOrder_commit_def by (simp, intro moves_intro)

lemma moves_placeOrder_payment [moves_intro]:
  "pl_region pl = g \<Longrightarrow> o_region o' = g \<Longrightarrow> moves R (placeOrder_payment body pl o' cid)"
  unfolding placeOrder_payment_def by (simp only:, intro moves_intro)

end

lemmas run_Orders [run] =
  invalidateBranchOrdersCache_def isBranchRejectingOrders_def checked_def byProduct_def
  buildOrderLineDrafts_def releaseStockSafe_def voidOrderSafe_def planOrder_def order_input_def
  item_input_def placeOrder_body_def placeOrder_commit_def placeOrder_payment_def placeOrder_finish_def placeOrder_def
  updateStatus_read_def updateStatus_body_def updateStatus_release_def updateStatus_write_def
  updateStatus_def STOCK_RELEASE_ELIGIBLE_FROM_STATUSES_def SERVICE_FEE_MINOR_def order_event_def

end
