(* ===== verification/Sample.thy ===== *)
theory Sample
  imports World
begin

section \<open>A sample deployment\<close>

text \<open>
  A concrete world for the witnesses of the later theories: one region, every outside call succeeds,
  core-service knows one branch, one product and one address, and Kashier opens a session. Each witness
  changes what it needs.
\<close>

definition sample_branch :: core_branch where
  "sample_branch =
     \<lparr>cb_id = 7, cb_restaurantId = 3, cb_restaurantOwnerId = 9, cb_restaurantStatus = ''active'', cb_region = ''eg'',
      cb_isActive = True, cb_acceptOrders = True, cb_deliveryFee = 500, cb_commissionBps = 1500,
      cb_currency = ''EGP'', cb_lat = 300, cb_lng = 310, cb_name = ''B'', cb_addressText = ''X''\<rparr>"

definition sample_product :: core_product where
  "sample_product =
     \<lparr>cp_productId = 21, cp_name = ''P'', cp_imageUrl = None, cp_price = 2500, cp_stock = 10, cp_isAvailable = True\<rparr>"

definition sample_address :: core_address where
  "sample_address =
     \<lparr>ca_id = 4, ca_userId = 5, ca_country = ''EG'', ca_city = ''C'', ca_street = ''S'', ca_building = ''1'',
      ca_lat = 301, ca_lng = 311\<rparr>"

definition sample_outside :: outside where
  "sample_outside =
     \<lparr>dbFault = (\<lambda>_. None), redisFault = (\<lambda>_. None), brokerFault = (\<lambda>_. None),
      coreBranch = (\<lambda>_ _. Response 200 [] (Some sample_branch)),
      coreBranches = (\<lambda>_ _. Response 200 [] (Some [sample_branch])),
      coreProducts = (\<lambda>_ _. Response 200 [] (Some [sample_product])),
      coreStock = (\<lambda>_ _. Response 200 [] (Some ())),
      coreAddress = (\<lambda>_ _. Response 200 [] (Some sample_address)),
      corePermissions = (\<lambda>_ _. Response 200 [] (Some (Some [''orders:accept'', ''orders:reject'', ''orders:cancel'', ''orders:update'']))),
      kashierSessions = (\<lambda>_ _. Response 200 [] (Some \<lparr>ks_id = ''k1'', ks_sessionUrl = ''u'', ks_expireAt = Some ''e'', ks_raw = JNull\<rparr>)),
      geoDistance = (\<lambda>(x, y) (x', y'). \<bar>x - x'\<bar> + \<bar>y - y'\<bar>), hmacSha256 = (\<lambda>k s. ''0f''),
      uuidAt = (\<lambda>n. replicate n CHR ''u''), timestampCast = (\<lambda>_. None)\<rparr>"

definition sample_env :: env where
  "sample_env =
     \<lparr>regions = [''eg''], onlineRegions = [''eg''], sessionTimeoutMin = 15, internalApiKey = ''k'', kashierApiKey = ''k'',
      kashierMerchantId = ''m'', kashierPaymentType = ''credit'', kashierWebhookUrl = ''w'', kashierReturnUrl = ''r'',
      presenceStaleSec = 60, radiusMeters = 5000, candidates = 5, offerTtlSec = 30, claimTtlSec = 10, maxAttempts = 3,
      batch = 10, agentEarningShareBps = 8000, outboundExchange = ''order.events'', outboundBatchSize = 10,
      archivalBatchSize = 2, archivalMaxRuntimeMin = 10\<rparr>"

definition empty_shard :: shard where
  "empty_shard =
     \<lparr>tabs = \<lparr>orders = [], order_items = [], payment_sessions = [], transactions = [], webhook_events = [],
               balances = [], earnings = [], outbox = []\<rparr>,
      sqs = \<lparr>q_orders = 0, q_items = 0, q_sessions = 0, q_transactions = 0, q_webhooks = 0, q_earnings = 0, q_outbox = 0\<rparr>\<rparr>"

definition sample_world :: world where
  "sample_world =
     \<lparr>clock = 1000000, env = sample_env, ext = sample_outside, steps = 0, shards = (\<lambda>_. empty_shard),
      redis = Map.empty, permCache = Map.empty, trace = []\<rparr>"

definition with_orders :: "order_entity list \<Rightarrow> world \<Rightarrow> world" where
  "with_orders os w =
     w\<lparr>shards := (shards w)((Hot, ''eg'') :=
        (shards w (Hot, ''eg''))\<lparr>tabs := (tabs (shards w (Hot, ''eg'')))\<lparr>orders := os\<rparr>\<rparr>)\<rparr>"

definition sample_order :: order_entity where
  "sample_order =
     \<lparr>o_id = 1, o_region = ''eg'', o_publicId = ''p1'', o_countryCode = ''eg'', o_restaurantId = 3,
      o_restaurantOwnerId = 9, o_branchId = 7, o_customerId = 5, o_customerAddressId = 4, o_deliveryLat = 301,
      o_deliveryLng = 311, o_deliveryAddressTextSnapshot = ''A'', o_branchLat = 300, o_branchLng = 310,
      o_status = PLACED, o_subtotal = 5000, o_deliveryFee = 500, o_serviceFee = 1000, o_total = 6500,
      o_commission = 0, o_currency = ''EGP'', o_paymentMethod = COD, o_deliveryAgentId = None,
      o_createdAt = 990000, o_updatedAt = 990000, o_acceptedAt = None, o_rejectedAt = None, o_readyAt = None,
      o_assignedAt = None, o_pickedAt = None, o_deliveredAt = None, o_cancelledAt = None\<rparr>"

lemmas run_Sample [run] =
  sample_branch_def sample_product_def sample_address_def sample_outside_def sample_env_def
  empty_shard_def sample_world_def with_orders_def sample_order_def

end
