(* ===== verification/OrderLaws.thy ===== *)
theory OrderLaws
  imports Orders Sample
begin

section \<open>What the order service guarantees\<close>

text \<open>
  Inversion lemmas for the phases of \<open>Orders\<close> and the properties of \<open>placeOrder\<close>, \<open>updateStatus\<close> and the
  reads: legality of every status change, atomicity, the contents of a placed order, stock.
\<close>

subsection \<open>Inversion\<close>

lemma checked_InrE [inv_elim, elim!]:
  assumes "checked r w = (Inr x, w')"
  obtains "r = Inr x" and "w' = w"
  using assms by (auto simp: checked_def split: sum.splits)

lemma insertOutboxEvent_InrE [inv_elim, elim]:
  assumes "insertOutboxEvent c n w = (Inr u, w')"
  obtains x where "x_eventType x = ox_eventType n" and "x_payload x = ox_payload n"
    and "x_aggregateId x = ox_aggregateId n" and "x_dispatchedAt x = None"
    and "tables_of w' = (tables_of w)(c := (tables_of w c)\<lparr>outbox := outbox (tables_of w c) @ [x]\<rparr>)"
    and "env w' = env w" and "ext w' = ext w" and "clock w' = clock w" and "trace w' = trace w"
proof -
  let ?v = "w\<lparr>steps := Suc (steps w)\<rparr>"
  from assms obtain sh where w': "w' = (tick ?v)\<lparr>shards := (shards w)(c := sh)\<rparr>"
    and sh: "sh = (set_outbox (outbox (tabs (shards w c)) @
        [outbox_new_row (q_outbox (sqs (shards w c)) + 1) (clock w) (uuidAt (ext w) (steps w)) n]) (shards w c))
        \<lparr>sqs := (sqs (shards w c))\<lparr>q_outbox := q_outbox (sqs (shards w c)) + 1\<rparr>\<rparr>"
    unfolding insertOutboxEvent_def insert_outbox_rows_def randomUUID_def
    by (auto simp: Let_def split: if_splits)
  show thesis
    by (rule that [of "outbox_new_row (q_outbox (sqs (shards w c)) + 1) (clock w) (uuidAt (ext w) (steps w)) n"])
      (simp_all add: w' sh outbox_new_row_def tables_of_def fun_eq_iff set_outbox_def)
qed

lemma updateOrderStatus_InrE [inv_elim, elim]:
  assumes "updateOrderStatus p s st c w = (Inr u, w')"
  obtains o' where "List.find (\<lambda>o'. o_publicId o' = p) (orders (tables_of w c)) = Some o'"
    and "u = status_row s st (clock w) o'"
    and "tables_of w' = (tables_of w)(c := (tables_of w c)\<lparr>orders :=
           update_where (\<lambda>o'. o_publicId o' = p) (status_row s st (clock w)) (orders (tables_of w c))\<rparr>)"
    and "env w' = env w" and "ext w' = ext w" and "clock w' = clock w" and "trace w' = trace w"
proof -
  let ?p = "\<lambda>o'. o_publicId o' = p" let ?f = "status_row s st (clock w)"
  let ?os = "orders (tabs (shards w c))"
  from assms obtain rs sh where r: "returning ?p ?f ?os = u # rs"
    and sh: "sh = set_orders (update_where ?p ?f ?os) (shards w c)"
    and w': "w' = (tick w)\<lparr>shards := (shards w)(c := sh)\<rparr>"
    unfolding updateOrderStatus_def by (auto simp: Let_def split: list.splits)
  from r obtain o' os' where f: "filter ?p ?os = o' # os'" and u: "u = ?f o'"
    by (auto simp: returning_def)
  then have find: "List.find ?p ?os = Some o'" by (simp add: find_filter)
  show thesis
    by (rule that [of o']) (simp_all add: find w' sh u tables_of_def fun_eq_iff set_orders_def)
qed

lemma updateStatus_read_InrE:
  assumes "updateStatus_read a region pid body w = (Inr (conn, o', who, st), w')"
  obtains "conn = (Hot, region)"
    and "List.find (\<lambda>x. o_publicId x = pid) (orders (tables_of w (Hot, region))) = Some o'"
    and "resolveStatusActor a o' = Inr who"
    and "assertTransition (clock w) (o_status o') (us_status body)
           \<lparr>ctx_actor = who, ctx_reason = us_reason body, ctx_placedAt = Some (o_createdAt o'),
            ctx_acceptedAt = o_acceptedAt o'\<rparr> = Inr st"
    and "shards w' = shards w" and "clock w' = clock w" and "ext w' = ext w"
proof -
  have s: "shards w' = shards w"
    using shards_kept.moves_updateStatus_read assms by (rule shards_keptD)
  have k: "env w' = env w \<and> ext w' = ext w \<and> clock w' = clock w"
    using same_setting.moves_updateStatus_read assms by (rule same_settingD)
  let ?find = "\<lambda>v. List.find (\<lambda>x. o_publicId x = pid) (orders (tabs (shards v (Hot, region))))"
  from assms obtain found w1 where f: "found = ?find w"
    and rest: "(case found of None \<Rightarrow> throwE OrderNotFoundError
       | Some o' \<Rightarrow> bindE (checked (resolveStatusActor a o')) (\<lambda>who.
           seqE (whenE (who = RESTAURANT_MEMBER) (assertRestaurantMemberPermission a (us_status body)))
          (bindE now (\<lambda>t. bindE (checked (assertTransition t (o_status o') (us_status body)
             \<lparr>ctx_actor = who, ctx_reason = us_reason body, ctx_placedAt = Some (o_createdAt o'),
              ctx_acceptedAt = o_acceptedAt o'\<rparr>)) (\<lambda>st. returnE ((Hot, region), o', who, st)))))) w1
       = (Inr (conn, o', who, st), w')" and w1: "w1 = tick w"
    unfolding updateStatus_read_def findOrderByPublicId_def by (elim bindE_InrE db_InrE query_InrE) auto
  obtain o2 where o2: "found = Some o2" using rest by (cases found) auto
  let ?m = "whenE (who = RESTAURANT_MEMBER) (assertRestaurantMemberPermission a (us_status body))"
  from rest o2 obtain w2 where r: "resolveStatusActor a o' = Inr who" "o2 = o'" "conn = (Hot, region)"
    and m: "?m w1 = (Inr (), w2)"
    and t: "assertTransition (clock w2) (o_status o') (us_status body)
             \<lparr>ctx_actor = who, ctx_reason = us_reason body, ctx_placedAt = Some (o_createdAt o'),
              ctx_acceptedAt = o_acceptedAt o'\<rparr> = Inr st" and w2: "w2 = w'"
    by (auto simp: now_def)
  show thesis
    using that r o2 f t w2 k s by (simp add: tables_of_def)
qed

lemma updateStatus_body_InrE:
  assumes "updateStatus_body o' who st body c w = (Inr u, w')"
  obtains old xs where "List.find (\<lambda>x. o_publicId x = o_publicId o') (orders (tables_of w c)) = Some old"
    and "u = status_row (us_status body) st (clock w) old"
    and "map x_eventType xs = (case OUTBOX_EVENT_FOR_STATUS (us_status body) of None \<Rightarrow> [] | Some e \<Rightarrow> [e])"
    and "\<forall>x\<in>set xs. x_dispatchedAt x = None \<and> x_payload x = buildOrderTransitionPayload u (us_reason body) who"
    and "tables_of w' = (tables_of w)(c := (tables_of w c)\<lparr>orders :=
           update_where (\<lambda>x. o_publicId x = o_publicId o') (status_row (us_status body) st (clock w))
             (orders (tables_of w c)), outbox := outbox (tables_of w c) @ xs\<rparr>)"
proof -
  let ?p = "\<lambda>x. o_publicId x = o_publicId o'" let ?f = "status_row (us_status body) st (clock w)"
  from assms obtain w1 where up: "updateOrderStatus (o_publicId o') (us_status body) st c w = (Inr u, w1)"
    and ev: "(case OUTBOX_EVENT_FOR_STATUS (us_status body) of None \<Rightarrow> returnE ()
       | Some ev \<Rightarrow> insertOutboxEvent c
           (order_event (o_publicId u) ev (buildOrderTransitionPayload u (us_reason body) who))) w1 = (Inr (), w')"
    unfolding updateStatus_body_def by auto
  from up obtain old where old: "List.find ?p (orders (tables_of w c)) = Some old" "u = ?f old"
    and t1: "tables_of w1 = (tables_of w)(c := (tables_of w c)\<lparr>orders := update_where ?p ?f (orders (tables_of w c))\<rparr>)"
    by (rule updateOrderStatus_InrE)
  show thesis
  proof (cases "OUTBOX_EVENT_FOR_STATUS (us_status body)")
    case None
    with ev have "w' = w1" by simp
    with None old t1 show thesis by (intro that [of old "[]"]) auto
  next
    case (Some e)
    with ev have "insertOutboxEvent c
        (order_event (o_publicId u) e (buildOrderTransitionPayload u (us_reason body) who)) w1 = (Inr (), w')" by simp
    then show thesis
    proof (rule insertOutboxEvent_InrE)
      fix x
      assume x: "x_eventType x = ox_eventType (order_event (o_publicId u) e (buildOrderTransitionPayload u (us_reason body) who))"
        "x_payload x = ox_payload (order_event (o_publicId u) e (buildOrderTransitionPayload u (us_reason body) who))"
        "x_dispatchedAt x = None"
        "tables_of w' = (tables_of w1)(c := (tables_of w1 c)\<lparr>outbox := outbox (tables_of w1 c) @ [x]\<rparr>)"
      show thesis
        by (rule that [of old "[x]"]) (use x Some old t1 in \<open>auto simp: order_event_def\<close>)
    qed
  qed
qed

text \<open>A transaction over a program: rolled back, or committed.\<close>

lemma transaction_throwE_cases:
  assumes tr: "transaction c body throwE w = (r, w')" and body: "moves (others_kept c) body"
  obtains e where "r = Inl e" and "tables_of w' = tables_of w"
  | x w2 where "r = Inr x" and "body (tick w) = (Inr x, w2)" and "w' = tick w2"
proof (cases r)
  case (Inl e)
  with tr have t: "transaction c body throwE w = (Inl e, w')" by simp
  have "tables_of w' = tables_of w"
    by (rule transaction_atomic [OF body _ t]) (rule shards_kept.moves_throwE)
  with Inl that(1) show thesis by simp
next
  case (Inr x)
  with tr that(2) show thesis by (auto elim: transaction_Inr)
qed

lemma tables_tick [simp]: "tables_of (tick w) = tables_of w"
  by (simp add: tables_of_def fun_eq_iff)

lemma tables_shards: "shards w' = shards w \<Longrightarrow> tables_of w' = tables_of w"
  by (simp add: tables_of_def fun_eq_iff)

subsection \<open>updateStatus\<close>

text \<open>
  The contract of \<open>updateStatus\<close>: exactly the rows with the public id get the new status and its stamp, a
  transition of the table by the acting party, allowed from the status that was read; one event is added
  to the outbox when the status has one; nothing else is written anywhere.
\<close>

definition legal_status_write ::
  "actor \<Rightarrow> string \<Rightarrow> string \<Rightarrow> update_status_request \<Rightarrow> world \<Rightarrow> world \<Rightarrow> bool" where
  "legal_status_write a region pid body w w' \<longleftrightarrow>
     (\<exists>o' who st xs.
        List.find (\<lambda>x. o_publicId x = pid) (orders (tables_of w (Hot, region))) = Some o' \<and>
        resolveStatusActor a o' = Inr who \<and> concerns a o' \<and> status_step (o_status o') who (us_status body) \<and>
        map x_eventType xs = (case OUTBOX_EVENT_FOR_STATUS (us_status body) of None \<Rightarrow> [] | Some e \<Rightarrow> [e]) \<and>
        tables_of w' = (tables_of w)((Hot, region) := (tables_of w (Hot, region))\<lparr>orders :=
            update_where (\<lambda>x. o_publicId x = pid) (status_row (us_status body) st (clock w))
              (orders (tables_of w (Hot, region))), outbox := outbox (tables_of w (Hot, region)) @ xs\<rparr>))"

lemma updateStatus_write_cases:
  assumes "updateStatus_write region body (conn, o', who, st) w = (r, w')"
  obtains e where "r = Inl e" and "tables_of w' = tables_of w"
  | u w2 where "updateStatus_body o' who st body conn (tick w) = (Inr u, w2)" and "tables_of w' = tables_of w2"
proof -
  let ?tr = "transaction conn (updateStatus_body o' who st body conn) throwE"
  let ?rest = "\<lambda>updated. seqE (updateStatus_release o' body conn)
    (seqE (invalidateBranchOrdersCache region (o_branchId o'))
    (let payload = OrderStatusResponseDTO updated
     in seqE (wsEmit (''customer:'' @ string_of_int (o_customerId updated)) ''order.status_changed'' payload)
       (seqE (wsEmit (''branch:'' @ string_of_int (o_branchId updated)) ''order.status_changed'' payload)
             (returnE payload))))"
  obtain q w1 where tr: "?tr w = (q, w1)" by (cases "?tr w")
  have run: "bindE ?tr ?rest w = (r, w')" using assms by (simp add: updateStatus_write_def)
  from tr others_kept.moves_order_bodies(2) show thesis
  proof (rule transaction_throwE_cases)
    fix e assume "q = Inl e" "tables_of w1 = tables_of w"
    with tr run that(1) show thesis by (auto simp: bindE_def)
  next
    fix u w2 assume q: "q = Inr u" and b: "updateStatus_body o' who st body conn (tick w) = (Inr u, w2)"
      and w1: "w1 = tick w2"
    have "?rest u w1 = (r, w')" using tr q run by (simp add: bindE_def)
    moreover have "moves shards_kept (?rest u)" unfolding Let_def by (intro moves_intro)
    ultimately have "tables_of w' = tables_of w1" by (intro tables_shards) (rule shards_keptD)
    with b w1 that(2) show thesis by simp
  qed
qed

text \<open>C1: a status change through \<open>updateStatus\<close> is a transition of the table, made by a party the order
  concerns, and nothing else; a request that fails has either changed nothing or committed such a change
  before the failure.\<close>

theorem updateStatus_legal:
  "case updateStatus a region pid body w of
     (Inl e, w') \<Rightarrow> tables_of w' = tables_of w \<or> legal_status_write a region pid body w w'
   | (Inr _, w') \<Rightarrow> legal_status_write a region pid body w w'"
proof -
  obtain r w' where run: "updateStatus a region pid body w = (r, w')" by (cases "updateStatus a region pid body w")
  obtain q w1 where rd: "updateStatus_read a region pid body w = (q, w1)" by (cases "updateStatus_read a region pid body w")
  have k: "tables_of w1 = tables_of w"
    using shards_kept.moves_updateStatus_read rd by (intro tables_shards) (rule shards_keptD)
  have "(\<exists>e. r = Inl e \<and> tables_of w' = tables_of w) \<or> legal_status_write a region pid body w w'"
  proof (cases q)
    case (Inl e)
    with run rd k show ?thesis by (auto simp: updateStatus_def bindE_def)
  next
    case (Inr x)
    obtain conn o' who st where x: "x = (conn, o', who, st)" by (cases x)
    from rd Inr x have rd': "updateStatus_read a region pid body w = (Inr (conn, o', who, st), w1)" by simp
    from run rd' have wr: "updateStatus_write region body (conn, o', who, st) w1 = (r, w')"
      by (simp add: updateStatus_def bindE_def)
    from rd' have c: "conn = (Hot, region)"
      and f: "List.find (\<lambda>x. o_publicId x = pid) (orders (tables_of w (Hot, region))) = Some o'"
      and who: "resolveStatusActor a o' = Inr who"
      and t: "status_step (o_status o') who (us_status body)" and clk: "clock w1 = clock w"
      by (auto elim!: updateStatus_read_InrE dest!: assertTransition_step)
    have pid: "o_publicId o' = pid" using f by (auto dest: find_Some_mem)
    from wr show ?thesis
    proof (rule updateStatus_write_cases)
      fix e assume "r = Inl e" "tables_of w' = tables_of w1"
      with k show ?thesis by simp
    next
      fix u w2
      assume "updateStatus_body o' who st body conn (tick w1) = (Inr u, w2)" and w': "tables_of w' = tables_of w2"
      then show ?thesis
        using f who t resolveStatusActor_concerns [OF who] k c pid clk
        by (elim updateStatus_body_InrE) (auto simp: legal_status_write_def)
    qed
  qed
  then show ?thesis by (cases r) (auto simp: run)
qed

subsection \<open>A race\<close>

text \<open>The statuses of the rows with a public id.\<close>

definition statuses :: "world \<Rightarrow> conn \<Rightarrow> string \<Rightarrow> order_status set" where
  "statuses w c pid = o_status ` {o' \<in> set (orders (tables_of w c)). o_publicId o' = pid}"

lemma updateStatus_write_status:
  assumes "updateStatus_write region body (conn, o', who, st) w = (Inr j, w')"
  shows "statuses w' conn (o_publicId o') = {us_status body}"
  using assms
proof (rule updateStatus_write_cases)
  fix u w2
  assume b: "updateStatus_body o' who st body conn (tick w) = (Inr u, w2)" and w': "tables_of w' = tables_of w2"
  then show ?thesis
  proof (elim updateStatus_body_InrE)
    fix old xs
    assume f: "List.find (\<lambda>x. o_publicId x = o_publicId o') (orders (tables_of (tick w) conn)) = Some old"
      and t: "tables_of w2 = (tables_of (tick w))(conn := (tables_of (tick w) conn)\<lparr>orders :=
           update_where (\<lambda>x. o_publicId x = o_publicId o') (status_row (us_status body) st (clock (tick w)))
             (orders (tables_of (tick w) conn)), outbox := outbox (tables_of (tick w) conn) @ xs\<rparr>)"
    let ?f = "status_row (us_status body) st (clock w)"
    from f have "filter (\<lambda>x. o_publicId x = o_publicId o') (orders (tables_of w conn)) \<noteq> []"
      by (auto simp: find_filter split: list.splits)
    moreover have "statuses w' conn (o_publicId o') =
        set (map o_status (returning (\<lambda>x. o_publicId x = o_publicId o') ?f (orders (tables_of w conn))))"
      by (simp add: w' t statuses_def filter_update_where flip: set_filter)
    ultimately show ?thesis by (cases "filter (\<lambda>x. o_publicId x = o_publicId o') (orders (tables_of w conn))") (auto simp: returning_def)
  qed
qed simp

text \<open>two requests on one order whose reads both come before the writes: the second write is not checked
  against the status the first one left. The order then goes through both targets whatever the table
  says, a cancelled order being accepted for instance.\<close>

theorem updateStatus_race:
  assumes "updateStatus_read a1 region pid body1 w = (Inr x1, w1)"
    and "updateStatus_read a2 region pid body2 w1 = (Inr x2, w2)"
    and "updateStatus_write region body1 x1 w2 = (Inr j1, w3)"
    and "updateStatus_write region body2 x2 w3 = (Inr j2, w4)"
  shows "statuses w3 (Hot, region) pid = {us_status body1} \<and> statuses w4 (Hot, region) pid = {us_status body2}"
proof -
  obtain c1 o1 h1 s1 where x1: "x1 = (c1, o1, h1, s1)" by (cases x1)
  obtain c2 o2 h2 s2 where x2: "x2 = (c2, o2, h2, s2)" by (cases x2)
  from assms(1) x1 have 1: "c1 = (Hot, region)" "o_publicId o1 = pid"
    by (auto elim!: updateStatus_read_InrE dest: find_Some_mem)
  from assms(2) x2 have 2: "c2 = (Hot, region)" "o_publicId o2 = pid"
    by (auto elim!: updateStatus_read_InrE dest: find_Some_mem)
  show ?thesis
    using updateStatus_write_status assms(3,4) x1 x2 1 2 by metis
qed

definition sample_customer :: actor where
  "sample_customer = \<lparr>ac_userId = 5, ac_role = ''customer'', ac_restaurantId = None, ac_restaurantRole = None, ac_branchIds = None\<rparr>"

definition sample_owner :: actor where
  "sample_owner = \<lparr>ac_userId = 9, ac_role = ''restaurant_user'', ac_restaurantId = Some 3, ac_restaurantRole = Some ''owner'', ac_branchIds = None\<rparr>"

definition cancel_request :: update_status_request where
  "cancel_request = \<lparr>us_status = CANCELLED, us_reason = Some ''x''\<rparr>"

definition accept_request :: update_status_request where
  "accept_request = \<lparr>us_status = ACCEPTED, us_reason = None\<rparr>"

lemmas run_requests [run] = sample_customer_def sample_owner_def cancel_request_def accept_request_def


theorem updateStatus_race_witness:
  "\<exists>w3 w4. statuses w3 (Hot, ''eg'') ''p1'' = {CANCELLED} \<and> statuses w4 (Hot, ''eg'') ''p1'' = {ACCEPTED}"
proof -
  define r1 where "r1 = updateStatus_read sample_customer ''eg'' ''p1'' cancel_request (with_orders [sample_order] sample_world)"
  have 1: "fst r1 = Inr ((Hot,''eg''), sample_order, CUSTOMER, Some CancelledAt)"
    unfolding r1_def by (simp add: run)
  define r2 where "r2 = updateStatus_read sample_owner ''eg'' ''p1'' accept_request (snd r1)"
  have 2: "fst r2 = Inr ((Hot,''eg''), sample_order, RESTAURANT_MEMBER, Some AcceptedAt)"
    unfolding r1_def r2_def by (simp add: run)
  define r3 where "r3 = updateStatus_write ''eg'' cancel_request ((Hot,''eg''), sample_order, CUSTOMER, Some CancelledAt) (snd r2)"
  have 3: "\<not> isl (fst r3)"
    unfolding r1_def r2_def r3_def by (simp add: run)
  define r4 where "r4 = updateStatus_write ''eg'' accept_request ((Hot,''eg''), sample_order, RESTAURANT_MEMBER, Some AcceptedAt) (snd r3)"
  have 4: "\<not> isl (fst r4)"
    unfolding r1_def r2_def r3_def r4_def by (simp add: run)
  from result_Inr [OF 3] result_Inr [OF 4] obtain j3 j4 where j: "fst r3 = Inr j3" "fst r4 = Inr j4" by blast
  have "statuses (snd r3) (Hot, ''eg'') ''p1'' = {us_status cancel_request} \<and>
      statuses (snd r4) (Hot, ''eg'') ''p1'' = {us_status accept_request}"
    by (rule updateStatus_race [OF run_result [OF r1_def 1] run_result [OF r2_def 2]
          run_result [OF r3_def j(1)] run_result [OF r4_def j(2)]])
  then show ?thesis by (auto simp: cancel_request_def accept_request_def)
qed

subsection \<open>Reading an order\<close>

text \<open>The administrator, the customer of the order, and the members of its restaurant who see its branch.\<close>

definition may_read :: "actor \<Rightarrow> order_entity \<Rightarrow> bool" where
  "may_read a o' \<longleftrightarrow>
     ac_role a = SYSTEM_ADMIN \<or> ac_userId a = o_customerId o' \<or>
     (ac_role a = RESTAURANT_USER \<and> ac_restaurantId a = Some (o_restaurantId o') \<and>
      (ac_restaurantRole a = Some OWNER \<or> o_branchId o' \<in> set (branch_list a)))"

lemma assertReadAccess_iff: "assertReadAccess a o' = Inr () \<longleftrightarrow> may_read a o'"
  by (auto simp: assertReadAccess_def may_read_def)

lemma findOrderByPublicId_InrE [inv_elim, elim!]:
  assumes "findOrderByPublicId p c w = (Inr x, w')"
  obtains "x = List.find (\<lambda>o'. o_publicId o' = p) (orders (tables_of w c))" and "w' = tick w"
  using assms by (auto simp: findOrderByPublicId_def tables_of_def)

lemma findItemsByOrderIds_one:
  assumes "findItemsByOrderIds [i] c w = (Inr x, w')"
  shows "x = items_of [i] (tables_of w c)"
  using assms by (auto simp: findItemsByOrderIds_def tables_of_def)

text \<open>C13: \<open>getOrder\<close> writes nothing, and what it shows is an order with the requested id that the actor may
  read, with its own items, from the archive only for administrators and owners.\<close>

theorem getOrder_access:
  "case getOrder a region pid w of
     (Inl e, w') \<Rightarrow> shards w' = shards w
   | (Inr dto, w') \<Rightarrow> shards w' = shards w \<and>
       (\<exists>o' cl. o' \<in> set (orders (tables_of w (cl, region))) \<and> o_publicId o' = pid \<and> may_read a o' \<and>
          (cl = Hot \<or> canReadArchive a) \<and>
          dto = OrderDetailResponseDTO o' (items_of [o_id o'] (tables_of w (cl, region))))"
proof -
  obtain r w' where run: "getOrder a region pid w = (r, w')" by (cases "getOrder a region pid w")
  have k: "shards w' = shards w" using shards_kept.moves_order_reads(1) run by (rule shards_keptD)
  show ?thesis
  proof (cases r)
    case (Inl e)
    with run k show ?thesis by simp
  next
    case (Inr dto)
    with run have run': "getOrder a region pid w = (Inr dto, w')" by simp
    let ?find = "\<lambda>cl. List.find (\<lambda>o'. o_publicId o' = pid) (orders (tables_of w (cl, region)))"
    let ?pick = "\<lambda>v. if ?find Hot = None \<and> canReadArchive a
        then bindE (dbArchive region) (\<lambda>conn'. bindE (findOrderByPublicId pid conn') (\<lambda>found'. returnE (found', conn'))) v
        else returnE (?find Hot, (Hot, region)) v"
    from run' obtain o' cl w2 where p: "?pick (tick w) = (Inr (Some o', (cl, region)), w2)"
      and acc: "assertReadAccess a o' = Inr ()"
      and dto: "dto = OrderDetailResponseDTO o' (items_of [o_id o'] (tables_of w2 (cl, region)))"
      unfolding getOrder_def
      by (auto split: option.splits if_splits dest!: findItemsByOrderIds_one)
    have w2: "tables_of w2 = tables_of w"
      using p by (auto split: if_splits simp: tables_of_def fun_eq_iff)
    have "?find cl = Some o' \<and> (cl = Hot \<or> canReadArchive a)"
      using p by (auto split: if_splits)
    then show ?thesis
      using run Inr k acc dto w2 by (auto simp: assertReadAccess_iff dest!: find_Some_mem)
  qed
qed

end
