(* ===== verification/Placement.thy ===== *)
theory Placement
  imports OrderLaws
begin

section \<open>Placing an order\<close>

text \<open>
  The contents of a placed order, what a failed request leaves behind, and the release of reserved stock.
\<close>

subsection \<open>Drafts\<close>

lemma draft_loop_ok:
  "draft_loop m its = ([], ds) \<Longrightarrow>
     map (\<lambda>d. (d_productId d, d_quantity d)) ds = its \<and>
     list_all (\<lambda>d. d_lineTotal d = d_unitPrice d * d_quantity d \<and>
        (\<exists>p. m (d_productId d) = Some p \<and> cp_isAvailable p \<and> d_quantity d \<le> cp_stock p \<and> d_unitPrice d = cp_price p)) ds"
proof (induction its arbitrary: ds)
  case (Cons it its)
  obtain pid q where it: "it = (pid, q)" by (cases it)
  obtain bad ds' where d: "draft_loop m its = (bad, ds')" by (cases "draft_loop m its")
  from Cons.prems it d have bad: "bad = []" by (auto split: option.splits if_splits)
  with Cons.IH d have "map (\<lambda>d. (d_productId d, d_quantity d)) ds' = its \<and>
     list_all (\<lambda>d. d_lineTotal d = d_unitPrice d * d_quantity d \<and>
        (\<exists>p. m (d_productId d) = Some p \<and> cp_isAvailable p \<and> d_quantity d \<le> cp_stock p \<and> d_unitPrice d = cp_price p)) ds'"
    by simp
  with Cons.prems it d bad show ?case by (auto simp: multiplyMinor_def split: option.splits if_splits)
qed simp

lemma byProduct_Some: "byProduct ps i = Some p \<Longrightarrow> p \<in> set ps \<and> cp_productId p = i"
  by (auto simp: byProduct_def dest: map_of_SomeD)

lemma buildOrderLineDrafts_ok:
  assumes "buildOrderLineDrafts its products = Inr ds"
  shows "map (\<lambda>d. (d_productId d, d_quantity d)) ds = its"
    and "list_all (\<lambda>d. d_lineTotal d = d_unitPrice d * d_quantity d \<and>
        (\<exists>p\<in>set products. cp_productId p = d_productId d \<and> cp_isAvailable p \<and> d_quantity d \<le> cp_stock p \<and>
           d_unitPrice d = cp_price p)) ds"
proof -
  from assms have l: "draft_loop (byProduct products) its = ([], ds)"
    by (auto simp: buildOrderLineDrafts_def split: prod.splits list.splits)
  from draft_loop_ok [OF l] show "map (\<lambda>d. (d_productId d, d_quantity d)) ds = its" by simp
  from draft_loop_ok [OF l] show "list_all (\<lambda>d. d_lineTotal d = d_unitPrice d * d_quantity d \<and>
        (\<exists>p\<in>set products. cp_productId p = d_productId d \<and> cp_isAvailable p \<and> d_quantity d \<le> cp_stock p \<and>
           d_unitPrice d = cp_price p)) ds"
    by (auto simp: list_all_iff dest: byProduct_Some)
qed

subsection \<open>Inversion\<close>

lemma planOrder_InrE:
  assumes "planOrder a body region cid w = (Inr pl, w')"
  obtains products v v' where
    "getBranchProducts (co_branchId body) (map fst (co_items body)) cid v = (Inr products, v')"
    and "buildOrderLineDrafts (co_items body) products = Inr (pl_drafts pl)"
    and "cb_isActive (pl_branch pl)" and "cb_acceptOrders (pl_branch pl)"
    and "cb_restaurantStatus (pl_branch pl) = ''active''" and "ca_userId (pl_address pl) = ac_userId a"
    and "pl_subtotal pl = sum_list (map d_lineTotal (pl_drafts pl))"
    and "pl_total pl = pl_subtotal pl + cb_deliveryFee (pl_branch pl) + SERVICE_FEE_MINOR"
    and "shards w' = shards w"
proof -
  have s: "shards w' = shards w" using shards_kept.moves_planOrder assms by (rule shards_keptD)
  from assms show thesis
    unfolding planOrder_def Let_def
    by (elim bindE_InrE seqE_InrE throwIf_InrE checked_InrE) (auto intro: that s)
qed

lemma createOrder_InrE:
  assumes "createOrder n c w = (Inr o', w')"
  obtains i where "o' = order_row i (clock w) n"
    and "tables_of w' = (tables_of w)(c := (tables_of w c)\<lparr>orders := orders (tables_of w c) @ [o']\<rparr>)"
    and "clock w' = clock w"
  using assms unfolding createOrder_def
  by (elim stmt_InrE) (auto simp: Let_def tables_of_def fun_eq_iff set_orders_def split: if_splits)

lemma bulkInsertItems_InrE:
  assumes "bulkInsertItems ns c w = (Inr items, w')"
  obtains q where "items = item_rows q (clock w) ns" and "list_all (\<lambda>n. 0 < ni_quantity n) ns"
    and "tables_of w' = (tables_of w)(c := (tables_of w c)\<lparr>order_items := order_items (tables_of w c) @ items\<rparr>)"
    and "clock w' = clock w"
proof (cases "ns = []")
  case True
  with assms have "items = item_rows 0 (clock w) ns" "w' = w" by (auto simp: bulkInsertItems_def)
  with True show thesis by (intro that [of 0]) (auto simp: fun_eq_iff)
next
  case False
  with assms show thesis unfolding bulkInsertItems_def
    by (auto simp: Let_def tables_of_def fun_eq_iff split: if_splits elim!: stmt_InrE intro!: that)
qed

lemma placeOrder_body_InrE:
  assumes "placeOrder_body a body pl pid c w = (Inr (o', items), w')"
  obtains i q xs where "o' = order_row i (clock w) (order_input a body pl pid)"
    and "items = item_rows q (clock w) (map (item_input (pl_region pl) (o_id o')) (pl_drafts pl))"
    and "list_all (\<lambda>d. 0 < d_quantity d) (pl_drafts pl)"
    and "map (\<lambda>x. (x_eventType x, x_payload x)) xs =
           (if o_status o' = PLACED then [(ORDER_PLACED, buildOrderPlacedPayload o' items)] else [])"
    and "tables_of w' = (tables_of w)(c := (tables_of w c)\<lparr>orders := orders (tables_of w c) @ [o'],
           order_items := order_items (tables_of w c) @ items, outbox := outbox (tables_of w c) @ xs\<rparr>)"
proof -
  let ?ns = "map (item_input (pl_region pl) (o_id o')) (pl_drafts pl)"
  let ?ev = "order_event (o_publicId o') ORDER_PLACED (buildOrderPlacedPayload o' items)"
  from assms obtain w1 w2 where 1: "createOrder (order_input a body pl pid) c w = (Inr o', w1)"
    and 2: "bulkInsertItems ?ns c w1 = (Inr items, w2)"
    and 3: "whenE (o_status o' = PLACED) (insertOutboxEvent c ?ev) w2 = (Inr (), w')"
    unfolding placeOrder_body_def by auto
  from 1 obtain i where o': "o' = order_row i (clock w) (order_input a body pl pid)"
    and t1: "tables_of w1 = (tables_of w)(c := (tables_of w c)\<lparr>orders := orders (tables_of w c) @ [o']\<rparr>)"
    and c1: "clock w1 = clock w" by (rule createOrder_InrE)
  from 2 obtain q where items: "items = item_rows q (clock w) ?ns" and pos: "list_all (\<lambda>d. 0 < d_quantity d) (pl_drafts pl)"
    and t2: "tables_of w2 = (tables_of w1)(c := (tables_of w1 c)\<lparr>order_items := order_items (tables_of w1 c) @ items\<rparr>)"
    using c1 by (elim bulkInsertItems_InrE) (auto simp: list_all_iff item_input_def)
  show thesis
  proof (cases "o_status o' = PLACED")
    case False
    with 3 have "w' = w2" by simp
    with False o' items pos t1 t2 show thesis by (intro that [of i q "[]"]) (auto simp: fun_eq_iff)
  next
    case True
    with 3 have "insertOutboxEvent c ?ev w2 = (Inr (), w')" by simp
    then show thesis
    proof (rule insertOutboxEvent_InrE)
      fix x
      assume x: "x_eventType x = ox_eventType ?ev" "x_payload x = ox_payload ?ev"
        "tables_of w' = (tables_of w2)(c := (tables_of w2 c)\<lparr>outbox := outbox (tables_of w2 c) @ [x]\<rparr>)"
      show thesis
        by (rule that [of i q "[x]"]) (use x True o' items pos t1 t2 in \<open>simp_all add: order_event_def\<close>)
    qed
  qed
qed

subsection \<open>The prices of an order\<close>

text \<open>
  What \<open>getBranchProducts\<close> can answer, told from the state in which the order was requested: the live full
  rows of the cache for the products asked for, each asked once, and, when some have no full row there,
  what core-service answered to an attempt of the one request for exactly these.
\<close>

definition cached_product :: "int \<Rightarrow> world \<Rightarrow> int \<Rightarrow> core_product option" where
  "cached_product b w i =
     (case live (clock w) (redis w) (productCacheKey b i) of
        Some (RString (ProductText pp)) \<Rightarrow> product_of_patch pp
      | _ \<Rightarrow> None)"

definition products_request :: "int \<Rightarrow> int list \<Rightarrow> string option \<Rightarrow> core_request" where
  "products_request b is cid =
     core_get (''/api/internal/branches/'' @ string_of_int b @ ''/products?ids='' @
       encodeURIComponent (joinIds is)) cid"

definition quoted :: "world \<Rightarrow> int \<Rightarrow> int list \<Rightarrow> string option \<Rightarrow> core_product list \<Rightarrow> bool" where
  "quoted w b ids cid products \<longleftrightarrow>
     (let missing = filter (\<lambda>i. cached_product b w i = None) (uniqueIds ids)
      in \<exists>answer. products = List.map_filter (cached_product b w) (uniqueIds ids) @ answer \<and>
           (if missing = [] then answer = []
            else \<exists>k\<ge>steps w. http_outcome (coreProducts (ext w) k (products_request b missing cid)) = Inr (Some answer)))"

text \<open>The programs that run before the products are read: they leave the cached products alone.\<close>

definition undisturbed :: "world \<Rightarrow> world \<Rightarrow> bool" where
  "undisturbed w w' \<longleftrightarrow> steps w \<le> steps w' \<and> clock w' = clock w \<and> ext w' = ext w \<and>
     (\<forall>b i. redis w' (productCacheKey b i) = redis w (productCacheKey b i))"

interpretation undisturbed: step_relation undisturbed
  by unfold_locales (auto simp: undisturbed_def)

lemma undisturbed_cache [moves_intro]:
  "moves undisturbed (cache_get k)"
  "(\<And>b i. k \<noteq> productCacheKey b i) \<Longrightarrow> moves undisturbed (cache_set k v ttl)"
  by (rule movesI, auto simp: undisturbed_def cache_defs redisOp_def r_get_def r_set_def
      split: option.splits rvalue.splits if_splits)+

lemma undisturbed_request [moves_intro]: "moves undisturbed (core_request_io answer req)"
  by (rule movesI) (auto simp: undisturbed_def core_request_run Let_def)

lemma undisturbed_envelope [moves_intro]: "moves undisturbed (envelope_data r)"
  unfolding envelope_data_def by (intro moves_intro)

lemma product_key_of_no_branch: "branchCacheKey c \<noteq> productCacheKey b i"
proof
  assume "branchCacheKey c = productCacheKey b i"
  then have "string_of_int c = string_of_int b @ '':product:'' @ string_of_int i"
    by (simp add: branchCacheKey_def productCacheKey_def)
  then have "CHR '':'' \<in> set (string_of_int c)" by simp
  then show False by (auto dest: string_of_int_chars)
qed

lemma undisturbed_getBranch [moves_intro]: "moves undisturbed (getBranch i cid)"
  unfolding getBranch_def ignoring_def by (intro moves_intro product_key_of_no_branch)

lemma undisturbed_plan [moves_intro]:
  "moves undisturbed (isBranchRejectingOrders i)" "moves undisturbed (assertRegion r)"
  "moves undisturbed (getCustomerAddress j cid)"
  unfolding isBranchRejectingOrders_def assertRegion_def getCustomerAddress_def by (intro moves_intro)+

lemma undisturbed_cached: "undisturbed w v \<Longrightarrow> cached_product b v = cached_product b w"
  by (simp add: fun_eq_iff undisturbed_def cached_product_def live_def)

lemma quoted_undisturbed:
  assumes v: "undisturbed w v" and q: "quoted v b ids cid products"
  shows "quoted w b ids cid products"
proof -
  have "steps w \<le> steps v" and "ext v = ext w" using v by (simp_all add: undisturbed_def)
  then show ?thesis
    using q unfolding quoted_def Let_def undisturbed_cached [OF v] by (auto split: if_splits intro: order_trans)
qed

lemma readProducts_InrE:
  assumes "readProducts b is w = (Inr (hits, misses), w')"
  shows "hits = List.map_filter (cached_product b w) is \<and> misses = filter (\<lambda>i. cached_product b w i = None) is \<and>
    undisturbed w w'"
  using assms
proof (induction "is" arbitrary: w w' hits misses)
  case Nil
  then show ?case by (auto simp: undisturbed_def List.map_filter_def)
next
  case (Cons i "is")
  then obtain raw v hits' misses' where g: "cache_get (productCacheKey b i) w = (Inr raw, v)"
    and r: "readProducts b is v = (Inr (hits', misses'), w')"
    and h: "(hits, misses) = (case raw of
                Some (ProductText pp) \<Rightarrow>
                  (case product_of_patch pp of Some p \<Rightarrow> (p # hits', misses') | None \<Rightarrow> (hits', i # misses'))
              | _ \<Rightarrow> (hits', i # misses'))"
    by auto
  have v: "undisturbed w v" using undisturbed_cache(1) g by (rule movesD)
  from g have c: "cached_product b w i = (case raw of Some (ProductText pp) \<Rightarrow> product_of_patch pp | _ \<Rightarrow> None)"
    by (auto simp: cached_product_def cache_defs redisOp_def r_get_def split: option.splits rvalue.splits rtext.splits)
  from Cons.IH [OF r] v show ?case using h c
    by (auto simp: undisturbed_cached List.map_filter_simps undisturbed.R_trans [OF v]
        split: option.splits rtext.splits)
qed

lemma getBranchProducts_quoted:
  assumes "getBranchProducts b ids cid w = (Inr products, w')"
  shows "quoted w b ids cid products"
proof (cases "ids = []")
  case True
  with assms show ?thesis by (simp add: getBranchProducts_def quoted_def uniqueIds_def List.map_filter_def)
next
  case False
  let ?missing = "filter (\<lambda>i. cached_product b w i = None) (uniqueIds ids)"
  from assms False obtain hits misses v where r: "readProducts b (uniqueIds ids) w = (Inr (hits, misses), v)"
    and rest: "(if misses = [] then returnE hits
        else bindE (core_request_io coreProducts (products_request b misses cid)) (\<lambda>res.
          bindE (envelope_data res) (\<lambda>ps. seqE (writeProducts b ps) (returnE (hits @ ps))))) v = (Inr products, w')"
    unfolding getBranchProducts_def products_request_def by auto
  from readProducts_InrE [OF r] have hits: "hits = List.map_filter (cached_product b w) (uniqueIds ids)"
    and misses: "misses = ?missing" and v: "undisturbed w v" by simp_all
  show ?thesis
  proof (cases "misses = []")
    case True
    with rest hits misses show ?thesis by (simp add: quoted_def)
  next
    case missed: False
    with rest obtain res u ps where q: "core_request_io coreProducts (products_request b misses cid) v = (Inr res, u)"
      and res: "res = Some ps" and products: "products = hits @ ps"
      by (auto simp: envelope_data_def elim!: bindE_InrE seqE_InrE split: option.splits)
    from q res obtain k where "http_outcome (coreProducts (ext v) (steps v + k) (products_request b misses cid)) = Inr (Some ps)"
      by (auto simp: core_request_run Let_def)
    with v have "\<exists>k\<ge>steps w. http_outcome (coreProducts (ext w) k (products_request b ?missing cid)) = Inr (Some ps)"
      using misses by (intro exI [of _ "steps v + k"]) (auto simp: undisturbed_def)
    with missed misses hits products show ?thesis by (simp add: quoted_def Let_def)
  qed
qed

lemma planOrder_quoted:
  assumes "planOrder a body region cid w = (Inr pl, w')"
  obtains products where "quoted w (co_branchId body) (map fst (co_items body)) cid products"
    and "buildOrderLineDrafts (co_items body) products = Inr (pl_drafts pl)"
    and "fst (getBranch (co_branchId body) cid w) = Inr (pl_branch pl)"
proof -
  from assms obtain branch w1 flag w2 g w3 address w4 products w5 where
    br: "getBranch (co_branchId body) cid w = (Inr branch, w1)"
    and fl: "isBranchRejectingOrders (co_branchId body) w1 = (Inr flag, w2)"
    and rg: "assertRegion (case region of None \<Rightarrow> Some (cb_region branch) | Some r \<Rightarrow> Some r) w2 = (Inr g, w3)"
    and ad: "getCustomerAddress (co_customerAddressId body) cid w3 = (Inr address, w4)"
    and pr: "getBranchProducts (co_branchId body) (map fst (co_items body)) cid w4 = (Inr products, w5)"
    and dr: "buildOrderLineDrafts (co_items body) products = Inr (pl_drafts pl)" and pl: "pl_branch pl = branch"
    unfolding planOrder_def Let_def
    by (elim bindE_InrE seqE_InrE throwIf_InrE checked_InrE) auto
  have "undisturbed w w4"
    using movesD [OF undisturbed_getBranch br] movesD [OF undisturbed_plan(1) fl] movesD [OF undisturbed_plan(2) rg]
      movesD [OF undisturbed_plan(3) ad] by (blast intro: undisturbed.R_trans)
  then have "quoted w (co_branchId body) (map fst (co_items body)) cid products"
    using getBranchProducts_quoted [OF pr] by (rule quoted_undisturbed)
  from that [OF this dr] br pl show thesis by simp
qed

subsection \<open>What a failed request can leave\<close>

text \<open>No order row appears or changes except into one of the given statuses.\<close>

definition orders_gain :: "order_status set \<Rightarrow> tables \<Rightarrow> tables \<Rightarrow> bool" where
  "orders_gain St tb tb' \<longleftrightarrow> set (orders tb') \<subseteq> set (orders tb) \<union> {o'. o_status o' \<in> St}"

interpretation orders_gain: table_relation "orders_gain St" for St
  by unfold_locales (auto simp: orders_gain_def)

lemma same_orders_gain: "moves (per_table (same orders)) m \<Longrightarrow> moves (per_table (orders_gain St)) m"
  by (erule moves_mono) (auto simp: per_table_def same_def orders_gain_def)

lemma gain_createOrder [moves_intro]:
  "n_status n \<in> St \<Longrightarrow> moves (per_table (orders_gain St)) (createOrder n c)"
  unfolding createOrder_def
  by (rule orders_gain.moves_stmt_Q) (auto simp: orders_gain_def order_row_def Let_def split: if_splits)

lemma gain_updateOrderStatus [moves_intro]:
  "s \<in> St \<Longrightarrow> moves (per_table (orders_gain St)) (updateOrderStatus p s st c)"
  unfolding updateOrderStatus_def
  by (rule orders_gain.moves_stmt_Q)
    (auto simp: orders_gain_def update_where_def Let_def split: list.splits)

lemma same_initOnlinePayment [moves_intro]:
  fixes f :: "tables \<Rightarrow> 'a"
  assumes "\<And>tb xs. f (tb\<lparr>payment_sessions := xs\<rparr>) = f tb"
  shows "moves (per_table (same f)) (initOnlinePayment o')"
  unfolding initOnlinePayment_def Let_def by (intro moves_intro assms)

lemma gain_placeOrder_online:
  assumes "co_paymentMethod body = ONLINE"
  shows "moves (per_table (orders_gain {PENDING_PAYMENT, CANCELLED})) (placeOrder a body region cid)"
proof -
  let ?G = "per_table (orders_gain {PENDING_PAYMENT, CANCELLED})"
  have st: "n_status (order_input a body pl p) \<in> {PENDING_PAYMENT, CANCELLED}" for pl p
    using assms by (simp add: order_input_def Let_def)
  have items: "moves ?G (bulkInsertItems ns c)" for ns c
    by (rule same_orders_gain) (intro moves_intro, simp)
  have ev: "moves ?G (insertOutboxEvent c n)" for c n
    by (rule same_orders_gain) (intro moves_intro, simp)
  have pay: "moves ?G (initOnlinePayment o')" for o'
    by (rule same_orders_gain) (intro moves_intro, simp)
  have "moves ?G (voidOrderSafe g p)" for g p
    unfolding voidOrderSafe_def by (intro moves_intro) simp
  then show ?thesis
    unfolding placeOrder_def placeOrder_commit_def placeOrder_body_def placeOrder_payment_def
    by (intro moves_intro st items ev pay)
qed

subsection \<open>The outcome of placeOrder\<close>

text \<open>
  An order \<open>o'\<close> with its items was placed at a branch for actor and request: exactly these rows are new, the
  items are those of the request at the prices of \<open>products\<close>, the delivery fee is the one of the branch, the
  amounts add up, and the outbox has the event of an order that is already placed.
\<close>

definition placed ::
  "actor \<Rightarrow> create_order_request \<Rightarrow> string \<Rightarrow> core_branch \<Rightarrow> core_product list \<Rightarrow> order_entity \<Rightarrow>
   order_item_entity list \<Rightarrow> tables \<Rightarrow> tables \<Rightarrow> bool" where
  "placed a body g branch products o' items tb tb' \<longleftrightarrow>
     orders tb' = orders tb @ [o'] \<and> order_items tb' = order_items tb @ items \<and>
     map (\<lambda>i. (i_productId i, i_quantity i)) items = co_items body \<and>
     list_all (\<lambda>i. i_orderId i = o_id o' \<and> 0 < i_quantity i \<and>
        i_lineTotal i = i_unitPriceSnapshot i * i_quantity i \<and>
        (\<exists>p\<in>set products. cp_productId p = i_productId i \<and> cp_isAvailable p \<and> i_quantity i \<le> cp_stock p \<and>
           i_unitPriceSnapshot i = cp_price p)) items \<and>
     o_subtotal o' = sum_list (map i_lineTotal items) \<and>
     o_total o' = o_subtotal o' + o_deliveryFee o' + o_serviceFee o' \<and> o_serviceFee o' = SERVICE_FEE_MINOR \<and>
     o_branchId o' = cb_id branch \<and> o_deliveryFee o' = cb_deliveryFee branch \<and> o_currency o' = cb_currency branch \<and>
     cb_isActive branch \<and> cb_acceptOrders branch \<and> cb_restaurantStatus branch = ''active'' \<and>
     o_customerId o' = ac_userId a \<and> o_region o' = g \<and> o_paymentMethod o' = co_paymentMethod body \<and>
     o_status o' = (if co_paymentMethod body = ONLINE then PENDING_PAYMENT else PLACED) \<and>
     o_deliveryAgentId o' = None \<and>
     (\<exists>xs. outbox tb' = outbox tb @ xs \<and>
        map (\<lambda>x. (x_eventType x, x_payload x)) xs =
          (if co_paymentMethod body = ONLINE then [] else [(ORDER_PLACED, buildOrderPlacedPayload o' items)]))"

lemma item_rows_list_all:
  "(\<And>i n. P (item_row i t n) \<longleftrightarrow> Q n) \<Longrightarrow> list_all P (item_rows q t ns) \<longleftrightarrow> list_all Q ns"
  by (induction ns arbitrary: q) auto

lemma placed_after_body:
  assumes plan: "planOrder a body region cid w = (Inr pl, w1)"
    and dr: "buildOrderLineDrafts (co_items body) products = Inr (pl_drafts pl)"
    and run: "placeOrder_body a body pl pid c v = (Inr (o', items), v')"
  shows "placed a body (pl_region pl) (pl_branch pl) products o' items (tables_of v c) (tables_of v' c) \<and>
     tables_of v' = (tables_of v)(c := tables_of v' c)"
  using plan
proof (rule planOrder_InrE)
  assume br: "cb_isActive (pl_branch pl)" "cb_acceptOrders (pl_branch pl)" "cb_restaurantStatus (pl_branch pl) = ''active''"
    and sub: "pl_subtotal pl = sum_list (map d_lineTotal (pl_drafts pl))"
    and tot: "pl_total pl = pl_subtotal pl + cb_deliveryFee (pl_branch pl) + SERVICE_FEE_MINOR"
  from run show ?thesis
  proof (rule placeOrder_body_InrE)
    fix i q xs
    let ?ns = "map (item_input (pl_region pl) (o_id o')) (pl_drafts pl)"
    assume o': "o' = order_row i (clock v) (order_input a body pl pid)"
      and items: "items = item_rows q (clock v) ?ns"
      and pos: "list_all (\<lambda>d. 0 < d_quantity d) (pl_drafts pl)"
      and xs: "map (\<lambda>x. (x_eventType x, x_payload x)) xs =
           (if o_status o' = PLACED then [(ORDER_PLACED, buildOrderPlacedPayload o' items)] else [])"
      and t: "tables_of v' = (tables_of v)(c := (tables_of v c)\<lparr>orders := orders (tables_of v c) @ [o'],
           order_items := order_items (tables_of v c) @ items, outbox := outbox (tables_of v c) @ xs\<rparr>)"
    have "map (\<lambda>i. (i_productId i, i_quantity i)) items = map (\<lambda>n. (ni_productId n, ni_quantity n)) ?ns"
      unfolding items by (rule map_item_rows) (simp add: item_row_def)
    then have pq: "map (\<lambda>i. (i_productId i, i_quantity i)) items = co_items body"
      using buildOrderLineDrafts_ok(1) [OF dr] by (simp add: comp_def item_input_def)
    have "map i_lineTotal items = map ni_lineTotal ?ns"
      unfolding items by (rule map_item_rows) (simp add: item_row_def)
    then have lt: "sum_list (map i_lineTotal items) = sum_list (map d_lineTotal (pl_drafts pl))"
      by (simp add: comp_def item_input_def)
    have all: "list_all (\<lambda>i. i_orderId i = o_id o' \<and> 0 < i_quantity i \<and>
        i_lineTotal i = i_unitPriceSnapshot i * i_quantity i \<and>
        (\<exists>p\<in>set products. cp_productId p = i_productId i \<and> cp_isAvailable p \<and> i_quantity i \<le> cp_stock p \<and>
           i_unitPriceSnapshot i = cp_price p)) items"
      unfolding items
      by (subst item_rows_list_all [where Q = "\<lambda>n. ni_orderId n = o_id o' \<and> 0 < ni_quantity n \<and>
          ni_lineTotal n = ni_unitPriceSnapshot n * ni_quantity n \<and>
          (\<exists>p\<in>set products. cp_productId p = ni_productId n \<and> cp_isAvailable p \<and> ni_quantity n \<le> cp_stock p \<and>
           ni_unitPriceSnapshot n = cp_price p)"])
        (use pos buildOrderLineDrafts_ok(2) [OF dr] in \<open>auto simp: list_all_iff item_row_def item_input_def\<close>)
    have st: "o_status o' = (if co_paymentMethod body = ONLINE then PENDING_PAYMENT else PLACED)"
      by (simp add: o' order_row_def order_input_def Let_def)
    have "placed a body (pl_region pl) (pl_branch pl) products o' items (tables_of v c) (tables_of v' c)"
      using t pq all lt xs st br
      unfolding placed_def by (auto simp: o' order_row_def order_input_def Let_def sub tot)
    with t show ?thesis by simp
  qed
qed

lemma placeOrder_commit_cases:
  assumes run: "placeOrder_commit a body pl pid cid w = (r, w')"
  obtains e where "r = Inl e" and "tables_of w' = tables_of w"
  | o' items w2 where "r = Inr (o', items)"
    and "placeOrder_body a body pl pid (Hot, pl_region pl) (tick w) = (Inr (o', items), w2)"
    and "tables_of w' = tables_of w2"
proof -
  let ?c = "(Hot, pl_region pl)"
  let ?h = "\<lambda>err. seqE (releaseStockSafe (co_branchId body) (co_items body) pid cid) (throwE err)"
  let ?t = "transaction ?c (placeOrder_body a body pl pid ?c) ?h"
  obtain q v where q: "db (pl_region pl) w = (q, v)" by (cases "db (pl_region pl) w")
  have v: "v = w" using getShard_pure [of Hot "pl_region pl" w] q by (simp add: db_def)
  show thesis
  proof (cases q)
    case (Inl e)
    with q v run that(1) show thesis by (auto simp: placeOrder_commit_def bindE_def)
  next
    case (Inr c)
    with q have "c = ?c" by auto
    with Inr q v run have t: "?t w = (r, w')" by (simp add: placeOrder_commit_def bindE_def)
    show thesis
    proof (cases r)
      case (Inl e)
      with t have "?t w = (Inl e, w')" by simp
      then have "tables_of w' = tables_of w"
        by (rule transaction_atomic [rotated -1]) (intro moves_intro)+
      with Inl that(1) show thesis by simp
    next
      case (Inr x)
      obtain o' items where x: "x = (o', items)" by (cases x)
      have "?h e s \<noteq> (Inr y, s')" for e s y s'
        by (auto simp: seqE_def bindE_def split: prod.splits sum.splits)
      then obtain w2 where "placeOrder_body a body pl pid ?c (tick w) = (Inr x, w2)" "w' = tick w2"
        using transaction_returned [OF t [unfolded Inr]] by blast
      with Inr x that(2) show thesis by simp
    qed
  qed
qed

lemma placeOrder_payment_Inr:
  assumes "placeOrder_payment body pl o' cid w = (Inr pay, w')"
  shows "orders (tables_of w' c) = orders (tables_of w c) \<and> order_items (tables_of w' c) = order_items (tables_of w c) \<and>
    outbox (tables_of w' c) = outbox (tables_of w c)"
proof (cases "co_paymentMethod body = ONLINE")
  case True
  have h: "seqE m (seqE n (throwE e)) s \<noteq> (Inr y, s')" for m n :: "unit io" and e s s' and y :: "payment_info option"
    by (auto simp: seqE_def bindE_def split: prod.splits sum.splits)
  from assms True obtain x where "initOnlinePayment o' w = (Inr x, w')"
    by (auto simp: placeOrder_payment_def tryCatch_def h split: prod.splits sum.splits)
  moreover have "moves (per_table (same orders)) (initOnlinePayment o')" by (intro moves_intro) simp
  moreover have "moves (per_table (same order_items)) (initOnlinePayment o')" by (intro moves_intro) simp
  moreover have "moves (per_table (same outbox)) (initOnlinePayment o')" by (intro moves_intro) simp
  ultimately show ?thesis by (auto dest: sameD)
next
  case False
  with assms show ?thesis by (simp add: placeOrder_payment_def)
qed

lemma placeOrder_finish_returns: "\<exists>d v'. placeOrder_finish body pl o' items pay v = (Inr d, v')"
  by (auto simp: placeOrder_finish_def seqE_def bindE_def invalidateBranchOrdersCache_def ignoring_def tryCatch_def
      whenE_def wsEmit_def emit_def split: prod.splits sum.splits)

text \<open>Everything up to the reservation, and the rest.\<close>

definition placeOrder_before ::
  "actor \<Rightarrow> create_order_request \<Rightarrow> string option \<Rightarrow> string option \<Rightarrow> (order_plan \<times> string) io" where
  "placeOrder_before a body region cid =
     bindE (planOrder a body region cid) (\<lambda>pl. bindE randomUUID (\<lambda>pid.
     seqE (reserveStock (co_branchId body) (co_items body) (Some pid) cid) (returnE (pl, pid))))"

definition placeOrder_after ::
  "create_order_request \<Rightarrow> string option \<Rightarrow> order_plan \<Rightarrow> order_entity \<times> order_item_entity list \<Rightarrow> json io" where
  "placeOrder_after body cid pl = (\<lambda>(o', items).
     bindE (placeOrder_payment body pl o' cid) (placeOrder_finish body pl o' items))"

lemma placeOrder_split:
  "placeOrder a body region cid =
     bindE (placeOrder_before a body region cid)
       (\<lambda>(pl, pid). bindE (placeOrder_commit a body pl pid cid) (placeOrder_after body cid pl))"
  by (rule ext)
    (auto simp: placeOrder_def placeOrder_before_def placeOrder_after_def bindE_def seqE_def split: prod.splits sum.splits)

lemma kept_placeOrder_before: "moves shards_kept (placeOrder_before a body region cid)"
  unfolding placeOrder_before_def by (intro moves_intro)

lemma placeOrder_cod_failure:
  assumes cod: "co_paymentMethod body = COD" and run: "placeOrder a body region cid w = (Inl e, w')"
  shows "tables_of w' = tables_of w"
proof -
  obtain q v where q: "placeOrder_before a body region cid w = (q, v)" by (cases "placeOrder_before a body region cid w")
  have v: "tables_of v = tables_of w" using kept_placeOrder_before q by (intro tables_shards) (rule shards_keptD)
  show ?thesis
  proof (cases q)
    case (Inl e')
    with q run v show ?thesis by (auto simp: placeOrder_split bindE_def)
  next
    case (Inr x)
    obtain pl pid where x: "x = (pl, pid)" by (cases x)
    obtain s v2 where s: "placeOrder_commit a body pl pid cid v = (s, v2)" by (cases "placeOrder_commit a body pl pid cid v")
    from q Inr x s run have fin: "(case s of Inl e \<Rightarrow> (Inl e, v2) | Inr y \<Rightarrow> placeOrder_after body cid pl y v2) = (Inl e, w')"
      by (simp add: placeOrder_split bindE_def split: sum.splits)
    from s show ?thesis
    proof (rule placeOrder_commit_cases)
      fix e2 assume "s = Inl e2" "tables_of v2 = tables_of v"
      with fin v show ?thesis by auto
    next
      fix o' items assume "s = Inr (o', items)"
      with fin cod placeOrder_finish_returns [of body pl o' items None v2] show ?thesis
        by (auto simp: placeOrder_after_def placeOrder_payment_def)
    qed
  qed
qed

lemma placeOrder_success:
  assumes "placeOrder a body region cid w = (Inr dto, w')"
  obtains g branch products o' items pay where
    "fst (getBranch (co_branchId body) cid w) = Inr branch"
    and "quoted w (co_branchId body) (map fst (co_items body)) cid products"
    and "placed a body g branch products o' items (tables_of w (Hot, g)) (tables_of w' (Hot, g))"
    and "dto = OrderResponseDTO o' items pay"
proof -
  from assms obtain pl w1 pid w2 w3 o' items w4 pay w5 where
    plan: "planOrder a body region cid w = (Inr pl, w1)" and pid: "randomUUID w1 = (Inr pid, w2)"
    and res: "reserveStock (co_branchId body) (co_items body) (Some pid) cid w2 = (Inr (), w3)"
    and com: "placeOrder_commit a body pl pid cid w3 = (Inr (o', items), w4)"
    and pay: "placeOrder_payment body pl o' cid w4 = (Inr pay, w5)"
    and last: "placeOrder_finish body pl o' items pay w5 = (Inr dto, w')"
    unfolding placeOrder_def by (auto elim!: bindE_InrE seqE_InrE)
  have w3: "tables_of w3 = tables_of w"
    using shards_keptD [OF shards_kept.moves_planOrder plan] shards_keptD [OF shards_kept.moves_randomUUID pid]
      shards_keptD [OF shards_kept.moves_stock(1) res] by (intro tables_shards) simp
  from com obtain w6 where b: "placeOrder_body a body pl pid (Hot, pl_region pl) (tick w3) = (Inr (o', items), w6)"
    and w4: "tables_of w4 = tables_of w6"
    by (rule placeOrder_commit_cases) auto
  have w': "tables_of w' = tables_of w5"
    using shards_kept.moves_placeOrder_finish last by (intro tables_shards) (rule shards_keptD)
  from last have dto: "dto = OrderResponseDTO o' items pay"
    unfolding placeOrder_finish_def by (auto elim!: seqE_InrE)
  from plan obtain products where qu: "quoted w (co_branchId body) (map fst (co_items body)) cid products"
    and dr: "buildOrderLineDrafts (co_items body) products = Inr (pl_drafts pl)"
    and br: "fst (getBranch (co_branchId body) cid w) = Inr (pl_branch pl)" by (rule planOrder_quoted)
  have "placed a body (pl_region pl) (pl_branch pl) products o' items (tables_of w (Hot, pl_region pl))
      (tables_of w4 (Hot, pl_region pl))"
    using placed_after_body [OF plan dr b] w3 w4 by simp
  then have "placed a body (pl_region pl) (pl_branch pl) products o' items (tables_of w (Hot, pl_region pl))
      (tables_of w' (Hot, pl_region pl))"
    using placeOrder_payment_Inr [OF pay, of "(Hot, pl_region pl)"] w' by (simp add: placed_def)
  then show thesis by (rule that [OF br qu _ dto])
qed

text \<open>C2: an order that is placed has the items of the request, each at the price of the live cache row its
  product had when the order was requested, or else at the price core-service answered to the one request for
  the products without such a row; it has the delivery fee of the branch, which takes orders, amounts that add
  up, and its event in the same commit when it is payable on delivery. A request that fails leaves every
  table as it was if it is payable on delivery; an online one can leave the order waiting for payment or
  cancelled, but never placed.\<close>

theorem placeOrder_outcome:
  "case placeOrder a body region cid w of
     (Inr dto, w') \<Rightarrow>
       \<exists>g branch products o' items pay.
         fst (getBranch (co_branchId body) cid w) = Inr branch \<and>
         quoted w (co_branchId body) (map fst (co_items body)) cid products \<and>
         placed a body g branch products o' items (tables_of w (Hot, g)) (tables_of w' (Hot, g)) \<and>
         dto = OrderResponseDTO o' items pay
   | (Inl e, w') \<Rightarrow>
       (if co_paymentMethod body = COD then tables_of w' = tables_of w
        else per_table (orders_gain {PENDING_PAYMENT, CANCELLED}) w w')"
proof (cases "placeOrder a body region cid w")
  case (Pair r w')
  show ?thesis
  proof (cases r)
    case (Inr dto)
    with Pair have "placeOrder a body region cid w = (Inr dto, w')" by simp
    from placeOrder_success [OF this] Pair Inr show ?thesis by (simp split: prod.split) metis
  next
    case (Inl e)
    then show ?thesis
      using Pair placeOrder_cod_failure [of body a region cid w e w']
        movesD [OF gain_placeOrder_online, of body a region cid w r w']
      by (cases "co_paymentMethod body") auto
  qed
qed

end
