(* ===== verification/Stock.thy ===== *)
theory Stock
  imports Placement
begin

section \<open>Reserved stock is given back\<close>

text \<open>
  \<open>placeOrder\<close> reserves stock before its transaction and \<open>updateStatus\<close> releases it when an order ends early.
  \<open>silent\<close> programs send nothing; the trace shows which release requests were sent.
\<close>

definition silent :: "world \<Rightarrow> world \<Rightarrow> bool" where
  "silent w w' \<longleftrightarrow> trace w' = trace w \<and> ext w' = ext w"

interpretation silent: step_relation silent
  by unfold_locales (auto simp: silent_def)

lemma silent_stmt [moves_intro]: "moves silent (stmt c f)"
  by (rule movesI) (auto simp: silent_def stmt_def split: option.splits sum.splits prod.splits)

lemma silent_query [moves_intro]: "moves silent (query c f)" "moves silent (roundtrip c)"
  by (simp_all add: query_def roundtrip_def silent_stmt)

lemma silent_randomUUID [moves_intro]: "moves silent randomUUID"
  by (rule movesI) (auto simp: silent_def randomUUID_def)

lemma silent_placeOrder_body [moves_intro]: "moves silent (placeOrder_body a body pl p c)"
  unfolding placeOrder_body_def createOrder_def bulkInsertItems_def insertOutboxEvent_def insert_outbox_rows_def
  by (intro moves_intro)

lemma roundtrip_Inl:
  "roundtrip c w = (Inl e, w') \<Longrightarrow> \<exists>msg. dbFault (ext w) (steps w) = Some msg \<and> e = JsError msg \<and> w' = tick w"
  by (auto simp: roundtrip_def stmt_def split: option.splits)

definition release_request :: "int \<Rightarrow> stock_item list \<Rightarrow> string \<Rightarrow> string option \<Rightarrow> core_request" where
  "release_request branchId items key cid =
     core_post (''/api/internal/branches/'' @ string_of_int branchId @ ''/release-stock'') items (Some key) cid"

lemma releaseStockSafe_trace:
  "\<exists>es v. releaseStockSafe b is k cid w = (Inr (), v) \<and> trace v = trace w @ CoreHttp (release_request b is k cid) # es"
proof -
  let ?r = "release_request b is k cid"
  obtain r v where c: "core_request_io coreStock ?r w = (r, v)" by (cases "core_request_io coreStock ?r w")
  then obtain es where es: "trace v = trace w @ CoreHttp ?r # es"
    using core_request_trace [of coreStock ?r w] by auto
  have "\<exists>u. releaseStockSafe b is k cid w = (Inr (), u) \<and> trace u = trace v"
    using c by (auto simp: releaseStockSafe_def ignoring_def releaseStock_def release_request_def tryCatch_def bindE_def
        envelope_data_def split: sum.splits option.splits)
  with es show ?thesis by auto
qed

text \<open>The four ways a transaction can end.\<close>

lemma transaction_cases:
  assumes run: "transaction c body h w = (r, w')"
  obtains (began) msg where "dbFault (ext w) (steps w) = Some msg" and "r = Inl (JsError msg)" and "w' = tick w"
  | (committed) x where "dbFault (ext w) (steps w) = None" and "r = Inr x"
      and "bindE body (\<lambda>x. seqE (roundtrip c) (returnE x)) (tick w) = (Inr x, w')"
  | (stuck) e v msg where "dbFault (ext w) (steps w) = None"
      and "bindE body (\<lambda>x. seqE (roundtrip c) (returnE x)) (tick w) = (Inl e, v)"
      and "dbFault (ext v) (steps v) = Some msg" and "r = Inl (JsError msg)" and "w' = tick (restore c (tick w) v)"
  | (undone) e v where "dbFault (ext w) (steps w) = None"
      and "bindE body (\<lambda>x. seqE (roundtrip c) (returnE x)) (tick w) = (Inl e, v)"
      and "dbFault (ext v) (steps v) = None" and "h e (tick (restore c (tick w) v)) = (r, w')"
proof (cases "dbFault (ext w) (steps w)")
  case (Some msg)
  with run show thesis by (intro began) (auto simp: transaction_def roundtrip_def stmt_def)
next
  case begun: None
  let ?m = "bindE body (\<lambda>x. seqE (roundtrip c) (returnE x))"
  obtain q v where m: "?m (tick w) = (q, v)" by (cases "?m (tick w)")
  have t: "(case q of Inr x \<Rightarrow> (Inr x, v) | Inl e \<Rightarrow> seqE (roundtrip c) (h e) (restore c (tick w) v)) = (r, w')"
    using run by (simp add: transaction_def roundtrip_ok [OF begun] m split: sum.splits)
  show thesis
  proof (cases q)
    case (Inr x)
    with t m begun show thesis by (intro committed [of x]) auto
  next
    case (Inl e)
    have s: "steps (restore c (tick w) v) = steps v" "ext (restore c (tick w) v) = ext v" by (simp_all add: restore_def)
    show thesis
    proof (cases "dbFault (ext v) (steps v)")
      case (Some msg)
      with t m Inl begun s show thesis
        by (intro stuck [of e v msg]) (auto simp: seqE_def bindE_def roundtrip_def stmt_def)
    next
      case None
      with t m Inl begun s show thesis
        by (intro undone [of e v]) (auto simp: seqE_def bindE_def roundtrip_ok)
    qed
  qed
qed

text \<open>The \<open>try\<close> block of \<open>placeOrder\<close> after \<open>BEGIN\<close>: the inserts and \<open>COMMIT\<close>.\<close>

definition order_attempt ::
  "actor \<Rightarrow> create_order_request \<Rightarrow> order_plan \<Rightarrow> string \<Rightarrow> (order_entity \<times> order_item_entity list) io" where
  "order_attempt a body pl pid =
     bindE (placeOrder_body a body pl pid (Hot, pl_region pl)) (\<lambda>x. seqE (roundtrip (Hot, pl_region pl)) (returnE x))"

text \<open>
  The three failures \<open>e\<close> that release nothing: the region has no database, \<open>BEGIN\<close> - the first statement -
  fails, or the \<open>ROLLBACK\<close> right after a failed \<open>try\<close> block does.
\<close>

definition unreleased :: "actor \<Rightarrow> create_order_request \<Rightarrow> order_plan \<Rightarrow> string \<Rightarrow> world \<Rightarrow> exn \<Rightarrow> bool" where
  "unreleased a body pl pid w e \<longleftrightarrow>
     fst (db (pl_region pl) w) = Inl e \<or>
     (\<exists>msg. dbFault (ext w) (steps w) = Some msg \<and> e = JsError msg) \<or>
     (\<exists>err v msg. order_attempt a body pl pid (tick w) = (Inl err, v) \<and>
        dbFault (ext w) (steps v) = Some msg \<and> e = JsError msg)"

lemma silent_attempt:
  assumes "order_attempt a body pl pid w = (r, v)"
  shows "trace v = trace w \<and> ext v = ext w"
proof -
  have "moves silent (order_attempt a body pl pid)" unfolding order_attempt_def by (intro moves_intro)
  from movesD [OF this assms] show ?thesis by (simp add: silent_def)
qed

text \<open>C11: when the commit of an order fails - a refused insert, a lost connection, a failing \<open>COMMIT\<close> - the first
  thing sent is the release of the reserved items under the key they were reserved with, and the error of
  the failed statement is reported. The only exceptions are a region without a database, a failing
  \<open>BEGIN\<close> and a failing \<open>ROLLBACK\<close>: then nothing at all is sent.\<close>

theorem placeOrder_commit_releases:
  "case placeOrder_commit a body pl pid cid w of
     (Inr _, w') \<Rightarrow> trace w' = trace w
   | (Inl e, w') \<Rightarrow>
       (if unreleased a body pl pid w e then trace w' = trace w
        else (\<exists>v. order_attempt a body pl pid (tick w) = (Inl e, v)) \<and>
          (\<exists>es. trace w' = trace w @ CoreHttp (release_request (co_branchId body) (co_items body) pid cid) # es))"
proof -
  let ?c = "(Hot, pl_region pl)"
  let ?h = "\<lambda>err. seqE (releaseStockSafe (co_branchId body) (co_items body) pid cid) (throwE err)"
  obtain q v where q: "db (pl_region pl) w = (q, v)" by (cases "db (pl_region pl) w")
  have v: "v = w" using getShard_pure [of Hot "pl_region pl" w] q by (simp add: db_def)
  obtain r w' where run: "placeOrder_commit a body pl pid cid w = (r, w')" by (cases "placeOrder_commit a body pl pid cid w")
  show ?thesis
  proof (cases q)
    case (Inl e)
    with q v show ?thesis by (simp add: placeOrder_commit_def bindE_def unreleased_def)
  next
    case (Inr c)
    with q have "c = ?c" by auto
    with Inr q v run have "transaction ?c (placeOrder_body a body pl pid ?c) ?h w = (r, w')"
      by (simp add: placeOrder_commit_def bindE_def)
    then show ?thesis
    proof (cases rule: transaction_cases)
      case (began msg)
      with run show ?thesis by (simp add: unreleased_def)
    next
      case (committed x)
      with run show ?thesis using silent_attempt [of a body pl pid "tick w" r w'] by (simp add: order_attempt_def)
    next
      case (stuck e u msg)
      then have at: "order_attempt a body pl pid (tick w) = (Inl e, u)" by (simp add: order_attempt_def)
      from stuck silent_attempt [OF at] at run show ?thesis by (auto simp: unreleased_def restore_def)
    next
      case (undone e u)
      then have at: "order_attempt a body pl pid (tick w) = (Inl e, u)" by (simp add: order_attempt_def)
      obtain es y where rel: "releaseStockSafe (co_branchId body) (co_items body) pid cid (tick (restore ?c (tick w) u)) = (Inr (), y)"
        and tr: "trace y = trace u @ CoreHttp (release_request (co_branchId body) (co_items body) pid cid) # es"
        using releaseStockSafe_trace [of "co_branchId body" "co_items body" pid cid "tick (restore ?c (tick w) u)"]
        by (auto simp: restore_def)
      from undone(4) rel have "r = Inl e" "w' = y" by (auto simp: seqE_def bindE_def)
      moreover have "\<not> unreleased a body pl pid w e"
        using undone(1,3) at q Inr silent_attempt [OF at] by (auto simp: unreleased_def)
      ultimately show ?thesis using tr at run silent_attempt [OF at] by auto
    qed
  qed
qed

text \<open>\<open>conn.transaction()\<close> stands before the \<open>try\<close> block of \<open>placeOrder\<close>: when it fails, the stock that
  was just reserved is never released, although the code says that anything failing after the
  reservation must release it.\<close>

theorem placeOrder_begin_failure_keeps_stock:
  assumes "planOrder a body region cid w = (Inr pl, w1)" and "randomUUID w1 = (Inr pid, w2)"
    and "reserveStock (co_branchId body) (co_items body) (Some pid) cid w2 = (Inr (), w3)"
    and "known_region w3 (pl_region pl)" and "dbFault (ext w3) (steps w3) = Some msg"
  shows "placeOrder a body region cid w = (Inl (JsError msg), tick w3)"
  using assms
  by (simp add: placeOrder_def bindE_def seqE_def placeOrder_commit_def transaction_def roundtrip_def stmt_def)

definition sample_request :: create_order_request where
  "sample_request =
     \<lparr>co_branchId = 7, co_customerAddressId = 4, co_paymentMethod = COD, co_items = [(21, 2)]\<rparr>"

text \<open>The sample world with a database that is down from step \<open>n\<close> on.\<close>

definition db_down_from :: "nat \<Rightarrow> world" where
  "db_down_from n = sample_world\<lparr>ext := sample_outside\<lparr>dbFault := (\<lambda>k. if n \<le> k then Some ''down'' else None)\<rparr>\<rparr>"

theorem placeOrder_begin_failure_keeps_stock_witness:
  "\<exists>w3. fst (placeOrder sample_customer sample_request None None (db_down_from 0)) = Inl (JsError ''down'') \<and>
     snd (placeOrder sample_customer sample_request None None (db_down_from 0)) = tick w3"
proof -
  note defs = run sample_request_def db_down_from_def
  define r1 where "r1 = planOrder sample_customer sample_request None None (db_down_from 0)"
  have 1: "case fst r1 of Inl e \<Rightarrow> False | Inr pl \<Rightarrow> pl_region pl = ''eg''" unfolding r1_def by (simp add: defs)
  then obtain pl where pl: "fst r1 = Inr pl" and reg: "pl_region pl = ''eg''" by (cases "fst r1") auto
  have s1: "env (snd r1) = sample_env" "ext (snd r1) = ext (db_down_from 0)"
    using same_settingD [OF same_setting.moves_planOrder run_result [OF r1_def refl]]
    by (simp_all add: db_down_from_def sample_world_def)
  define w2 where "w2 = (snd r1)\<lparr>steps := Suc (steps (snd r1))\<rparr>"
  define pid where "pid = uuidAt (ext (snd r1)) (steps (snd r1))"
  have 2: "randomUUID (snd r1) = (Inr pid, w2)" by (simp add: randomUUID_def pid_def w2_def)
  define r3 where "r3 = reserveStock (co_branchId sample_request) (co_items sample_request) (Some pid) None w2"
  have "coreStock (ext w2) = (\<lambda>_ _. Response 200 [] (Some ()))"
    by (simp add: w2_def s1 db_down_from_def sample_outside_def)
  then have 3: "fst r3 = Inr ()"
    by (simp add: r3_def reserveStock_def core_request_run bindE_def envelope_data_def http_outcome_def Let_def)
  have "env (snd r3) = env w2 \<and> ext (snd r3) = ext w2 \<and> clock (snd r3) = clock w2"
    by (rule same_settingD [OF same_setting.moves_stock(1) run_result [OF r3_def refl]])
  then have "dbFault (ext (snd r3)) (steps (snd r3)) = Some ''down''" and "known_region (snd r3) (pl_region pl)"
    by (simp_all add: w2_def s1 db_down_from_def known_region_def reg sample_env_def toLowerCase_def lower_char_def)
  from placeOrder_begin_failure_keeps_stock [OF run_result [OF r1_def pl] 2 run_result [OF r3_def 3] this(2,1)]
  show ?thesis by auto
qed

text \<open>C12: a cancellation or rejection releases exactly the items of the order, under its public id, when the
  order was not yet in preparation; otherwise nothing is sent. Reading the items can fail, and then
  nothing is released either.\<close>

theorem updateStatus_release_items:
  "case updateStatus_release o' body c w of
     (r, w') \<Rightarrow> tables_of w' = tables_of w \<and>
       (if us_status body \<in> {CANCELLED, REJECTED} \<and> o_status o' \<in> {PENDING_PAYMENT, PLACED, ACCEPTED}
        then (case r of
                Inr _ \<Rightarrow> \<exists>es. trace w' = trace w @ CoreHttp (release_request (o_branchId o')
                          (map (\<lambda>i. (i_productId i, i_quantity i)) (items_of [o_id o'] (tables_of w c)))
                          (o_publicId o') None) # es
              | Inl e \<Rightarrow> trace w' = trace w \<and> (\<exists>msg. dbFault (ext w) (steps w) = Some msg \<and> e = JsError msg))
        else r = Inr () \<and> w' = w)"
proof -
  obtain r w' where run: "updateStatus_release o' body c w = (r, w')" by (cases "updateStatus_release o' body c w")
  have t: "tables_of w' = tables_of w"
    using shards_kept.moves_updateStatus_release run by (intro tables_shards) (rule shards_keptD)
  show ?thesis
  proof (cases "us_status body \<in> {CANCELLED, REJECTED} \<and> o_status o' \<in> {PENDING_PAYMENT, PLACED, ACCEPTED}")
    case False
    then have "updateStatus_release o' body c w = (Inr (), w)"
      by (auto simp: updateStatus_release_def STOCK_RELEASE_ELIGIBLE_FROM_STATUSES_def whenE_def)
    with False show ?thesis by auto
  next
    case True
    let ?its = "map (\<lambda>i. (i_productId i, i_quantity i)) (items_of [o_id o'] (tables_of w c))"
    from True have u: "updateStatus_release o' body c w =
        bindE (findItemsByOrderIds [o_id o'] c) (\<lambda>items.
          releaseStockSafe (o_branchId o') (map (\<lambda>i. (i_productId i, i_quantity i)) items) (o_publicId o') None) w"
      by (auto simp: updateStatus_release_def STOCK_RELEASE_ELIGIBLE_FROM_STATUSES_def)
    show ?thesis
    proof (cases "dbFault (ext w) (steps w)")
      case (Some msg)
      then show ?thesis using True t run u
        by (auto simp: findItemsByOrderIds_def query_def stmt_def bindE_def)
    next
      case None
      then have "findItemsByOrderIds [o_id o'] c w = (Inr (items_of [o_id o'] (tables_of w c)), tick w)"
        by (simp add: findItemsByOrderIds_def query_ok tables_of_def)
      then have r: "updateStatus_release o' body c w = releaseStockSafe (o_branchId o') ?its (o_publicId o') None (tick w)"
        by (simp add: u bindE_def)
      obtain es v where "releaseStockSafe (o_branchId o') ?its (o_publicId o') None (tick w) = (Inr (), v)"
        and "trace v = trace (tick w) @ CoreHttp (release_request (o_branchId o') ?its (o_publicId o') None) # es"
        using releaseStockSafe_trace by blast
      with r run t True show ?thesis by auto
    qed
  qed
qed


end
