(* ===== verification/Webhook.thy ===== *)
theory Webhook
  imports OrderLaws
begin

section \<open>The Kashier webhook\<close>

text \<open>
  \<open>src/app/payment/service/kashier-webhook.service.ts\<close> and its controller. The parsed body is a JSON value,
  or \<open>None\<close> when \<open>JSON.parse\<close> fails. Texts that are no UUID find no order (Postgres refuses them with an
  error instead, after which the request fails in the same way as for any other database error). The
  announcements after the commit cannot fail, so they are made after the transaction.
\<close>

subsection \<open>The envelope\<close>

definition jpath :: "json \<Rightarrow> string \<Rightarrow> json option" where
  "jpath envelope k = Option.bind (jget ''data'' envelope) (jget k)"

definition signature_keys :: "json \<Rightarrow> json list option" where
  "signature_keys envelope = (case jpath envelope ''signatureKeys'' of Some (JArr ks) \<Rightarrow> Some ks | _ \<Rightarrow> None)"

definition parseEnvelope :: "json option \<Rightarrow> exn + json" where
  "parseEnvelope rawBody =
     (case rawBody of
        None \<Rightarrow> Inl MalformedWebhookError
      | Some parsed \<Rightarrow>
          if \<not> truthy (jget ''event'' parsed) \<or> \<not> truthy (jpath parsed ''transactionId'') \<or>
             signature_keys parsed = None
          then Inl MalformedWebhookError else Inr parsed)"

text \<open>\<open>${envelope.data.k}\<close>\<close>

definition jtext :: "json \<Rightarrow> string \<Rightarrow> string" where
  "jtext envelope k = (case jpath envelope k of None \<Rightarrow> ''undefined'' | Some v \<Rightarrow> js_string v)"

definition transactionId :: "json \<Rightarrow> string" where
  "transactionId envelope = jtext envelope ''transactionId''"

subsection \<open>Reconciliation\<close>

definition charge_input ::
  "json \<Rightarrow> string \<Rightarrow> order_entity \<Rightarrow> payment_session_entity \<Rightarrow> bool \<Rightarrow> create_transaction_input" where
  "charge_input envelope region o' s success =
     \<lparr>nt_region = region, nt_orderId = Some (o_id o'), nt_transactionType = CHARGE, nt_method = TX_ONLINE,
      nt_providerId = Some KASHIER_PROVIDER_ID, nt_providerReferenceId = Some (transactionId envelope),
      nt_status = (if success then TX_SUCCEEDED else TX_FAILED), nt_amount = s_amount s, nt_currency = s_currency s,
      nt_srcAccId = Some (o_customerId o'),
      nt_dstAccId = (if success then Some (o_restaurantOwnerId o') else None),
      nt_idempotencyKey = Some (''kashier:'' @ transactionId envelope)\<rparr>"

definition payment_event ::
  "json \<Rightarrow> string \<Rightarrow> order_entity \<Rightarrow> payment_session_entity \<Rightarrow> string \<Rightarrow> string \<Rightarrow> int \<Rightarrow> outbox_input" where
  "payment_event envelope region o' s eventType stampName t =
     \<lparr>ox_aggregateType = ''payment'', ox_aggregateId = o_publicId o', ox_eventType = eventType,
      ox_payload =
        JObj [(''orderId'', JStr (o_publicId o')), (''region'', JStr region),
              (''restaurantId'', jint (o_restaurantId o')), (''branchId'', jint (o_branchId o')),
              (''customerId'', jint (o_customerId o')), (''provider'', JStr ''kashier''),
              (''providerReferenceId'', JStr (transactionId envelope)), (''amount'', jint (s_amount s)),
              (''currency'', JStr (s_currency s)), (''method'', JStr ''online''), (stampName, jdate t)]\<rparr>"

text \<open>
  The body of the transaction for a captured payment; the result is the order that was placed by it with
  its items, if it was.
\<close>

definition reconcile_success ::
  "json \<Rightarrow> string \<Rightarrow> order_entity \<Rightarrow> payment_session_entity \<Rightarrow> conn \<Rightarrow>
   (order_entity \<times> order_item_entity list) option io" where
  "reconcile_success envelope region o' s trx =
     bindE (updateSession (s_id s) CAPTURED (Some envelope) trx) (\<lambda>_.
     bindE (createTransaction (charge_input envelope region o' s True) trx) (\<lambda>_.
     bindE now (\<lambda>t.
     seqE (insertOutboxEvent trx (payment_event envelope region o' s PAYMENT_COMPLETED ''completedAt'' t))
    (if o_status o' = PENDING_PAYMENT
     then
       bindE (updateOrderStatus (o_publicId o') PLACED None trx) (\<lambda>placed.
       bindE (findItemsByOrderIds [o_id placed] trx) (\<lambda>items.
       seqE (insertOutboxEvent trx (order_event (o_publicId placed) ORDER_PLACED (buildOrderPlacedPayload placed items)))
            (returnE (Some (placed, items)))))
     else returnE None))))"

definition reconcile_failed ::
  "json \<Rightarrow> string \<Rightarrow> order_entity \<Rightarrow> payment_session_entity \<Rightarrow> conn \<Rightarrow>
   (order_entity \<times> order_item_entity list) option io" where
  "reconcile_failed envelope region o' s trx =
     bindE (updateSession (s_id s) FAILED (Some envelope) trx) (\<lambda>_.
     bindE (createTransaction (charge_input envelope region o' s False) trx) (\<lambda>_.
     bindE now (\<lambda>t.
     seqE (insertOutboxEvent trx (payment_event envelope region o' s PAYMENT_FAILED ''failedAt'' t))
          (returnE None))))"

definition announce_placed :: "(order_entity \<times> order_item_entity list) option \<Rightarrow> unit io" where
  "announce_placed res =
     (case res of
        None \<Rightarrow> returnE ()
      | Some (placed, items) \<Rightarrow>
          seqE (wsEmit (''branch:'' @ string_of_int (o_branchId placed)) ''order.created''
                  (OrderSummaryResponseDTO placed (length items)))
               (wsEmit (''customer:'' @ string_of_int (o_customerId placed)) ''order.status_changed''
                  (OrderStatusResponseDTO placed)))"

definition reconcile :: "json \<Rightarrow> string \<Rightarrow> unit io" where
  "reconcile envelope region =
     (if jget ''event'' envelope \<noteq> Some (JStr ''pay'') then returnE ()
      else
        bindE (db region) (\<lambda>conn.
        bindE (case jpath envelope ''merchantOrderId'' of
                 None \<Rightarrow> throwE (JsError ''Undefined binding(s) detected when compiling SELECT'')
               | Some JNull \<Rightarrow> returnE None
               | Some v \<Rightarrow> findOrderByPublicId (js_string v) conn) (\<lambda>found.
        case found of
          None \<Rightarrow> returnE ()
        | Some o' \<Rightarrow>
            bindE (findActiveSessionByOrderId (o_id o') conn) (\<lambda>sess.
            case sess of
              None \<Rightarrow> returnE ()
            | Some s \<Rightarrow>
                bindE (transaction conn
                         (if jpath envelope ''status'' = Some (JStr ''SUCCESS'')
                          then reconcile_success envelope region o' s conn
                          else reconcile_failed envelope region o' s conn) throwE)
                  announce_placed))))"

definition processKashierWebhook :: "json option \<Rightarrow> string option \<Rightarrow> string \<Rightarrow> unit io" where
  "processKashierWebhook rawBody signatureHeader region =
     bindE (checked (parseEnvelope rawBody)) (\<lambda>envelope.
     bindE (getE (\<lambda>w. (hmacSha256 (ext w), kashierApiKey (env w)))) (\<lambda>(hmac, apiKey).
     let sig = (case signatureHeader of None \<Rightarrow> [] | Some s \<Rightarrow> s);
         keys = map js_string (the (signature_keys envelope));
         data = (case jget ''data'' envelope of None \<Rightarrow> JNull | Some d \<Rightarrow> d)
     in seqE (throwIf (sig = []) InvalidWebhookSignatureError)
       (seqE (throwIf (\<not> verifyWebhookSignature hmac data keys apiKey sig) InvalidWebhookSignatureError)
       (bindE (db region) (\<lambda>conn.
        bindE (recordWebhookOrSkip
                 \<lparr>nw_region = region, nw_providerId = KASHIER_PROVIDER_ID,
                  nw_providerEventId = transactionId envelope, nw_signature = sig, nw_payload = envelope\<rparr> conn)
          (\<lambda>recorded.
        case recorded of
          None \<Rightarrow> returnE ()
        | Some ev \<Rightarrow>
            tryCatch
              (seqE (reconcile envelope region) (markWebhookProcessed (w_id ev) None conn))
              (\<lambda>err. seqE (markWebhookProcessed (w_id ev) (Some (exn_message err)) conn) (throwE err))))))))"

text \<open>The controller: without a raw body the request is malformed.\<close>

definition webhook_controller :: "json option option \<Rightarrow> string option \<Rightarrow> string \<Rightarrow> unit io" where
  "webhook_controller rawBody signatureHeader region =
     (case rawBody of
        None \<Rightarrow> throwE MalformedWebhookError
      | Some b \<Rightarrow> processKashierWebhook b signatureHeader region)"

subsection \<open>Frames\<close>

context quiet_relation begin

lemma moves_announce_placed [moves_intro]: "moves R (announce_placed res)"
  unfolding announce_placed_def by (intro moves_intro)

end

lemma moves_case_json [moves_intro]:
  "\<lbrakk>moves R a; \<And>x. moves R (b x); \<And>x. moves R (c x); \<And>x. moves R (d x); \<And>x. moves R (e x); \<And>x. moves R (f x)\<rbrakk> \<Longrightarrow>
   moves R (case v of JNull \<Rightarrow> a | JBool x \<Rightarrow> b x | JNum x \<Rightarrow> c x | JStr x \<Rightarrow> d x | JArr x \<Rightarrow> e x | JObj x \<Rightarrow> f x)"
  by (cases v) auto

context shard_relation begin

lemma moves_reconcile_bodies [moves_intro]:
  "moves R (reconcile_success envelope region o' s c)" "moves R (reconcile_failed envelope region o' s c)"
  unfolding reconcile_success_def reconcile_failed_def by (intro moves_intro)+

end

context hot_relation begin

lemma moves_reconcile [moves_intro]: "moves R (reconcile envelope g)"
  unfolding reconcile_def by (intro moves_intro)

lemma moves_processKashierWebhook [moves_intro]: "moves R (processKashierWebhook raw sig g)"
  unfolding processKashierWebhook_def Let_def by (intro moves_intro)

end

lemmas run_Webhook [run] = jpath_def signature_keys_def parseEnvelope_def jtext_def transactionId_def
  charge_input_def payment_event_def reconcile_success_def reconcile_failed_def announce_placed_def reconcile_def
  processKashierWebhook_def verifyWebhookSignature_def computeWebhookSignature_def hex_value_def jget_def truthy_def

subsection \<open>Guarantees\<close>

text \<open>C9: a webhook without a valid signature over its payload is refused with 400 or 401 and changes nothing.\<close>

theorem webhook_unsigned:
  assumes "\<And>envelope sg. parseEnvelope raw = Inr envelope \<Longrightarrow> sig = Some sg \<Longrightarrow>
      \<not> verifyWebhookSignature (hmacSha256 (ext w))
          (case jget ''data'' envelope of None \<Rightarrow> JNull | Some d \<Rightarrow> d)
          (map js_string (the (signature_keys envelope))) (kashierApiKey (env w)) sg"
  shows "processKashierWebhook raw sig region w = (Inl MalformedWebhookError, w) \<or>
     processKashierWebhook raw sig region w = (Inl InvalidWebhookSignatureError, w)"
proof (cases "parseEnvelope raw")
  case (Inl e)
  then have "e = MalformedWebhookError" by (auto simp: parseEnvelope_def split: option.splits if_splits)
  with Inl show ?thesis by (simp add: processKashierWebhook_def checked_def)
next
  case (Inr envelope)
  with assms show ?thesis
    by (auto simp: processKashierWebhook_def checked_def bindE_def seqE_def throwIf_def Let_def split: option.splits)
qed

definition sample_envelope :: json where
  "sample_envelope =
     JObj [(''event'', JStr ''pay''),
           (''data'', JObj [(''merchantOrderId'', JStr ''p1''), (''transactionId'', JStr ''TX-1''), (''status'', JStr ''SUCCESS''),
              (''signatureKeys'', JArr [JStr ''transactionId'', JStr ''status''])])]"

theorem webhook_unsigned_witness:
  "processKashierWebhook (Some sample_envelope) (Some ''00'') ''eg'' sample_world = (Inl MalformedWebhookError, sample_world) \<or>
   processKashierWebhook (Some sample_envelope) (Some ''00'') ''eg'' sample_world = (Inl InvalidWebhookSignatureError, sample_world)"
  by (rule webhook_unsigned)
    (auto simp: verifyWebhookSignature_def computeWebhookSignature_def sample_world_def sample_outside_def hex_value_def)

lemma recordWebhookOrSkip_taken:
  assumes "Some (nw_providerId n, nw_providerEventId n) \<in> webhook_key ` set (webhook_events (tables_of w c))"
  shows "\<exists>r w'. recordWebhookOrSkip n c w = (r, w') \<and> tables_of w' = tables_of w \<and> trace w' = trace w \<and>
    (case r of Inl _ \<Rightarrow> True | Inr out \<Rightarrow> out = None)"
proof (cases "dbFault (ext w) (steps w)")
  case (Some msg)
  then show ?thesis by (simp add: recordWebhookOrSkip_def stmt_def tables_of_def fun_eq_iff)
next
  case None
  let ?q = "q_webhooks (sqs (shards w c)) + 1"
  have "insert_or_skip webhook_key (webhook_row ?q (clock w) n) (webhook_events (tabs (shards w c)))
      = (None, webhook_events (tabs (shards w c)))"
    using assms by (intro webhook_log.ins_taken) (auto simp: webhook_key_def webhook_row_def tables_of_def)
  with None show ?thesis
    by (simp add: recordWebhookOrSkip_def stmt_def tables_of_def fun_eq_iff Let_def)
qed

text \<open>a webhook whose transaction id is in the log has no effect at all: no table changes and nothing is
  sent. The event is logged before it is reconciled and stays logged when the reconciliation fails, so
  the retries of Kashier that the service asks for by failing are skipped as duplicates, and the payment
  is never reconciled.\<close>

theorem webhook_logged_is_skipped:
  assumes "Some (KASHIER_PROVIDER_ID, transactionId envelope)
      \<in> webhook_key ` set (webhook_events (tables_of w (Hot, region)))"
  shows "case processKashierWebhook (Some envelope) sig region w of
     (r, w') \<Rightarrow> tables_of w' = tables_of w \<and> trace w' = trace w"
proof (cases "parseEnvelope (Some envelope)")
  case (Inl e)
  then show ?thesis by (simp add: processKashierWebhook_def checked_def)
next
  case (Inr env')
  then have e: "env' = envelope" by (auto simp: parseEnvelope_def split: if_splits)
  obtain q v where q: "db region w = (q, v)" by (cases "db region w")
  have v: "v = w" using getShard_pure [of Hot region w] q by (simp add: db_def)
  let ?n = "\<lambda>sg. \<lparr>nw_region = region, nw_providerId = KASHIER_PROVIDER_ID,
      nw_providerEventId = transactionId envelope, nw_signature = sg, nw_payload = envelope\<rparr>"
  have rec: "\<exists>r w'. recordWebhookOrSkip (?n sg) (Hot, region) w = (r, w') \<and> tables_of w' = tables_of w \<and>
      trace w' = trace w \<and> (case r of Inl _ \<Rightarrow> True | Inr out \<Rightarrow> out = None)" for sg
    by (rule recordWebhookOrSkip_taken) (simp add: assms)
  show ?thesis
  proof (cases q)
    case (Inl err)
    with Inr e q v show ?thesis
      by (simp add: processKashierWebhook_def checked_def bindE_def seqE_def throwIf_def Let_def)
  next
    case c: (Inr c)
    with q have "c = (Hot, region)" by auto
    obtain r1 w1 where rw: "recordWebhookOrSkip (?n (case sig of None \<Rightarrow> [] | Some s \<Rightarrow> s)) (Hot, region) w = (r1, w1)"
      and t: "tables_of w1 = tables_of w" "trace w1 = trace w" and r1: "case r1 of Inl _ \<Rightarrow> True | Inr out \<Rightarrow> out = None"
      using rec by blast
    show ?thesis
      by (cases r1)
        (use Inr e q v c \<open>c = (Hot, region)\<close> rw t r1 in
          \<open>simp_all add: processKashierWebhook_def checked_def bindE_def seqE_def throwIf_def Let_def\<close>)
  qed
qed

definition logged_world :: world where
  "logged_world = sample_world\<lparr>shards := (\<lambda>_. empty_shard\<lparr>tabs := (tabs empty_shard)\<lparr>webhook_events :=
     [webhook_row 1 0 \<lparr>nw_region = ''eg'', nw_providerId = 1, nw_providerEventId = ''TX-1'', nw_signature = ''0f'',
        nw_payload = JNull\<rparr>]\<rparr>\<rparr>)\<rparr>"

theorem webhook_logged_is_skipped_witness:
  "case processKashierWebhook (Some sample_envelope) (Some ''0f'') ''eg'' logged_world of
     (r, w') \<Rightarrow> tables_of w' = tables_of logged_world \<and> trace w' = trace logged_world"
  by (rule webhook_logged_is_skipped)
    (simp add: logged_world_def tables_of_def webhook_key_def webhook_row_def KASHIER_PROVIDER_ID_def empty_shard_def
      sample_envelope_def transactionId_def jtext_def jpath_def jget_def)

lemma reconcile_success_places:
  assumes calm: "\<forall>k. dbFault (ext w) k = None"
    and key: "Some (''kashier:'' @ transactionId envelope) \<notin> t_idempotencyKey ` set (transactions (tables_of w c))"
    and f: "List.find (\<lambda>x. o_publicId x = o_publicId o') (orders (tables_of w c)) = Some o'" and st: "o_status o' = PENDING_PAYMENT"
    and s: "s \<in> set (payment_sessions (tables_of w c))" and amt: "int4 (s_amount s)"
    and uu: "\<forall>k. uuidAt (ext w) k \<notin> x_eventId ` set (outbox (tables_of w c))" and inj: "inj (uuidAt (ext w))"
  shows "\<exists>placed items w'. reconcile_success envelope region o' s c w = (Inr (Some (placed, items)), w') \<and>
     orders (tables_of w' c) = update_where (\<lambda>x. o_publicId x = o_publicId o') (status_row PLACED None (clock w)) (orders (tables_of w c)) \<and>
     payment_sessions (tables_of w' c) = update_where (\<lambda>x. s_id x = s_id s) (session_update CAPTURED (Some envelope) (clock w))
           (payment_sessions (tables_of w c)) \<and>
     (\<exists>x. transactions (tables_of w' c) = transactions (tables_of w c) @ [x] \<and>
        t_transactionType x = CHARGE \<and> t_status x = TX_SUCCEEDED \<and> t_amount x = s_amount s \<and>
        t_srcAccId x = Some (o_customerId o') \<and> t_dstAccId x = Some (o_restaurantOwnerId o')) \<and>
     (\<exists>e1 e2. outbox (tables_of w' c) = outbox (tables_of w c) @ [e1, e2] \<and>
        x_eventType e1 = PAYMENT_COMPLETED \<and> x_eventType e2 = ORDER_PLACED) \<and> ext w' = ext w"
proof -
  from updateSession_ok [of w c "s_id s" CAPTURED "Some envelope"] calm s obtain u where
    u: "updateSession (s_id s) CAPTURED (Some envelope) c w = (Inr u, (tick w)\<lparr>shards := (shards w)(c := (shards w c)\<lparr>tabs :=
      (tabs (shards w c))\<lparr>payment_sessions := update_where (\<lambda>x. s_id x = s_id s) (session_update CAPTURED (Some envelope) (clock w))
         (payment_sessions (tables_of w c))\<rparr>\<rparr>)\<rparr>)" by auto
  have ne: "uuidAt (ext w) m \<noteq> uuidAt (ext w) k" if "m \<noteq> k" for m k
    using inj that by (auto dest: injD)
  show ?thesis
    using calm key f st amt uu
    by (simp add: reconcile_success_def bindE_def seqE_def u createTransaction_ok updateOrderStatus_ok insertOutboxEvent_ok
       tables_of_def Let_def now_def charge_input_def findItemsByOrderIds_def query_ok transaction_row_def ne
       outbox_new_row_def payment_event_def order_event_def set_outbox_def set_transactions_def set_orders_def)
qed

text \<open>What the updates of the order and of the session leave.\<close>

lemma status_written:
  assumes "List.find (\<lambda>x. o_publicId x = pid) os = Some o'"
  shows "o_status ` {x \<in> set (update_where (\<lambda>x. o_publicId x = pid) (status_row st None t) os). o_publicId x = pid} = {st}"
proof -
  have "filter (\<lambda>x. o_publicId x = pid) os \<noteq> []" using assms by (auto simp: find_filter split: list.splits)
  then show ?thesis
    by (cases "filter (\<lambda>x. o_publicId x = pid) os") (auto simp: filter_update_where returning_def simp flip: set_filter)
qed

lemma session_written:
  assumes "s \<in> set ss"
  shows "s_status ` {x \<in> set (update_where (\<lambda>x. s_id x = s_id s) (session_update st raw t) ss). s_id x = s_id s} = {st}"
proof -
  have id: "s_id (session_update st raw t x) = s_id x" for x by (simp add: session_update_def Let_def split: option.split)
  have "s_status (session_update st raw t x) = st" for x by (simp add: session_update_def Let_def split: option.split)
  with assms id show ?thesis
    by (auto simp: update_where_def image_iff intro!: exI [of _ "session_update st raw t s"] bexI [of _ s])
qed

text \<open>A success event for an order that is found with an open session, once its transaction is known.\<close>

lemma reconcile_paid:
  assumes "jget ''event'' envelope = Some (JStr ''pay'')" and "jpath envelope ''status'' = Some (JStr ''SUCCESS'')"
    and "jpath envelope ''merchantOrderId'' = Some (JStr pid)" and "known_region w region" and calm: "\<forall>k. dbFault (ext w) k = None"
    and "List.find (\<lambda>x. o_publicId x = pid) (orders (tables_of w (Hot, region))) = Some o'"
    and "active_sessions (o_id o') (payment_sessions (tables_of w (Hot, region))) = s # ss"
    and b: "reconcile_success envelope region o' s (Hot, region) (tick (tick (tick w))) = (Inr (Some res), w3)" and "ext w3 = ext w"
  shows "\<exists>v. reconcile envelope region w = (Inr (), v) \<and> tables_of v = tables_of w3 \<and> ext v = ext w"
proof -
  have fo: "findOrderByPublicId pid (Hot, region) w = (Inr (Some o'), tick w)"
    using assms by (simp add: findOrderByPublicId_def query_ok tables_of_def)
  have fs: "findActiveSessionByOrderId (o_id o') (Hot, region) (tick w) = (Inr (Some s), tick (tick w))"
    using assms by (simp add: findActiveSessionByOrderId_def query_ok tables_of_def)
  show ?thesis using assms
    by (cases res) (simp add: reconcile_def bindE_def seqE_def fo fs transaction_def roundtrip_ok b
        announce_placed_def wsEmit_def emit_def tables_of_def fun_eq_iff)
qed

text \<open>C8: a signed SUCCESS webhook for an order waiting for payment, seen for the first time and with the database
  up, places the order, captures its session, books one charge of the amount of the session from the
  customer to the owner, and hands \<open>payment.completed\<close> and \<open>order.placed\<close> to the outbox.\<close>

theorem webhook_captures:
  assumes parse: "parseEnvelope (Some envelope) = Inr envelope"
    and sg: "verifyWebhookSignature (hmacSha256 (ext w)) (case jget ''data'' envelope of None \<Rightarrow> JNull | Some d \<Rightarrow> d)
          (map js_string (the (signature_keys envelope))) (kashierApiKey (env w)) sg"
    and pay: "jget ''event'' envelope = Some (JStr ''pay'')" and ok: "jpath envelope ''status'' = Some (JStr ''SUCCESS'')"
    and oid: "jpath envelope ''merchantOrderId'' = Some (JStr pid)"
    and region: "known_region w region" and calm: "\<forall>k. dbFault (ext w) k = None"
    and new: "Some (KASHIER_PROVIDER_ID, transactionId envelope) \<notin> webhook_key ` set (webhook_events (tables_of w (Hot, region)))"
    and key: "Some (''kashier:'' @ transactionId envelope) \<notin> t_idempotencyKey ` set (transactions (tables_of w (Hot, region)))"
    and f: "List.find (\<lambda>x. o_publicId x = pid) (orders (tables_of w (Hot, region))) = Some o'"
    and st: "o_status o' = PENDING_PAYMENT"
    and s: "active_sessions (o_id o') (payment_sessions (tables_of w (Hot, region))) = s # ss" and amt: "int4 (s_amount s)"
    and uu: "\<forall>k. uuidAt (ext w) k \<notin> x_eventId ` set (outbox (tables_of w (Hot, region)))" and inj: "inj (uuidAt (ext w))"
  shows "\<exists>w'. processKashierWebhook (Some envelope) (Some sg) region w = (Inr (), w') \<and>
     statuses w' (Hot, region) pid = {PLACED} \<and>
     s_status ` {x \<in> set (payment_sessions (tables_of w' (Hot, region))). s_id x = s_id s} = {CAPTURED} \<and>
     (\<exists>x. transactions (tables_of w' (Hot, region)) = transactions (tables_of w (Hot, region)) @ [x] \<and>
        t_transactionType x = CHARGE \<and> t_status x = TX_SUCCEEDED \<and> t_amount x = s_amount s \<and>
        t_srcAccId x = Some (o_customerId o') \<and> t_dstAccId x = Some (o_restaurantOwnerId o')) \<and>
     (\<exists>e1 e2. outbox (tables_of w' (Hot, region)) = outbox (tables_of w (Hot, region)) @ [e1, e2] \<and>
        x_eventType e1 = PAYMENT_COMPLETED \<and> x_eventType e2 = ORDER_PLACED)"
proof -
  let ?c = "(Hot, region)"
  let ?n = "\<lparr>nw_region = region, nw_providerId = KASHIER_PROVIDER_ID,
      nw_providerEventId = transactionId envelope, nw_signature = sg, nw_payload = envelope\<rparr>"
  have sg0: "sg \<noteq> []" using sg by (auto simp: verifyWebhookSignature_def)
  obtain ev w1 where rec: "recordWebhookOrSkip ?n ?c w = (Inr (Some ev), w1)"
    and w1: "orders (tables_of w1 ?c) = orders (tables_of w ?c)" "payment_sessions (tables_of w1 ?c) = payment_sessions (tables_of w ?c)"
      "transactions (tables_of w1 ?c) = transactions (tables_of w ?c)" "outbox (tables_of w1 ?c) = outbox (tables_of w ?c)"
      "ext w1 = ext w" "env w1 = env w"
    using recordWebhookOrSkip_fresh [of w ?n ?c] calm new
    by (simp add: Let_def tables_of_def)
  have pid: "o_publicId o' = pid" using f by (auto dest: find_Some_mem)
  have mem: "s \<in> set (payment_sessions (tables_of w ?c))"
  proof -
    have "s \<in> set (active_sessions (o_id o') (payment_sessions (tables_of w ?c)))" by (simp add: s)
    then show ?thesis by (simp add: active_sessions_def)
  qed
  let ?w2 = "tick (tick (tick w1))"
  obtain res w3 where b: "reconcile_success envelope region o' s ?c ?w2 = (Inr (Some res), w3)"
    and o3: "orders (tables_of w3 ?c) = update_where (\<lambda>x. o_publicId x = pid) (status_row PLACED None (clock ?w2)) (orders (tables_of w ?c))"
    and s3: "payment_sessions (tables_of w3 ?c) = update_where (\<lambda>x. s_id x = s_id s) (session_update CAPTURED (Some envelope) (clock ?w2))
           (payment_sessions (tables_of w ?c))"
    and t3: "\<exists>x. transactions (tables_of w3 ?c) = transactions (tables_of w ?c) @ [x] \<and>
        t_transactionType x = CHARGE \<and> t_status x = TX_SUCCEEDED \<and> t_amount x = s_amount s \<and>
        t_srcAccId x = Some (o_customerId o') \<and> t_dstAccId x = Some (o_restaurantOwnerId o')"
    and x3: "\<exists>e1 e2. outbox (tables_of w3 ?c) = outbox (tables_of w ?c) @ [e1, e2] \<and>
        x_eventType e1 = PAYMENT_COMPLETED \<and> x_eventType e2 = ORDER_PLACED" and e3: "ext w3 = ext w"
    using reconcile_success_places [of ?w2 envelope ?c o' s region] calm key f st mem amt uu inj w1 pid
    by (auto simp: tables_of_def)
  have "\<exists>v. reconcile envelope region w1 = (Inr (), v) \<and> tables_of v = tables_of w3 \<and> ext v = ext w1"
    using region w1 calm f s b e3 by (intro reconcile_paid [OF pay ok oid]) (simp_all add: known_region_def)
  then obtain v where v: "reconcile envelope region w1 = (Inr (), v)" "tables_of v = tables_of w3" "ext v = ext w" using w1 by auto
  define w4 where "w4 = snd (markWebhookProcessed (w_id ev) None ?c v)"
  have m: "markWebhookProcessed (w_id ev) None ?c v = (Inr (), w4)"
    and w4: "orders (tables_of w4 ?c) = orders (tables_of v ?c)" "payment_sessions (tables_of w4 ?c) = payment_sessions (tables_of v ?c)"
      "transactions (tables_of w4 ?c) = transactions (tables_of v ?c)" "outbox (tables_of w4 ?c) = outbox (tables_of v ?c)"
    using calm v(3) by (simp_all add: w4_def markWebhookProcessed_def stmt_def tables_of_def)
  have run: "processKashierWebhook (Some envelope) (Some sg) region w = (Inr (), w4)"
    using sg by (simp add: processKashierWebhook_def parse checked_def bindE_def seqE_def Let_def sg0 region rec v(1) m tryCatch_def)
  have "statuses w4 ?c pid = {PLACED}" using status_written [OF f] by (simp add: statuses_def w4 v(2) o3)
  moreover have "s_status ` {x \<in> set (payment_sessions (tables_of w4 ?c)). s_id x = s_id s} = {CAPTURED}"
    using session_written [OF mem] by (simp add: w4 v(2) s3)
  ultimately show ?thesis using run t3 x3 w4 v(2) by auto
qed

definition paid_world :: world where
  "paid_world = sample_world\<lparr>shards := (\<lambda>_. empty_shard\<lparr>tabs := (tabs empty_shard)
     \<lparr>orders := [sample_order\<lparr>o_status := PENDING_PAYMENT, o_paymentMethod := ONLINE\<rparr>],
      payment_sessions := [session_row 1 0 \<lparr>ns_region = ''eg'', ns_orderId = 1, ns_providerId = 1,
        ns_providerSessionId = ''k1'', ns_redirectUrl = ''u'', ns_amount = 6500, ns_currency = ''EGP'',
        ns_status = INITIALIZED, ns_rawInitPayload = JNull\<rparr>]\<rparr>\<rparr>)\<rparr>"

theorem webhook_captures_witness:
  "\<exists>w'. processKashierWebhook (Some sample_envelope) (Some ''0F'') ''eg'' paid_world = (Inr (), w') \<and>
     statuses w' (Hot, ''eg'') ''p1'' = {PLACED}"
proof -
  let ?s = "session_row 1 0 \<lparr>ns_region = ''eg'', ns_orderId = 1, ns_providerId = 1,
        ns_providerSessionId = ''k1'', ns_redirectUrl = ''u'', ns_amount = 6500, ns_currency = ''EGP'',
        ns_status = INITIALIZED, ns_rawInitPayload = JNull\<rparr>"
  note defs = paid_world_def sample_world_def sample_outside_def sample_env_def tables_of_def empty_shard_def
  have t: "tables_of paid_world (Hot, ''eg'') = (tabs empty_shard)
     \<lparr>orders := [sample_order\<lparr>o_status := PENDING_PAYMENT, o_paymentMethod := ONLINE\<rparr>], payment_sessions := [?s]\<rparr>"
    by (simp add: paid_world_def tables_of_def)
  have "inj (\<lambda>n. replicate n CHR ''u'')" by (rule injI) simp
  then have u: "inj (uuidAt (ext paid_world))" by (simp add: defs)
  have e: "jget ''event'' sample_envelope = Some (JStr ''pay'')" "jpath sample_envelope ''status'' = Some (JStr ''SUCCESS'')"
    "jpath sample_envelope ''merchantOrderId'' = Some (JStr ''p1'')"
    by (simp_all add: sample_envelope_def jpath_def jget_def)
  have p: "parseEnvelope (Some sample_envelope) = Inr sample_envelope"
    by (simp add: sample_envelope_def parseEnvelope_def jpath_def jget_def truthy_def signature_keys_def)
  have v: "verifyWebhookSignature (hmacSha256 (ext paid_world)) d ks k ''0F''" for d ks k
    by (simp add: defs verifyWebhookSignature_def computeWebhookSignature_def hex_value_def)
  let ?o = "sample_order\<lparr>o_status := PENDING_PAYMENT, o_paymentMethod := ONLINE\<rparr>"
  have k: "known_region paid_world ''eg''"
    by (simp add: defs known_region_def toLowerCase_def lower_char_def)
  have calm: "\<forall>k. dbFault (ext paid_world) k = None" by (simp add: defs)
  have q: "?o \<in> set (orders (tables_of paid_world (Hot, ''eg'')))" by (simp add: t)
  have new: "Some (KASHIER_PROVIDER_ID, transactionId sample_envelope) \<notin>
      webhook_key ` set (webhook_events (tables_of paid_world (Hot, ''eg'')))"
    "Some (''kashier:'' @ transactionId sample_envelope) \<notin> t_idempotencyKey ` set (transactions (tables_of paid_world (Hot, ''eg'')))"
    "\<forall>k. uuidAt (ext paid_world) k \<notin> x_eventId ` set (outbox (tables_of paid_world (Hot, ''eg'')))"
    by (simp_all add: t empty_shard_def)
  have f: "List.find (\<lambda>x. o_publicId x = ''p1'') (orders (tables_of paid_world (Hot, ''eg''))) = Some ?o"
    by (simp add: t sample_order_def)
  have s: "active_sessions (o_id ?o) (payment_sessions (tables_of paid_world (Hot, ''eg''))) = [?s]"
    by (simp add: t active_sessions_def session_row_def sample_order_def)
  have a: "int4 (s_amount ?s)" by (simp add: session_row_def int4_def)
  show ?thesis
    using webhook_captures [OF p v e k calm new(1,2) f _ s a new(3) u] by auto
qed

end
