(* ===== verification/Presence.thy ===== *)
theory Presence
  imports OrderLaws
begin

section \<open>Agent presence and the courier's view of an order\<close>

text \<open>
  \<open>src/app/agent/service/presence.service.ts\<close> and \<open>src/app/agent/dto/agent.response.dto.ts\<close>. Presence lives in
  Redis only: a hash with a time to live per agent, the positions of a region, and the set of busy agents.
  The coordinates a courier sends are taken with the seven decimals the rest of the service stores.
\<close>

subsection \<open>Redis keys\<close>

definition metaKey :: "string \<Rightarrow> int \<Rightarrow> string" where
  "metaKey region agentId = ''presence:meta:'' @ region @ '':'' @ string_of_int agentId"

definition geoKey :: "string \<Rightarrow> string" where
  "geoKey region = ''presence:geo:'' @ region"

definition busyKey :: "string \<Rightarrow> string" where
  "busyKey region = ''presence:busy:'' @ region"

subsection \<open>PresenceService\<close>

definition upsert :: "string \<Rightarrow> int \<Rightarrow> int \<Rightarrow> int \<Rightarrow> unit io" where
  "upsert region agentId lat lng =
     bindE (getE env) (\<lambda>e.
     bindE now (\<lambda>t.
     seqE (cache_hsetWithTtl (metaKey region agentId)
             [(''lat'', coordinate_text lat), (''lng'', coordinate_text lng), (''lastSeenAt'', string_of_int t)]
             (Some (presenceStaleSec e)))
          (cache_geoadd (geoKey region) lng lat (string_of_int agentId))))"

definition carrying :: "int \<Rightarrow> order_entity \<Rightarrow> bool" where
  "carrying agentId o' \<longleftrightarrow> o_deliveryAgentId o' = Some agentId \<and> o_status o' = PICKED"

text \<open>The check and the update are two statements on the connection, not a transaction.\<close>

definition goOffline_check :: "conn \<Rightarrow> int \<Rightarrow> unit io" where
  "goOffline_check conn agentId =
     bindE (query conn (\<lambda>tb. List.find (carrying agentId) (orders tb))) (\<lambda>stuck.
     throwIf (stuck \<noteq> None) OfflineWhilePickedForbidden)"

definition goOffline_release :: "conn \<Rightarrow> int \<Rightarrow> unit io" where
  "goOffline_release conn agentId = stmt conn (\<lambda>t sh.
     Inr ((), set_orders (update_where (releasable agentId) (release_row t) (orders (tabs sh))) sh))"

definition goOffline :: "string \<Rightarrow> int \<Rightarrow> unit io" where
  "goOffline region agentId =
     bindE (db region) (\<lambda>conn.
     seqE (goOffline_check conn agentId)
    (seqE (goOffline_release conn agentId)
    (seqE (bindE (cache_del (metaKey region agentId)) (\<lambda>_. returnE ()))
    (seqE (cache_zrem (geoKey region) (string_of_int agentId))
          (cache_srem (busyKey region) (string_of_int agentId))))))"

definition markBusy :: "string \<Rightarrow> int \<Rightarrow> unit io" where
  "markBusy region agentId = cache_sadd (busyKey region) (string_of_int agentId)"

definition clearBusy :: "string \<Rightarrow> int \<Rightarrow> unit io" where
  "clearBusy region agentId = cache_srem (busyKey region) (string_of_int agentId)"

subsection \<open>agent.response.dto.ts\<close>

definition DeliveryTaskResponseDTO :: "order_entity \<Rightarrow> core_branch option \<Rightarrow> json" where
  "DeliveryTaskResponseDTO o' branch =
     JObj [(''orderId'', JStr (o_publicId o')), (''status'', JStr (status_value (o_status o'))),
           (''pickup'', JObj [(''branchId'', jint (o_branchId o')),
              (''lat'', jopt (\<lambda>b. jcoord (cb_lat b)) branch), (''lng'', jopt (\<lambda>b. jcoord (cb_lng b)) branch),
              (''name'', jopt (\<lambda>b. JStr (cb_name b)) branch),
              (''addressText'', jopt (\<lambda>b. JStr (cb_addressText b)) branch)]),
           (''dropoff'', JObj [(''lat'', jcoord (o_deliveryLat o')), (''lng'', jcoord (o_deliveryLng o')),
              (''addressText'', JStr (o_deliveryAddressTextSnapshot o'))]),
           (''total'', jint (o_total o')), (''currency'', JStr (o_currency o')),
           (''paymentMethod'', JStr (payment_method_value (o_paymentMethod o'))),
           (''assignedAt'', jopt jdate (o_assignedAt o')), (''pickedAt'', jopt jdate (o_pickedAt o')),
           (''deliveredAt'', jopt jdate (o_deliveredAt o'))]"

definition AgentEarningItemDTO :: "agent_earning_entity \<Rightarrow> json" where
  "AgentEarningItemDTO e =
     JObj [(''orderId'', jint (e_orderId e)), (''amount'', jint (e_amount e)), (''currency'', JStr (e_currency e)),
           (''earnedAt'', jdate (e_earnedAt e))]"

definition AgentEarningsResponseDTO :: "int \<Rightarrow> int \<Rightarrow> agent_earning_entity list \<Rightarrow> int \<Rightarrow> json" where
  "AgentEarningsResponseDTO frm to items earned =
     JObj [(''range'', JObj [(''from'', jdate frm), (''to'', jdate to)]),
           (''totals'', JObj [(''count'', jint (int (length items))), (''sum'', jint earned),
              (''currency'', jopt (\<lambda>e. JStr (e_currency e)) (first_row items))]),
           (''items'', JArr (map AgentEarningItemDTO items))]"

text \<open>\<open>getBranch(id).catch(() => null)\<close>\<close>

definition getBranchOrNull :: "int \<Rightarrow> core_branch option io" where
  "getBranchOrNull branchId =
     tryCatch (bindE (getBranch branchId None) (\<lambda>b. returnE (Some b))) (\<lambda>_. returnE None)"

subsection \<open>Frames\<close>

context quiet_relation begin

lemma moves_presence_redis [moves_intro]:
  "moves R (upsert g a lat lng)" "moves R (markBusy g a)" "moves R (clearBusy g a)" "moves R (goOffline_check c a)"
  unfolding upsert_def markBusy_def clearBusy_def goOffline_check_def by (intro moves_intro)+

lemma moves_getBranchOrNull [moves_intro]: "moves R (getBranchOrNull b)"
  unfolding getBranchOrNull_def by (intro moves_intro)

end

context shard_relation begin

lemma moves_goOffline_release [moves_intro]: "moves R (goOffline_release c a)"
  unfolding goOffline_release_def by (intro moves_intro)

end

context hot_relation begin

lemma moves_goOffline [moves_intro]: "moves R (goOffline g a)"
  unfolding goOffline_def by (intro moves_intro)

end

lemma same_goOffline_release [moves_intro]:
  fixes f :: "tables \<Rightarrow> 'a"
  assumes "\<And>tb os. f (tb\<lparr>orders := os\<rparr>) = f tb"
  shows "moves (per_table (same f)) (goOffline_release c a)"
  unfolding goOffline_release_def by (rule same.moves_stmt_Q) (auto simp: same_def set_orders_def assms)

lemma getBranchOrNull_total: "\<exists>b w'. getBranchOrNull i w = (Inr b, w')"
  by (auto simp: getBranchOrNull_def tryCatch_def split: prod.splits sum.splits)

lemmas run_Presence [run] = metaKey_def geoKey_def busyKey_def carrying_def upsert_def goOffline_check_def
  goOffline_release_def goOffline_def markBusy_def clearBusy_def getBranchOrNull_def

subsection \<open>Going offline\<close>

text \<open>
  The contract: the agent carries no order, every order assigned to it is ready and unassigned again, and no
  other row, table or shard is different.
\<close>

definition released :: "string \<Rightarrow> int \<Rightarrow> world \<Rightarrow> world \<Rightarrow> bool" where
  "released g a w w' \<longleftrightarrow>
     (\<forall>x\<in>set (orders (tables_of w (Hot, g))). \<not> carrying a x) \<and>
     tables_of w' = (tables_of w)((Hot, g) := (tables_of w (Hot, g))\<lparr>orders :=
       update_where (releasable a) (release_row (clock w)) (orders (tables_of w (Hot, g)))\<rparr>)"

lemma goOffline_check_Inr:
  "goOffline_check c a w = (Inr u, w') \<Longrightarrow> w' = tick w \<and> (\<forall>x\<in>set (orders (tables_of w c)). \<not> carrying a x)"
  by (auto simp: goOffline_check_def find_None_iff tables_of_def elim!: bindE_InrE query_InrE throwIf_InrE)

lemma goOffline_release_Inr:
  "goOffline_release c a w = (Inr u, w') \<Longrightarrow> tables_of w' = (tables_of w)(c := (tables_of w c)\<lparr>orders :=
       update_where (releasable a) (release_row (clock w)) (orders (tables_of w c))\<rparr>)"
  by (auto simp: goOffline_release_def tables_of_def set_orders_def fun_eq_iff elim!: stmt_InrE)

text \<open>C15: going offline is refused while the agent carries an order; otherwise every order assigned to the agent
  goes back to ready and unassigned and nothing else in any database is written. A request that fails has
  written nothing, or all of that when Redis failed after the update.\<close>

theorem goOffline_outcome:
  "case goOffline g a w of
     (Inl e, w') \<Rightarrow> tables_of w' = tables_of w \<or> released g a w w'
   | (Inr _, w') \<Rightarrow> released g a w w'"
proof -
  obtain r w' where run: "goOffline g a w = (r, w')" by (cases "goOffline g a w")
  have "(\<exists>e. r = Inl e \<and> tables_of w' = tables_of w) \<or> released g a w w'"
    using run unfolding goOffline_def
  proof (cases rule: bindE_cases)
    case (thrown e)
    then show ?thesis using getShard_pure [of Hot g w] by (simp add: db_def)
  next
    case (went c v)
    then have c: "c = (Hot, g)" "v = w" by auto
    from went(2) show ?thesis
    proof (cases rule: seqE_cases)
      case (thrown e)
      have "moves shards_kept (goOffline_check c a)" by (intro moves_intro)
      with thrown c show ?thesis by (auto dest: shards_keptD intro: tables_shards)
    next
      case (went u v1)
      from goOffline_check_Inr [OF went(1)] c have v1: "v1 = tick w"
        and k: "\<forall>x\<in>set (orders (tables_of w (Hot, g))). \<not> carrying a x" by auto
      from went(2) show ?thesis
      proof (cases rule: seqE_cases)
        case (thrown e)
        then show ?thesis by (auto simp: goOffline_release_def v1 dest: stmt_Inl)
      next
        case (went u' v2)
        have "moves shards_kept (seqE (bindE (cache_del (metaKey g a)) (\<lambda>_. returnE ()))
            (seqE (cache_zrem (geoKey g) (string_of_int a)) (cache_srem (busyKey g) (string_of_int a))))"
          by (intro moves_intro)
        with went(2) have "tables_of w' = tables_of v2" by (auto dest: shards_keptD intro: tables_shards)
        with goOffline_release_Inr [OF went(1)] c v1 k show ?thesis by (simp add: released_def)
      qed
    qed
  qed
  then show ?thesis by (cases r) (auto simp: run)
qed

end
