(* ===== verification/Assignment.thy ===== *)
theory Assignment
  imports Presence
begin

section \<open>Assigning an order to a courier\<close>

text \<open>
  \<open>src/app/assignment/service/assignment.service.ts\<close>. The worker broadcasts an offer for a ready order to the
  nearest free agents and keeps their ids in Redis; \<open>claim\<close> takes a lock (\<open>SETNX\<close> with a time to live) and
  then updates the row in a transaction if it is still ready and unassigned. The guarantees below show which
  of the two mechanisms gives exclusivity.
\<close>

subsection \<open>Redis keys\<close>

definition offerKey :: "string \<Rightarrow> string" where
  "offerKey orderPublicId = ''offer:order:'' @ orderPublicId"

definition claimKey :: "string \<Rightarrow> string" where
  "claimKey orderPublicId = ''claim:order:'' @ orderPublicId"

definition attemptsKey :: "string \<Rightarrow> string" where
  "attemptsKey orderPublicId = ''assign:attempts:'' @ orderPublicId"

text \<open>
  \<open>!offered\<close>, \<open>offered.split(",").map(Number)\<close> (\<open>None\<close> is \<open>NaN\<close>) and \<open>ids.join(",")\<close>. An offer key only
  ever holds plain text.
\<close>

definition no_offer :: "rtext option \<Rightarrow> bool" where
  "no_offer offered = (offered = None \<or> offered = Some (Text []))"

definition candidateIds :: "rtext option \<Rightarrow> int option list" where
  "candidateIds offered = (case offered of Some (Text s) \<Rightarrow> splitIds s | _ \<Rightarrow> [])"

definition id_text :: "int option \<Rightarrow> string" where
  "id_text i = (case i of None \<Rightarrow> ''NaN'' | Some n \<Rightarrow> string_of_int n)"

subsection \<open>Offers\<close>

fun candidate_loop :: "string \<Rightarrow> nat \<Rightarrow> string list \<Rightarrow> int list \<Rightarrow> int list io" where
  "candidate_loop region limit [] acc = returnE acc"
| "candidate_loop region limit (idStr # rest) acc =
     (case Number idStr of
        None \<Rightarrow> candidate_loop region limit rest acc
      | Some agentId \<Rightarrow>
          bindE (cache_exists (metaKey region agentId)) (\<lambda>online.
          if \<not> online then candidate_loop region limit rest acc
          else
            bindE (cache_sismember (busyKey region) idStr) (\<lambda>busy.
            if busy then candidate_loop region limit rest acc
            else if limit \<le> length (acc @ [agentId]) then returnE (acc @ [agentId])
            else candidate_loop region limit rest (acc @ [agentId]))))"

definition findCandidates :: "string \<Rightarrow> int \<Rightarrow> int \<Rightarrow> int list io" where
  "findCandidates region lng lat =
     bindE (getE env) (\<lambda>e.
     bindE (cache_geosearchByRadius (geoKey region) lng lat (radiusMeters e) (candidates e * 4)) (\<lambda>raw.
     candidate_loop region (candidates e) raw []))"

definition bumpAttempts :: "string \<Rightarrow> unit io" where
  "bumpAttempts publicId =
     seqE (cache_incr (attemptsKey publicId)) (cache_expire (attemptsKey publicId) 3600)"

definition offer_payload :: "order_entity \<Rightarrow> core_branch option \<Rightarrow> int \<Rightarrow> json" where
  "offer_payload o' branch expiresAt =
     JObj [(''orderId'', JStr (o_publicId o')),
           (''branch'', JObj [(''id'', jint (o_branchId o')), (''lat'', jcoord (o_branchLat o')),
              (''lng'', jcoord (o_branchLng o')),
              (''name'', JStr (case branch of None \<Rightarrow> [] | Some b \<Rightarrow> cb_name b)),
              (''addressText'', JStr (case branch of None \<Rightarrow> [] | Some b \<Rightarrow> cb_addressText b))]),
           (''dropoff'', JObj [(''lat'', jcoord (o_deliveryLat o')), (''lng'', jcoord (o_deliveryLng o')),
              (''addressText'', JStr (o_deliveryAddressTextSnapshot o'))]),
           (''total'', jint (o_total o')), (''currency'', JStr (o_currency o')),
           (''paymentMethod'', JStr (payment_method_value (o_paymentMethod o'))), (''expiresAt'', jdate expiresAt)]"

datatype assign_result = Offered | Skipped | Exhausted | NoCandidates

text \<open>\<open>Number(attemptsRaw ?? 0)\<close>; \<open>None\<close> is \<open>NaN\<close>, which is not at least the maximum.\<close>

definition attempts_made :: "rtext option \<Rightarrow> int option" where
  "attempts_made raw = (case raw of None \<Rightarrow> Some 0 | Some (Text s) \<Rightarrow> Number s | Some _ \<Rightarrow> None)"

text \<open>From the offer marker on: what the worker that set it does.\<close>

definition broadcast :: "order_entity \<Rightarrow> int list \<Rightarrow> assign_result io" where
  "broadcast o' cs =
     seqE (bumpAttempts (o_publicId o'))
    (bindE (getBranchOrNull (o_branchId o')) (\<lambda>branch.
     bindE now (\<lambda>t.
     bindE (getE env) (\<lambda>e.
     seqE (forE cs (\<lambda>agentId. wsEmit (''agent:'' @ string_of_int agentId) ''task.offered''
             (offer_payload o' branch (t + offerTtlSec e * 1000))))
          (returnE Offered)))))"

definition tryAssign_offer :: "order_entity \<Rightarrow> string \<Rightarrow> assign_result io" where
  "tryAssign_offer o' region =
     bindE (findCandidates region (o_branchLng o') (o_branchLat o')) (\<lambda>cs.
     if cs = [] then seqE (bumpAttempts (o_publicId o')) (returnE NoCandidates)
     else
       bindE (getE env) (\<lambda>e.
       bindE (cache_trySet (offerKey (o_publicId o')) (Text (joinIds cs)) (Some (offerTtlSec e))) (\<lambda>offerSet.
       if \<not> offerSet then returnE Skipped else broadcast o' cs)))"

definition tryAssign :: "order_entity \<Rightarrow> string \<Rightarrow> assign_result io" where
  "tryAssign o' region =
     bindE (cache_exists (offerKey (o_publicId o'))) (\<lambda>offering.
     if offering then returnE Skipped
     else
       bindE (cache_get (attemptsKey (o_publicId o'))) (\<lambda>attemptsRaw.
       bindE (getE env) (\<lambda>e.
       case attempts_made attemptsRaw of
         Some n \<Rightarrow>
           if maxAttempts e \<le> n
           then seqE (wsEmit ''admin:alerts'' ''assignment.exhausted''
                        (JObj [(''orderId'', JStr (o_publicId o')), (''attempts'', jint n)]))
                     (returnE Exhausted)
           else tryAssign_offer o' region
       | None \<Rightarrow> tryAssign_offer o' region)))"

fun tick_loop :: "string \<Rightarrow> order_entity list \<Rightarrow> nat \<times> nat \<Rightarrow> (nat \<times> nat) io" where
  "tick_loop region [] acc = returnE acc"
| "tick_loop region (o' # os) (offered, skipped) =
     bindE (tryCatch (bindE (tryAssign o' region) (\<lambda>r. returnE (r = Offered))) (\<lambda>_. returnE False)) (\<lambda>ok.
     tick_loop region os (if ok then (offered + 1, skipped) else (offered, skipped + 1)))"

definition tickRegion :: "string \<Rightarrow> (nat \<times> nat \<times> nat) io" where
  "tickRegion region =
     bindE (db region) (\<lambda>conn.
     bindE (getE env) (\<lambda>e.
     bindE (findReadyUnassigned (batch e) conn) (\<lambda>os.
     bindE (tick_loop region os (0, 0)) (\<lambda>(offered, skipped).
     returnE (length os, offered, skipped)))))"

subsection \<open>Claims\<close>

text \<open>The two checks that \<open>claim\<close> and \<open>reject\<close> share.\<close>

definition offer_of :: "string \<Rightarrow> int \<Rightarrow> int option list io" where
  "offer_of publicId agentId =
     bindE (cache_get (offerKey publicId)) (\<lambda>offered.
     seqE (throwIf (no_offer offered) OfferNotFoundOrExpiredError)
    (seqE (throwIf (Some agentId \<notin> set (candidateIds offered)) NotInCandidateListError)
          (returnE (candidateIds offered))))"

definition drop_claim :: "string \<Rightarrow> unit io" where
  "drop_claim publicId = bindE (cache_del (claimKey publicId)) (\<lambda>_. returnE ())"

definition drop_offer :: "string \<Rightarrow> unit io" where
  "drop_offer publicId = bindE (cache_del (offerKey publicId)) (\<lambda>_. returnE ())"

definition acquire_claim :: "string \<Rightarrow> int \<Rightarrow> unit io" where
  "acquire_claim publicId agentId =
     bindE (getE env) (\<lambda>e.
     bindE (cache_trySet (claimKey publicId) (Text (string_of_int agentId)) (Some (claimTtlSec e))) (\<lambda>ok.
     throwIf (\<not> ok) OrderAlreadyClaimedError))"

text \<open>The conditional update and its failure.\<close>

definition claim_row_or_throw :: "string \<Rightarrow> int \<Rightarrow> conn \<Rightarrow> order_entity io" where
  "claim_row_or_throw publicId agentId trx =
     bindE (claimReadyOrderForAgent publicId agentId trx) (\<lambda>claimed.
     case claimed of
       None \<Rightarrow> seqE (drop_claim publicId) (throwE OrderNotInReadyStateError)
     | Some u \<Rightarrow> returnE u)"

definition claim_body :: "string \<Rightarrow> int \<Rightarrow> conn \<Rightarrow> order_entity io" where
  "claim_body publicId agentId trx =
     bindE (findOrderByPublicId publicId trx) (\<lambda>found.
     if found = None then seqE (drop_claim publicId) (throwE OrderNotInReadyStateError)
     else claim_row_or_throw publicId agentId trx)"

definition claim_write :: "(conn \<Rightarrow> order_entity io) \<Rightarrow> string \<Rightarrow> string \<Rightarrow> order_entity io" where
  "claim_write body publicId region =
     bindE (db region) (\<lambda>conn.
     transaction conn (body conn) (\<lambda>err. seqE (drop_claim publicId) (throwE err)))"

definition announce_claim :: "string \<Rightarrow> int \<Rightarrow> int option list \<Rightarrow> order_entity \<Rightarrow> json \<Rightarrow> unit io" where
  "announce_claim publicId agentId losers updated taskDto =
     (let statusDto = OrderStatusResponseDTO updated
      in seqE (wsEmit (''agent:'' @ string_of_int agentId) ''task.assigned'' taskDto)
        (seqE (forE losers (\<lambda>loser. wsEmit (''agent:'' @ id_text loser) ''offer.cancelled''
                 (JObj [(''orderId'', JStr publicId), (''reason'', JStr ''claimed_by_other'')])))
        (seqE (wsEmit (''customer:'' @ string_of_int (o_customerId updated)) ''order.status_changed'' statusDto)
              (wsEmit (''branch:'' @ string_of_int (o_branchId updated)) ''order.status_changed'' statusDto))))"

definition claim_finish :: "string \<Rightarrow> int \<Rightarrow> string \<Rightarrow> int option list \<Rightarrow> order_entity \<Rightarrow> json io" where
  "claim_finish publicId agentId region losers updated =
     seqE (markBusy region agentId)
    (bindE (getBranchOrNull (o_branchId updated)) (\<lambda>branch.
     let taskDto = DeliveryTaskResponseDTO updated branch
     in seqE (announce_claim publicId agentId losers updated taskDto)
       (seqE (drop_offer publicId) (returnE taskDto))))"

definition claim :: "string \<Rightarrow> int \<Rightarrow> string \<Rightarrow> json io" where
  "claim publicId agentId region =
     bindE (offer_of publicId agentId) (\<lambda>ids.
     seqE (acquire_claim publicId agentId)
    (bindE (claim_write (claim_body publicId agentId) publicId region) (\<lambda>updated.
     claim_finish publicId agentId region (filter (\<lambda>i. i \<noteq> Some agentId) ids) updated)))"

definition reject :: "string \<Rightarrow> int \<Rightarrow> unit io" where
  "reject publicId agentId =
     bindE (offer_of publicId agentId) (\<lambda>ids.
     let remaining = filter (\<lambda>i. i \<noteq> Some agentId) ids
     in if remaining = [] then drop_offer publicId
        else
          bindE (cache_ttl (offerKey publicId)) (\<lambda>remainingTtl.
          cache_set (offerKey publicId) (Text (joinWith (CHR '','') (map id_text remaining)))
            (Some (max remainingTtl 1))))"

definition adminAssign :: "string \<Rightarrow> int \<Rightarrow> string \<Rightarrow> json io" where
  "adminAssign publicId agentId region =
     seqE (acquire_claim publicId agentId)
    (bindE (claim_write (claim_row_or_throw publicId agentId) publicId region) (\<lambda>updated.
     claim_finish publicId agentId region [] updated))"

subsection \<open>Frames\<close>

context quiet_relation begin

lemma moves_candidate_loop [moves_intro]: "moves R (candidate_loop g n ids acc)"
proof (induction ids arbitrary: acc)
  case (Cons s ids)
  show ?case by (cases "Number s") (auto intro!: moves_intro Cons.IH)
qed (auto intro: moves_intro)

lemma moves_offers [moves_intro]:
  "moves R (findCandidates g x y)" "moves R (bumpAttempts p)" "moves R (offer_of p a)" "moves R (drop_claim p)"
  "moves R (drop_offer p)" "moves R (acquire_claim p a)" "moves R (reject p a)"
  "moves R (announce_claim p a ls u d)"
  unfolding findCandidates_def bumpAttempts_def offer_of_def drop_claim_def drop_offer_def acquire_claim_def
    reject_def announce_claim_def Let_def
  by (intro moves_intro)+

lemma moves_broadcast [moves_intro]: "moves R (broadcast o' cs)"
  unfolding broadcast_def by (intro moves_intro)

lemma moves_tryAssign [moves_intro]: "moves R (tryAssign o' g)"
  unfolding tryAssign_def tryAssign_offer_def by (intro moves_intro)

lemma moves_tick_loop [moves_intro]: "moves R (tick_loop g os acc)"
proof (induction g os acc rule: tick_loop.induct)
  case (2 g o' os i j)
  show ?case unfolding tick_loop.simps by (intro moves_intro 2)
qed (simp only: tick_loop.simps moves_returnE)

lemma moves_tickRegion [moves_intro]: "moves R (tickRegion g)"
  unfolding tickRegion_def by (intro moves_intro)

lemma moves_claim_finish [moves_intro]: "moves R (claim_finish p a g ls u)"
  unfolding claim_finish_def Let_def by (intro moves_intro)

end

context shard_relation begin

lemma moves_claim_bodies [moves_intro]: "moves R (claim_row_or_throw p a c)" "moves R (claim_body p a c)"
  unfolding claim_row_or_throw_def claim_body_def by (intro moves_intro)+

end

context hot_relation begin

lemma moves_claim [moves_intro]: "moves R (claim p a g)" "moves R (adminAssign p a g)"
  unfolding claim_def adminAssign_def claim_write_def by (intro moves_intro)+

end

lemma same_claim_bodies [moves_intro]:
  fixes f :: "tables \<Rightarrow> 'a"
  assumes "\<And>tb os. f (tb\<lparr>orders := os\<rparr>) = f tb"
  shows "moves (per_table (same f)) (claim_row_or_throw p a c)" "moves (per_table (same f)) (claim_body p a c)"
  unfolding claim_row_or_throw_def claim_body_def by (intro moves_intro assms)+

lemmas run_Assignment [run] = offerKey_def claimKey_def attemptsKey_def no_offer_def candidateIds_def id_text_def
  findCandidates_def bumpAttempts_def broadcast_def tryAssign_offer_def tryAssign_def attempts_made_def
  offer_of_def drop_claim_def drop_offer_def acquire_claim_def claim_row_or_throw_def claim_body_def claim_write_def
  announce_claim_def claim_finish_def claim_def reject_def adminAssign_def

subsection \<open>Exclusivity\<close>

text \<open>The rows with the public id that were ready and unassigned, at least one, are assigned to the agent; nothing
  else in any database is different.\<close>

definition claimed_for :: "string \<Rightarrow> string \<Rightarrow> int \<Rightarrow> world \<Rightarrow> world \<Rightarrow> bool" where
  "claimed_for g pid a w w' \<longleftrightarrow>
     (\<exists>x\<in>set (orders (tables_of w (Hot, g))). claimable pid x) \<and>
     tables_of w' = (tables_of w)((Hot, g) := (tables_of w (Hot, g))\<lparr>orders :=
       update_where (claimable pid) (claim_row a (clock w)) (orders (tables_of w (Hot, g)))\<rparr>)"

lemma claimed_not_claimable: "claimed_for g pid a w w' \<Longrightarrow> x \<in> set (orders (tables_of w' (Hot, g))) \<Longrightarrow> \<not> claimable pid x"
  by (auto simp: claimed_for_def update_where_def claim_row_def claimable_def)

lemma claim_row_or_throw_Inr:
  "claim_row_or_throw pid a (Hot, g) w = (Inr u, w') \<Longrightarrow> claimed_for g pid a w w'"
  by (force simp: claim_row_or_throw_def claimReadyOrderForAgent_def claimed_for_def tables_of_def fun_eq_iff Let_def
      returning_def first_row_def filter_eq_Cons_iff set_orders_def
      split: option.splits list.splits elim!: bindE_InrE stmt_InrE seqE_InrE)

lemma claim_body_Inr:
  "claim_body pid a (Hot, g) w = (Inr u, w') \<Longrightarrow> claimed_for g pid a w w'"
  by (auto simp: claim_body_def claimed_for_def split: if_splits elim!: bindE_InrE dest!: claim_row_or_throw_Inr)

lemma claim_write_cases:
  assumes run: "claim_write body pid g w = (r, w')"
    and body: "\<And>v u v'. body (Hot, g) v = (Inr u, v') \<Longrightarrow> claimed_for g pid a v v'"
    and frame: "moves (others_kept (Hot, g)) (body (Hot, g))"
  shows "(\<exists>e. r = Inl e \<and> tables_of w' = tables_of w) \<or> (\<exists>u. r = Inr u \<and> claimed_for g pid a w w')"
  using run unfolding claim_write_def
proof (cases rule: bindE_cases)
  case (thrown e)
  then show ?thesis using getShard_pure [of Hot g w] by (simp add: db_def)
next
  case (went c v)
  let ?h = "\<lambda>err. seqE (drop_claim pid) (throwE err) :: order_entity io"
  from went have tr: "transaction (Hot, g) (body (Hot, g)) ?h w = (r, w')" by auto
  show ?thesis
  proof (cases r)
    case (Inl e)
    with tr have t: "transaction (Hot, g) (body (Hot, g)) ?h w = (Inl e, w')" by simp
    have "moves shards_kept (?h e)" for e by (intro moves_intro)
    then have "tables_of w' = tables_of w" by (rule transaction_atomic [OF frame _ t])
    with Inl show ?thesis by simp
  next
    case (Inr u)
    have "?h e s \<noteq> (Inr y, s')" for e s y s' by auto
    with tr Inr obtain w2 where "body (Hot, g) (tick w) = (Inr u, w2)" and "w' = tick w2"
      by (auto elim: transaction_returned)
    with body [of "tick w" u w2] Inr show ?thesis by (simp add: claimed_for_def)
  qed
qed

text \<open>What every way of assigning an order comes to.\<close>

lemma claim_rest_cases:
  assumes run: "seqE (acquire_claim pid a) (bindE (claim_write body pid g) (claim_finish pid a g ls)) w = (r, w')"
    and body: "\<And>v u v'. body (Hot, g) v = (Inr u, v') \<Longrightarrow> claimed_for g pid a v v'"
    and frame: "moves (others_kept (Hot, g)) (body (Hot, g))"
  shows "(\<exists>e. r = Inl e \<and> tables_of w' = tables_of w) \<or> claimed_for g pid a w w'"
  using run
proof (cases rule: seqE_cases)
  case (thrown e)
  have "moves shards_kept (acquire_claim pid a)" by (intro moves_intro)
  with thrown show ?thesis by (auto dest: shards_keptD intro: tables_shards)
next
  case (went u v)
  have "moves shards_kept (acquire_claim pid a)" "moves same_setting (acquire_claim pid a)" by (intro moves_intro)+
  with went(1) have v: "tables_of v = tables_of w" "clock v = clock w"
    by (auto dest: shards_keptD same_settingD intro: tables_shards)
  from went(2) show ?thesis
  proof (cases rule: bindE_cases)
    case (thrown e)
    with claim_write_cases [OF thrown(1) body frame] v show ?thesis by auto
  next
    case (went u' v')
    have "moves shards_kept (claim_finish pid a g ls u')" by (intro moves_intro)
    with went(2) have "tables_of w' = tables_of v'" by (auto dest: shards_keptD intro: tables_shards)
    with claim_write_cases [OF went(1) body frame] v show ?thesis by (auto simp: claimed_for_def)
  qed
qed

lemma claim_cases:
  assumes "claim pid a g w = (r, w')"
  shows "(\<exists>e. r = Inl e \<and> tables_of w' = tables_of w) \<or>
    claimed_for g pid a w w' \<and> (\<exists>off. live (clock w) (redis w) (offerKey pid) = Some (RString off) \<and>
        Some a \<in> set (candidateIds (Some off)))"
  using assms unfolding claim_def
proof (cases rule: bindE_cases)
  case (thrown e)
  have "moves shards_kept (offer_of pid a)" by (intro moves_intro)
  with thrown show ?thesis by (auto dest: shards_keptD intro: tables_shards)
next
  case (went ids v)
  have "moves shards_kept (offer_of pid a)" "moves same_setting (offer_of pid a)" by (intro moves_intro)+
  with went(1) have v: "tables_of v = tables_of w" "clock v = clock w"
    by (auto dest: shards_keptD same_settingD intro: tables_shards)
  have "\<exists>off. live (clock w) (redis w) (offerKey pid) = Some (RString off) \<and> Some a \<in> set (candidateIds (Some off))"
    using went(1)
    by (auto simp: offer_of_def cache_get_def redisOp_def r_get_def no_offer_def
        split: option.splits sum.splits rvalue.splits elim!: bindE_InrE seqE_InrE throwIf_InrE)
  moreover have "(\<exists>e. r = Inl e \<and> tables_of w' = tables_of v) \<or> claimed_for g pid a v w'"
    using went(2) by (rule claim_rest_cases) (auto dest: claim_body_Inr intro: moves_intro)
  ultimately show ?thesis using v by (auto simp: claimed_for_def)
qed

lemma adminAssign_cases:
  assumes "adminAssign pid a g w = (r, w')"
  shows "(\<exists>e. r = Inl e \<and> tables_of w' = tables_of w) \<or> claimed_for g pid a w w'"
  using assms unfolding adminAssign_def
  by (rule claim_rest_cases) (auto dest: claim_row_or_throw_Inr intro: moves_intro)

text \<open>C5: a claim that returns was made by an agent of the live offer and assigned exactly the ready, unassigned order
  it names to that agent; a claim that fails has written nothing, or has been committed before Redis failed.\<close>

theorem claim_outcome:
  "case claim pid a g w of
     (Inl e, w') \<Rightarrow> tables_of w' = tables_of w \<or> claimed_for g pid a w w'
   | (Inr _, w') \<Rightarrow> claimed_for g pid a w w' \<and>
       (\<exists>off. live (clock w) (redis w) (offerKey pid) = Some (RString off) \<and> Some a \<in> set (candidateIds (Some off)))"
  using claim_cases [of pid a g w] by (cases "claim pid a g w") (auto split: sum.splits)

text \<open>C6: an order has one courier at a time. As long as the orders are as a successful claim left them, no other claim
  and no assignment by an administrator can get the order, whatever Redis holds by then: the conditional
  update excludes them even when the lock has expired or was deleted.\<close>

theorem claim_exclusive:
  assumes "claim pid a g w = (Inr d, w1)" and "orders (tables_of w2 (Hot, g)) = orders (tables_of w1 (Hot, g))"
  shows "(case claim pid a' g w2 of (r, w3) \<Rightarrow> isl r \<and> tables_of w3 = tables_of w2) \<and>
     (case adminAssign pid a' g w2 of (r, w3) \<Rightarrow> isl r \<and> tables_of w3 = tables_of w2)"
proof -
  from claim_cases [OF assms(1)] have "claimed_for g pid a w w1" by auto
  with assms(2) have "\<not> claimed_for g pid a' w2 w3" for w3
    by (auto simp: claimed_for_def [of g pid a' w2] dest: claimed_not_claimable)
  then show ?thesis
    using claim_cases [of pid a' g w2] adminAssign_cases [of pid a' g w2]
    by (cases "claim pid a' g w2"; cases "adminAssign pid a' g w2") fastforce
qed

definition offered_world :: world where
  "offered_world = (with_orders [sample_order\<lparr>o_status := READY\<rparr>] sample_world)\<lparr>redis :=
     [offerKey ''p1'' \<mapsto> (RString (Text (joinIds [11, 12])), Some 2000000)]\<rparr>"

lemmas run_offered [run] = offered_world_def

theorem claim_exclusive_witness:
  "\<exists>w1. isl (fst (claim ''p1'' 12 ''eg'' w1)) \<and> isl (fst (adminAssign ''p1'' 12 ''eg'' w1)) \<and>
     o_deliveryAgentId ` set (orders (tables_of w1 (Hot, ''eg''))) = {Some 11}"
proof -
  define r where "r = claim ''p1'' 11 ''eg'' offered_world"
  have "\<not> isl (fst r)" unfolding r_def
    by (simp add: run splitIds_joinIds r_get_def r_trySet_def r_del_def r_sadd_def redisOp_def cache_defs live_def expired_def)
  then obtain d where d: "fst r = Inr d" using result_Inr by blast
  have a: "o_deliveryAgentId ` set (orders (tables_of (snd r) (Hot, ''eg''))) = {Some 11}" unfolding r_def
    by (simp add: run splitIds_joinIds)
  show ?thesis
    using claim_exclusive [OF run_result [OF r_def d] refl, of 12] a
    by (intro exI [of _ "snd r"]) (simp add: case_prod_beta)
qed

subsection \<open>Offers\<close>

text \<open>Member \<open>s\<close> of the presence sets stands for agent \<open>a\<close>, who is online and is not in the set of busy agents.\<close>

definition idle_member :: "int \<Rightarrow> redis \<Rightarrow> string \<Rightarrow> string \<Rightarrow> int \<Rightarrow> bool" where
  "idle_member t r g s a \<longleftrightarrow> Number s = Some a \<and> live t r (metaKey g a) \<noteq> None \<and>
     (case live t r (busyKey g) of Some (RSet ms) \<Rightarrow> s \<notin> set ms | _ \<Rightarrow> True)"

text \<open>The members of the geo set of region \<open>g\<close> within the radius of a place.\<close>

definition nearby :: "world \<Rightarrow> string \<Rightarrow> int \<Rightarrow> int \<Rightarrow> string set" where
  "nearby w g lng lat =
     (case live (clock w) (redis w) (geoKey g) of
        Some (RGeo ps) \<Rightarrow> {s. \<exists>p. (s, p) \<in> set ps \<and> geoDistance (ext w) (lng, lat) p \<le> radiusMeters (env w)}
      | _ \<Rightarrow> {})"

definition free_agent :: "world \<Rightarrow> string \<Rightarrow> int \<Rightarrow> int \<Rightarrow> int \<Rightarrow> bool" where
  "free_agent w g lng lat a \<longleftrightarrow> (\<exists>s\<in>nearby w g lng lat. idle_member (clock w) (redis w) g s a)"

text \<open>
  Presence and assignment write the ids of agents into both sets with \<open>String(agentId)\<close>. Where the geo set holds
  only such members, a free agent's id is not in the busy set.
\<close>

lemma free_agent_not_busy:
  assumes "free_agent w g lng lat a" and "\<forall>s\<in>nearby w g lng lat. \<exists>i. s = string_of_int i"
    and "live (clock w) (redis w) (busyKey g) = Some (RSet ms)"
  shows "string_of_int a \<notin> set ms"
proof -
  from assms(1) obtain s where s: "s \<in> nearby w g lng lat" "Number s = Some a" "s \<notin> set ms"
    using assms(3) by (auto simp: free_agent_def idle_member_def)
  with assms(2) obtain i where "s = string_of_int i" by blast
  with s show ?thesis by simp
qed

lemma candidate_loop_Inr:
  "candidate_loop g n ids acc w = (Inr cs, w') \<Longrightarrow>
   redis w' = redis w \<and> (length acc < n \<longrightarrow> length cs \<le> n) \<and>
   (\<exists>new. cs = acc @ new \<and> (\<forall>a\<in>set new. \<exists>s\<in>set ids. idle_member (clock w) (redis w) g s a))"
proof (induction ids arbitrary: acc w)
  case (Cons s ids)
  show ?case
  proof (cases "Number s")
    case None
    with Cons.prems show ?thesis by (auto dest!: Cons.IH)
  next
    case (Some a)
    with Cons.prems obtain online w1 where 1: "cache_exists (metaKey g a) w = (Inr online, w1)"
      and r1: "(if \<not> online then candidate_loop g n ids acc
          else bindE (cache_sismember (busyKey g) s) (\<lambda>busy.
            if busy then candidate_loop g n ids acc
            else if n \<le> length (acc @ [a]) then returnE (acc @ [a])
            else candidate_loop g n ids (acc @ [a]))) w1 = (Inr cs, w')" by auto
    from 1 have w1: "redis w1 = redis w" "clock w1 = clock w" and on: "online \<longleftrightarrow> live (clock w) (redis w) (metaKey g a) \<noteq> None"
      by (auto simp: cache_exists_def redisOp_def r_exists_def split: option.splits)
    show ?thesis
    proof (cases online)
      case False
      with r1 w1 show ?thesis by (auto dest!: Cons.IH)
    next
      case True
      with r1 obtain busy w2 where 2: "cache_sismember (busyKey g) s w1 = (Inr busy, w2)"
        and r2: "(if busy then candidate_loop g n ids acc
            else if n \<le> length (acc @ [a]) then returnE (acc @ [a])
            else candidate_loop g n ids (acc @ [a])) w2 = (Inr cs, w')" by auto
      from 2 w1 have w2: "redis w2 = redis w" "clock w2 = clock w"
        and b: "\<not> busy \<Longrightarrow> case live (clock w) (redis w) (busyKey g) of Some (RSet ms) \<Rightarrow> s \<notin> set ms | _ \<Rightarrow> True"
        by (auto simp: cache_sismember_def redisOp_def r_sismember_def split: option.splits rvalue.splits)
      have fr: "\<not> busy \<Longrightarrow> idle_member (clock w) (redis w) g s a"
        using on True b Some by (auto simp: idle_member_def)
      show ?thesis
      proof (cases busy)
        case True
        with r2 w2 show ?thesis by (auto dest!: Cons.IH)
      next
        case False
        show ?thesis
        proof (cases "n \<le> length (acc @ [a])")
          case True
          with r2 \<open>\<not> busy\<close> w2 fr show ?thesis by auto
        next
          case False
          with r2 \<open>\<not> busy\<close> have "candidate_loop g n ids (acc @ [a]) w2 = (Inr cs, w')" by simp
          from Cons.IH [OF this] False w2 fr [OF \<open>\<not> busy\<close>] show ?thesis by auto
        qed
      qed
    qed
  qed
qed auto

lemma geosearch_Inr:
  assumes "cache_geosearchByRadius (geoKey g) lng lat (radiusMeters (env w)) n w = (Inr raw, v)"
  shows "set raw \<subseteq> nearby w g lng lat \<and> redis v = redis w \<and> clock v = clock w \<and> 0 < n"
  using assms
  by (auto simp: cache_geosearchByRadius_def redisOp_def r_geosearch_def nearby_def
      split: option.splits rvalue.splits if_splits dest!: in_set_takeD) blast

lemma findCandidates_Inr:
  assumes "findCandidates g x y w = (Inr cs, w')"
  shows "redis w' = redis w \<and> length cs \<le> candidates (env w) \<and> (\<forall>a\<in>set cs. free_agent w g x y a)"
proof -
  from assms obtain raw v where 1: "cache_geosearchByRadius (geoKey g) x y (radiusMeters (env w)) (candidates (env w) * 4) w = (Inr raw, v)"
    and 2: "candidate_loop g (candidates (env w)) raw [] v = (Inr cs, w')"
    by (auto simp: findCandidates_def)
  from geosearch_Inr [OF 1] candidate_loop_Inr [OF 2] show ?thesis
    by (auto simp: free_agent_def) blast
qed

text \<open>Which programs leave a key of Redis alone.\<close>

definition key_kept :: "string \<Rightarrow> world \<Rightarrow> world \<Rightarrow> bool" where
  "key_kept k w w' \<longleftrightarrow> redis w' k = redis w k"

interpretation key_kept: step_relation "key_kept k" for k
  by unfold_locales (auto simp: key_kept_def)

lemma key_kept_redisOp:
  "(\<And>t r x r'. f t r = Inr (x, r') \<Longrightarrow> r' k = r k) \<Longrightarrow> moves (key_kept k) (redisOp f)"
  by (auto simp: redisOp_def key_kept_def intro!: movesI split: option.splits sum.splits prod.splits)

lemma key_kept_cache [moves_intro]:
  "moves (key_kept k) (cache_get k')"
  "k \<noteq> k' \<Longrightarrow> moves (key_kept k) (cache_set k' v ttl)"
  "k \<noteq> k' \<Longrightarrow> moves (key_kept k) (cache_incr k')"
  "k \<noteq> k' \<Longrightarrow> moves (key_kept k) (cache_expire k' n)"
  unfolding cache_defs
  by (rule key_kept_redisOp,
      auto simp: r_get_def r_set_def r_incr_def r_expire_def split: option.splits rvalue.splits rtext.splits if_splits)+

lemma key_kept_outside [moves_intro]:
  "moves (key_kept k) (core_request_io answer req)" "moves (key_kept k) (wsEmit room ev p)" "moves (key_kept k) now"
  by (auto simp: moves_def key_kept_def core_request_run Let_def wsEmit_def emit_def now_def)

lemma key_kept_getBranchOrNull [moves_intro]:
  "k \<noteq> branchCacheKey i \<Longrightarrow> moves (key_kept k) (getBranchOrNull i)"
  unfolding getBranchOrNull_def getBranch_def envelope_data_def ignoring_def by (intro moves_intro)

lemma keys_differ [simp]:
  "offerKey p \<noteq> branchCacheKey i" "offerKey p \<noteq> attemptsKey q" "offerKey p \<noteq> claimKey q"
  by (simp_all add: offerKey_def branchCacheKey_def attemptsKey_def claimKey_def)

lemma key_kept_broadcast: "moves (key_kept (offerKey p)) (broadcast o' cs)"
  unfolding broadcast_def bumpAttempts_def by (intro moves_intro keys_differ)

lemma offers_sent:
  "forE cs (\<lambda>a. wsEmit (room a) ev p) w = (Inr (), w\<lparr>trace := trace w @ map (\<lambda>a. WsEmit (room a) ev p) cs\<rparr>)"
  by (induction cs arbitrary: w) (simp_all add: wsEmit_def emit_def seqE_def bindE_def)

lemma broadcast_Inr:
  assumes "broadcast o' cs w = (Inr x, w')"
  shows "\<exists>es p. trace w' = es @ map (\<lambda>a. WsEmit (''agent:'' @ string_of_int a) ''task.offered'' p) cs"
  using assms by (auto simp: broadcast_def offers_sent seqE_def)

text \<open>C14: when the worker reports an offer, Redis held no offer for the order, holds one now for the time
  to live, and it reads back as exactly the agents who got the message: between one and the configured number
  of agents, each of them a member of the region's geo set within the radius of the branch whose presence entry
  is live and which the busy set does not hold.\<close>

theorem tryAssign_offered:
  assumes "tryAssign o' g w = (Inr Offered, w')" and "0 < offerTtlSec (env w)"
  shows "live (clock w) (redis w) (offerKey (o_publicId o')) = None \<and>
    (\<exists>cs off es p. cs \<noteq> [] \<and> length cs \<le> candidates (env w) \<and> (\<forall>a\<in>set cs. free_agent w g (o_branchLng o') (o_branchLat o') a) \<and>
       (\<forall>t. clock w \<le> t \<longrightarrow> live t (redis w') (offerKey (o_publicId o')) =
          (if t < clock w + 1000 * offerTtlSec (env w) then Some (RString off) else None)) \<and>
       candidateIds (Some off) = map Some cs \<and>
       trace w' = es @ map (\<lambda>a. WsEmit (''agent:'' @ string_of_int a) ''task.offered'' p) cs)"
proof -
  let ?k = "offerKey (o_publicId o')"
  have tr: "(tick w)\<lparr>redis := redis w\<rparr> = tick w" for w by (cases w) (simp add: tick_def)
  from assms(1) obtain raw v where ex: "live (clock w) (redis w) ?k = None"
    and at: "cache_get (attemptsKey (o_publicId o')) (tick w) = (Inr raw, v)"
    and off: "tryAssign_offer o' g v = (Inr Offered, w')"
    by (auto simp: tryAssign_def cache_exists_def redisOp_def r_exists_def tr
        split: if_splits option.splits elim!: bindE_InrE seqE_InrE)
  from at have v: "redis v = redis w" "env v = env w" "clock v = clock w"
    by (auto simp: cache_get_def redisOp_def r_get_def split: option.splits rvalue.splits)
  from off obtain cs v1 v2 where fc: "findCandidates g (o_branchLng o') (o_branchLat o') v = (Inr cs, v1)"
    and cs: "cs \<noteq> []" and st: "cache_trySet ?k (Text (joinIds cs)) (Some (offerTtlSec (env v1))) v1 = (Inr True, v2)"
    and b: "broadcast o' cs v2 = (Inr Offered, w')"
    by (auto simp: tryAssign_offer_def split: if_splits elim!: bindE_InrE seqE_InrE)
  have "moves same_setting (findCandidates g (o_branchLng o') (o_branchLat o'))" by (intro moves_intro)
  with fc v have v1: "env v1 = env w" "clock v1 = clock w" by (auto dest: same_settingD)
  from st v1 assms(2) have v2: "redis v2 ?k = Some (RString (Text (joinIds cs)), Some (clock w + 1000 * offerTtlSec (env w)))"
    by (auto simp: cache_trySet_def redisOp_def r_trySet_def deadline_def split: option.splits if_splits)
  have "redis w' ?k = redis v2 ?k" using movesD [OF key_kept_broadcast b] by (simp add: key_kept_def)
  with v2 have lv: "\<forall>t. clock w \<le> t \<longrightarrow> live t (redis w') ?k =
      (if t < clock w + 1000 * offerTtlSec (env w) then Some (RString (Text (joinIds cs))) else None)"
    by (simp add: live_def expired_def)
  have rd: "candidateIds (Some (Text (joinIds cs))) = map Some cs"
    using cs by (simp add: candidateIds_def splitIds_joinIds)
  have e: "ext v = ext w" using at by (auto simp: cache_get_def redisOp_def r_get_def split: option.splits rvalue.splits)
  have "nearby v g' x y = nearby w g' x y" for g' x y by (simp only: nearby_def v e)
  with v have "free_agent v = free_agent w" unfolding free_agent_def by simp
  with broadcast_Inr [OF b] findCandidates_Inr [OF fc] v ex lv rd cs show ?thesis by auto
qed

definition couriers_world :: world where
  "couriers_world = sample_world\<lparr>redis := [geoKey ''eg'' \<mapsto> (RGeo [(''11'', (310, 300)), (''12'', (311, 300))], None),
      metaKey ''eg'' 11 \<mapsto> (RHash [], Some 2000000)]\<rparr>"

theorem tryAssign_offered_witness:
  "\<exists>w' cs off. tryAssign (sample_order\<lparr>o_status := READY\<rparr>) ''eg'' couriers_world = (Inr Offered, w') \<and> cs \<noteq> [] \<and>
     live (clock couriers_world) (redis w') (offerKey ''p1'') = Some (RString off) \<and>
     candidateIds (Some off) = map Some cs"
proof -
  define r where "r = tryAssign (sample_order\<lparr>o_status := READY\<rparr>) ''eg'' couriers_world"
  have n: "Number ''11'' = Some 11" "Number ''12'' = Some 12"
    by (simp_all add: Number_def char_digit_def)
  have f: "fst r = Inr Offered"
    unfolding r_def couriers_world_def by (simp add: run n)
  have t: "0 < offerTtlSec (env couriers_world)" by (simp add: couriers_world_def run)
  from tryAssign_offered [OF run_result [OF r_def f] t] obtain cs off where
    "cs \<noteq> []" "candidateIds (Some off) = map Some cs"
    "live (clock couriers_world) (redis (snd r)) (offerKey (o_publicId (sample_order\<lparr>o_status := READY\<rparr>))) = Some (RString off)"
    using t by auto
  moreover have "o_publicId (sample_order\<lparr>o_status := READY\<rparr>) = ''p1''" by (simp add: sample_order_def)
  ultimately show ?thesis using run_result [OF r_def f] by auto
qed

end
