(* ===== verification/Settlement.thy ===== *)
theory Settlement
  imports Assignment
begin

section \<open>Delivering an order: the settlement and the courier's service\<close>

text \<open>
  \<open>src/app/agent/service/settlement.service.ts\<close> and \<open>agent.service.ts\<close>. The settlement reads the order and the
  branch first and writes in one transaction later, so it is given as a read phase, a transaction body and
  what follows the commit. The amounts are computed in integers: the products stay far below \<open>2^53\<close>, where
  the quotient by 10000 of the double arithmetic has the same floor.
\<close>

subsection \<open>settleDelivered\<close>

definition bps :: "int \<Rightarrow> int \<Rightarrow> int" where
  "bps amount share = (amount * share) div 10000"

text \<open>The commission and the earning; without the branch the commission is 0.\<close>

definition settle_amounts :: "order_entity \<Rightarrow> (order_entity \<times> int \<times> int) io" where
  "settle_amounts o' =
     bindE (getBranchOrNull (o_branchId o')) (\<lambda>branch.
     bindE (getE env) (\<lambda>e.
     returnE (o', bps (o_subtotal o') (case branch of None \<Rightarrow> 0 | Some b \<Rightarrow> cb_commissionBps b),
              bps (o_deliveryFee o') (agentEarningShareBps e))))"

text \<open>The read phase: the order, and the amounts computed before the transaction.\<close>

definition settle_read :: "string \<Rightarrow> int \<Rightarrow> conn \<Rightarrow> (order_entity \<times> int \<times> int) io" where
  "settle_read publicId agentId conn =
     bindE (findOrderByPublicId publicId conn) (\<lambda>found.
     case found of
       None \<Rightarrow> throwE OrderNotFoundError
     | Some o' \<Rightarrow>
         seqE (throwIf (o_deliveryAgentId o' \<noteq> Some agentId) NotYourTaskError)
        (seqE (throwIf (o_status o' \<noteq> PICKED)
                (invalidStatusTransitionError (status_value (o_status o')) (status_value DELIVERED)))
         (settle_amounts o')))"

text \<open>The four ledger entries differ in type, method, amount, parties and key.\<close>

definition settle_transaction ::
  "string \<Rightarrow> order_entity \<Rightarrow> transaction_type \<Rightarrow> transaction_method \<Rightarrow> int \<Rightarrow> int \<Rightarrow> int option \<Rightarrow> string \<Rightarrow>
   create_transaction_input" where
  "settle_transaction region o' ty me amount src dst key =
     \<lparr>nt_region = region, nt_orderId = Some (o_id o'), nt_transactionType = ty, nt_method = me,
      nt_providerId = None, nt_providerReferenceId = None, nt_status = TX_SUCCEEDED, nt_amount = amount,
      nt_currency = o_currency o', nt_srcAccId = Some src, nt_dstAccId = dst,
      nt_idempotencyKey = Some (key @ o_publicId o')\<rparr>"

text \<open>The entries of one settlement, in the order they are written.\<close>

definition settle_entries :: "string \<Rightarrow> order_entity \<Rightarrow> int \<Rightarrow> create_transaction_input list" where
  "settle_entries region o' commission =
     (if o_paymentMethod o' = COD
      then [settle_transaction region o' COD_COLLECTION TX_COD (o_total o') (o_customerId o')
              (Some (o_restaurantOwnerId o')) ''cod-collect:''] else []) @
     (if 0 < commission
      then [settle_transaction region o' COMMISSION TX_SYSTEM commission (o_restaurantOwnerId o') None ''commission:'']
      else []) @
     (if 0 < o_serviceFee o'
      then [settle_transaction region o' SERVICE_FEE TX_SYSTEM (o_serviceFee o') (o_restaurantOwnerId o') None
              ''service-fee:''] else []) @
     (if 0 < o_deliveryFee o'
      then [settle_transaction region o' DELIVERY_FEE TX_SYSTEM (o_deliveryFee o') (o_restaurantOwnerId o') None
              ''delivery-fee:''] else [])"

definition book :: "conn \<Rightarrow> create_transaction_input \<Rightarrow> unit io" where
  "book trx n = bindE (createTransactionIdempotent n trx) (\<lambda>_. returnE ())"

definition delivered_payload :: "order_entity \<Rightarrow> int \<Rightarrow> int \<Rightarrow> int \<Rightarrow> json" where
  "delivered_payload updated agentId commission t =
     JObj [(''orderId'', JStr (o_publicId updated)), (''region'', JStr (o_region updated)),
           (''restaurantId'', jint (o_restaurantId updated)), (''branchId'', jint (o_branchId updated)),
           (''customerId'', jint (o_customerId updated)), (''deliveryAgentId'', jint agentId),
           (''total'', jint (o_total updated)), (''subtotal'', jint (o_subtotal updated)),
           (''deliveryFee'', jint (o_deliveryFee updated)), (''commission'', jint commission),
           (''currency'', JStr (o_currency updated)),
           (''paymentMethod'', JStr (payment_method_value (o_paymentMethod updated))),
           (''deliveredAt'', jdate (case o_deliveredAt updated of None \<Rightarrow> t | Some d \<Rightarrow> d))]"

definition settle_body :: "string \<Rightarrow> int \<Rightarrow> order_entity \<times> int \<times> int \<Rightarrow> conn \<Rightarrow> order_entity io" where
  "settle_body region agentId plan trx =
     (case plan of (o', commission, earning) \<Rightarrow>
        let net = o_subtotal o' - commission
        in seqE (updateOrderCommission (o_publicId o') commission trx)
          (seqE (forE (settle_entries region o' commission) (book trx))
          (seqE (whenE (net \<noteq> 0)
                   (bindE (upsertIncrement (o_restaurantId o') region (o_currency o') net trx) (\<lambda>_. returnE ())))
          (seqE (insertEarning region agentId (o_id o') earning (o_currency o') trx)
          (bindE (updateOrderStatus (o_publicId o') DELIVERED (Some DeliveredAt) trx) (\<lambda>updated.
           bindE now (\<lambda>t.
           seqE (insertOutboxEvent trx (order_event (o_publicId updated) ORDER_DELIVERED
                   (delivered_payload updated agentId commission t)))
                (returnE updated))))))))"

definition settle_finish :: "string \<Rightarrow> string \<Rightarrow> int \<Rightarrow> order_entity \<Rightarrow> order_entity io" where
  "settle_finish publicId region agentId updated =
     (let statusDto = OrderStatusResponseDTO updated
      in seqE (clearBusy region agentId)
        (seqE (drop_claim publicId)
        (seqE (wsEmit (''customer:'' @ string_of_int (o_customerId updated)) ''order.status_changed'' statusDto)
        (seqE (wsEmit (''branch:'' @ string_of_int (o_branchId updated)) ''order.status_changed'' statusDto)
              (returnE updated)))))"

definition settle_write :: "string \<Rightarrow> string \<Rightarrow> int \<Rightarrow> order_entity \<times> int \<times> int \<Rightarrow> conn \<Rightarrow> order_entity io" where
  "settle_write publicId region agentId plan conn =
     bindE (transaction conn (settle_body region agentId plan conn) throwE) (settle_finish publicId region agentId)"

definition settleDelivered :: "string \<Rightarrow> int \<Rightarrow> string \<Rightarrow> order_entity io" where
  "settleDelivered publicId agentId region =
     bindE (db region) (\<lambda>conn.
     bindE (settle_read publicId agentId conn) (\<lambda>plan.
     settle_write publicId region agentId plan conn))"

subsection \<open>AgentService\<close>

definition accept :: "string \<Rightarrow> int \<Rightarrow> string \<Rightarrow> json io" where
  "accept publicId agentId region = claim publicId agentId region"

definition pick_read :: "string \<Rightarrow> int \<Rightarrow> conn \<Rightarrow> unit io" where
  "pick_read publicId agentId conn =
     bindE (findOrderByPublicId publicId conn) (\<lambda>found.
     case found of
       None \<Rightarrow> throwE OrderNotFoundError
     | Some o' \<Rightarrow>
         seqE (throwIf (o_deliveryAgentId o' \<noteq> Some agentId) NotYourTaskError)
              (throwIf (o_status o' \<noteq> ASSIGNED) OrderNotInAssignedStateError))"

definition pick_write :: "string \<Rightarrow> conn \<Rightarrow> order_entity io" where
  "pick_write publicId conn =
     bindE (transaction conn (updateOrderStatus publicId PICKED (Some PickedAt) conn) throwE) (\<lambda>updated.
     let statusDto = OrderStatusResponseDTO updated
     in seqE (wsEmit (''customer:'' @ string_of_int (o_customerId updated)) ''order.status_changed'' statusDto)
       (seqE (wsEmit (''branch:'' @ string_of_int (o_branchId updated)) ''order.status_changed'' statusDto)
             (returnE updated)))"

text \<open>\<open>transition\<close>: the target is the text of the request.\<close>

definition transition :: "string \<Rightarrow> int \<Rightarrow> string \<Rightarrow> string \<Rightarrow> json io" where
  "transition publicId agentId region target =
     bindE (if target = status_value DELIVERED then settleDelivered publicId agentId region
            else if target \<noteq> status_value PICKED then throwE InvalidAgentTransitionError
            else
              bindE (db region) (\<lambda>conn.
              seqE (pick_read publicId agentId conn) (pick_write publicId conn))) (\<lambda>updated.
     bindE (getBranchOrNull (o_branchId updated)) (\<lambda>branch.
     returnE (DeliveryTaskResponseDTO updated branch)))"

definition TASK_LIST_LIMIT :: nat where
  "TASK_LIST_LIMIT = 50"

definition listTasks :: "int \<Rightarrow> string \<Rightarrow> string option \<Rightarrow> json list io" where
  "listTasks agentId region statusFilter =
     bindE (db region) (\<lambda>conn.
     let statuses = (case statusFilter of
                       None \<Rightarrow> [status_value ASSIGNED, status_value PICKED]
                     | Some s \<Rightarrow> if s = [] then [status_value ASSIGNED, status_value PICKED] else [s])
     in bindE (findAgentTasks agentId (Some statuses) TASK_LIST_LIMIT conn) (\<lambda>os.
        bindE (getBranchesByIds (map o_branchId os) None) (\<lambda>branchMap.
        returnE (map (\<lambda>o'. DeliveryTaskResponseDTO o' (branchMap (o_branchId o'))) os))))"

definition agent_earnings :: "int \<Rightarrow> string \<Rightarrow> int \<Rightarrow> int \<Rightarrow> json io" where
  "agent_earnings agentId region frm to =
     bindE (db region) (\<lambda>conn.
     bindE (listByAgent agentId frm to 100 conn) (\<lambda>items.
     bindE (sumByAgent agentId frm to conn) (\<lambda>earned.
     returnE (AgentEarningsResponseDTO frm to items earned))))"

subsection \<open>Frames\<close>

context quiet_relation begin

lemma moves_settle_reads [moves_intro]: "moves R (settle_read p a c)" "moves R (pick_read p a c)"
  unfolding settle_read_def settle_amounts_def pick_read_def by (intro moves_intro)+

lemma moves_settle_finish [moves_intro]: "moves R (settle_finish p g a u)"
  unfolding settle_finish_def Let_def by (intro moves_intro)

lemma moves_agent_reads [moves_intro]: "moves R (listTasks a g st)" "moves R (agent_earnings a g f t)"
  unfolding listTasks_def agent_earnings_def Let_def by (intro moves_intro)+

end

context shard_relation begin

lemma moves_book [moves_intro]: "moves R (book c n)"
  unfolding book_def by (intro moves_intro)

lemma moves_settle_body [moves_intro]: "moves R (settle_body g a plan c)"
  unfolding settle_body_def Let_def by (intro moves_intro)

lemma moves_settle_writes [moves_intro]: "moves R (settle_write p g a plan c)" "moves R (pick_write p c)"
  unfolding settle_write_def pick_write_def Let_def by (intro moves_intro)+

end

context hot_relation begin

lemma moves_settleDelivered [moves_intro]: "moves R (settleDelivered p a g)"
  unfolding settleDelivered_def by (intro moves_intro)

lemma moves_transition [moves_intro]: "moves R (transition p a g t)"
  unfolding transition_def by (intro moves_intro)

end

lemmas run_Settlement [run] = bps_def settle_amounts_def settle_read_def settle_transaction_def settle_entries_def book_def settle_body_def
  settle_finish_def settle_write_def settleDelivered_def pick_read_def pick_write_def transition_def order_event_def

subsection \<open>What the statements of the settlement write\<close>

lemma stmt_tables:
  assumes "stmt c f w = (Inr x, w')"
  obtains sh where "f (clock w) (shards w c) = Inr (x, sh)" and "tables_of w' = (tables_of w)(c := tabs sh)"
    and "clock w' = clock w" and "env w' = env w"
  using assms by (auto simp: tables_of_def fun_eq_iff elim!: stmt_InrE)

text \<open>New ledger rows for the inputs whose key is not in the table yet.\<close>

definition fresh_entries :: "create_transaction_input list \<Rightarrow> transaction_entity list \<Rightarrow> create_transaction_input list" where
  "fresh_entries ns rows = filter (\<lambda>n. nt_idempotencyKey n \<notin> t_idempotencyKey ` set rows) ns"

definition booked :: "int \<Rightarrow> create_transaction_input list \<Rightarrow> transaction_entity list \<Rightarrow> transaction_entity list \<Rightarrow> bool" where
  "booked t ns rows rows' \<longleftrightarrow>
     (\<exists>ids. length ids = length (fresh_entries ns rows) \<and>
        rows' = rows @ map2 (\<lambda>i n. transaction_row i t n) ids (fresh_entries ns rows))"

lemma createTransactionIdempotent_Inr:
  assumes "createTransactionIdempotent n c w = (Inr u, w')" and "nt_idempotencyKey n \<noteq> None"
  shows "clock w' = clock w \<and> env w' = env w \<and> (\<exists>rows. booked (clock w) [n] (transactions (tables_of w c)) rows \<and>
     tables_of w' = (tables_of w)(c := (tables_of w c)\<lparr>transactions := rows\<rparr>))"
  using assms(1) unfolding createTransactionIdempotent_def
proof (rule stmt_tables)
  fix sh
  let ?q = "q_transactions (sqs (shards w c)) + 1" let ?rows = "transactions (tables_of w c)"
  let ?x = "transaction_row ?q (clock w) n"
  assume f: "(if \<not> int4 (nt_amount n) then Inl int4_error
      else let newId = q_transactions (sqs (shards w c)) + 1;
            (out, rows) = insert_or_skip t_idempotencyKey (transaction_row newId (clock w) n) (transactions (tabs (shards w c)))
        in Inr (out, set_transactions rows newId (shards w c))) = Inr (u, sh)"
    and t: "tables_of w' = (tables_of w)(c := tabs sh)" and s: "clock w' = clock w" "env w' = env w"
  have k: "t_idempotencyKey ?x = nt_idempotencyKey n" by (simp add: transaction_row_def)
  have sh: "tabs sh = (tables_of w c)\<lparr>transactions := snd (insert_or_skip t_idempotencyKey ?x ?rows)\<rparr>"
    using f by (auto simp: Let_def set_transactions_def tables_of_def split: if_splits prod.splits)
  have "booked (clock w) [n] ?rows (snd (insert_or_skip t_idempotencyKey ?x ?rows))"
  proof (cases rule: ledger.ins_cases [of ?x ?rows])
    case 1
    then have "fresh_entries [n] ?rows = []" using k by (simp add: fresh_entries_def)
    with 1 show ?thesis by (simp add: booked_def)
  next
    case 2
    then have "fresh_entries [n] ?rows = [n]" using k assms(2) by (auto simp: fresh_entries_def)
    with 2 show ?thesis unfolding booked_def by (intro exI [of _ "[?q]"]) simp
  qed
  with t s sh show ?thesis by auto
qed

lemma booked_append:
  assumes "booked t [n] rows rows1" and "booked t ns rows1 rows2"
    and "\<forall>m\<in>set ns. nt_idempotencyKey m \<noteq> nt_idempotencyKey n"
  shows "booked t (n # ns) rows rows2"
proof -
  from assms(1) obtain ids where i: "length ids = length (fresh_entries [n] rows)"
    "rows1 = rows @ map2 (\<lambda>i n. transaction_row i t n) ids (fresh_entries [n] rows)" by (auto simp: booked_def)
  from assms(2) obtain js where j: "length js = length (fresh_entries ns rows1)"
    "rows2 = rows1 @ map2 (\<lambda>i n. transaction_row i t n) js (fresh_entries ns rows1)" by (auto simp: booked_def)
  have "t_idempotencyKey ` set rows1 \<subseteq> insert (nt_idempotencyKey n) (t_idempotencyKey ` set rows)"
    and "t_idempotencyKey ` set rows \<subseteq> t_idempotencyKey ` set rows1"
    using i by (auto simp: fresh_entries_def transaction_row_def dest!: set_zip_rightD split: if_splits)
  then have "fresh_entries ns rows1 = fresh_entries ns rows"
    using assms(3) unfolding fresh_entries_def by (intro filter_cong) auto
  moreover have "fresh_entries (n # ns) rows = fresh_entries [n] rows @ fresh_entries ns rows"
    by (simp add: fresh_entries_def)
  ultimately show ?thesis
    using i j unfolding booked_def by (intro exI [of _ "ids @ js"]) (simp add: zip_append)
qed

lemma book_loop_Inr:
  assumes "forE ns (book c) w = (Inr u, w')"
    and "distinct (map nt_idempotencyKey ns)" and "None \<notin> nt_idempotencyKey ` set ns"
  shows "clock w' = clock w \<and> env w' = env w \<and> (\<exists>rows. booked (clock w) ns (transactions (tables_of w c)) rows \<and>
     tables_of w' = (tables_of w)(c := (tables_of w c)\<lparr>transactions := rows\<rparr>))"
  using assms
proof (induction ns arbitrary: w)
  case Nil
  then show ?case
    by (auto simp: booked_def fresh_entries_def fun_eq_iff intro!: exI [of _ "transactions (tables_of w c)"])
next
  case (Cons n ns)
  from Cons.prems obtain w1 where b: "book c n w = (Inr (), w1)" and 2: "forE ns (book c) w1 = (Inr u, w')"
    by auto
  from b obtain v where 1: "createTransactionIdempotent n c w = (Inr v, w1)" by (auto simp: book_def)
  from createTransactionIdempotent_Inr [OF 1] Cons.prems obtain r1
    where b1: "booked (clock w) [n] (transactions (tables_of w c)) r1" "clock w1 = clock w" "env w1 = env w"
      "tables_of w1 = (tables_of w)(c := (tables_of w c)\<lparr>transactions := r1\<rparr>)" by force
  from Cons.IH [OF 2] Cons.prems obtain r2
    where b2: "booked (clock w1) ns (transactions (tables_of w1 c)) r2" "clock w' = clock w1" "env w' = env w1"
      "tables_of w' = (tables_of w1)(c := (tables_of w1 c)\<lparr>transactions := r2\<rparr>)" by force
  have "booked (clock w) (n # ns) (transactions (tables_of w c)) r2"
    by (rule booked_append [OF b1(1)]) (use b1 b2 Cons.prems in \<open>auto simp: image_iff\<close>)
  with b1 b2 show ?case by auto
qed

definition credit :: "int \<Rightarrow> string \<Rightarrow> string \<Rightarrow> int \<Rightarrow> int \<Rightarrow> restaurant_balance_entity list \<Rightarrow> restaurant_balance_entity list" where
  "credit restaurantId region currency delta t bs =
     (if delta = 0 then bs
      else if List.find (balance_at restaurantId currency) bs = None
      then bs @ [\<lparr>b_restaurantId = restaurantId, b_region = region, b_currency = currency, b_balance = delta, b_updatedAt = t\<rparr>]
      else update_where (balance_at restaurantId currency) (add_balance delta t) bs)"

lemma upsertIncrement_when_Inr:
  assumes "whenE (d \<noteq> 0) (bindE (upsertIncrement r g cur d c) (\<lambda>_. returnE ())) w = (Inr u, w')"
  shows "clock w' = clock w \<and> env w' = env w \<and>
     tables_of w' = (tables_of w)(c := (tables_of w c)\<lparr>balances := credit r g cur d (clock w) (balances (tables_of w c))\<rparr>)"
proof (cases "d = 0")
  case True
  with assms show ?thesis by (auto simp: credit_def fun_eq_iff)
next
  case False
  with assms obtain b where "upsertIncrement r g cur d c w = (Inr b, w')" by auto
  then show ?thesis unfolding upsertIncrement_def
    by (rule stmt_tables) (auto simp: credit_def False Let_def set_balances_def tables_of_def
        split: if_splits option.splits)
qed

definition earning_added :: "int \<Rightarrow> agent_earning_entity list \<Rightarrow> agent_earning_entity list \<Rightarrow> (int \<Rightarrow> agent_earning_entity) \<Rightarrow> bool" where
  "earning_added orderId rows rows' row \<longleftrightarrow>
     (if orderId \<in> e_orderId ` set rows then rows' = rows else \<exists>i. rows' = rows @ [row i])"

lemma insertEarning_Inr:
  assumes "insertEarning g a oid amount cur c w = (Inr u, w')"
  shows "clock w' = clock w \<and> env w' = env w \<and> (\<exists>rows. earning_added oid (earnings (tables_of w c)) rows
      (\<lambda>i. earning_row i (clock w) g a oid amount cur) \<and>
     tables_of w' = (tables_of w)(c := (tables_of w c)\<lparr>earnings := rows\<rparr>))"
  using assms unfolding insertEarning_def
proof (rule stmt_tables)
  fix sh
  let ?rows = "earnings (tabs (shards w c))"
  let ?x = "earning_row (q_earnings (sqs (shards w c)) + 1) (clock w) g a oid amount cur"
  assume f: "(if \<not> int4 amount then Inl int4_error
     else let newId = q_earnings (sqs (shards w c)) + 1;
            (out, rows) = insert_or_skip earning_key (earning_row newId (clock w) g a oid amount cur) ?rows
        in Inr (out, (shards w c)\<lparr>tabs := (tabs (shards w c))\<lparr>earnings := rows\<rparr>,
              sqs := (sqs (shards w c))\<lparr>q_earnings := newId\<rparr>\<rparr>)) = Inr (u, sh)"
    and t: "tables_of w' = (tables_of w)(c := tabs sh)" and s: "clock w' = clock w" "env w' = env w"
  have sh: "tabs sh = (tables_of w c)\<lparr>earnings := snd (insert_or_skip earning_key ?x ?rows)\<rparr>"
    using f by (auto simp: Let_def tables_of_def split: if_splits prod.splits)
  have k: "earning_key ?x \<in> earning_key ` set ?rows \<longleftrightarrow> oid \<in> e_orderId ` set ?rows"
    by (auto simp: earning_key_def earning_row_def image_iff)
  have "earning_added oid ?rows (snd (insert_or_skip earning_key ?x ?rows)) (\<lambda>i. earning_row i (clock w) g a oid amount cur)"
    using k by (cases rule: earning_table.ins_cases [of ?x ?rows]) (auto simp: earning_added_def earning_key_def)
  with t s sh show ?thesis by (auto simp: tables_of_def)
qed

lemma updateOrderCommission_Inr:
  assumes "updateOrderCommission p m c w = (Inr u, w')"
  shows "clock w' = clock w \<and> env w' = env w \<and> tables_of w' = (tables_of w)(c := (tables_of w c)\<lparr>orders :=
      update_where (\<lambda>o'. o_publicId o' = p) (\<lambda>o'. o'\<lparr>o_commission := m, o_updatedAt := clock w\<rparr>) (orders (tables_of w c))\<rparr>)"
  using assms unfolding updateOrderCommission_def
  by (rule stmt_tables) (auto simp: set_orders_def tables_of_def split: if_splits)

text \<open>
  The contract of the settlement of an order read as \<open>o'\<close>. Commission and earning are those of the plan; the
  ledger gets the entries whose key is new, the balance of the restaurant the net amount, the courier one
  earning per order, and the rows of the order become delivered.
\<close>

definition delivered_row :: "int \<Rightarrow> int \<Rightarrow> order_entity \<Rightarrow> order_entity" where
  "delivered_row commission t x = status_row DELIVERED (Some DeliveredAt) t (x\<lparr>o_commission := commission, o_updatedAt := t\<rparr>)"

definition settled :: "string \<Rightarrow> int \<Rightarrow> order_entity \<times> int \<times> int \<Rightarrow> world \<Rightarrow> world \<Rightarrow> bool" where
  "settled g a plan w w' \<longleftrightarrow>
     (case plan of (o', commission, earning) \<Rightarrow>
       (\<exists>tx ea ev. let tb = tables_of w (Hot, g); t = clock w in
          booked t (settle_entries g o' commission) (transactions tb) tx \<and>
          earning_added (o_id o') (earnings tb) ea (\<lambda>i. earning_row i t g a (o_id o') earning (o_currency o')) \<and>
          x_eventType ev = ORDER_DELIVERED \<and> x_aggregateId ev = o_publicId o' \<and> x_dispatchedAt ev = None \<and>
          (\<exists>x\<in>set (orders tb). o_publicId x = o_publicId o') \<and>
          tables_of w' = (tables_of w)((Hot, g) := tb
            \<lparr>transactions := tx,
             balances := credit (o_restaurantId o') g (o_currency o') (o_subtotal o' - commission) t (balances tb),
             earnings := ea,
             orders := update_where (\<lambda>x. o_publicId x = o_publicId o') (delivered_row commission t) (orders tb),
             outbox := outbox tb @ [ev]\<rparr>)))"

lemma settle_entries_keys:
  "distinct (map nt_idempotencyKey (settle_entries g o' m))" "None \<notin> nt_idempotencyKey ` set (settle_entries g o' m)"
  by (auto simp: settle_entries_def settle_transaction_def)

lemma update_where_twice:
  "(\<And>x. p x \<Longrightarrow> p (f x)) \<Longrightarrow> update_where p h (update_where p f xs) = update_where p (\<lambda>x. h (f x)) xs"
  by (simp add: update_where_def)

lemma settle_body_Inr:
  assumes "settle_body g a plan (Hot, g) w = (Inr u, w')"
  shows "settled g a plan w w' \<and> clock w' = clock w"
proof -
  obtain o' m e where plan: "plan = (o', m, e)" by (cases plan)
  let ?c = "(Hot, g)" let ?p = "\<lambda>x. o_publicId x = o_publicId o'"
  from assms plan obtain w1 w2 w3 w4 w5 v1 where
    1: "updateOrderCommission (o_publicId o') m ?c w = (Inr (), w1)"
    and 2: "forE (settle_entries g o' m) (book ?c) w1 = (Inr (), w2)"
    and 3: "whenE (o_subtotal o' - m \<noteq> 0)
        (bindE (upsertIncrement (o_restaurantId o') g (o_currency o') (o_subtotal o' - m) ?c) (\<lambda>_. returnE ())) w2 = (Inr (), w3)"
    and 4: "insertEarning g a (o_id o') e (o_currency o') ?c w3 = (Inr v1, w4)"
    and 5: "updateOrderStatus (o_publicId o') DELIVERED (Some DeliveredAt) ?c w4 = (Inr u, w5)"
    and 6: "insertOutboxEvent ?c (order_event (o_publicId u) ORDER_DELIVERED (delivered_payload u a m (clock w5))) w5 = (Inr (), w')"
    by (auto simp: settle_body_def Let_def now_def)
  note t1 = updateOrderCommission_Inr [OF 1]
  from book_loop_Inr [OF 2 settle_entries_keys] obtain tx where
    t2: "clock w2 = clock w1" "booked (clock w1) (settle_entries g o' m) (transactions (tables_of w1 ?c)) tx"
      "tables_of w2 = (tables_of w1)(?c := (tables_of w1 ?c)\<lparr>transactions := tx\<rparr>)" by auto
  note t3 = upsertIncrement_when_Inr [OF 3]
  from insertEarning_Inr [OF 4] obtain ea where
    t4: "clock w4 = clock w3" "earning_added (o_id o') (earnings (tables_of w3 ?c)) ea
        (\<lambda>i. earning_row i (clock w3) g a (o_id o') e (o_currency o'))"
      "tables_of w4 = (tables_of w3)(?c := (tables_of w3 ?c)\<lparr>earnings := ea\<rparr>)" by auto
  from 5 obtain x where x: "List.find ?p (orders (tables_of w4 ?c)) = Some x"
    and u: "u = status_row DELIVERED (Some DeliveredAt) (clock w4) x"
    and t5: "tables_of w5 = (tables_of w4)(?c := (tables_of w4 ?c)\<lparr>orders :=
           update_where ?p (status_row DELIVERED (Some DeliveredAt) (clock w4)) (orders (tables_of w4 ?c))\<rparr>)" "clock w5 = clock w4"
    by (rule updateOrderStatus_InrE)
  from 6 obtain ev where ev: "x_eventType ev = ORDER_DELIVERED" "x_aggregateId ev = o_publicId u" "x_dispatchedAt ev = None"
    and t6: "tables_of w' = (tables_of w5)(?c := (tables_of w5 ?c)\<lparr>outbox := outbox (tables_of w5 ?c) @ [ev]\<rparr>)" "clock w' = clock w5"
    by (rule insertOutboxEvent_InrE) (auto simp: order_event_def)
  have pu: "o_publicId u = o_publicId o'" using x u by (auto dest: find_Some_mem)
  have mem: "\<exists>x\<in>set (orders (tables_of w ?c)). ?p x"
    using x t1 t2 t3 t4 by (auto dest!: find_Some_mem set_update_where split: if_splits)
  have clk: "clock w1 = clock w" "clock w2 = clock w" "clock w3 = clock w" "clock w4 = clock w" "clock w' = clock w"
    using t1 t2 t3 t4 t5 t6 by auto
  have "tables_of w' = (tables_of w)(?c := (tables_of w ?c)
            \<lparr>transactions := tx,
             balances := credit (o_restaurantId o') g (o_currency o') (o_subtotal o' - m) (clock w) (balances (tables_of w ?c)),
             earnings := ea,
             orders := update_where ?p (delivered_row m (clock w)) (orders (tables_of w ?c)),
             outbox := outbox (tables_of w ?c) @ [ev]\<rparr>)"
    using t1 t2(3) t3 t4(3) t5 t6 clk
    by (simp add: update_where_twice delivered_row_def [abs_def])
  moreover have "booked (clock w) (settle_entries g o' m) (transactions (tables_of w ?c)) tx"
    using t2 t1 clk by simp
  moreover have "earning_added (o_id o') (earnings (tables_of w ?c)) ea
      (\<lambda>i. earning_row i (clock w) g a (o_id o') e (o_currency o'))"
    using t4 t3 t2 t1 clk by simp
  ultimately show ?thesis
    using plan ev pu mem clk unfolding settled_def Let_def by auto
qed

text \<open>What the read phase guarantees about the plan of a settlement.\<close>

definition settle_plan :: "string \<Rightarrow> string \<Rightarrow> int \<Rightarrow> world \<Rightarrow> order_entity \<times> int \<times> int \<Rightarrow> bool" where
  "settle_plan g pid a w plan \<longleftrightarrow>
     (case plan of (o', commission, earning) \<Rightarrow>
        List.find (\<lambda>x. o_publicId x = pid) (orders (tables_of w (Hot, g))) = Some o' \<and>
        o_deliveryAgentId o' = Some a \<and> o_status o' = PICKED \<and>
        commission = bps (o_subtotal o')
          (case getBranchOrNull (o_branchId o') (tick w) of (Inr (Some b), _) \<Rightarrow> cb_commissionBps b | _ \<Rightarrow> 0) \<and>
        earning = bps (o_deliveryFee o') (agentEarningShareBps (env w)))"

lemma settle_read_Inr:
  assumes "settle_read pid a (Hot, g) w = (Inr plan, w')"
  shows "settle_plan g pid a w plan \<and> tables_of w' = tables_of w \<and> clock w' = clock w \<and> env w' = env w"
proof -
  have "moves shards_kept (settle_read pid a (Hot, g))" "moves same_setting (settle_read pid a (Hot, g))"
    by (intro moves_intro)+
  with assms have k: "tables_of w' = tables_of w" "clock w' = clock w" "env w' = env w"
    by (auto dest: shards_keptD same_settingD intro: tables_shards)
  from assms obtain o' where f: "List.find (\<lambda>x. o_publicId x = pid) (orders (tables_of w (Hot, g))) = Some o'"
    and o': "o_deliveryAgentId o' = Some a" "o_status o' = PICKED" and r: "settle_amounts o' (tick w) = (Inr plan, w')"
    by (auto simp: settle_read_def tables_of_def split: option.splits)
  from r obtain b w2 where b: "getBranchOrNull (o_branchId o') (tick w) = (Inr b, w2)"
    and p: "plan = (o', bps (o_subtotal o') (case b of None \<Rightarrow> 0 | Some b \<Rightarrow> cb_commissionBps b),
        bps (o_deliveryFee o') (agentEarningShareBps (env w2)))" by (auto simp: settle_amounts_def)
  have "moves same_setting (getBranchOrNull (o_branchId o'))" by (intro moves_intro)
  with b have "env w2 = env w" by (auto dest: same_settingD)
  with f o' b p k show ?thesis by (cases b) (auto simp: settle_plan_def)
qed

lemma settle_write_cases:
  assumes "settle_write pid g a plan (Hot, g) w = (r, w')"
  shows "(\<exists>e. r = Inl e \<and> tables_of w' = tables_of w) \<or> settled g a plan w w'"
  using assms unfolding settle_write_def
proof (cases rule: bindE_cases)
  case (thrown e)
  have "moves (others_kept (Hot, g)) (settle_body g a plan (Hot, g))" by (intro moves_intro)
  with thrown(1) have "tables_of w' = tables_of w" by (rule transaction_throwE_cases) auto
  with thrown show ?thesis by simp
next
  case (went u v)
  from went(1) obtain w2 where "settle_body g a plan (Hot, g) (tick w) = (Inr u, w2)" "v = tick w2"
    by (rule transaction_Inr)
  with settle_body_Inr [of g a plan "tick w" u w2] have "settled g a plan w v" by (simp add: settled_def)
  moreover have "moves shards_kept (settle_finish pid g a u)" by (intro moves_intro)
  with went(2) have "tables_of w' = tables_of v" by (auto dest: shards_keptD intro: tables_shards)
  ultimately show ?thesis by (simp add: settled_def)
qed

lemma settle_write_Inr:
  "settle_write pid g a plan (Hot, g) w = (Inr u, w') \<Longrightarrow> settled g a plan w w' \<and> clock w' = clock w"
  using settle_write_cases [of pid g a plan w "Inr u" w'] same_settingD [OF same_setting.moves_settle_writes(1)]
  by auto

lemma settleDelivered_cases:
  assumes "settleDelivered pid a g w = (r, w')"
  shows "(\<exists>e. r = Inl e \<and> tables_of w' = tables_of w) \<or> (\<exists>plan. settle_plan g pid a w plan \<and> settled g a plan w w')"
  using assms unfolding settleDelivered_def
proof (cases rule: bindE_cases)
  case (thrown e)
  then show ?thesis using getShard_pure [of Hot g w] by (simp add: db_def)
next
  case (went c v)
  then have c: "c = (Hot, g)" "v = w" by auto
  from went(2) show ?thesis
  proof (cases rule: bindE_cases)
    case (thrown e)
    have "moves shards_kept (settle_read pid a c)" by (intro moves_intro)
    with thrown c show ?thesis by (auto dest: shards_keptD intro: tables_shards)
  next
    case (went plan v1)
    from settle_read_Inr [of pid a g w plan v1] went(1) c
    have "settle_plan g pid a w plan" "tables_of v1 = tables_of w" "clock v1 = clock w" by auto
    with settle_write_cases [of pid g a plan v1 r w'] went(2) c show ?thesis by (auto simp: settled_def)
  qed
qed

text \<open>C3: the settlement is all or nothing. When it returns, the order was with this agent and picked, and in one
  commit the order became delivered with its commission, the ledger got its new entries, the restaurant its
  net amount, the courier the share of the delivery fee, and the outbox one \<open>order.delivered\<close>; when
  it fails, no table is different, or all of that was committed and only Redis failed afterwards.\<close>

theorem settleDelivered_outcome:
  "case settleDelivered pid a g w of
     (Inl e, w') \<Rightarrow> tables_of w' = tables_of w \<or> (\<exists>plan. settle_plan g pid a w plan \<and> settled g a plan w w')
   | (Inr _, w') \<Rightarrow> \<exists>plan. settle_plan g pid a w plan \<and> settled g a plan w w'"
  using settleDelivered_cases [of pid a g w] by (cases "settleDelivered pid a g w") (auto split: sum.splits)

lemma settled_status:
  assumes "settled g a plan w w'" and "x \<in> set (orders (tables_of w' (Hot, g)))" and "o_publicId x = o_publicId (fst plan)"
  shows "o_status x = DELIVERED"
  using assms by (auto simp: settled_def Let_def update_where_def delivered_row_def split: prod.splits if_splits)

text \<open>C4: an order is settled once: as long as the orders are as a settlement left them, a further request to
  deliver the order is refused and changes nothing, so neither balance nor ledger nor earnings count twice.\<close>

theorem settleDelivered_once:
  assumes "settleDelivered pid a g w = (Inr u, w1)" and "orders (tables_of w2 (Hot, g)) = orders (tables_of w1 (Hot, g))"
  shows "case settleDelivered pid a' g w2 of (r, w3) \<Rightarrow> isl r \<and> tables_of w3 = tables_of w2"
proof -
  from settleDelivered_cases [OF assms(1)] obtain plan where p: "settle_plan g pid a w plan" "settled g a plan w w1" by auto
  then have "o_publicId (fst plan) = pid" by (auto simp: settle_plan_def dest!: find_Some_mem)
  with settled_status [OF p(2)] assms(2) have "\<not> settle_plan g pid a' w2 plan'" for plan'
    by (auto simp: settle_plan_def dest!: find_Some_mem)
  then show ?thesis using settleDelivered_cases [of pid a' g w2] by (cases "settleDelivered pid a' g w2") fastforce
qed


definition picked_world :: world where
  "picked_world = (with_orders [sample_order\<lparr>o_status := PICKED, o_deliveryAgentId := Some 11\<rparr>] sample_world)"

lemmas run_picked [run] = picked_world_def

theorem settleDelivered_once_witness:
  "\<exists>u w1. settleDelivered ''p1'' 11 ''eg'' picked_world = (Inr u, w1) \<and> isl (fst (settleDelivered ''p1'' 11 ''eg'' w1))"
proof -
  define r where "r = settleDelivered ''p1'' 11 ''eg'' picked_world"
  have "\<not> isl (fst r)" unfolding r_def by (simp add: run branchCacheKey_def)
  then obtain u where u: "fst r = Inr u" using result_Inr by blast
  show ?thesis
    using settleDelivered_once [OF run_result [OF r_def u] refl, of 11] run_result [OF r_def u]
    by (intro exI [of _ u] exI [of _ "snd r"]) (simp add: case_prod_beta)
qed

lemma booked_keys:
  assumes "booked t ns rows rows'"
  shows "nt_idempotencyKey ` set ns \<subseteq> t_idempotencyKey ` set rows'"
proof
  fix k assume "k \<in> nt_idempotencyKey ` set ns"
  then obtain n where n: "n \<in> set ns" "k = nt_idempotencyKey n" by auto
  from assms obtain ids where ids: "length ids = length (fresh_entries ns rows)"
    "rows' = rows @ map2 (\<lambda>i n. transaction_row i t n) ids (fresh_entries ns rows)" by (auto simp: booked_def)
  show "k \<in> t_idempotencyKey ` set rows'"
  proof (cases "k \<in> t_idempotencyKey ` set rows")
    case True
    with ids show ?thesis by auto
  next
    case False
    with n have "n \<in> set (fresh_entries ns rows)" by (simp add: fresh_entries_def)
    then obtain j where j: "j < length (fresh_entries ns rows)" "n = fresh_entries ns rows ! j" by (auto simp: in_set_conv_nth)
    with ids have "transaction_row (ids ! j) t n \<in> set rows'" by (force simp: in_set_conv_nth set_zip)
    then show ?thesis using n by (force simp: transaction_row_def)
  qed
qed

text \<open>Two requests to deliver one order whose reads both come before the writes: ledger and earnings are written
  once, thanks to their unique keys, but the balance of the restaurant is credited twice. The check of the
  status is made on the row read before the transaction, without a lock.\<close>

theorem settle_race:
  assumes "settle_read pid a (Hot, g) w = (Inr plan, w1)" and "settle_read pid a (Hot, g) w1 = (Inr plan, w2)"
    and "settle_write pid g a plan (Hot, g) w2 = (Inr u, w3)" and "settle_write pid g a plan (Hot, g) w3 = (Inr u', w4)"
  shows "transactions (tables_of w4 (Hot, g)) = transactions (tables_of w3 (Hot, g)) \<and>
    earnings (tables_of w4 (Hot, g)) = earnings (tables_of w3 (Hot, g)) \<and>
    (case plan of (o', commission, _) \<Rightarrow>
       let add = credit (o_restaurantId o') g (o_currency o') (o_subtotal o' - commission) (clock w)
       in balances (tables_of w4 (Hot, g)) = add (add (balances (tables_of w (Hot, g)))))"
proof -
  obtain o' m e where plan: "plan = (o', m, e)" by (cases plan)
  have k: "tables_of w2 = tables_of w" "clock w2 = clock w"
    using settle_read_Inr [OF assms(1)] settle_read_Inr [OF assms(2)] by auto
  note s3 = settle_write_Inr [OF assms(3)] and s4 = settle_write_Inr [OF assms(4)]
  let ?ns = "settle_entries g o' m"
  have bal: "balances (tables_of w4 (Hot, g)) = credit (o_restaurantId o') g (o_currency o') (o_subtotal o' - m) (clock w)
      (credit (o_restaurantId o') g (o_currency o') (o_subtotal o' - m) (clock w) (balances (tables_of w (Hot, g))))"
    using s3 s4 k by (auto simp: settled_def plan Let_def)
  from s3 plan obtain tx ea where tx: "booked (clock w2) ?ns (transactions (tables_of w2 (Hot, g))) tx"
    and ea: "earning_added (o_id o') (earnings (tables_of w2 (Hot, g))) ea (\<lambda>i. earning_row i (clock w2) g a (o_id o') e (o_currency o'))"
    and t3: "transactions (tables_of w3 (Hot, g)) = tx" "earnings (tables_of w3 (Hot, g)) = ea"
    by (auto simp: settled_def Let_def)
  have "nt_idempotencyKey ` set ?ns \<subseteq> t_idempotencyKey ` set tx"
    using tx by (rule booked_keys)
  then have "fresh_entries ?ns tx = []" by (auto simp: fresh_entries_def filter_empty_conv)
  moreover have "o_id o' \<in> e_orderId ` set ea"
    using ea by (auto simp: earning_added_def earning_row_def split: if_splits)
  ultimately show ?thesis
    using s4 t3 bal by (auto simp: settled_def plan Let_def booked_def earning_added_def)
qed


theorem settle_race_witness:
  "\<exists>w3 w4. transactions (tables_of w4 (Hot, ''eg'')) = transactions (tables_of w3 (Hot, ''eg'')) \<and>
     earnings (tables_of w4 (Hot, ''eg'')) = earnings (tables_of w3 (Hot, ''eg'')) \<and>
     map b_balance (balances (tables_of w4 (Hot, ''eg''))) = [4250 + 4250]"
proof -
  let ?c = "(Hot, ''eg'')"
  let ?o = "sample_order\<lparr>o_status := PICKED, o_deliveryAgentId := Some 11\<rparr>"
  let ?plan = "(?o, 750::int, 400::int)"
  let ?rd = "[branchCacheKey 7 \<mapsto> (RString (BranchText sample_branch), Some 4600000)]"
  define r1 where "r1 = settle_read ''p1'' 11 ?c picked_world"
  have 1: "fst r1 = Inr ?plan" unfolding r1_def by (simp add: run)
  have "\<exists>T. snd r1 = picked_world\<lparr>steps := 4, redis := ?rd, trace := T\<rparr>"
    unfolding r1_def by (simp add: run BRANCH_CACHE_TTL_def)
  then obtain T where w1: "snd r1 = picked_world\<lparr>steps := 4, redis := ?rd, trace := T\<rparr>" by blast
  define r2 where "r2 = settle_read ''p1'' 11 ?c (snd r1)"
  have 2: "fst r2 = Inr ?plan" unfolding r2_def w1 by (simp add: run)
  have w2: "snd r2 = picked_world\<lparr>steps := 6, redis := ?rd, trace := T\<rparr>" unfolding r2_def w1 by (simp add: run)
  define r3 where "r3 = settle_write ''p1'' ''eg'' 11 ?plan ?c (snd r2)"
  have 3: "\<not> isl (fst r3)" unfolding r3_def w2 by (simp add: run branchCacheKey_def)
  define r4 where "r4 = settle_write ''p1'' ''eg'' 11 ?plan ?c (snd r3)"
  have 4: "\<not> isl (fst r4)" unfolding r4_def r3_def w2 by (simp add: run branchCacheKey_def)
  from result_Inr [OF 3] result_Inr [OF 4] obtain u u' where u: "fst r3 = Inr u" "fst r4 = Inr u'" by blast
  from settle_race [OF run_result [OF r1_def 1] run_result [OF r2_def 2] run_result [OF r3_def u(1)] run_result [OF r4_def u(2)]]
  show ?thesis
    by (intro exI [of _ "snd r3"] exI [of _ "snd r4"]) (simp add: credit_def run)
qed

text \<open>What a list of ledger entries gives an account, less what it takes from it.\<close>

definition account_net :: "int \<Rightarrow> create_transaction_input list \<Rightarrow> int" where
  "account_net acc ns =
     sum_list (map (\<lambda>n. (if nt_dstAccId n = Some acc then nt_amount n else 0) -
                        (if nt_srcAccId n = Some acc then nt_amount n else 0)) ns)"

text \<open>the ledger entries of a cash order and the balance agree: what the owner gets by the ledger (the cash,
  less commission, service fee and delivery fee) is the net amount the settlement credits.\<close>

theorem settle_entries_reconcile:
  assumes "o_paymentMethod o' = COD" and "o_customerId o' \<noteq> o_restaurantOwnerId o'"
    and "o_total o' = o_subtotal o' + o_deliveryFee o' + o_serviceFee o'"
    and "0 \<le> o_deliveryFee o'" and "0 \<le> o_serviceFee o'" and "0 \<le> commission"
  shows "account_net (o_restaurantOwnerId o') (settle_entries g o' commission) = o_subtotal o' - commission"
  using assms by (simp add: account_net_def settle_entries_def settle_transaction_def)

theorem settle_entries_reconcile_witness:
  "account_net 9 (settle_entries ''eg'' sample_order 750) = 4250"
  using settle_entries_reconcile [of sample_order 750 "''eg''"] by (simp add: sample_order_def)

subsection \<open>The courier's transitions\<close>

text \<open>
  The order was assigned to the agent, its status was changed by a step the table allows an agent, and no other
  order is different.
\<close>

definition courier_write :: "string \<Rightarrow> string \<Rightarrow> int \<Rightarrow> world \<Rightarrow> world \<Rightarrow> bool" where
  "courier_write g pid a w w' \<longleftrightarrow>
     (\<exists>o' target f.
        List.find (\<lambda>x. o_publicId x = pid) (orders (tables_of w (Hot, g))) = Some o' \<and>
        o_deliveryAgentId o' = Some a \<and> status_step (o_status o') AGENT target \<and>
        (\<forall>x. o_status (f x) = target \<and> o_deliveryAgentId (f x) = o_deliveryAgentId x) \<and>
        orders (tables_of w' (Hot, g)) = update_where (\<lambda>x. o_publicId x = pid) f (orders (tables_of w (Hot, g))) \<and>
        (\<forall>c. c \<noteq> (Hot, g) \<longrightarrow> tables_of w' c = tables_of w c))"

lemma agent_kept_stamp [simp]: "o_deliveryAgentId (set_stamp s t x) = o_deliveryAgentId x"
  by (cases s) simp_all

lemma agent_kept_status [simp]: "o_deliveryAgentId (status_row s st t x) = o_deliveryAgentId x"
  by (simp add: status_row_def Let_def split: option.splits)

lemma settled_courier_write:
  assumes "settle_plan g pid a w plan" and "settled g a plan w w'"
  shows "courier_write g pid a w w'"
proof -
  obtain o' m e where plan: "plan = (o', m, e)" by (cases plan)
  with assms(1) have o': "List.find (\<lambda>x. o_publicId x = pid) (orders (tables_of w (Hot, g))) = Some o'"
    "o_deliveryAgentId o' = Some a" "o_status o' = PICKED" by (auto simp: settle_plan_def)
  then have "o_publicId o' = pid" by (auto dest: find_Some_mem)
  with assms(2) plan o' show ?thesis
    unfolding courier_write_def
    by (intro exI [of _ o'] exI [of _ DELIVERED] exI [of _ "delivered_row m (clock w)"])
      (auto simp: settled_def Let_def status_step_iff rule_def delivered_row_def)
qed

lemma pick_cases:
  assumes "seqE (pick_read pid a (Hot, g)) (pick_write pid (Hot, g)) w = (r, w')"
  shows "(\<exists>e. r = Inl e \<and> tables_of w' = tables_of w) \<or> courier_write g pid a w w'"
  using assms
proof (cases rule: seqE_cases)
  case (thrown e)
  have "moves shards_kept (pick_read pid a (Hot, g))" by (intro moves_intro)
  with thrown show ?thesis by (auto dest: shards_keptD intro: tables_shards)
next
  case (went u v)
  have "moves shards_kept (pick_read pid a (Hot, g))" by (intro moves_intro)
  with went(1) have v: "tables_of v = tables_of w" by (auto dest: shards_keptD intro: tables_shards)
  from went(1) obtain o' where o': "List.find (\<lambda>x. o_publicId x = pid) (orders (tables_of w (Hot, g))) = Some o'"
    "o_deliveryAgentId o' = Some a" "o_status o' = ASSIGNED"
    by (auto simp: pick_read_def tables_of_def split: option.splits)
  from went(2) show ?thesis unfolding pick_write_def
  proof (cases rule: bindE_cases)
    case (thrown e)
    have "moves (others_kept (Hot, g)) (updateOrderStatus pid PICKED (Some PickedAt) (Hot, g))" by (intro moves_intro)
    with thrown(1) have "tables_of w' = tables_of v" by (rule transaction_throwE_cases) auto
    with thrown v show ?thesis by simp
  next
    case (went u' v1)
    from went(1) obtain w2 where up: "updateOrderStatus pid PICKED (Some PickedAt) (Hot, g) (tick v) = (Inr u', w2)"
      and v1: "v1 = tick w2" by (rule transaction_Inr)
    let ?st = "OrderStatusResponseDTO u'"
    have "moves shards_kept (seqE (wsEmit (''customer:'' @ string_of_int (o_customerId u')) ''order.status_changed'' ?st)
       (seqE (wsEmit (''branch:'' @ string_of_int (o_branchId u')) ''order.status_changed'' ?st) (returnE u')))"
      by (intro moves_intro)
    with went(2) have w': "tables_of w' = tables_of v1" unfolding Let_def by (auto dest: shards_keptD intro: tables_shards)
    have t2: "tables_of w2 = (tables_of w)((Hot, g) := (tables_of w (Hot, g))\<lparr>orders :=
        update_where (\<lambda>x. o_publicId x = pid) (status_row PICKED (Some PickedAt) (clock v)) (orders (tables_of w (Hot, g)))\<rparr>)"
      using updateOrderStatus_InrE [OF up] v by (metis tables_tick tick_simps(1))
    show ?thesis
      using o' w' v1 t2 unfolding courier_write_def
      by (intro disjI2 exI [of _ o'] exI [of _ PICKED] exI [of _ "status_row PICKED (Some PickedAt) (clock v)"])
        (auto simp: status_step_iff rule_def)
  qed
qed

lemma courier_step_cases:
  assumes "(if target = status_value DELIVERED then settleDelivered pid a g
            else if target \<noteq> status_value PICKED then throwE InvalidAgentTransitionError
            else bindE (db g) (\<lambda>conn. seqE (pick_read pid a conn) (pick_write pid conn))) w = (r, w')"
  shows "(\<exists>e. r = Inl e \<and> tables_of w' = tables_of w) \<or> courier_write g pid a w w'"
proof -
  consider (del) "settleDelivered pid a g w = (r, w')" | (bad) "throwE InvalidAgentTransitionError w = (r, w')"
    | (pick) "bindE (db g) (\<lambda>conn. seqE (pick_read pid a conn) (pick_write pid conn)) w = (r, w')"
    using assms by (cases "target = status_value DELIVERED"; cases "target = status_value PICKED") (simp_all only: simp_thms if_True if_False)
  then show ?thesis
  proof cases
    case del
    then show ?thesis using settleDelivered_cases settled_courier_write by blast
  next
    case bad
    then show ?thesis by auto
  next
    case pick
    then show ?thesis
    proof (cases rule: bindE_cases)
      case (thrown e)
      then show ?thesis using getShard_pure [of Hot g w] by (simp add: db_def)
    next
      case (went c v)
      then have "c = (Hot, g)" "v = w" by auto
      with went(2) have "seqE (pick_read pid a (Hot, g)) (pick_write pid (Hot, g)) w = (r, w')" by simp
      then show ?thesis using pick_cases by blast
    qed
  qed
qed

lemma transition_cases:
  assumes "transition pid a g t w = (r, w')"
  shows "(\<exists>e. r = Inl e \<and> tables_of w' = tables_of w) \<or> courier_write g pid a w w'"
  using assms unfolding transition_def
proof (cases rule: bindE_cases)
  case (thrown e)
  with courier_step_cases [OF thrown(1)] show ?thesis by simp
next
  case (went u v)
  have "moves shards_kept (bindE (getBranchOrNull (o_branchId u)) (\<lambda>branch. returnE (DeliveryTaskResponseDTO u branch)))"
    by (intro moves_intro)
  with went(2) have w': "tables_of w' = tables_of v" by (auto dest: shards_keptD intro: tables_shards)
  from courier_step_cases [OF went(1)] have "courier_write g pid a w v" by simp
  with w' show ?thesis by (simp add: courier_write_def)
qed

text \<open>C7: through the courier's endpoint only the agent an order is assigned to changes its status, only from
  assigned to picked or from picked to delivered, the steps the table gives an agent.\<close>

theorem transition_legal:
  "case transition pid a g t w of
     (Inl e, w') \<Rightarrow> tables_of w' = tables_of w \<or> courier_write g pid a w w'
   | (Inr _, w') \<Rightarrow> courier_write g pid a w w'"
  using transition_cases [of pid a g t w] by (cases "transition pid a g t w") (auto split: sum.splits)

end
