(* ===== verification/Finance.thy ===== *)
theory Finance
  imports LedgerRepo OrderLaws
begin

section \<open>Balances and payouts\<close>

text \<open>
  \<open>src/app/finance/service/finance.service.ts\<close> and \<open>dto/finance.response.dto.ts\<close>. The ledger and the
  balances are the tables of \<open>LedgerRepo\<close>. \<open>recordPayout\<close> takes the money off a balance with a
  conditional \<open>UPDATE\<close> and books it in one transaction; the properties say what it does to the balance of
  one restaurant in one currency, for one request and for any sequence of requests.
\<close>

subsection \<open>finance.response.dto.ts\<close>

definition RestaurantBalanceResponseDTO :: "int \<Rightarrow> restaurant_balance_entity list \<Rightarrow> int \<Rightarrow> json" where
  "RestaurantBalanceResponseDTO restaurantId rows t =
     JObj [(''restaurantId'', jint restaurantId),
           (''balances'', JArr (map (\<lambda>r. JObj [(''currency'', JStr (b_currency r)), (''balance'', jint (b_balance r))]) rows)),
           (''asOf'', jdate t)]"

definition PayoutResponseDTO :: "transaction_entity \<Rightarrow> json" where
  "PayoutResponseDTO x =
     JObj [(''id'', jint (t_id x)), (''amount'', jint (t_amount x)), (''currency'', JStr (t_currency x)),
           (''status'', JStr (transaction_status_value (t_status x))),
           (''providerReferenceId'', jopt JStr (t_providerReferenceId x)), (''createdAt'', jdate (t_createdAt x))]"

subsection \<open>finance.service.ts\<close>

definition getBalance :: "int \<Rightarrow> string \<Rightarrow> json io" where
  "getBalance restaurantId region =
     bindE (db region) (\<lambda>conn.
     bindE (findByRestaurant restaurantId conn) (\<lambda>rows.
     bindE now (\<lambda>t.
     returnE (RestaurantBalanceResponseDTO restaurantId rows t))))"

text \<open>\<open>!ownerId\<close>: no order of the restaurant, or an owner id 0.\<close>

definition no_owner :: "int option \<Rightarrow> bool" where
  "no_owner ownerId \<longleftrightarrow> ownerId = None \<or> ownerId = Some 0"

definition listPayouts :: "int \<Rightarrow> string \<Rightarrow> int \<Rightarrow> int \<Rightarrow> nat \<Rightarrow> json list io" where
  "listPayouts restaurantId region frm to limit =
     bindE (db region) (\<lambda>conn.
     bindE (findOwnerIdForRestaurant restaurantId conn) (\<lambda>ownerId.
     if no_owner ownerId then returnE []
     else bindE (findPayouts (the ownerId) frm to limit conn) (\<lambda>rows. returnE (map PayoutResponseDTO rows))))"

record create_payout_request =
  cp_restaurantId :: int
  cp_amount :: int
  cp_currency :: string
  cp_providerReferenceId :: string

definition payout_input :: "create_payout_request \<Rightarrow> string \<Rightarrow> int \<Rightarrow> string \<Rightarrow> create_transaction_input" where
  "payout_input body region ownerId key =
     \<lparr>nt_region = region, nt_orderId = None, nt_transactionType = PAYOUT, nt_method = BANK_TRANSFER,
      nt_providerId = None, nt_providerReferenceId = Some (cp_providerReferenceId body), nt_status = TX_SUCCEEDED,
      nt_amount = cp_amount body, nt_currency = cp_currency body, nt_srcAccId = None, nt_dstAccId = Some ownerId,
      nt_idempotencyKey = Some key\<rparr>"

text \<open>
  The body of the transaction. Without the balance it rolls back at once and throws; the \<open>catch\<close> block then
  rolls back again, which finds the transaction completed.
\<close>

definition payout_body :: "create_payout_request \<Rightarrow> string \<Rightarrow> int \<Rightarrow> string \<Rightarrow> conn \<Rightarrow> transaction_entity io" where
  "payout_body body region ownerId key trx =
     bindE (decrementIfSufficient (cp_restaurantId body) (cp_currency body) (cp_amount body) trx) (\<lambda>decremented.
     seqE (whenE (decremented = None) (seqE (roundtrip trx) (throwE InsufficientBalanceError)))
          (createTransaction (payout_input body region ownerId key) trx))"

text \<open>
  \<open>catch (err) { try { await trx.rollback(); } catch {} throw err; }\<close>: a failing rollback is swallowed, and
  the first error is the one that is thrown.
\<close>

definition quiet_transaction :: "conn \<Rightarrow> 'a io \<Rightarrow> 'a io" where
  "quiet_transaction c body w0 =
     (case roundtrip c w0 of
        (Inl e, w1) \<Rightarrow> (Inl e, w1)
      | (Inr _, w1) \<Rightarrow>
          (case bindE body (\<lambda>x. seqE (roundtrip c) (returnE x)) w1 of
             (Inr x, w2) \<Rightarrow> (Inr x, w2)
           | (Inl e, w2) \<Rightarrow>
               seqE (tryCatch (roundtrip c) (\<lambda>_. returnE ())) (throwE e) (restore c w1 w2)))"

definition recordPayout :: "create_payout_request \<Rightarrow> string \<Rightarrow> string \<Rightarrow> json io" where
  "recordPayout body region idempotencyKey =
     bindE (db region) (\<lambda>conn.
     bindE (findOwnerIdForRestaurant (cp_restaurantId body) conn) (\<lambda>ownerId.
     seqE (throwIf (no_owner ownerId) RestaurantNotFoundError)
    (bindE (quiet_transaction conn (payout_body body region (the ownerId) idempotencyKey conn)) (\<lambda>x.
     returnE (PayoutResponseDTO x)))))"

subsection \<open>Transactions that swallow a failing rollback\<close>

text \<open>They end in the state of a plain transaction whose handler rethrows, up to the error that is thrown.\<close>

lemma quiet_transaction_Inr:
  assumes "quiet_transaction c body w = (Inr x, w')"
  obtains w2 where "body (tick w) = (Inr x, w2)" and "w' = tick w2"
proof -
  have "transaction c body throwE w = (Inr x, w')"
    using assms by (auto simp: quiet_transaction_def transaction_def seqE_def bindE_def tryCatch_def
        split: prod.splits sum.splits)
  then show ?thesis using that by (rule transaction_Inr)
qed

lemma quiet_transaction_Inl:
  assumes "quiet_transaction c body w = (Inl e, w')"
  shows "\<exists>e'. transaction c body throwE w = (Inl e', w')"
proof -
  have swallowed: "snd (tryCatch (roundtrip c) (\<lambda>_. returnE ()) v) = snd (roundtrip c v)" for v
    by (cases "roundtrip c v"; cases "fst (roundtrip c v)") (auto simp: tryCatch_def)
  show ?thesis
  proof (cases "roundtrip c w")
    case (Pair r1 w1)
    show ?thesis
    proof (cases r1)
      case (Inl e1)
      with Pair assms show ?thesis by (simp add: quiet_transaction_def transaction_def)
    next
      case (Inr u)
      obtain r2 w2 where m: "bindE body (\<lambda>x. seqE (roundtrip c) (returnE x)) w1 = (r2, w2)"
        by (cases "bindE body (\<lambda>x. seqE (roundtrip c) (returnE x)) w1")
      obtain e2 where r2: "r2 = Inl e2"
        using assms Pair Inr m by (cases r2) (simp_all add: quiet_transaction_def)
      obtain r3 w3 where rb: "roundtrip c (restore c w1 w2) = (r3, w3)"
        by (cases "roundtrip c (restore c w1 w2)")
      have "w' = w3"
        using assms Pair Inr m r2 rb swallowed [of "restore c w1 w2"]
        by (cases r3) (auto simp: quiet_transaction_def seqE_def bindE_def tryCatch_def)
      with Pair Inr m r2 rb show ?thesis
        by (cases r3) (auto simp: transaction_def seqE_def bindE_def)
    qed
  qed
qed

lemma quiet_transaction_atomic:
  assumes "moves (others_kept c) body" and "quiet_transaction c body w = (Inl e, w')"
  shows "tables_of w' = tables_of w"
  using quiet_transaction_Inl [OF assms(2)] transaction_atomic [OF assms(1)]
  by (metis shards_kept.moves_throwE)


subsection \<open>One payout\<close>

text \<open>The owner of a restaurant is the one its newest order names.\<close>

definition owner_by_orders :: "int \<Rightarrow> tables \<Rightarrow> int \<Rightarrow> bool" where
  "owner_by_orders restaurantId tb owner \<longleftrightarrow>
     (\<exists>o'\<in>set (orders tb). o_restaurantId o' = restaurantId \<and> o_restaurantOwnerId o' = owner \<and>
        (\<forall>q\<in>set (orders tb). o_restaurantId q = restaurantId \<longrightarrow> o_createdAt q \<le> o_createdAt o'))"

text \<open>
  The effect of a payout on the tables of its shard: the balance it took and the entry it booked, a succeeded
  bank transfer to the owner.
\<close>

definition paid_out ::
  "string \<Rightarrow> int \<Rightarrow> create_payout_request \<Rightarrow> string \<Rightarrow> int \<Rightarrow> transaction_entity \<Rightarrow> tables \<Rightarrow> tables \<Rightarrow> bool" where
  "paid_out g owner body key t x tb tb' \<longleftrightarrow>
     (let p = sufficient (cp_restaurantId body) (cp_currency body) (cp_amount body)
      in (\<exists>b\<in>set (balances tb). p b) \<and> Some key \<notin> t_idempotencyKey ` set (transactions tb) \<and>
         x = \<lparr>t_id = t_id x, t_region = g, t_orderId = None, t_transactionType = PAYOUT, t_method = BANK_TRANSFER,
              t_providerId = None, t_providerReferenceId = Some (cp_providerReferenceId body),
              t_status = TX_SUCCEEDED, t_amount = cp_amount body, t_currency = cp_currency body,
              t_srcAccId = None, t_dstAccId = Some owner, t_isRefunded = False, t_refundedPaymentId = None,
              t_idempotencyKey = Some key, t_createdAt = t, t_updatedAt = t\<rparr> \<and>
         tb' = tb\<lparr>transactions := transactions tb @ [x],
                  balances := update_where p (add_balance (- cp_amount body) t) (balances tb)\<rparr>)"

lemma paid_out_key: "paid_out g owner body key t x tb tb' \<Longrightarrow> t_idempotencyKey x = Some key"
  unfolding paid_out_def Let_def by (metis transaction_entity.select_convs(15))

lemma first_row_sort_key: "first_row (sort_key f xs) = Some y \<Longrightarrow> y \<in> set xs \<and> (\<forall>z\<in>set xs. f y \<le> f z)"
proof -
  assume "first_row (sort_key f xs) = Some y"
  then obtain ys where ys: "sort_key f xs = y # ys" by (auto simp: first_row_def split: list.splits)
  have "sorted (map f (y # ys))" and "set xs = set (y # ys)" by (metis ys sorted_sort_key, metis ys set_sort)
  then show ?thesis by auto
qed

lemma findOwnerId_InrE:
  assumes "findOwnerIdForRestaurant r c w = (Inr found, w')"
  obtains "found = None" and "w' = tick w"
  | owner where "found = Some owner" and "owner_by_orders r (tables_of w c) owner" and "w' = tick w"
proof (cases found)
  case None
  with assms that(1) show thesis by (auto simp: findOwnerIdForRestaurant_def)
next
  case (Some owner)
  with assms obtain o' where "first_row (sort_key (\<lambda>o'. - o_createdAt o')
      (filter (\<lambda>o'. o_restaurantId o' = r) (orders (tables_of w c)))) = Some o'"
    and owner: "owner = o_restaurantOwnerId o'" and w': "w' = tick w"
    by (auto simp: findOwnerIdForRestaurant_def tables_of_def eq_commute [of "Some owner"])
  from first_row_sort_key [OF this(1)] owner have "owner_by_orders r (tables_of w c) owner"
    by (auto simp: owner_by_orders_def)
  with Some w' that(2) show thesis by blast
qed

lemma decrementIfSufficient_InrE:
  assumes "decrementIfSufficient r cur a c w = (Inr v, w')"
  obtains "v = first_row (returning (sufficient r cur a) (add_balance (- a) (clock w)) (balances (tables_of w c)))"
    and "tables_of w' = (tables_of w)(c := (tables_of w c)\<lparr>balances :=
           update_where (sufficient r cur a) (add_balance (- a) (clock w)) (balances (tables_of w c))\<rparr>)"
    and "clock w' = clock w"
  using assms unfolding decrementIfSufficient_def
  by (auto simp: first_row_def tables_of_def fun_eq_iff set_balances_def Let_def split: if_splits)

lemma decrementIfSufficient_ok:
  assumes "dbFault (ext w) (steps w) = None" and "int4 a"
    and "\<exists>b\<in>set (balances (tables_of w c)). sufficient r cur a b"
    and "\<forall>b\<in>set (balances (tables_of w c)). sufficient r cur a b \<longrightarrow> int4 (b_balance b - a)"
  shows "\<exists>b. decrementIfSufficient r cur a c w = (Inr (Some b), (tick w)\<lparr>shards := (shards w)(c :=
      set_balances (update_where (sufficient r cur a) (add_balance (- a) (clock w)) (balances (tables_of w c))) (shards w c))\<rparr>)"
proof -
  have "returning (sufficient r cur a) (add_balance (- a) (clock w)) (balances (tabs (shards w c))) \<noteq> []"
    using assms(3) by (auto simp: returning_Nil_iff tables_of_def)
  then obtain b bs where ret: "returning (sufficient r cur a) (add_balance (- a) (clock w)) (balances (tabs (shards w c))) = b # bs"
    by (auto simp: neq_Nil_conv)
  have "\<not> (\<exists>b\<in>set (filter (sufficient r cur a) (balances (tabs (shards w c)))). \<not> int4 (b_balance b - a))"
    using assms(4) by (auto simp: tables_of_def)
  with ret assms(1,2) show ?thesis
    by (simp add: decrementIfSufficient_def stmt_def Let_def tables_of_def)
qed

lemma createTransaction_InrE:
  assumes "createTransaction n c w = (Inr x, w')"
  obtains q where "x = transaction_row q (clock w) n"
    and "tables_of w' = (tables_of w)(c := (tables_of w c)\<lparr>transactions := transactions (tables_of w c) @ [x]\<rparr>)"
    and "nt_idempotencyKey n = None \<or> nt_idempotencyKey n \<notin> t_idempotencyKey ` set (transactions (tables_of w c))"
  using assms unfolding createTransaction_def
  by (auto simp: tables_of_def fun_eq_iff set_transactions_def insert_or_skip_def Let_def
      split: if_splits option.splits prod.splits)
    (auto simp: transaction_row_def)

lemma payout_body_Inr:
  assumes "payout_body body region ownerId key c w = (Inr x, w')"
  shows "tables_of w' = (tables_of w)(c := tables_of w' c) \<and>
         paid_out region ownerId body key (clock w) x (tables_of w c) (tables_of w' c)"
proof -
  from assms obtain v w1 where
    d: "decrementIfSufficient (cp_restaurantId body) (cp_currency body) (cp_amount body) c w = (Inr v, w1)"
    and some: "v \<noteq> None"
    and t: "createTransaction (payout_input body region ownerId key) c w1 = (Inr x, w')"
    unfolding payout_body_def by (auto simp: whenE_def split: if_splits)
  from d show ?thesis
  proof (rule decrementIfSufficient_InrE)
    assume v: "v = first_row (returning (sufficient (cp_restaurantId body) (cp_currency body) (cp_amount body))
        (add_balance (- cp_amount body) (clock w)) (balances (tables_of w c)))"
      and w1: "tables_of w1 = (tables_of w)(c := (tables_of w c)\<lparr>balances :=
           update_where (sufficient (cp_restaurantId body) (cp_currency body) (cp_amount body))
             (add_balance (- cp_amount body) (clock w)) (balances (tables_of w c))\<rparr>)"
      and clk: "clock w1 = clock w"
    from v some have "returning (sufficient (cp_restaurantId body) (cp_currency body) (cp_amount body))
        (add_balance (- cp_amount body) (clock w)) (balances (tables_of w c)) \<noteq> []"
      by (auto simp: first_row_def)
    then have "\<exists>b\<in>set (balances (tables_of w c)). sufficient (cp_restaurantId body) (cp_currency body) (cp_amount body) b"
      by (simp add: returning_Nil_iff)
    with t w1 clk show ?thesis
      by (elim createTransaction_InrE) (auto simp: paid_out_def payout_input_def transaction_row_def)
  qed
qed

context hot_relation begin

lemma moves_payout_body [moves_intro]: "moves R (payout_body b r i k (Hot, g))"
  unfolding payout_body_def by (intro moves_intro)

end

lemma recordPayout_cases:
  assumes run: "recordPayout body region key w = (r, w')"
  obtains e where "r = Inl e" and "tables_of w' = tables_of w"
  | x owner where "r = Inr (PayoutResponseDTO x)" and "tables_of w' = (tables_of w)((Hot, region) := tables_of w' (Hot, region))"
    and "paid_out region owner body key (clock w) x (tables_of w (Hot, region)) (tables_of w' (Hot, region))"
    and "owner_by_orders (cp_restaurantId body) (tables_of w (Hot, region)) owner" and "owner \<noteq> 0"
  using run unfolding recordPayout_def
proof (cases rule: bindE_cases)
  case (thrown e)
  then show thesis using that(1) by (auto dest: db_thrown)
next
  case (went conn w1)
  then have w1: "conn = (Hot, region)" "w1 = w" by auto
  from went(2) show thesis
  proof (cases rule: bindE_cases)
    case (thrown e)
    have "moves shards_kept (findOwnerIdForRestaurant (cp_restaurantId body) conn)" by (intro moves_intro)
    from tables_keptD [OF this thrown(1)] thrown(2) w1 that(1) show thesis by simp
  next
    case (went ownerId w2)
    then have w2: "w2 = tick w"
      and own: "ownerId \<noteq> None \<Longrightarrow> owner_by_orders (cp_restaurantId body) (tables_of w (Hot, region)) (the ownerId)"
      using w1 by (auto elim!: findOwnerId_InrE)
    from went(2) show thesis
    proof (cases rule: seqE_cases)
      case (thrown e)
      then show thesis using w2 that(1) by (auto simp: throwIf_def split: if_splits)
    next
      case (went u w3)
      then have w3: "w3 = tick w" and known: "ownerId \<noteq> None" "the ownerId \<noteq> 0"
        using w2 by (auto simp: no_owner_def)
      from went(2) show thesis
      proof (cases rule: bindE_cases)
        case (thrown e)
        from quiet_transaction_atomic [OF _ thrown(1)] have "tables_of w' = tables_of w"
          using w1 w3 by (simp add: others_hot.moves_payout_body)
        with thrown(2) that(1) show thesis by simp
      next
        case (went x w4)
        from went(1) obtain w5 where "payout_body body region (the ownerId) key conn (tick w3) = (Inr x, w5)"
          (is ?ran) and w5: "w4 = tick w5" by (rule quiet_transaction_Inr)
        have eff: "tables_of w5 = (tables_of w)((Hot, region) := tables_of w5 (Hot, region))"
          "paid_out region (the ownerId) body key (clock w) x (tables_of w (Hot, region)) (tables_of w5 (Hot, region))"
          using payout_body_Inr [OF \<open>?ran\<close>] w1 w3 by simp_all
        have "w' = w4" "r = Inr (PayoutResponseDTO x)" using went(2) by simp_all
        with eff w5 known own show thesis by (intro that(2) [of x "the ownerId"]) simp_all
      qed
    qed
  qed
qed

text \<open>C17: A payout either returns, and then its whole effect on the databases is that one balance that held at
  least the amount lost exactly the amount and one entry was appended to the ledger: a succeeded bank transfer
  of the amount to the owner the restaurant's newest order names, with the provider reference of the request and
  its idempotency key, a key no entry had; or it throws, and no table of any shard has changed.\<close>

theorem recordPayout_outcome:
  assumes "recordPayout body region key w = (r, w')"
  shows "(case r of
            Inl _ \<Rightarrow> tables_of w' = tables_of w
          | Inr dto \<Rightarrow> \<exists>x owner. dto = PayoutResponseDTO x \<and>
              owner_by_orders (cp_restaurantId body) (tables_of w (Hot, region)) owner \<and> owner \<noteq> 0 \<and>
              tables_of w' = (tables_of w)((Hot, region) := tables_of w' (Hot, region)) \<and>
              paid_out region owner body key (clock w) x (tables_of w (Hot, region)) (tables_of w' (Hot, region)))"
  using assms by (rule recordPayout_cases) auto

subsection \<open>Any sequence of payouts\<close>

definition balance_of :: "int \<Rightarrow> string \<Rightarrow> tables \<Rightarrow> int" where
  "balance_of r cur tb = (case List.find (balance_at r cur) (balances tb) of None \<Rightarrow> 0 | Some b \<Rightarrow> b_balance b)"

text \<open>The primary key of \<open>restaurant_balances\<close>.\<close>

definition unique_balances :: "tables \<Rightarrow> bool" where
  "unique_balances tb \<longleftrightarrow> distinct (map (\<lambda>b. (b_restaurantId b, b_currency b)) (balances tb))"

text \<open>Requests one after the other; the list of those that returned, with their keys.\<close>

fun payouts :: "string \<Rightarrow> (create_payout_request \<times> string) list \<Rightarrow> world \<Rightarrow>
    (create_payout_request \<times> string) list \<times> world" where
  "payouts region [] w = ([], w)"
| "payouts region (q # qs) w =
     (let (r, w1) = recordPayout (fst q) region (snd q) w; (paid, w2) = payouts region qs w1
      in (if isl r then paid else q # paid, w2))"

text \<open>What was paid to one restaurant in one currency.\<close>

definition paid_to :: "int \<Rightarrow> string \<Rightarrow> (create_payout_request \<times> string) list \<Rightarrow> int" where
  "paid_to r cur qs =
     sum_list (map (\<lambda>q. cp_amount (fst q)) (filter (\<lambda>q. cp_restaurantId (fst q) = r \<and> cp_currency (fst q) = cur) qs))"

lemma find_update_where:
  "(\<And>x. q x \<Longrightarrow> p (f x) = p x) \<Longrightarrow>
   List.find p (update_where q f xs) = map_option (\<lambda>x. if q x then f x else x) (List.find p xs)"
  by (induction xs) auto

text \<open>A lookup by a key that no two rows share finds the row.\<close>

lemma find_unique:
  "distinct (map k xs) \<Longrightarrow> b \<in> set xs \<Longrightarrow> (\<And>x. p x \<longleftrightarrow> k x = k b) \<Longrightarrow> List.find p xs = Some b"
proof (induction xs)
  case (Cons x xs)
  then show ?case by (cases "x = b") (auto simp: image_iff)
qed simp

lemma unique_balances_find:
  "unique_balances tb \<Longrightarrow> b \<in> set (balances tb) \<Longrightarrow> balance_at r cur b \<Longrightarrow>
   List.find (balance_at r cur) (balances tb) = Some b"
  unfolding unique_balances_def by (erule (1) find_unique) (auto simp: balance_at_def)

lemma paid_out_unique: "paid_out g owner body key t x tb tb' \<Longrightarrow> unique_balances tb \<Longrightarrow> unique_balances tb'"
  by (auto simp: paid_out_def Let_def unique_balances_def add_balance_def map_update_where)

lemma paid_out_balance:
  assumes "paid_out g owner body key t x tb tb'" and "unique_balances tb"
  shows "balance_of r cur tb' = balance_of r cur tb - paid_to r cur [(body, key)]"
    and "cp_restaurantId body = r \<Longrightarrow> cp_currency body = cur \<Longrightarrow> cp_amount body \<le> balance_of r cur tb"
proof -
  let ?p = "sufficient (cp_restaurantId body) (cp_currency body) (cp_amount body)"
  obtain b where b: "b \<in> set (balances tb)" "?p b" using assms(1) by (auto simp: paid_out_def Let_def)
  have bal: "balances tb' = update_where ?p (add_balance (- cp_amount body) t) (balances tb)"
    using assms(1) by (simp add: paid_out_def Let_def)
  have find': "List.find (balance_at r cur) (balances tb') =
      map_option (\<lambda>x. if ?p x then add_balance (- cp_amount body) t x else x) (List.find (balance_at r cur) (balances tb))"
    unfolding bal by (rule find_update_where) (simp add: balance_at_def add_balance_def)
  have mine: "List.find (balance_at r cur) (balances tb) = Some b"
    if "cp_restaurantId body = r" "cp_currency body = cur"
    using assms(2) b that by (intro unique_balances_find) (auto simp: sufficient_def)
  show "balance_of r cur tb' = balance_of r cur tb - paid_to r cur [(body, key)]"
  proof (cases "cp_restaurantId body = r \<and> cp_currency body = cur")
    case True
    with find' mine b show ?thesis by (simp add: balance_of_def paid_to_def add_balance_def)
  next
    case False
    have "\<not> ?p x" if "List.find (balance_at r cur) (balances tb) = Some x" for x
      using find_Some_mem [OF that] False by (auto simp: sufficient_def balance_at_def)
    then have "balance_of r cur tb' = balance_of r cur tb"
      using find' by (cases "List.find (balance_at r cur) (balances tb)") (simp_all add: balance_of_def)
    with False show ?thesis by (auto simp: paid_to_def)
  qed
  show "cp_amount body \<le> balance_of r cur tb" if "cp_restaurantId body = r" "cp_currency body = cur"
    using mine [OF that] b by (simp add: balance_of_def sufficient_def)
qed

lemma paid_to_Cons: "paid_to r cur (q # qs) = paid_to r cur [q] + paid_to r cur qs"
  by (simp add: paid_to_def)

text \<open>C18: Over any sequence of payout requests in a region, with database failures at any point, the balance of a
  restaurant in a currency falls by exactly what the requests that returned paid out to it; no two of them had the
  same idempotency key, none had a key of the ledger, and a balance that was not negative never becomes negative.\<close>

theorem payouts_conserve:
  assumes "payouts region qs w = (paid, w')" and "unique_balances (tables_of w (Hot, region))"
  shows "balance_of r cur (tables_of w' (Hot, region)) =
           balance_of r cur (tables_of w (Hot, region)) - paid_to r cur paid \<and>
         distinct (map snd paid) \<and>
         (\<forall>q\<in>set paid. Some (snd q) \<notin> t_idempotencyKey ` set (transactions (tables_of w (Hot, region)))) \<and>
         (0 \<le> balance_of r cur (tables_of w (Hot, region)) \<longrightarrow> 0 \<le> balance_of r cur (tables_of w' (Hot, region)))"
  using assms
proof (induction qs arbitrary: w w' paid)
  case Nil
  then show ?case by (simp add: paid_to_def)
next
  case (Cons q qs)
  obtain res w1 where r1: "recordPayout (fst q) region (snd q) w = (res, w1)" by (cases "recordPayout (fst q) region (snd q) w")
  obtain rest w2 where r2: "payouts region qs w1 = (rest, w2)" by (cases "payouts region qs w1")
  have w2: "w' = w2" and d: "paid = (if isl res then rest else q # rest)" using Cons.prems(1) r1 r2 by simp_all
  from r1 show ?case
  proof (cases rule: recordPayout_cases)
    case (1 e)
    with Cons.IH [OF r2] Cons.prems(2) w2 d show ?thesis by auto
  next
    case (2 x owner)
    note pd = 2(3)
    have u: "unique_balances (tables_of w1 (Hot, region))"
      using paid_out_unique [OF pd] Cons.prems(2) by simp
    note ih = Cons.IH [OF r2 u]
    have keys: "t_idempotencyKey ` set (transactions (tables_of w1 (Hot, region))) =
        insert (Some (snd q)) (t_idempotencyKey ` set (transactions (tables_of w (Hot, region))))"
      and fresh: "Some (snd q) \<notin> t_idempotencyKey ` set (transactions (tables_of w (Hot, region)))"
      using pd paid_out_key [OF pd] by (auto simp: paid_out_def Let_def simp del: transaction_entity.ext_inject)
    note bal = paid_out_balance [OF pd Cons.prems(2), of r cur]
    have nonneg: "0 \<le> balance_of r cur (tables_of w1 (Hot, region))" if "0 \<le> balance_of r cur (tables_of w (Hot, region))"
      using bal that by (cases "cp_restaurantId (fst q) = r \<and> cp_currency (fst q) = cur") (auto simp: paid_to_def)
    have dq: "paid = q # rest" using d 2(1) by simp
    have "balance_of r cur (tables_of w' (Hot, region)) =
           balance_of r cur (tables_of w (Hot, region)) - paid_to r cur paid"
      using ih bal(1) w2 by (simp add: dq paid_to_Cons [of r cur q rest])
    moreover have "distinct (map snd paid)" using ih keys by (auto simp: dq)
    moreover have "\<forall>p\<in>set paid. Some (snd p) \<notin> t_idempotencyKey ` set (transactions (tables_of w (Hot, region)))"
      using ih keys fresh by (auto simp: dq)
    moreover have "0 \<le> balance_of r cur (tables_of w' (Hot, region))" if "0 \<le> balance_of r cur (tables_of w (Hot, region))"
      using ih nonneg [OF that] w2 by simp
    ultimately show ?thesis by blast
  qed
qed


subsection \<open>Retries\<close>

text \<open>A payout request that is repeated with the idempotency key of a recorded payout is not answered with that
  payout: with the databases up and enough balance left it fails on the unique key of the ledger, which the client
  sees as an internal error 500.\<close>

theorem payout_retry_is_internal_error:
  assumes up: "\<forall>n. dbFault (ext w) n = None" and region: "known_region w region"
    and owner: "\<exists>o'\<in>set (orders (tables_of w (Hot, region))). o_restaurantId o' = cp_restaurantId body"
      "\<forall>o'\<in>set (orders (tables_of w (Hot, region))). o_restaurantId o' = cp_restaurantId body \<longrightarrow> o_restaurantOwnerId o' \<noteq> 0"
    and key: "Some key \<in> t_idempotencyKey ` set (transactions (tables_of w (Hot, region)))"
    and amount: "0 < cp_amount body" "int4 (cp_amount body)"
    and enough: "\<exists>b\<in>set (balances (tables_of w (Hot, region))). sufficient (cp_restaurantId body) (cp_currency body) (cp_amount body) b"
    and range: "\<forall>b\<in>set (balances (tables_of w (Hot, region))). int4 (b_balance b)"
  shows "\<exists>w'. recordPayout body region key w = (Inl unique_error, w') \<and> tables_of w' = tables_of w \<and>
           errorHandler unique_error = (500, ''Something went wrong'')"
proof -
  let ?c = "(Hot, region)" and ?p = "sufficient (cp_restaurantId body) (cp_currency body) (cp_amount body)"
  obtain i where own: "findOwnerIdForRestaurant (cp_restaurantId body) ?c w = (Inr (Some i), tick w)" "i \<noteq> 0"
  proof -
    let ?os = "sort_key (\<lambda>o'. - o_createdAt o') (filter (\<lambda>o'. o_restaurantId o' = cp_restaurantId body) (orders (tabs (shards w ?c))))"
    have "set ?os \<noteq> {}" using owner(1) by (auto simp: tables_of_def)
    then obtain o' os where os: "?os = o' # os" by (cases ?os) auto
    then have "o' \<in> set ?os" by simp
    then have "o_restaurantOwnerId o' \<noteq> 0" using owner(2) by (auto simp: tables_of_def)
    with os up that show thesis
      by (simp add: findOwnerIdForRestaurant_def query_ok first_row_def)
  qed
  have taken: "insert_or_skip t_idempotencyKey (transaction_row q t (payout_input body region i key)) xs = (None, xs)"
    if "Some key \<in> t_idempotencyKey ` set xs" for q t xs
    using that by (intro ledger.ins_taken) (auto simp: transaction_row_def payout_input_def)
  have "\<forall>b\<in>set (balances (tables_of w ?c)). ?p b \<longrightarrow> int4 (b_balance b - cp_amount body)"
    using range amount by (auto simp: int4_def sufficient_def)
  then obtain d where d: "decrementIfSufficient (cp_restaurantId body) (cp_currency body) (cp_amount body) ?c (tick (tick w)) =
      (Inr (Some d), (tick (tick (tick w)))\<lparr>shards := (shards w)(?c := set_balances (update_where ?p
         (add_balance (- cp_amount body) (clock w)) (balances (tables_of w ?c))) (shards w ?c))\<rparr>)"
    using decrementIfSufficient_ok [of "tick (tick w)" "cp_amount body" ?c "cp_restaurantId body" "cp_currency body"]
      up amount(2) enough by auto
  let ?v = "(tick (tick (tick w)))\<lparr>shards := (shards w)(?c := set_balances (update_where ?p
         (add_balance (- cp_amount body) (clock w)) (balances (tables_of w ?c))) (shards w ?c))\<rparr>"
  obtain v where vv: "v = ?v" by simp
  have v: "ext v = ext w" "transactions (tabs (shards v ?c)) = transactions (tabs (shards w ?c))"
    by (simp_all add: vv)
  note d = d [folded vv]
  have "createTransaction (payout_input body region i key) ?c v = (Inl unique_error, tick v)"
    using up v key amount(2) taken
    by (simp add: createTransaction_def stmt_def Let_def tables_of_def payout_input_def)
  then have body: "payout_body body region i key ?c (tick (tick w)) = (Inl unique_error, tick v)"
    by (simp add: payout_body_def bindE_def seqE_def d)
  have "\<exists>w'. quiet_transaction ?c (payout_body body region i key ?c) (tick w) = (Inl unique_error, w')"
    using up v body
    by (simp add: quiet_transaction_def roundtrip_ok bindE_def seqE_def tryCatch_def restore_def)
  then obtain w' where run: "recordPayout body region key w = (Inl unique_error, w')"
    using own region by (auto simp: recordPayout_def bindE_def seqE_def no_owner_def)
  have "tables_of w' = tables_of w" using run by (rule recordPayout_cases) auto
  with run show ?thesis unfolding unique_error_def by (auto simp: errorHandler_internal)
qed

subsection \<open>Witnesses\<close>

lemmas run_Finance [run] =
  PayoutResponseDTO_def no_owner_def payout_input_def payout_body_def quiet_transaction_def recordPayout_def

definition payout_tables :: tables where
  "payout_tables =
     (tabs empty_shard)\<lparr>orders := [sample_order],
       balances := [\<lparr>b_restaurantId = 3, b_region = ''eg'', b_currency = ''EGP'', b_balance = 9000, b_updatedAt = 1\<rparr>]\<rparr>"

definition payout_world :: "transaction_entity list \<Rightarrow> world" where
  "payout_world txs =
     sample_world\<lparr>shards := (\<lambda>_. empty_shard)((Hot, ''eg'') := empty_shard\<lparr>tabs := payout_tables\<lparr>transactions := txs\<rparr>\<rparr>)\<rparr>"

definition payout_request :: "int \<Rightarrow> create_payout_request" where
  "payout_request n = \<lparr>cp_restaurantId = 3, cp_amount = n, cp_currency = ''EGP'', cp_providerReferenceId = ''ref''\<rparr>"

definition earlier_payout :: transaction_entity where
  "earlier_payout = transaction_row 1 5 (payout_input (payout_request 1000) ''eg'' 9 ''k1'')"

theorem recordPayout_outcome_witness:
  "\<exists>x w'. recordPayout (payout_request 4000) ''eg'' ''k1'' (payout_world []) = (Inr (PayoutResponseDTO x), w') \<and>
     paid_out ''eg'' 9 (payout_request 4000) ''k1'' 1000000 x (tables_of (payout_world []) (Hot, ''eg'')) (tables_of w' (Hot, ''eg''))"
proof -
  have "\<not> isl (fst (recordPayout (payout_request 4000) ''eg'' ''k1'' (payout_world [])))"
    by (simp add: run payout_world_def payout_tables_def payout_request_def first_row_def findOwnerIdForRestaurant_def)
  then obtain dto where "fst (recordPayout (payout_request 4000) ''eg'' ''k1'' (payout_world [])) = Inr dto"
    by (auto dest: result_Inr)
  note ran = run_result [OF refl this]
  have clk: "clock (payout_world []) = 1000000" by (simp add: payout_world_def sample_world_def)
  from recordPayout_outcome [OF ran] obtain x owner where dto: "dto = PayoutResponseDTO x"
    and own: "owner_by_orders 3 (tables_of (payout_world []) (Hot, ''eg'')) owner"
    and paid: "paid_out ''eg'' owner (payout_request 4000) ''k1'' 1000000 x (tables_of (payout_world []) (Hot, ''eg''))
      (tables_of (snd (recordPayout (payout_request 4000) ''eg'' ''k1'' (payout_world []))) (Hot, ''eg''))"
    by (auto simp: clk payout_request_def)
  from own have "owner = 9"
    by (simp add: owner_by_orders_def tables_of_def payout_world_def payout_tables_def sample_order_def)
  with ran dto paid show ?thesis by blast
qed

theorem payouts_conserve_witness:
  "\<exists>w'. payouts ''eg'' [(payout_request 4000, ''k1''), (payout_request 4000, ''k1''), (payout_request 6000, ''k2'')]
           (payout_world []) = ([(payout_request 4000, ''k1'')], w') \<and>
         balance_of 3 ''EGP'' (tables_of w' (Hot, ''eg'')) = 5000"
proof -
  let ?qs = "[(payout_request 4000, ''k1''), (payout_request 4000, ''k1''), (payout_request 6000, ''k2'')]"
  have paid: "fst (payouts ''eg'' ?qs (payout_world [])) = [(payout_request 4000, ''k1'')]"
    by (simp add: run payout_world_def payout_tables_def payout_request_def first_row_def findOwnerIdForRestaurant_def)
  have start: "unique_balances (tables_of (payout_world []) (Hot, ''eg''))"
    "balance_of 3 ''EGP'' (tables_of (payout_world []) (Hot, ''eg'')) = 9000"
    by (simp_all add: unique_balances_def balance_of_def balance_at_def payout_world_def payout_tables_def tables_of_def)
  from payouts_conserve [OF run_result [OF refl paid] start(1), where r = 3 and cur = "''EGP''"] start(2)
    run_result [OF refl paid]
  show ?thesis by (auto simp: paid_to_def payout_request_def)
qed

theorem payout_retry_is_internal_error_witness:
  "\<exists>w'. recordPayout (payout_request 1000) ''eg'' ''k1'' (payout_world [earlier_payout]) = (Inl unique_error, w')"
proof -
  have "\<exists>w'. recordPayout (payout_request 1000) ''eg'' ''k1'' (payout_world [earlier_payout]) = (Inl unique_error, w') \<and>
      tables_of w' = tables_of (payout_world [earlier_payout]) \<and>
      errorHandler unique_error = (500, ''Something went wrong'')"
    by (rule payout_retry_is_internal_error)
      (simp_all add: run payout_world_def payout_tables_def payout_request_def earlier_payout_def known_region_def)
  then show ?thesis by blast
qed

end
