(* ===== verification/Drain.thy ===== *)
theory Drain
  imports OutboxRepo OrderLaws
begin

section \<open>Draining the outbox\<close>

text \<open>
  \<open>src/lib/events/outbox-drain.ts\<close>: one pass over the outbox of a region. \<open>messageBroker.publish\<close> is a
  primitive effect: it fails without effect, or the message is out (a publish whose confirm is lost after the
  broker took the message would be one more duplicate). The first group of lemmas says what a pass does on
  every exit; the properties are that a row is marked only after its event was published, that nothing else
  in the service marks rows, and that passes without failures empty the outbox in the order of the ids.
\<close>

subsection \<open>The pass\<close>

text \<open>\<open>describeError\<close>: an \<open>Error\<close> without message prints its own enumerable fields.\<close>

definition describeError :: "exn \<Rightarrow> string" where
  "describeError err =
     (if exn_message err \<noteq> [] then exn_message err
      else (case err of
              AppError _ code oper \<Rightarrow>
                ''{'' @ [CHR 0x22] @ ''statusCode'' @ [CHR 0x22] @ '':'' @ string_of_int code @ '','' @
                [CHR 0x22] @ ''isOperational'' @ [CHR 0x22] @ '':'' @ (if oper then ''true'' else ''false'') @ ''}''
            | _ \<Rightarrow> ''{}''))"

definition publish :: "string \<Rightarrow> string \<Rightarrow> json \<Rightarrow> unit io" where
  "publish exchange routingKey body w =
     (case brokerFault (ext w) (steps w) of
        Some msg \<Rightarrow> (Inl (JsError msg), tick w)
      | None \<Rightarrow> (Inr (), (tick w)\<lparr>trace := trace w @ [Publish exchange routingKey body]\<rparr>))"

definition envelope :: "string \<Rightarrow> int \<Rightarrow> outbox_row \<Rightarrow> json" where
  "envelope region t row =
     JObj [(''eventId'', JStr (x_eventId row)), (''eventType'', JStr (x_eventType row)), (''occurredAt'', jdate t),
           (''aggregateType'', JStr (x_aggregateType row)), (''aggregateId'', JStr (x_aggregateId row)),
           (''region'', JStr region), (''payload'', x_payload row)]"

definition publish_row :: "string \<Rightarrow> outbox_row \<Rightarrow> unit io" where
  "publish_row region row =
     bindE now (\<lambda>t.
     bindE (getE (\<lambda>w. outboundExchange (env w))) (\<lambda>exchange.
     publish exchange (x_eventType row) (envelope region t row)))"

text \<open>The loop: it stops at the first failing publish, after \<open>markFailed\<close>.\<close>

fun publish_loop :: "string \<Rightarrow> conn \<Rightarrow> outbox_row list \<Rightarrow> int list \<Rightarrow> int list io" where
  "publish_loop region trx [] dispatchedIds = returnE dispatchedIds"
| "publish_loop region trx (row # rows) dispatchedIds =
     bindE (tryCatch (seqE (publish_row region row) (returnE None)) (\<lambda>err. returnE (Some err))) (\<lambda>failed.
     case failed of
       None \<Rightarrow> publish_loop region trx rows (dispatchedIds @ [x_id row])
     | Some err \<Rightarrow> seqE (markFailed trx (x_id row) (describeError err)) (returnE dispatchedIds))"

definition drain_body :: "int set \<Rightarrow> string \<Rightarrow> nat \<Rightarrow> conn \<Rightarrow> unit io" where
  "drain_body locked region batchSize trx =
     bindE (claimBatch locked trx batchSize) (\<lambda>rows.
     if rows = [] then returnE ()
     else bindE (publish_loop region trx rows []) (\<lambda>ids. markDispatchedBatch trx ids))"

definition drainOutboxForRegion :: "int set \<Rightarrow> string \<Rightarrow> unit io" where
  "drainOutboxForRegion locked region =
     bindE (db region) (\<lambda>conn.
     bindE (getE (\<lambda>w. outboundBatchSize (env w))) (\<lambda>batchSize.
     transaction conn (drain_body locked region batchSize conn) throwE))"

subsection \<open>Frames\<close>

context quiet_relation begin

lemma moves_publish [moves_intro]: "moves R (publish e k b)"
proof (rule movesI)
  fix w r w'
  assume "publish e k b w = (r, w')"
  then show "R w w'"
    using R_trans [OF R_tick R_trace, of w "[Publish e k b]"] R_tick [of w]
    by (auto simp: publish_def split: option.splits)
qed

lemma moves_publish_row [moves_intro]: "moves R (publish_row g r)"
  unfolding publish_row_def by (intro moves_intro)

end

context shard_relation begin

lemma moves_publish_loop [moves_intro]: "moves R (publish_loop g c rows ids)"
  by (induction rows arbitrary: ids) (auto simp only: publish_loop.simps intro!: moves_intro)

lemma moves_drain_body [moves_intro]: "moves R (drain_body l g n c)"
  unfolding drain_body_def by (intro moves_intro)

end

context hot_relation begin

lemma moves_drain [moves_intro]: "moves R (drainOutboxForRegion l g)"
  unfolding drainOutboxForRegion_def by (intro moves_intro)

end

subsection \<open>What a pass publishes and marks\<close>

text \<open>The messages of a list of rows, as the broker gets them.\<close>

definition published :: "world \<Rightarrow> string \<Rightarrow> outbox_row list \<Rightarrow> effect list" where
  "published w region rows =
     map (\<lambda>row. Publish (outboundExchange (env w)) (x_eventType row) (envelope region (clock w) row)) rows"

lemma publish_row_cases:
  assumes "publish_row region row w = (r, w')"
  obtains e where "r = Inl e" and "w' = tick w"
  | "r = Inr ()" and "w' = (tick w)\<lparr>trace := trace w @ published w region [row]\<rparr>"
  using assms by (auto simp: publish_row_def bindE_def now_def publish_def published_def split: option.splits)

text \<open>
  What the loop did: it published the first \<open>k\<close> rows; if it stopped there, row \<open>k\<close> has one more attempt and
  an error text. It never marks a row itself.
\<close>

definition failed_at :: "outbox_row list \<Rightarrow> nat \<Rightarrow> string \<Rightarrow> outbox_row list \<Rightarrow> outbox_row list" where
  "failed_at rows k err xs =
     (if k < length rows
      then update_where (\<lambda>x. x_id x = x_id (rows ! k))
             (\<lambda>x. x\<lparr>x_attempts := x_attempts x + 1, x_lastError := Some (take 2000 err)\<rparr>) xs
      else xs)"

lemma markFailed_InrE:
  assumes "markFailed c i err w = (Inr u, w')"
  obtains "tables_of w' = (tables_of w)(c := (tables_of w c)\<lparr>outbox :=
       update_where (\<lambda>x. x_id x = i) (\<lambda>x. x\<lparr>x_attempts := x_attempts x + 1, x_lastError := Some (take 2000 err)\<rparr>)
         (outbox (tables_of w c))\<rparr>)" and "trace w' = trace w" and "same_setting w w'"
  using assms unfolding markFailed_def
  by (auto simp: tables_of_def fun_eq_iff set_outbox_def same_setting_def split: if_splits)

lemma publish_loop_Inr:
  assumes "publish_loop region c rows ids w = (Inr out, w')"
  shows "\<exists>k err. k \<le> length rows \<and> out = ids @ map x_id (take k rows) \<and>
           trace w' = trace w @ published w region (take k rows) \<and>
           tables_of w' = (tables_of w)(c := (tables_of w c)\<lparr>outbox := failed_at rows k err (outbox (tables_of w c))\<rparr>) \<and>
           same_setting w w'"
  using assms
proof (induction rows arbitrary: ids w)
  case Nil
  then show ?case by (simp add: published_def failed_at_def same_setting_def)
next
  case (Cons row rows)
  obtain r w1 where p: "publish_row region row w = (r, w1)" by (cases "publish_row region row w")
  from p show ?case
  proof (cases rule: publish_row_cases)
    case (1 e)
    with Cons.prems p have "seqE (markFailed c (x_id row) (describeError e)) (returnE ids) (tick w) = (Inr out, w')"
      by (simp add: bindE_def tryCatch_def seqE_def)
    then obtain u v where m: "markFailed c (x_id row) (describeError e) (tick w) = (Inr u, v)" and v: "out = ids" "w' = v"
      by auto
    from m v show ?thesis
      by (elim markFailed_InrE, intro exI [of _ 0] exI [of _ "describeError e"])
        (simp add: published_def failed_at_def same_setting_def)
  next
    case 2
    with Cons.prems p have rest: "publish_loop region c rows (ids @ [x_id row]) w1 = (Inr out, w')"
      by (simp add: bindE_def tryCatch_def seqE_def)
    have pub: "published w1 region xs = published w region xs" "tables_of w1 = tables_of w" for xs
      using 2 by (simp_all add: published_def tables_of_def fun_eq_iff)
    from Cons.IH [OF rest] obtain k err where k: "k \<le> length rows" "out = (ids @ [x_id row]) @ map x_id (take k rows)"
      "trace w' = trace w1 @ published w region (take k rows)"
      "tables_of w' = (tables_of w)(c := (tables_of w c)\<lparr>outbox := failed_at rows k err (outbox (tables_of w c))\<rparr>)"
      "same_setting w1 w'"
      unfolding pub by blast
    with 2 show ?thesis
      by (intro exI [of _ "Suc k"] exI [of _ err]) (auto simp: published_def failed_at_def same_setting_def)
  qed
qed

text \<open>Whether it returned or threw, the loop published an initial part of its rows, in their order.\<close>

lemma publish_loop_trace:
  assumes "publish_loop region c rows ids w = (r, w')"
  shows "\<exists>k \<le> length rows. trace w' = trace w @ published w region (take k rows)"
  using assms
proof (induction rows arbitrary: ids w)
  case Nil
  then show ?case by (simp add: published_def)
next
  case (Cons row rows)
  obtain q w1 where p: "publish_row region row w = (q, w1)" by (cases "publish_row region row w")
  from p show ?case
  proof (cases rule: publish_row_cases)
    case (1 e)
    obtain u v where m: "markFailed c (x_id row) (describeError e) (tick w) = (u, v)"
      by (cases "markFailed c (x_id row) (describeError e) (tick w)")
    have "trace v = trace w" using m
      by (auto simp: markFailed_def stmt_def split: option.splits sum.splits prod.splits if_splits)
    moreover have "w' = v"
      using Cons.prems p 1 m by (cases u) (auto simp: bindE_def tryCatch_def seqE_def)
    ultimately show ?thesis by (intro exI [of _ 0]) (simp add: published_def)
  next
    case 2
    with Cons.prems p have "publish_loop region c rows (ids @ [x_id row]) w1 = (r, w')"
      by (simp add: bindE_def tryCatch_def seqE_def)
    from Cons.IH [OF this] 2 obtain k where "k \<le> length rows" "trace w' = trace w1 @ published w region (take k rows)"
      by (auto simp: published_def)
    with 2 show ?thesis by (intro exI [of _ "Suc k"]) (simp add: published_def)
  qed
qed

text \<open>The outbox after a pass that published \<open>k\<close> of the rows it claimed.\<close>

definition drained :: "outbox_row list \<Rightarrow> nat \<Rightarrow> string \<Rightarrow> int \<Rightarrow> outbox_row list \<Rightarrow> outbox_row list" where
  "drained rows k err t xs = mark_dispatched (map x_id (take k rows)) t (failed_at rows k err xs)"

lemma markDispatchedBatch_InrE:
  assumes "markDispatchedBatch c ids w = (Inr u, w')"
  obtains "tables_of w' = (tables_of w)(c := (tables_of w c)\<lparr>outbox := mark_dispatched ids (clock w) (outbox (tables_of w c))\<rparr>)"
    and "trace w' = trace w"
  using assms unfolding markDispatchedBatch_def
  by (auto simp: tables_of_def fun_eq_iff set_outbox_def mark_dispatched_def update_where_def split: if_splits)

lemma drain_body_Inr:
  assumes "drain_body locked region n c w = (Inr u, w')"
  shows "\<exists>k err. k \<le> length (claim_rows locked n (outbox (tables_of w c))) \<and>
           trace w' = trace w @ published w region (take k (claim_rows locked n (outbox (tables_of w c)))) \<and>
           tables_of w' = (tables_of w)(c := (tables_of w c)\<lparr>outbox :=
             drained (claim_rows locked n (outbox (tables_of w c))) k err (clock w) (outbox (tables_of w c))\<rparr>)"
proof -
  let ?rows = "claim_rows locked n (outbox (tables_of w c))"
  from assms have cont: "(if ?rows = [] then returnE ()
      else bindE (publish_loop region c ?rows []) (\<lambda>ids. markDispatchedBatch c ids)) (tick w) = (Inr u, w')"
    by (auto simp: drain_body_def claimBatch_def tables_of_def)
  show ?thesis
  proof (cases "?rows = []")
    case True
    then have "w' = tick w" using cont by simp
    with True show ?thesis
      by (auto simp: drained_def failed_at_def published_def mark_dispatched_def update_where_none)
  next
    case False
    with cont obtain ids v where loop: "publish_loop region c ?rows [] (tick w) = (Inr ids, v)"
      and mark: "markDispatchedBatch c ids v = (Inr u, w')" by auto
    from publish_loop_Inr [OF loop] obtain k err where k: "k \<le> length ?rows" "ids = map x_id (take k ?rows)"
      "trace v = trace w @ published w region (take k ?rows)"
      "tables_of v = (tables_of w)(c := (tables_of w c)\<lparr>outbox := failed_at ?rows k err (outbox (tables_of w c))\<rparr>)"
      "clock v = clock w"
      by (auto simp: published_def same_setting_def)
    from mark show ?thesis
      by (rule markDispatchedBatch_InrE) (use k in \<open>auto simp: drained_def\<close>)
  qed
qed

lemma drain_body_trace:
  assumes "drain_body locked region n c w = (r, w')"
  shows "\<exists>k \<le> length (claim_rows locked n (outbox (tables_of w c))).
           trace w' = trace w @ published w region (take k (claim_rows locked n (outbox (tables_of w c))))"
proof -
  let ?rows = "claim_rows locked n (outbox (tables_of w c))"
  have none: "?thesis" if "trace w' = trace w" using that by (intro exI [of _ 0]) (simp add: published_def)
  have stmt_trace: "trace v' = trace v" if "stmt c f v = (q, v')" for f :: "int \<Rightarrow> shard \<Rightarrow> exn + ('q \<times> shard)" and v q v'
    using that by (auto simp: stmt_def split: option.splits sum.splits prod.splits)
  from assms show ?thesis unfolding drain_body_def
  proof (cases rule: bindE_cases)
    case (thrown e)
    then show ?thesis by (intro none stmt_trace) (simp add: claimBatch_def query_def)
  next
    case (went rows v)
    then have rows: "rows = ?rows" "v = tick w" by (auto simp: claimBatch_def tables_of_def)
    show ?thesis
    proof (cases "?rows = []")
      case True
      with went(2) rows have "w' = tick w" by simp
      then show ?thesis by (intro none) simp
    next
      case False
      obtain q v1 where loop: "publish_loop region c ?rows [] (tick w) = (q, v1)"
        by (cases "publish_loop region c ?rows [] (tick w)")
      have "trace w' = trace v1"
        using went(2) rows False loop
        by (cases q) (auto simp: bindE_def markDispatchedBatch_def split: if_splits dest: stmt_trace)
      with publish_loop_trace [OF loop] show ?thesis by (simp add: published_def)
    qed
  qed
qed

lemma transaction_trace:
  assumes "transaction c body throwE w = (r, w')"
  shows "trace w' = trace w \<or> (\<exists>q v. body (tick w) = (q, v) \<and> trace w' = trace v)"
proof -
  have rt: "trace v' = trace v \<and> (\<forall>u. q = Inr u \<longrightarrow> v' = tick v)" if "roundtrip c v = (q, v')" for v q v'
    using that by (cases v) (auto simp: roundtrip_def stmt_def tick_def split: option.splits)
  obtain q1 w1 where b: "roundtrip c w = (q1, w1)" by (cases "roundtrip c w")
  obtain q2 w2 where m: "body w1 = (q2, w2)" by (cases "body w1")
  obtain q3 w3 where c: "roundtrip c w2 = (q3, w3)" by (cases "roundtrip c w2")
  obtain q4 w4 where rb: "roundtrip c (restore c w1 w2) = (q4, w4)" by (cases "roundtrip c (restore c w1 w2)")
  obtain q5 w5 where rc: "roundtrip c (restore c w1 w3) = (q5, w5)" by (cases "roundtrip c (restore c w1 w3)")
  show ?thesis
    using assms b m c rb rc rt [OF b] rt [OF c] rt [OF rb] rt [OF rc]
    by (cases q1; cases q2; cases q3; cases q4; cases q5)
      (auto simp: transaction_def bindE_def seqE_def restore_def)
qed

text \<open>C22: A pass over the outbox publishes an initial part of the rows it claimed, in the order of their ids. If it
  returns, exactly these rows are marked dispatched and the row whose publish failed, if there is one, has one more
  attempt; if it throws, no table has changed, so what it published is published again later.\<close>

theorem drain_outcome:
  assumes "drainOutboxForRegion locked region w = (r, w')"
  shows "\<exists>k err. let rows = claim_rows locked (outboundBatchSize (env w)) (outbox (tables_of w (Hot, region)))
           in k \<le> length rows \<and> trace w' = trace w @ published w region (take k rows) \<and>
              tables_of w' =
                (if isl r then tables_of w
                 else (tables_of w)((Hot, region) := (tables_of w (Hot, region))
                        \<lparr>outbox := drained rows k err (clock w) (outbox (tables_of w (Hot, region)))\<rparr>))"
  using assms unfolding drainOutboxForRegion_def
proof (cases rule: bindE_cases)
  case (thrown e)
  then show ?thesis by (intro exI [of _ 0]) (auto simp: published_def dest: db_thrown)
next
  case (went conn v)
  let ?c = "(Hot, region)" and ?n = "outboundBatchSize (env w)"
  let ?rows = "claim_rows locked ?n (outbox (tables_of w ?c))"
  from went have tr: "transaction ?c (drain_body locked region ?n ?c) throwE w = (r, w')"
    by (auto simp: bindE_def)
  have pub: "published (tick w) region xs = published w region xs" for xs by (simp add: published_def)
  from tr show ?thesis
  proof (cases rule: transaction_throwE_cases [OF tr others_kept.moves_drain_body])
    case (1 e)
    have "\<exists>k \<le> length ?rows. trace w' = trace w @ published w region (take k ?rows)"
      using transaction_trace [OF tr]
    proof (elim disjE exE conjE)
      assume "trace w' = trace w"
      then show ?thesis by (intro exI [of _ 0]) (simp add: published_def)
    next
      fix q v
      assume "drain_body locked region ?n ?c (tick w) = (q, v)" and "trace w' = trace v"
      with drain_body_trace [OF this(1)] show ?thesis by (simp add: pub)
    qed
    then obtain k where "k \<le> length ?rows" "trace w' = trace w @ published w region (take k ?rows)" by blast
    with 1 show ?thesis by (intro exI [of _ k] exI) simp
  next
    case (2 u w2)
    from drain_body_Inr [OF 2(2)] obtain k err where "k \<le> length ?rows" "trace w2 = trace w @ published w region (take k ?rows)"
      "tables_of w2 = (tables_of w)(?c := (tables_of w ?c)\<lparr>outbox := drained ?rows k err (clock w) (outbox (tables_of w ?c))\<rparr>)"
      using pub by auto
    with 2 show ?thesis by (intro exI [of _ k] exI [of _ err]) simp
  qed
qed

subsection \<open>Passes without failures\<close>

definition pending_rows :: "outbox_row list \<Rightarrow> outbox_row list" where
  "pending_rows xs = sort_key x_id (filter pending_row xs)"

lemma claim_rows_free: "claim_rows {} n xs = take n (pending_rows xs)"
  by (simp add: claim_rows_def pending_rows_def)

lemma filter_not_taken:
  assumes "distinct (map f xs)"
  shows "filter (\<lambda>x. f x \<notin> f ` set (take n xs)) xs = drop n xs"
proof -
  have d: "distinct (map f (take n xs) @ map f (drop n xs))"
    using assms by (metis append_take_drop_id map_append)
  have "filter (\<lambda>x. f x \<notin> f ` set (take n xs)) xs =
      filter (\<lambda>x. f x \<notin> f ` set (take n xs)) (take n xs) @ filter (\<lambda>x. f x \<notin> f ` set (take n xs)) (drop n xs)"
    by (metis append_take_drop_id filter_append)
  moreover have "filter (\<lambda>x. f x \<notin> f ` set (take n xs)) (take n xs) = []"
    by (auto simp: filter_empty_conv)
  moreover have "filter (\<lambda>x. f x \<notin> f ` set (take n xs)) (drop n xs) = drop n xs"
    using d by (intro filter_True) auto
  ultimately show ?thesis by simp
qed

lemma pending_after_mark:
  "filter pending_row (mark_dispatched ids t xs) = filter (\<lambda>x. x_id x \<notin> set ids) (filter pending_row xs)"
  by (induction xs) (auto simp: mark_dispatched_def pending_row_def)

text \<open>Marking the first \<open>n\<close> pending rows leaves the others pending.\<close>

lemma pending_rows_marked:
  assumes "distinct (map x_id xs)"
  shows "pending_rows (mark_dispatched (map x_id (take n (pending_rows xs))) t xs) = drop n (pending_rows xs)"
proof -
  let ?ids = "x_id ` set (take n (pending_rows xs))"
  have "pending_rows (mark_dispatched (map x_id (take n (pending_rows xs))) t xs) =
      filter (\<lambda>x. x_id x \<notin> ?ids) (pending_rows xs)"
    by (simp add: pending_rows_def filter_sort pending_after_mark)
  moreover have "distinct (map x_id (pending_rows xs))"
    unfolding pending_rows_def
    using assms by (simp add: distinct_map inj_on_def) 
  ultimately show ?thesis by (simp add: filter_not_taken)
qed

lemma mark_dispatched_ids [simp]: "map x_id (mark_dispatched ids t xs) = map x_id xs"
  by (simp add: mark_dispatched_def map_update_where)

lemma publish_loop_ok:
  assumes "\<forall>n. brokerFault (ext w) n = None"
  shows "\<exists>m. publish_loop region c rows ids w =
           (Inr (ids @ map x_id rows), w\<lparr>steps := m, trace := trace w @ published w region rows\<rparr>)"
  using assms
proof (induction rows arbitrary: ids w)
  case Nil
  then show ?case by (intro exI [of _ "steps w"]) (simp add: published_def)
next
  case (Cons row rows)
  let ?w1 = "(tick w)\<lparr>trace := trace w @ published w region [row]\<rparr>"
  have p: "publish_row region row w = (Inr (), ?w1)"
    using Cons.prems by (simp add: publish_row_def bindE_def now_def publish_def published_def)
  have "\<exists>m. publish_loop region c rows (ids @ [x_id row]) ?w1 =
      (Inr ((ids @ [x_id row]) @ map x_id rows), ?w1\<lparr>steps := m, trace := trace ?w1 @ published ?w1 region rows\<rparr>)"
    by (rule Cons.IH) (simp add: Cons.prems)
  then obtain m where "publish_loop region c rows (ids @ [x_id row]) ?w1 =
      (Inr ((ids @ [x_id row]) @ map x_id rows), ?w1\<lparr>steps := m, trace := trace ?w1 @ published ?w1 region rows\<rparr>)"
    by blast
  with p show ?case
    by (intro exI [of _ m]) (simp add: bindE_def seqE_def tryCatch_def published_def tick_def)
qed

lemma drain_ok:
  assumes up: "\<forall>n. dbFault (ext w) n = None" "\<forall>n. brokerFault (ext w) n = None" and "known_region w region"
  shows "\<exists>w'. drainOutboxForRegion {} region w = (Inr (), w') \<and> ext w' = ext w \<and> env w' = env w \<and> clock w' = clock w \<and>
     trace w' = trace w @ published w region (take (outboundBatchSize (env w)) (pending_rows (outbox (tables_of w (Hot, region))))) \<and>
     outbox (tables_of w' (Hot, region)) =
       mark_dispatched (map x_id (take (outboundBatchSize (env w)) (pending_rows (outbox (tables_of w (Hot, region))))))
         (clock w) (outbox (tables_of w (Hot, region)))"
proof -
  let ?c = "(Hot, region)" and ?n = "outboundBatchSize (env w)"
  let ?rows = "take ?n (pending_rows (outbox (tabs (shards w ?c))))"
  let ?w2 = "tick (tick w)"
  obtain m where loop: "publish_loop region ?c ?rows [] ?w2 =
      (Inr (map x_id ?rows), ?w2\<lparr>steps := m, trace := trace w @ published w region ?rows\<rparr>)"
    using publish_loop_ok [of ?w2 region ?c ?rows "[]"] up(2) by (auto simp: published_def)
  have none: "mark_dispatched [] t xs = xs" for t xs
    by (simp add: mark_dispatched_def update_where_none)
  show ?thesis
    using assms loop none
    by (auto simp: drainOutboxForRegion_def bindE_def transaction_def roundtrip_ok drain_body_def claimBatch_def query_ok
        claim_rows_free seqE_def markDispatchedBatch_def stmt_def tables_of_def published_def)
qed

text \<open>Passes one after the other.\<close>

fun drains :: "nat \<Rightarrow> string \<Rightarrow> world \<Rightarrow> world" where
  "drains 0 region w = w"
| "drains (Suc k) region w = drains k region (snd (drainOutboxForRegion {} region w))"

text \<open>C21: When the database and the broker are up, passes over the outbox of a region deliver every event that was
  waiting, each exactly once and in the order of the ids, and leave nothing pending, as soon as the passes have room
  for them: k passes of batchSize rows for at most k * batchSize events.\<close>

theorem drains_deliver_everything:
  assumes "\<forall>n. dbFault (ext w) n = None" "\<forall>n. brokerFault (ext w) n = None" and "known_region w region"
    and "distinct (map x_id (outbox (tables_of w (Hot, region))))"
    and "length (pending_rows (outbox (tables_of w (Hot, region)))) \<le> k * outboundBatchSize (env w)"
  shows "trace (drains k region w) = trace w @ published w region (pending_rows (outbox (tables_of w (Hot, region)))) \<and>
         (\<forall>x\<in>set (outbox (tables_of (drains k region w) (Hot, region))). \<not> pending_row x)"
  using assms
proof (induction k arbitrary: w)
  case 0
  then have "filter pending_row (outbox (tables_of w (Hot, region))) = []"
    by (simp add: pending_rows_def)
  then show ?case by (simp add: published_def pending_rows_def filter_empty_conv)
next
  case (Suc k)
  let ?c = "(Hot, region)" and ?n = "outboundBatchSize (env w)"
  let ?P = "pending_rows (outbox (tables_of w ?c))"
  obtain w1 where w1: "drainOutboxForRegion {} region w = (Inr (), w1)" "ext w1 = ext w" "env w1 = env w" "clock w1 = clock w"
    "trace w1 = trace w @ published w region (take ?n ?P)"
    "outbox (tables_of w1 ?c) = mark_dispatched (map x_id (take ?n ?P)) (clock w) (outbox (tables_of w ?c))"
    using drain_ok [OF Suc.prems(1-3)] by blast
  have rest: "pending_rows (outbox (tables_of w1 ?c)) = drop ?n ?P"
    using w1(6) pending_rows_marked [OF Suc.prems(4)] by simp
  have "trace (drains k region w1) = trace w1 @ published w1 region (drop ?n ?P) \<and>
      (\<forall>x\<in>set (outbox (tables_of (drains k region w1) ?c)). \<not> pending_row x)"
    using Suc.IH [of w1] Suc.prems w1 rest by (simp add: known_region_def)
  moreover have "published w region (take ?n ?P) @ published w1 region (drop ?n ?P) = published w region ?P"
    using w1 by (simp add: published_def flip: map_append)
  ultimately show ?case using w1 by simp
qed


subsection \<open>Witnesses\<close>

lemmas run_Drain [run] =
  describeError_def publish_def envelope_def publish_row_def drain_body_def drainOutboxForRegion_def published_def
  failed_at_def drained_def pending_rows_def

definition waiting_row :: "int \<Rightarrow> outbox_row" where
  "waiting_row i =
     outbox_new_row i 5 (''e'' @ string_of_int i)
       \<lparr>ox_aggregateType = ''order'', ox_aggregateId = ''p1'', ox_eventType = ORDER_PLACED, ox_payload = JNull\<rparr>"

definition drain_world :: "(nat \<Rightarrow> string option) \<Rightarrow> world" where
  "drain_world faults =
     sample_world\<lparr>ext := sample_outside\<lparr>brokerFault := faults\<rparr>,
       shards := (\<lambda>_. empty_shard)((Hot, ''eg'') := set_outbox [waiting_row 1, waiting_row 2, waiting_row 3] empty_shard)\<rparr>"

text \<open>The second publish fails: one event is out and marked, the second row has an attempt, the third none.\<close>

theorem drain_outcome_witness:
  "\<exists>w' k err. drainOutboxForRegion {} ''eg'' (drain_world ((\<lambda>_. None)(3 := Some ''down''))) = (Inr (), w') \<and>
     outbox (tables_of w' (Hot, ''eg'')) =
       drained [waiting_row 1, waiting_row 2, waiting_row 3] k err 1000000 [waiting_row 1, waiting_row 2, waiting_row 3] \<and>
     trace w' = published (drain_world (\<lambda>_. None)) ''eg'' (take k [waiting_row 1, waiting_row 2, waiting_row 3])"
proof -
  let ?w = "drain_world ((\<lambda>_. None)(3 := Some ''down''))" and ?rows = "[waiting_row 1, waiting_row 2, waiting_row 3]"
  have ret: "fst (drainOutboxForRegion {} ''eg'' ?w) = Inr ()"
    by (simp add: run drain_world_def waiting_row_def ORDER_PLACED_def)
  have rows: "claim_rows {} 10 ?rows = ?rows" by (simp add: run waiting_row_def)
  have w: "outboundBatchSize (env ?w) = 10" "outbox (tables_of ?w (Hot, ''eg'')) = ?rows" "trace ?w = []" "clock ?w = 1000000"
    by (simp_all add: drain_world_def sample_world_def sample_env_def tables_of_def)
  from drain_outcome [OF run_result [OF refl ret]] obtain k err where
    "trace (snd (drainOutboxForRegion {} ''eg'' ?w)) = published ?w ''eg'' (take k ?rows)"
    "tables_of (snd (drainOutboxForRegion {} ''eg'' ?w)) = (tables_of ?w)((Hot, ''eg'') := (tables_of ?w (Hot, ''eg''))
       \<lparr>outbox := drained ?rows k err 1000000 ?rows\<rparr>)"
    by (auto simp: w rows Let_def)
  with run_result [OF refl ret] show ?thesis
    by (intro exI conjI) (auto simp: published_def drain_world_def sample_world_def)
qed

theorem drains_deliver_everything_witness:
  "trace (drains 1 ''eg'' (drain_world (\<lambda>_. None))) =
     published (drain_world (\<lambda>_. None)) ''eg'' [waiting_row 1, waiting_row 2, waiting_row 3]"
proof -
  let ?w = "drain_world (\<lambda>_. None)" and ?rows = "[waiting_row 1, waiting_row 2, waiting_row 3]"
  have w: "outbox (tables_of ?w (Hot, ''eg'')) = ?rows" "trace ?w = []" "outboundBatchSize (env ?w) = 10"
    "known_region ?w ''eg''" "\<forall>n. dbFault (ext ?w) n = None" "\<forall>n. brokerFault (ext ?w) n = None"
    by (simp_all add: drain_world_def sample_world_def sample_env_def sample_outside_def tables_of_def known_region_def
        toLowerCase_def lower_char_def)
  have p: "pending_rows ?rows = ?rows" "distinct (map x_id ?rows)" by (simp_all add: run waiting_row_def)
  from drains_deliver_everything [of ?w "''eg''" 1] w p show ?thesis by simp
qed

end
