(* ===== verification/Archival.thy ===== *)
theory Archival
  imports Cache OrderLaws
begin

section \<open>Moving old rows to the archive\<close>

text \<open>
  \<open>src/lib/jobs/archival.worker.ts\<close> and \<open>archival.helpers.ts\<close>: once a night the rows of former years are
  copied from the hot cluster of a region to its archive cluster and then deleted from the hot one, table by
  table and batch by batch. A table is a \<open>table_spec\<close>: how to read and write it in \<open>tables\<close>, its keys, its
  time column. The locale \<open>archivable\<close> is what the walk relies on for one table; it is interpreted for all six
  specifications of the worker. \<open>Date.now()\<close>, which only the time budget reads, is the clock of the world plus
  \<open>elapsed\<close>, an arbitrary function of the number of steps done; \<open>NOW()\<close> of the queries is the clock.
\<close>

subsection \<open>Table specifications\<close>

text \<open>
  \<open>sp_key\<close> is the conflict target (the primary key), \<open>sp_copy\<close> the row as it is inserted again: a JSON null
  of a JSONB column comes back from the driver as a null of the column, which a \<open>NOT NULL\<close> column refuses
  (\<open>None\<close>). \<open>sp_clash\<close> is a conflict on another unique constraint of the table.
\<close>

record 'r table_spec =
  sp_table :: string
  sp_get :: "tables \<Rightarrow> 'r list"
  sp_put :: "'r list \<Rightarrow> tables \<Rightarrow> tables"
  sp_id :: "'r \<Rightarrow> int"
  sp_key :: "'r \<Rightarrow> int \<times> int"
  sp_time :: "'r \<Rightarrow> int"
  sp_copy :: "'r \<Rightarrow> 'r option"
  sp_clash :: "'r \<Rightarrow> 'r \<Rightarrow> bool"

definition agent_earnings_spec :: "agent_earning_entity table_spec" where
  "agent_earnings_spec =
     \<lparr>sp_table = ''agent_earnings'', sp_get = earnings, sp_put = (\<lambda>rs tb. tb\<lparr>earnings := rs\<rparr>), sp_id = e_id,
      sp_key = (\<lambda>r. (e_id r, 0)), sp_time = e_earnedAt, sp_copy = Some, sp_clash = (\<lambda>r a. e_orderId r = e_orderId a)\<rparr>"

definition webhook_events_spec :: "webhook_event_entity table_spec" where
  "webhook_events_spec =
     \<lparr>sp_table = ''payment_webhook_events'', sp_get = webhook_events, sp_put = (\<lambda>rs tb. tb\<lparr>webhook_events := rs\<rparr>),
      sp_id = w_id, sp_key = (\<lambda>r. (w_id r, 0)), sp_time = w_receivedAt,
      sp_copy = (\<lambda>r. if w_payload r = JNull then None else Some r),
      sp_clash = (\<lambda>r a. w_providerId r = w_providerId a \<and> w_providerEventId r = w_providerEventId a)\<rparr>"

definition payment_sessions_spec :: "payment_session_entity table_spec" where
  "payment_sessions_spec =
     \<lparr>sp_table = ''payment_sessions'', sp_get = payment_sessions, sp_put = (\<lambda>rs tb. tb\<lparr>payment_sessions := rs\<rparr>),
      sp_id = s_id, sp_key = (\<lambda>r. (s_id r, 0)), sp_time = s_createdAt,
      sp_copy = (\<lambda>r. if s_rawInitPayload r = JNull then None
                     else if s_rawLastPayload r = Some JNull then Some (r\<lparr>s_rawLastPayload := None\<rparr>) else Some r),
      sp_clash = (\<lambda>r a. s_providerSessionId r = s_providerSessionId a)\<rparr>"

definition transactions_spec :: "transaction_entity table_spec" where
  "transactions_spec =
     \<lparr>sp_table = ''transactions'', sp_get = transactions, sp_put = (\<lambda>rs tb. tb\<lparr>transactions := rs\<rparr>), sp_id = t_id,
      sp_key = (\<lambda>r. (t_id r, 0)), sp_time = t_createdAt, sp_copy = Some,
      sp_clash = (\<lambda>r a. t_idempotencyKey r \<noteq> None \<and> t_idempotencyKey r = t_idempotencyKey a)\<rparr>"

definition order_items_spec :: "order_item_entity table_spec" where
  "order_items_spec =
     \<lparr>sp_table = ''order_items'', sp_get = order_items, sp_put = (\<lambda>rs tb. tb\<lparr>order_items := rs\<rparr>), sp_id = i_id,
      sp_key = (\<lambda>r. (i_id r, 0)), sp_time = i_createdAt, sp_copy = Some, sp_clash = (\<lambda>_ _. False)\<rparr>"

definition orders_spec :: "order_entity table_spec" where
  "orders_spec =
     \<lparr>sp_table = ''orders'', sp_get = orders, sp_put = (\<lambda>rs tb. tb\<lparr>orders := rs\<rparr>), sp_id = o_id,
      sp_key = (\<lambda>r. (o_id r, o_createdAt r)), sp_time = o_createdAt, sp_copy = Some, sp_clash = (\<lambda>_ _. False)\<rparr>"

lemmas spec_defs = agent_earnings_spec_def webhook_events_spec_def payment_sessions_spec_def transactions_spec_def
  order_items_spec_def orders_spec_def

subsection \<open>archival.helpers.ts\<close>

definition archivalLockKey :: "string \<Rightarrow> string" where
  "archivalLockKey region = ''archival:'' @ region @ '':lock''"

text \<open>\<open>date_trunc('year', NOW())\<close> in UTC.\<close>

definition cutoff :: "int \<Rightarrow> int" where
  "cutoff t = year_start (utcFullYear t)"

definition dateNow :: "(nat \<Rightarrow> int) \<Rightarrow> int io" where
  "dateNow elapsed = getE (\<lambda>w. clock w + elapsed (steps w))"

definition old_rows :: "'r table_spec \<Rightarrow> int \<Rightarrow> tables \<Rightarrow> 'r list" where
  "old_rows spec t tb = sort_key (sp_id spec) (filter (\<lambda>r. sp_time spec r < cutoff t) (sp_get spec tb))"

definition select_old :: "'r table_spec \<Rightarrow> nat \<Rightarrow> conn \<Rightarrow> 'r list io" where
  "select_old spec limit c = stmt c (\<lambda>t sh. Inr (take limit (old_rows spec t (tabs sh)), sh))"

text \<open>
  \<open>INSERT .. ON CONFLICT (key) DO NOTHING\<close>, row after row. A null in a \<open>NOT NULL\<close> column is refused before
  the conflict is looked at.
\<close>

fun insert_ignoring :: "'r table_spec \<Rightarrow> 'r list \<Rightarrow> 'r list \<Rightarrow> exn + 'r list" where
  "insert_ignoring spec [] acc = Inr acc"
| "insert_ignoring spec (r # rs) acc =
     (case sp_copy spec r of
        None \<Rightarrow> Inl (JsError ''null value violates not-null constraint'')
      | Some c \<Rightarrow>
          if \<exists>a\<in>set acc. sp_key spec a = sp_key spec c then insert_ignoring spec rs acc
          else if \<exists>a\<in>set acc. sp_clash spec c a then Inl unique_error
          else insert_ignoring spec rs (acc @ [c]))"

definition archive_rows :: "'r table_spec \<Rightarrow> 'r list \<Rightarrow> conn \<Rightarrow> unit io" where
  "archive_rows spec rows c = stmt c (\<lambda>_ sh.
     case insert_ignoring spec rows (sp_get spec (tabs sh)) of
       Inl e \<Rightarrow> Inl e
     | Inr acc \<Rightarrow> Inr ((), sh\<lparr>tabs := sp_put spec acc (tabs sh)\<rparr>))"

definition delete_rows :: "'r table_spec \<Rightarrow> int list \<Rightarrow> conn \<Rightarrow> unit io" where
  "delete_rows spec ids c = stmt c (\<lambda>_ sh.
     Inr ((), sh\<lparr>tabs := sp_put spec (filter (\<lambda>r. sp_id spec r \<notin> set ids) (sp_get spec (tabs sh))) (tabs sh)\<rparr>))"

text \<open>One batch: insert into the archive and commit, then delete from the hot cluster and commit.\<close>

definition move_batch :: "'r table_spec \<Rightarrow> 'r list \<Rightarrow> conn \<Rightarrow> conn \<Rightarrow> unit io" where
  "move_batch spec rows hotConn archiveConn =
     seqE (transaction archiveConn (archive_rows spec rows archiveConn) throwE)
          (transaction hotConn (delete_rows spec (map (sp_id spec) rows) hotConn) throwE)"

text \<open>The loop, with fuel; \<open>None\<close> is a loop that did not end within it.\<close>

fun batch_loop :: "nat \<Rightarrow> (nat \<Rightarrow> int) \<Rightarrow> 'r table_spec \<Rightarrow> nat \<Rightarrow> conn \<Rightarrow> conn \<Rightarrow> int \<Rightarrow> nat \<Rightarrow> nat \<Rightarrow>
    (nat \<times> nat) option io" where
  "batch_loop 0 elapsed spec limit hotConn archiveConn until moved batches = returnE None"
| "batch_loop (Suc fuel) elapsed spec limit hotConn archiveConn until moved batches =
     bindE (dateNow elapsed) (\<lambda>t.
     if until \<le> t then returnE (Some (moved, batches))
     else
       bindE (select_old spec limit hotConn) (\<lambda>rows.
       if rows = [] then returnE (Some (moved, batches))
       else
         seqE (move_batch spec rows hotConn archiveConn)
              (if length rows < limit then returnE (Some (moved + length rows, batches + 1))
               else batch_loop fuel elapsed spec limit hotConn archiveConn until (moved + length rows) (batches + 1))))"

text \<open>As many rounds as the hot table has rows, and one more, are enough.\<close>

definition moveTableBatches ::
  "(nat \<Rightarrow> int) \<Rightarrow> 'r table_spec \<Rightarrow> conn \<Rightarrow> conn \<Rightarrow> int \<Rightarrow> (nat \<times> nat) option io" where
  "moveTableBatches elapsed spec hotConn archiveConn until =
     bindE (getE (\<lambda>w. archivalBatchSize (env w))) (\<lambda>limit.
     bindE (getE (\<lambda>w. Suc (length (sp_get spec (tables_of w hotConn))))) (\<lambda>fuel.
     batch_loop fuel elapsed spec limit hotConn archiveConn until 0 0))"

subsection \<open>archival.worker.ts\<close>

record archival_result =
  ar_region :: string
  ar_startedAt :: string
  ar_durationMs :: int
  ar_totalMoved :: nat
  ar_perTable :: "(string \<times> nat \<times> nat) list"
  ar_timedOut :: bool

type_synonym table_walk = "string \<times> (conn \<Rightarrow> conn \<Rightarrow> int \<Rightarrow> (nat \<times> nat) option io)"

definition walk :: "(nat \<Rightarrow> int) \<Rightarrow> 'r table_spec \<Rightarrow> table_walk" where
  "walk elapsed spec = (sp_table spec, moveTableBatches elapsed spec)"

text \<open>Children before the \<open>orders\<close> parent.\<close>

definition TABLE_SPECS :: "(nat \<Rightarrow> int) \<Rightarrow> table_walk list" where
  "TABLE_SPECS elapsed =
     [walk elapsed agent_earnings_spec, walk elapsed webhook_events_spec, walk elapsed payment_sessions_spec,
      walk elapsed transactions_spec, walk elapsed order_items_spec, walk elapsed orders_spec]"

fun walk_tables :: "(nat \<Rightarrow> int) \<Rightarrow> conn \<Rightarrow> conn \<Rightarrow> int \<Rightarrow> table_walk list \<Rightarrow>
    (string \<times> nat \<times> nat) list \<Rightarrow> nat \<Rightarrow> bool \<Rightarrow> ((string \<times> nat \<times> nat) list \<times> nat \<times> bool) option io" where
  "walk_tables elapsed hotConn archiveConn until [] perTable moved timedOut = returnE (Some (perTable, moved, timedOut))"
| "walk_tables elapsed hotConn archiveConn until ((name, move) # specs) perTable moved timedOut =
     bindE (dateNow elapsed) (\<lambda>t.
     if until \<le> t then returnE (Some (perTable, moved, True))
     else
       bindE (move hotConn archiveConn until) (\<lambda>result.
       case result of
         None \<Rightarrow> returnE None
       | Some (n, batches) \<Rightarrow>
           bindE (dateNow elapsed) (\<lambda>t'.
           walk_tables elapsed hotConn archiveConn until specs (perTable @ [(name, n, batches)]) (moved + n)
             (timedOut \<or> until \<le> t'))))"

text \<open>
  The result is \<open>None\<close> when another run holds the lock. The inner \<open>option\<close> is the fuel. \<open>dbArchive\<close> and
  \<open>db\<close> come before the \<open>try\<close>.
\<close>

definition runArchivalForRegion ::
  "(nat \<Rightarrow> int) \<Rightarrow> string \<Rightarrow> string \<Rightarrow> archival_result option option io" where
  "runArchivalForRegion elapsed pid region =
     bindE (getE env) (\<lambda>e.
     bindE (cache_trySet (archivalLockKey region) (Text pid) (Some (archivalMaxRuntimeMin e * 60 + 60))) (\<lambda>acquired.
     if \<not> acquired then returnE (Some None)
     else
       bindE (dateNow elapsed) (\<lambda>startedAt.
       let until = startedAt + archivalMaxRuntimeMin e * 60 * 1000
       in bindE (db region) (\<lambda>hotConn.
          bindE (dbArchive region) (\<lambda>archiveConn.
          bindE (tryFinally (walk_tables elapsed hotConn archiveConn until (TABLE_SPECS elapsed) [] 0 False)
                   (bindE (cache_del (archivalLockKey region)) (\<lambda>_. returnE ()))) (\<lambda>walked.
          case walked of
            None \<Rightarrow> returnE None
          | Some (perTable, moved, timedOut) \<Rightarrow>
              bindE (dateNow elapsed) (\<lambda>t.
              returnE (Some (Some \<lparr>ar_region = region, ar_startedAt = toISOString startedAt,
                ar_durationMs = t - startedAt, ar_totalMoved = moved, ar_perTable = perTable,
                ar_timedOut = timedOut\<rparr>)))))))))"

subsection \<open>What the walk leaves alone\<close>

context quiet_relation begin

lemma moves_dateNow [moves_intro]: "moves R (dateNow el)"
  unfolding dateNow_def by (rule moves_getE)

lemma moves_select_old [moves_intro]: "moves R (select_old spec n c)"
  by (rule movesI) (auto simp: select_old_def stmt_def R_tick split: option.splits)

text \<open>A walk moves within a relation that its batches move within.\<close>

lemma moves_batch_loop:
  assumes "\<And>rows. moves R (move_batch spec rows h a)"
  shows "moves R (batch_loop fuel el spec n h a d m b)"
proof (induction fuel arbitrary: m b)
  case 0
  show ?case unfolding batch_loop.simps by (rule moves_returnE)
next
  case (Suc fuel)
  show ?case unfolding batch_loop.simps by (intro moves_intro assms Suc.IH)
qed

lemma moves_moveTableBatches:
  assumes "\<And>rows. moves R (move_batch spec rows h a)"
  shows "moves R (moveTableBatches el spec h a d)"
  unfolding moveTableBatches_def by (intro moves_intro moves_batch_loop assms)

lemma moves_walk_tables:
  assumes "\<And>name move. (name, move) \<in> set specs \<Longrightarrow> moves R (move h a d)"
  shows "moves R (walk_tables el h a d specs pt n to)"
  using assms
proof (induction specs arbitrary: pt n to)
  case Nil
  show ?case unfolding walk_tables.simps by (rule moves_returnE)
next
  case (Cons s specs)
  obtain name move where s: "s = (name, move)" by (cases s)
  show ?case unfolding s walk_tables.simps
    by (intro moves_intro Cons.IH) (use Cons.prems s in auto)
qed

end

lemma setting_move_batch [moves_intro]: "moves same_setting (move_batch spec rows h a)"
  unfolding move_batch_def archive_rows_def delete_rows_def
  by (intro same_setting.moves_seqE same_setting.moves_transaction same_setting.moves_stmt same_setting.moves_throwE)

text \<open>Tables other than that of the specification.\<close>

lemma same_move_batch [moves_intro]:
  fixes f :: "tables \<Rightarrow> 'b"
  assumes "\<And>tb xs. f (sp_put spec xs tb) = f tb"
  shows "moves (per_table (same f)) (move_batch spec rows h a)"
  unfolding move_batch_def archive_rows_def delete_rows_def
  by (intro moves_intro same.moves_stmt_Q) (auto simp: same_def assms split: sum.splits)

subsection \<open>One table: nothing is lost\<close>

definition hot_rows :: "'r table_spec \<Rightarrow> string \<Rightarrow> world \<Rightarrow> 'r list" where
  "hot_rows spec g w = sp_get spec (tables_of w (Hot, g))"

definition archived_rows :: "'r table_spec \<Rightarrow> string \<Rightarrow> world \<Rightarrow> 'r list" where
  "archived_rows spec g w = sp_get spec (tables_of w (Archive, g))"

text \<open>The hot rows have different ids: they come from a sequence, and \<open>id\<close> is the primary key of five of the tables.\<close>

definition ids_distinct :: "'r table_spec \<Rightarrow> string \<Rightarrow> world \<Rightarrow> bool" where
  "ids_distinct spec g w \<longleftrightarrow> inj_on (sp_id spec) (set (hot_rows spec g w))"

text \<open>
  No row appears in the hot cluster and none disappears from the archive. What appears in the archive is the
  copy of a hot row whose key the archive did not have. A row that leaves the hot cluster is from a former year,
  and the archive holds a row under its key: its copy, or one it held before (\<open>ON CONFLICT DO NOTHING\<close>).
\<close>

definition moved_safely :: "'r table_spec \<Rightarrow> string \<Rightarrow> world \<Rightarrow> world \<Rightarrow> bool" where
  "moved_safely spec g w w' \<longleftrightarrow>
     set (hot_rows spec g w') \<subseteq> set (hot_rows spec g w) \<and>
     set (archived_rows spec g w) \<subseteq> set (archived_rows spec g w') \<and>
     set (archived_rows spec g w') \<subseteq> set (archived_rows spec g w) \<union>
       {c. \<exists>r\<in>set (hot_rows spec g w). sp_copy spec r = Some c \<and> sp_key spec r \<notin> sp_key spec ` set (archived_rows spec g w)} \<and>
     (\<forall>r\<in>set (hot_rows spec g w). r \<in> set (hot_rows spec g w') \<or>
        sp_time spec r < cutoff (clock w) \<and>
        (\<exists>a\<in>set (archived_rows spec g w'). sp_key spec a = sp_key spec r \<and>
           (sp_copy spec r = Some a \<or> a \<in> set (archived_rows spec g w))))"

definition archival_step :: "'r table_spec \<Rightarrow> string \<Rightarrow> world \<Rightarrow> world \<Rightarrow> bool" where
  "archival_step spec g w w' \<longleftrightarrow>
     clock w' = clock w \<and> (ids_distinct spec g w \<longrightarrow> ids_distinct spec g w' \<and> moved_safely spec g w w')"

lemma moved_safelyD:
  assumes "moved_safely spec g w w'"
  shows "r \<in> set (hot_rows spec g w') \<Longrightarrow> r \<in> set (hot_rows spec g w)"
    and "a \<in> set (archived_rows spec g w) \<Longrightarrow> a \<in> set (archived_rows spec g w')"
    and "c \<in> set (archived_rows spec g w') \<Longrightarrow> c \<notin> set (archived_rows spec g w) \<Longrightarrow>
      \<exists>r\<in>set (hot_rows spec g w). sp_copy spec r = Some c \<and> sp_key spec r \<notin> sp_key spec ` set (archived_rows spec g w)"
    and "r \<in> set (hot_rows spec g w) \<Longrightarrow> r \<notin> set (hot_rows spec g w') \<Longrightarrow> sp_time spec r < cutoff (clock w) \<and>
      (\<exists>a\<in>set (archived_rows spec g w'). sp_key spec a = sp_key spec r \<and>
         (sp_copy spec r = Some a \<or> a \<in> set (archived_rows spec g w)))"
  using assms unfolding moved_safely_def by blast+

lemma moved_safely_same:
  "hot_rows spec g w' = hot_rows spec g w \<Longrightarrow> archived_rows spec g w' = archived_rows spec g w \<Longrightarrow> moved_safely spec g w w'"
  by (simp add: moved_safely_def)

lemma archival_step_same:
  "clock w' = clock w \<Longrightarrow> hot_rows spec g w' = hot_rows spec g w \<Longrightarrow> archived_rows spec g w' = archived_rows spec g w \<Longrightarrow>
   archival_step spec g w w'"
  by (simp add: archival_step_def moved_safely_same ids_distinct_def)

lemma rows_cong [simp]:
  "hot_rows spec g (w\<lparr>steps := n\<rparr>) = hot_rows spec g w" "archived_rows spec g (w\<lparr>steps := n\<rparr>) = archived_rows spec g w"
  "hot_rows spec g (w\<lparr>redis := rd\<rparr>) = hot_rows spec g w" "archived_rows spec g (w\<lparr>redis := rd\<rparr>) = archived_rows spec g w"
  "hot_rows spec g (w\<lparr>trace := es\<rparr>) = hot_rows spec g w" "archived_rows spec g (w\<lparr>trace := es\<rparr>) = archived_rows spec g w"
  "hot_rows spec g (w\<lparr>permCache := pc\<rparr>) = hot_rows spec g w"
  "archived_rows spec g (w\<lparr>permCache := pc\<rparr>) = archived_rows spec g w"
  by (simp_all add: hot_rows_def archived_rows_def tables_of_def)

text \<open>A program that does not write the table moves within the relation.\<close>

lemma archival_step_other:
  assumes "moves (per_table (same (sp_get spec))) m" and "moves same_setting m"
  shows "moves (archival_step spec g) m"
proof (rule movesI)
  fix w r w'
  assume "m w = (r, w')"
  then show "archival_step spec g w w'"
    using sameD [OF assms(1)] same_settingD [OF assms(2)]
    by (intro archival_step_same) (auto simp: hot_rows_def archived_rows_def)
qed

subsection \<open>The contract of a table\<close>

locale archivable =
  fixes spec :: "'r table_spec"
  assumes get_put [simp]: "sp_get spec (sp_put spec rs tb) = rs"
    and copy_key: "sp_copy spec r = Some c \<Longrightarrow> sp_key spec c = sp_key spec r"
    and key_id: "sp_key spec r = sp_key spec s \<Longrightarrow> sp_id spec r = sp_id spec s"
begin

text \<open>
  A row of the archive under the key of a hot row was there before, or it is the copy of that very row.
\<close>

lemma archived_under_key:
  assumes "ids_distinct spec g w" and "moved_safely spec g w v" and "r \<in> set (hot_rows spec g w)"
    and "a \<in> set (archived_rows spec g v)" and "sp_key spec a = sp_key spec r"
  shows "sp_copy spec r = Some a \<or> a \<in> set (archived_rows spec g w)"
proof (rule disjCI)
  assume "a \<notin> set (archived_rows spec g w)"
  with assms(2,4) obtain r0 where r0: "r0 \<in> set (hot_rows spec g w)" "sp_copy spec r0 = Some a"
    unfolding moved_safely_def by blast
  with assms(5) have "sp_id spec r = sp_id spec r0" by (intro key_id) (simp add: copy_key)
  with assms(1,3) r0 have "r = r0" by (auto simp: ids_distinct_def inj_on_def)
  with r0 show "sp_copy spec r = Some a" by simp
qed

lemma moved_safely_trans:
  assumes ids: "ids_distinct spec g w" and 1: "moved_safely spec g w v" and 2: "moved_safely spec g v u"
    and clk: "clock v = clock w"
  shows "moved_safely spec g w u"
proof -
  have "set (hot_rows spec g u) \<subseteq> set (hot_rows spec g w)" "set (archived_rows spec g w) \<subseteq> set (archived_rows spec g u)"
    using moved_safelyD(1,2) [OF 1] moved_safelyD(1,2) [OF 2] by blast+
  moreover have "\<exists>r\<in>set (hot_rows spec g w). sp_copy spec r = Some c \<and> sp_key spec r \<notin> sp_key spec ` set (archived_rows spec g w)"
    if c: "c \<in> set (archived_rows spec g u)" "c \<notin> set (archived_rows spec g w)" for c
  proof (cases "c \<in> set (archived_rows spec g v)")
    case True
    then show ?thesis using moved_safelyD(3) [OF 1] c(2) by blast
  next
    case False
    with moved_safelyD(3) [OF 2 c(1)] obtain r where r: "r \<in> set (hot_rows spec g v)" "sp_copy spec r = Some c"
      "sp_key spec r \<notin> sp_key spec ` set (archived_rows spec g v)" by blast
    then have "sp_key spec r \<notin> sp_key spec ` set (archived_rows spec g w)" using moved_safelyD(2) [OF 1] by blast
    with r moved_safelyD(1) [OF 1] show ?thesis by blast
  qed
  moreover have "r \<in> set (hot_rows spec g u) \<or> sp_time spec r < cutoff (clock w) \<and>
      (\<exists>a\<in>set (archived_rows spec g u). sp_key spec a = sp_key spec r \<and>
         (sp_copy spec r = Some a \<or> a \<in> set (archived_rows spec g w)))"
    if r: "r \<in> set (hot_rows spec g w)" for r
  proof (cases "r \<in> set (hot_rows spec g v)")
    case False
    from moved_safelyD(4) [OF 1 r this] moved_safelyD(2) [OF 2] show ?thesis by blast
  next
    case True
    with moved_safelyD(4) [OF 2] clk archived_under_key [OF ids 1 r] show ?thesis by (cases "r \<in> set (hot_rows spec g u)") auto
  qed
  ultimately show ?thesis unfolding moved_safely_def by blast
qed

end

sublocale archivable \<subseteq> archival_step: quiet_relation "archival_step spec g" for g
proof
  show "archival_step spec g s u" if "archival_step spec g s t" "archival_step spec g t u" for s t u
    using that moved_safely_trans [of g s t u] by (auto simp: archival_step_def)
qed (simp_all add: archival_step_same)

context archivable begin

lemma insert_ignoring_Inr:
  assumes "insert_ignoring spec rows acc = Inr acc'"
  shows "set acc \<subseteq> set acc' \<and>
         set acc' \<subseteq> set acc \<union> {c. \<exists>r\<in>set rows. sp_copy spec r = Some c \<and> sp_key spec r \<notin> sp_key spec ` set acc} \<and>
         (\<forall>r\<in>set rows. \<exists>c. sp_copy spec r = Some c \<and> (\<exists>a\<in>set acc'. sp_key spec a = sp_key spec c))"
  using assms
proof (induction rows arbitrary: acc)
  case Nil
  then show ?case by simp
next
  case (Cons r rows)
  from Cons.prems obtain c where c: "sp_copy spec r = Some c" by (auto split: option.splits)
  consider (present) "\<exists>a\<in>set acc. sp_key spec a = sp_key spec c" "insert_ignoring spec rows acc = Inr acc'"
    | (new) "insert_ignoring spec rows (acc @ [c]) = Inr acc'" "sp_key spec r \<notin> sp_key spec ` set acc"
    using Cons.prems c copy_key [OF c] by (auto split: if_splits) (metis imageE)
  then show ?case
  proof cases
    case present
    from Cons.IH [OF present(2)] present(1) c show ?thesis by fastforce
  next
    case new
    from Cons.IH [OF new(1)] new(2) c show ?thesis by fastforce
  qed
qed

text \<open>The tables after the two halves of a batch.\<close>

lemma archive_half:
  assumes "transaction c (archive_rows spec rows c) throwE w = (r, w')"
  obtains e where "r = Inl e" and "tables_of w' = tables_of w"
  | acc where "r = Inr ()" and "insert_ignoring spec rows (sp_get spec (tables_of w c)) = Inr acc"
    and "tables_of w' = (tables_of w)(c := sp_put spec acc (tables_of w c))"
proof -
  have "moves (others_kept c) (archive_rows spec rows c)"
    unfolding archive_rows_def by (rule others_kept.moves_stmt)
  with assms show thesis
  proof (cases rule: transaction_throwE_cases)
    case (1 e)
    with that(1) show thesis .
  next
    case (2 x w2)
    then obtain acc where "insert_ignoring spec rows (sp_get spec (tables_of w c)) = Inr acc"
      "tables_of w2 = (tables_of w)(c := sp_put spec acc (tables_of w c))"
      unfolding archive_rows_def by (auto simp: tables_of_def fun_eq_iff split: sum.splits)
    with 2 that(2) show thesis by simp
  qed
qed

lemma delete_half:
  assumes "transaction c (delete_rows spec ids c) throwE w = (r, w')"
  obtains e where "r = Inl e" and "tables_of w' = tables_of w"
  | "r = Inr ()" and "tables_of w' = (tables_of w)(c :=
      sp_put spec (filter (\<lambda>x. sp_id spec x \<notin> set ids) (sp_get spec (tables_of w c))) (tables_of w c))"
proof -
  have "moves (others_kept c) (delete_rows spec ids c)"
    unfolding delete_rows_def by (rule others_kept.moves_stmt)
  with assms show thesis
  proof (cases rule: transaction_throwE_cases)
    case (1 e)
    with that(1) show thesis .
  next
    case (2 x w2)
    then have "tables_of w2 = (tables_of w)(c :=
        sp_put spec (filter (\<lambda>x. sp_id spec x \<notin> set ids) (sp_get spec (tables_of w c))) (tables_of w c))"
      unfolding delete_rows_def by (auto simp: tables_of_def fun_eq_iff)
    with 2 that(2) show thesis by simp
  qed
qed

text \<open>After the first half the archive has a row under the key of every row of the batch.\<close>

lemma archive_half_step:
  assumes ids: "ids_distinct spec g w" and sub: "set rows \<subseteq> set (hot_rows spec g w)"
    and acc: "insert_ignoring spec rows (archived_rows spec g w) = Inr acc"
    and hot: "hot_rows spec g v = hot_rows spec g w" and arch: "archived_rows spec g v = acc"
  shows "ids_distinct spec g v \<and> moved_safely spec g w v \<and>
         (\<forall>r\<in>set rows. \<exists>a\<in>set (archived_rows spec g v). sp_key spec a = sp_key spec r)"
proof -
  note ins = insert_ignoring_Inr [OF acc]
  have "moved_safely spec g w v" using ins sub unfolding moved_safely_def hot arch by blast
  moreover have "\<exists>a\<in>set acc. sp_key spec a = sp_key spec r" if "r \<in> set rows" for r
    using ins that copy_key by metis
  ultimately show ?thesis using ids by (simp add: ids_distinct_def hot arch)
qed

lemma delete_half_step:
  assumes ids: "ids_distinct spec g v" and sub: "set rows \<subseteq> set (hot_rows spec g v)"
    and old: "\<forall>r\<in>set rows. sp_time spec r < cutoff (clock v)"
    and archived: "\<forall>r\<in>set rows. \<exists>a\<in>set (archived_rows spec g v). sp_key spec a = sp_key spec r"
    and hot: "hot_rows spec g u = filter (\<lambda>x. sp_id spec x \<notin> set (map (sp_id spec) rows)) (hot_rows spec g v)"
    and arch: "archived_rows spec g u = archived_rows spec g v"
  shows "ids_distinct spec g u \<and> moved_safely spec g v u"
proof -
  have gone: "r \<in> set rows" if "r \<in> set (hot_rows spec g v)" "r \<notin> set (hot_rows spec g u)" for r
  proof -
    from that hot obtain r0 where "r0 \<in> set rows" "sp_id spec r = sp_id spec r0" by auto
    with ids sub that(1) show ?thesis by (metis ids_distinct_def inj_onD subsetD)
  qed
  have "ids_distinct spec g u" using ids by (auto simp: ids_distinct_def hot inj_on_def)
  moreover have "moved_safely spec g v u"
    unfolding moved_safely_def arch using gone old archived by (auto simp: hot)
  ultimately show ?thesis by blast
qed

text \<open>A batch of old hot rows, whatever fails in it.\<close>

lemma move_batch_step:
  assumes run: "move_batch spec rows (Hot, g) (Archive, g) w = (r, w')"
    and sub: "set rows \<subseteq> set (hot_rows spec g w)" and old: "\<forall>r\<in>set rows. sp_time spec r < cutoff (clock w)"
  shows "archival_step spec g w w'"
    and "r = Inr u \<Longrightarrow> hot_rows spec g w' = filter (\<lambda>x. sp_id spec x \<notin> sp_id spec ` set rows) (hot_rows spec g w)"
proof -
  have clk: "clock w' = clock w" using same_settingD [OF setting_move_batch run] by simp
  have "archival_step spec g w w' \<and>
    (r = Inr u \<longrightarrow> hot_rows spec g w' = filter (\<lambda>x. sp_id spec x \<notin> sp_id spec ` set rows) (hot_rows spec g w))"
    using run unfolding move_batch_def
  proof (cases rule: seqE_cases)
    case (thrown e)
    then have "tables_of w' = tables_of w" by (auto elim: archive_half)
    with thrown clk show ?thesis by (auto intro!: archival_step_same simp: hot_rows_def archived_rows_def)
  next
    case (went x v)
    from went(1) obtain acc where acc: "insert_ignoring spec rows (archived_rows spec g w) = Inr acc"
      and v: "hot_rows spec g v = hot_rows spec g w" "archived_rows spec g v = acc"
      by (rule archive_half) (auto simp: hot_rows_def archived_rows_def)
    have "moves same_setting (transaction (Archive, g) (archive_rows spec rows (Archive, g)) throwE)"
      unfolding archive_rows_def
      by (intro same_setting.moves_transaction same_setting.moves_stmt same_setting.moves_throwE)
    from same_settingD [OF this went(1)] have cv: "clock v = clock w" by simp
    note first = archive_half_step [OF _ sub acc v]
    from went(2) show ?thesis
    proof (cases rule: delete_half)
      case (1 e)
      with v have "hot_rows spec g w' = hot_rows spec g v" "archived_rows spec g w' = archived_rows spec g v"
        by (simp_all add: hot_rows_def archived_rows_def)
      with first clk 1 show ?thesis by (auto simp: archival_step_def ids_distinct_def moved_safely_def v)
    next
      case 2
      then have h: "hot_rows spec g w' = filter (\<lambda>x. sp_id spec x \<notin> set (map (sp_id spec) rows)) (hot_rows spec g v)"
        and a: "archived_rows spec g w' = archived_rows spec g v"
        by (simp_all add: hot_rows_def archived_rows_def)
      have "ids_distinct spec g w' \<and> moved_safely spec g w w'" if "ids_distinct spec g w"
        using delete_half_step [OF _ _ _ _ h a] first [OF that] sub old v cv moved_safely_trans [OF that, of v w'] by auto
      with clk h v show ?thesis by (simp add: archival_step_def)
    qed
  qed
  then show "archival_step spec g w w'"
    and "r = Inr u \<Longrightarrow> hot_rows spec g w' = filter (\<lambda>x. sp_id spec x \<notin> sp_id spec ` set rows) (hot_rows spec g w)"
    by blast+
qed

lemma select_old_InrE:
  assumes "select_old spec n (Hot, g) w = (Inr rows, v)"
  obtains "rows = take n (sort_key (sp_id spec) (filter (\<lambda>r. sp_time spec r < cutoff (clock w)) (hot_rows spec g w)))"
    and "v = tick w"
  using assms unfolding select_old_def
  by (cases w) (auto simp: old_rows_def hot_rows_def tables_of_def tick_def)

lemma selected_rows:
  assumes "rows = take n (sort_key (sp_id spec) (filter (\<lambda>r. sp_time spec r < t) (hot_rows spec g w)))"
  shows "set rows \<subseteq> set (hot_rows spec g w)" and "\<forall>r\<in>set rows. sp_time spec r < t"
  using assms by (auto dest!: in_set_takeD)

text \<open>One round of the loop: it stops, or it moves a batch.\<close>

lemma batch_loop_Suc_cases:
  assumes "batch_loop (Suc fuel) el spec n (Hot, g) (Archive, g) d m b w = (r, w')"
  obtains (late) "r = Inr (Some (m, b))" and "w' = w" and "d \<le> clock w + el (steps w)"
  | (failed) e where "r = Inl e" and "w' = tick w"
  | (empty) "r = Inr (Some (m, b))" and "w' = tick w"
      and "take n (sort_key (sp_id spec) (filter (\<lambda>r. sp_time spec r < cutoff (clock w)) (hot_rows spec g w))) = []"
  | (thrown) rows e where "move_batch spec rows (Hot, g) (Archive, g) (tick w) = (Inl e, w')" and "r = Inl e"
      and "rows = take n (sort_key (sp_id spec) (filter (\<lambda>r. sp_time spec r < cutoff (clock w)) (hot_rows spec g w)))"
  | (moved) rows u v where "move_batch spec rows (Hot, g) (Archive, g) (tick w) = (Inr u, v)" and "rows \<noteq> []"
      and "rows = take n (sort_key (sp_id spec) (filter (\<lambda>r. sp_time spec r < cutoff (clock w)) (hot_rows spec g w)))"
      and "(if length rows < n then returnE (Some (m + length rows, b + 1))
            else batch_loop fuel el spec n (Hot, g) (Archive, g) d (m + length rows) (b + 1)) v = (r, w')"
proof (cases "d \<le> clock w + el (steps w)")
  case True
  with assms late show thesis by (simp add: bindE_def dateNow_def)
next
  case False
  obtain q v where q: "select_old spec n (Hot, g) w = (q, v)" by (cases "select_old spec n (Hot, g) w")
  show thesis
  proof (cases q)
    case (Inl e)
    with q have "v = tick w" unfolding select_old_def by (auto dest: stmt_Inl)
    with assms False q Inl have "r = Inl e" "w' = tick w" by (simp_all add: bindE_def dateNow_def)
    then show thesis by (rule failed)
  next
    case (Inr rows)
    with q obtain rows': "rows = take n (sort_key (sp_id spec) (filter (\<lambda>r. sp_time spec r < cutoff (clock w)) (hot_rows spec g w)))"
      and v: "v = tick w" by (auto elim: select_old_InrE)
    show thesis
    proof (cases "rows = []")
      case True
      with assms False q Inr rows' v empty show thesis by (simp add: bindE_def dateNow_def)
    next
      case nonempty: False
      let ?rest = "if length rows < n then returnE (Some (m + length rows, b + 1))
            else batch_loop fuel el spec n (Hot, g) (Archive, g) d (m + length rows) (b + 1)"
      from assms False q Inr v nonempty have "seqE (move_batch spec rows (Hot, g) (Archive, g)) ?rest (tick w) = (r, w')"
        by (simp add: bindE_def dateNow_def)
      then show thesis
      proof (cases rule: seqE_cases)
        case (thrown e)
        with rows' \<open>r = Inl e\<close> show thesis by (intro that(4))
      next
        case (went u v')
        with rows' nonempty show thesis by (intro that(5))
      qed
    qed
  qed
qed

lemma batch_loop_step: "moves (archival_step spec g) (batch_loop fuel el spec n (Hot, g) (Archive, g) d m b)"
proof (induction fuel arbitrary: m b)
  case 0
  show ?case unfolding batch_loop.simps by (rule archival_step.moves_returnE)
next
  case (Suc fuel)
  show ?case
  proof (rule movesI)
    fix w r w'
    assume "batch_loop (Suc fuel) el spec n (Hot, g) (Archive, g) d m b w = (r, w')"
    then show "archival_step spec g w w'"
    proof (cases rule: batch_loop_Suc_cases)
      case late
      then show ?thesis by (simp add: archival_step.R_refl)
    next
      case (failed e)
      then show ?thesis by (simp add: archival_step.R_tick)
    next
      case empty
      then show ?thesis by (simp add: archival_step.R_tick)
    next
      case (thrown rows e)
      note sel = selected_rows [OF thrown(3)]
      have "archival_step spec g (tick w) w'"
        by (rule move_batch_step(1) [OF thrown(1)]) (use sel in \<open>auto simp: hot_rows_def\<close>)
      then show ?thesis using archival_step.R_tick archival_step.R_trans by blast
    next
      case (moved rows u v)
      note sel = selected_rows [OF moved(3)]
      have one: "archival_step spec g (tick w) v"
        by (rule move_batch_step(1) [OF moved(1)]) (use sel in \<open>auto simp: hot_rows_def\<close>)
      have "archival_step spec g v w'"
      proof (cases "length rows < n")
        case True
        with moved(4) show ?thesis by (simp add: archival_step.R_refl)
      next
        case False
        with moved(4) movesD [OF Suc.IH] show ?thesis by simp
      qed
      with one show ?thesis using archival_step.R_tick archival_step.R_trans by blast
    qed
  qed
qed

lemma moveTableBatches_step [moves_intro]:
  "moves (archival_step spec g) (moveTableBatches el spec (Hot, g) (Archive, g) d)"
  unfolding moveTableBatches_def
  by (intro archival_step.moves_bindE archival_step.moves_getE batch_loop_step)

text \<open>Every batch takes rows off the hot table, so the fuel lasts.\<close>

lemma batch_shrinks:
  assumes "move_batch spec rows (Hot, g) (Archive, g) w = (Inr u, v)" and "rows \<noteq> []"
    and "set rows \<subseteq> set (hot_rows spec g w)" and "\<forall>r\<in>set rows. sp_time spec r < cutoff (clock w)"
  shows "length (hot_rows spec g v) < length (hot_rows spec g w)"
proof -
  obtain r where "r \<in> set rows" using assms(2) by (cases rows) auto
  with assms(3) have "length (filter (\<lambda>x. sp_id spec x \<notin> sp_id spec ` set rows) (hot_rows spec g w)) < length (hot_rows spec g w)"
    by (intro length_filter_less [of r]) auto
  with move_batch_step(2) [OF assms(1,3,4) refl] show ?thesis by simp
qed

lemma batch_loop_enough_fuel:
  assumes "batch_loop fuel el spec n (Hot, g) (Archive, g) d m b w = (Inr res, w')"
    and "length (hot_rows spec g w) < fuel"
  shows "res \<noteq> None"
  using assms
proof (induction fuel arbitrary: m b w)
  case 0
  then show ?case by simp
next
  case (Suc fuel)
  from Suc.prems(1) show ?case
  proof (cases rule: batch_loop_Suc_cases)
    case (moved rows u v)
    note sel = selected_rows [OF moved(3)]
    have "length (hot_rows spec g v) < length (hot_rows spec g (tick w))"
      by (rule batch_shrinks [OF moved(1,2)]) (use sel in \<open>auto simp: hot_rows_def\<close>)
    then have "length (hot_rows spec g v) < fuel" using Suc.prems(2) by (simp add: hot_rows_def)
    with moved(4) Suc.IH show ?thesis by (auto split: if_splits)
  qed auto
qed

lemma moveTableBatches_terminates:
  "moveTableBatches el spec (Hot, g) (Archive, g) d w \<noteq> (Inr None, w')"
proof
  assume "moveTableBatches el spec (Hot, g) (Archive, g) d w = (Inr None, w')"
  then have "batch_loop (Suc (length (sp_get spec (tables_of w (Hot, g))))) el spec (archivalBatchSize (env w))
      (Hot, g) (Archive, g) d 0 0 w = (Inr None, w')"
    by (simp add: moveTableBatches_def bindE_def)
  from batch_loop_enough_fuel [OF this] show False by (simp add: hot_rows_def)
qed

text \<open>A walk that returned before its deadline left no old row in the hot table.\<close>

lemma batch_loop_complete:
  assumes "batch_loop fuel el spec n (Hot, g) (Archive, g) d m b w = (Inr (Some res), w')"
    and "\<forall>k. clock w + el k < d" and "0 < n"
  shows "\<forall>r\<in>set (hot_rows spec g w'). \<not> sp_time spec r < cutoff (clock w)"
  using assms
proof (induction fuel arbitrary: m b w)
  case 0
  then show ?case by simp
next
  case (Suc fuel)
  from Suc.prems(1) show ?case
  proof (cases rule: batch_loop_Suc_cases)
    case late
    with Suc.prems(2) show ?thesis by (auto simp: not_le [symmetric])
  next
    case empty
    then have "sort_key (sp_id spec) (filter (\<lambda>r. sp_time spec r < cutoff (clock w)) (hot_rows spec g w)) = []"
      using Suc.prems(3) by (simp only: take_eq_Nil) simp
    then have "set (filter (\<lambda>r. sp_time spec r < cutoff (clock w)) (hot_rows spec g w)) = {}"
      by (metis set_sort set_empty)
    with empty show ?thesis by (auto simp: hot_rows_def)
  next
    case (moved rows u v)
    note sel = selected_rows [OF moved(3)]
    have clk: "clock v = clock w" using same_settingD [OF setting_move_batch moved(1)] by simp
    have hv: "hot_rows spec g v = filter (\<lambda>x. sp_id spec x \<notin> sp_id spec ` set rows) (hot_rows spec g w)"
      using move_batch_step(2) [OF moved(1) _ _ refl] sel by (simp add: hot_rows_def)
    show ?thesis
    proof (cases "length rows < n")
      case True
      then have "set rows = {r \<in> set (hot_rows spec g w). sp_time spec r < cutoff (clock w)}"
        using moved(3) by simp
      with True moved(4) hv show ?thesis by auto
    next
      case False
      with moved(4) have "batch_loop fuel el spec n (Hot, g) (Archive, g) d (m + length rows) (b + 1) v = (Inr (Some res), w')"
        by simp
      from Suc.IH [OF this] Suc.prems(2,3) clk show ?thesis by simp
    qed
  qed auto
qed

lemma moveTableBatches_complete:
  assumes "moveTableBatches el spec (Hot, g) (Archive, g) d w = (Inr (Some res), w')"
    and "\<forall>k. clock w + el k < d" and "0 < archivalBatchSize (env w)"
  shows "\<forall>r\<in>set (hot_rows spec g w'). \<not> sp_time spec r < cutoff (clock w)"
proof -
  from assms(1) have "batch_loop (Suc (length (sp_get spec (tables_of w (Hot, g))))) el spec (archivalBatchSize (env w))
      (Hot, g) (Archive, g) d 0 0 w = (Inr (Some res), w')"
    by (simp add: moveTableBatches_def bindE_def)
  then show ?thesis using assms(2,3) by (rule batch_loop_complete)
qed

end

interpretation earnings_walk: archivable agent_earnings_spec
  by unfold_locales (auto simp: agent_earnings_spec_def)

interpretation webhooks_walk: archivable webhook_events_spec
  by unfold_locales (auto simp: webhook_events_spec_def split: if_splits)

interpretation sessions_walk: archivable payment_sessions_spec
  by unfold_locales (auto simp: payment_sessions_spec_def split: if_splits)

interpretation transactions_walk: archivable transactions_spec
  by unfold_locales (auto simp: transactions_spec_def)

interpretation items_walk: archivable order_items_spec
  by unfold_locales (auto simp: order_items_spec_def)

interpretation orders_walk: archivable orders_spec
  by unfold_locales (auto simp: orders_spec_def)

subsection \<open>The run\<close>

context quiet_relation begin

lemma moves_bind_dbArchive:
  assumes "moves R (f (Archive, g))"
  shows "moves R (bindE (dbArchive g) f)"
proof (rule movesI)
  fix w r w'
  assume "bindE (dbArchive g) f w = (r, w')"
  then show "R w w'"
  proof (cases rule: bindE_cases)
    case (thrown e)
    then have "w' = w" using getShard_pure [of Archive g w] by (simp add: dbArchive_def)
    then show ?thesis by (simp add: R_refl)
  next
    case (went c v)
    then have "f (Archive, g) w = (r, w')" by auto
    then show ?thesis by (rule movesD [OF assms])
  qed
qed

lemma moves_runArchival:
  assumes "\<And>name move d. (name, move) \<in> set (TABLE_SPECS el) \<Longrightarrow> moves R (move (Hot, g) (Archive, g) d)"
  shows "moves R (runArchivalForRegion el pid g)"
  unfolding runArchivalForRegion_def
  by (intro moves_intro moves_bind_db moves_bind_dbArchive moves_walk_tables assms)

end

lemma TABLE_SPECS_cases:
  assumes "(name, move) \<in> set (TABLE_SPECS el)"
  obtains "move = moveTableBatches el agent_earnings_spec" | "move = moveTableBatches el webhook_events_spec"
  | "move = moveTableBatches el payment_sessions_spec" | "move = moveTableBatches el transactions_spec"
  | "move = moveTableBatches el order_items_spec" | "move = moveTableBatches el orders_spec"
  using assms by (auto simp: TABLE_SPECS_def walk_def)

lemma setting_moveTableBatches: "moves same_setting (moveTableBatches el spec h a d)"
  by (intro same_setting.moves_moveTableBatches setting_move_batch)

lemma archival_step_untouched:
  assumes "\<And>tb xs. sp_get spec (sp_put spec' xs tb) = sp_get spec tb"
  shows "moves (archival_step spec g) (moveTableBatches el spec' h a d)"
  by (intro archival_step_other setting_moveTableBatches same.moves_moveTableBatches same_move_batch assms)

text \<open>Each table is touched by its own walk only, so every walk moves safely on all six.\<close>

definition archival_steps :: "string \<Rightarrow> world \<Rightarrow> world \<Rightarrow> bool" where
  "archival_steps g w w' \<longleftrightarrow>
     archival_step agent_earnings_spec g w w' \<and> archival_step webhook_events_spec g w w' \<and>
     archival_step payment_sessions_spec g w w' \<and> archival_step transactions_spec g w w' \<and>
     archival_step order_items_spec g w w' \<and> archival_step orders_spec g w w'"

interpretation archival_steps: quiet_relation "archival_steps g" for g
proof
  show "archival_steps g s u" if "archival_steps g s t" "archival_steps g t u" for s t u
    using that earnings_walk.archival_step.R_trans [of g s t u]
      webhooks_walk.archival_step.R_trans [of g s t u]
      sessions_walk.archival_step.R_trans [of g s t u]
      transactions_walk.archival_step.R_trans [of g s t u]
      items_walk.archival_step.R_trans [of g s t u]
      orders_walk.archival_step.R_trans [of g s t u]
    unfolding archival_steps_def by blast
qed (simp_all add: archival_steps_def archival_step_same)

lemma archival_stepsI:
  assumes "moves (archival_step agent_earnings_spec g) m" and "moves (archival_step webhook_events_spec g) m"
    and "moves (archival_step payment_sessions_spec g) m" and "moves (archival_step transactions_spec g) m"
    and "moves (archival_step order_items_spec g) m" and "moves (archival_step orders_spec g) m"
  shows "moves (archival_steps g) m"
  using assms by (simp add: moves_def archival_steps_def)

lemmas own_walk_step = earnings_walk.moveTableBatches_step webhooks_walk.moveTableBatches_step
  sessions_walk.moveTableBatches_step transactions_walk.moveTableBatches_step
  items_walk.moveTableBatches_step orders_walk.moveTableBatches_step

lemma walk_steps:
  "moves (archival_steps g) (moveTableBatches el agent_earnings_spec (Hot, g) (Archive, g) d)"
  "moves (archival_steps g) (moveTableBatches el webhook_events_spec (Hot, g) (Archive, g) d)"
  "moves (archival_steps g) (moveTableBatches el payment_sessions_spec (Hot, g) (Archive, g) d)"
  "moves (archival_steps g) (moveTableBatches el transactions_spec (Hot, g) (Archive, g) d)"
  "moves (archival_steps g) (moveTableBatches el order_items_spec (Hot, g) (Archive, g) d)"
  "moves (archival_steps g) (moveTableBatches el orders_spec (Hot, g) (Archive, g) d)"
  by (intro archival_stepsI own_walk_step archival_step_untouched; simp add: spec_defs)+

lemma walks_step:
  "(name, move) \<in> set (TABLE_SPECS el) \<Longrightarrow> moves (archival_steps g) (move (Hot, g) (Archive, g) d)"
  by (erule TABLE_SPECS_cases) (simp_all only: walk_steps)

lemma runArchival_steps: "runArchivalForRegion el pid g w = (r, w') \<Longrightarrow> archival_steps g w w'"
  by (rule movesD [OF archival_steps.moves_runArchival]) (rule walks_step)

text \<open>C19: No row disappears in a night's archival run, wherever it fails. With the ids of the hot rows of a table
  distinct: for each of the six tables of a region, every hot row is afterwards still in the hot cluster, or it is from
  a former year and the archive has a row under its key - its copy, unless the archive had a row under that key before
  the run, which then stays as it was (a copy older than the hot row stays old: \<open>archival_keeps_stale_copy\<close>). No row
  leaves the archive, and the only new ones are copies of hot rows whose key it did not have.\<close>

theorem runArchival_loses_nothing:
  assumes "runArchivalForRegion el pid g w = (r, w')"
    and "ids_distinct agent_earnings_spec g w" and "ids_distinct webhook_events_spec g w" and "ids_distinct payment_sessions_spec g w"
    and "ids_distinct transactions_spec g w" and "ids_distinct order_items_spec g w" and "ids_distinct orders_spec g w"
  shows "moved_safely agent_earnings_spec g w w' \<and> moved_safely webhook_events_spec g w w' \<and>
         moved_safely payment_sessions_spec g w w' \<and> moved_safely transactions_spec g w w' \<and>
         moved_safely order_items_spec g w w' \<and> moved_safely orders_spec g w w'"
  using assms(2-7) runArchival_steps [OF assms(1)] by (simp add: archival_steps_def archival_step_def)

lemma walk_tables_ends:
  assumes "walk_tables el h a d specs pt n to w = (Inr None, w')"
    and "\<And>name move v v'. (name, move) \<in> set specs \<Longrightarrow> move h a d v \<noteq> (Inr None, v')"
  shows False
  using assms
proof (induction specs arbitrary: pt n to w)
  case Nil
  then show ?case by simp
next
  case (Cons s specs)
  obtain name move where s: "s = (name, move)" by (cases s)
  obtain q v where q: "move h a d w = (q, v)" by (cases "move h a d w")
  have q': "q \<noteq> Inr None" using Cons.prems(2) [of name move w v] q s by auto
  with Cons.prems(1) q obtain pt' n' to' where "walk_tables el h a d specs pt' n' to' v = (Inr None, w')"
    by (auto simp: s bindE_def dateNow_def split: if_splits sum.splits option.splits)
  with Cons.IH Cons.prems(2) show ?case by (metis list.set_intros(2))
qed

text \<open>C25: The archival run ends: whatever fails and however long the steps take, no loop over the batches of a table
  goes on forever.\<close>

theorem runArchival_terminates: "fst (runArchivalForRegion el pid g w) \<noteq> Inr None"
proof
  assume "fst (runArchivalForRegion el pid g w) = Inr None"
  then have "runArchivalForRegion el pid g w = (Inr None, snd (runArchivalForRegion el pid g w))" by (metis prod.collapse)
  then obtain d v v' where "walk_tables el (Hot, g) (Archive, g) d (TABLE_SPECS el) [] 0 False v = (Inr None, v')"
    by (auto simp: runArchivalForRegion_def tryFinally_def Let_def split: if_splits option.splits prod.splits sum.splits)
  then show False
  proof (rule walk_tables_ends)
    show "move (Hot, g) (Archive, g) d v \<noteq> (Inr None, v')" if "(name, move) \<in> set (TABLE_SPECS el)" for name move v v'
      using that by (elim TABLE_SPECS_cases)
        (simp_all add: earnings_walk.moveTableBatches_terminates webhooks_walk.moveTableBatches_terminates
          sessions_walk.moveTableBatches_terminates transactions_walk.moveTableBatches_terminates
          items_walk.moveTableBatches_terminates orders_walk.moveTableBatches_terminates)
  qed
qed

subsection \<open>A run in time leaves nothing old\<close>

definition nothing_old :: "'r table_spec \<Rightarrow> string \<Rightarrow> int \<Rightarrow> world \<Rightarrow> bool" where
  "nothing_old spec g t w \<longleftrightarrow> (\<forall>r\<in>set (hot_rows spec g w). \<not> sp_time spec r < cutoff t)"

lemma TABLE_SPECS_setting: "(name, move) \<in> set (TABLE_SPECS el) \<Longrightarrow> moves same_setting (move h a d)"
  by (erule TABLE_SPECS_cases) (simp_all only: setting_moveTableBatches)

lemma nothing_old_stays:
  "archival_step spec g v w \<Longrightarrow> ids_distinct spec g v \<Longrightarrow> nothing_old spec g t v \<Longrightarrow> nothing_old spec g t w"
  by (auto simp: archival_step_def moved_safely_def nothing_old_def)

context archivable begin

lemma walk_tables_complete:
  assumes "walk_tables el (Hot, g) (Archive, g) d specs pt n to w = (Inr (Some x), w')"
    and "set specs \<subseteq> set (TABLE_SPECS el)" and "(name0, moveTableBatches el spec) \<in> set specs"
    and step: "\<And>name move. (name, move) \<in> set (TABLE_SPECS el) \<Longrightarrow> moves (archival_step spec g) (move (Hot, g) (Archive, g) d)"
    and "ids_distinct spec g w" and "\<forall>k. clock w + el k < d" and "0 < archivalBatchSize (env w)"
  shows "nothing_old spec g (clock w) w'"
  using assms(1-3,5-7)
proof (induction specs arbitrary: pt n to w)
  case Nil
  then show ?case by simp
next
  case (Cons s specs)
  obtain name move where s: "s = (name, move)" by (cases s)
  have mem: "(name, move) \<in> set (TABLE_SPECS el)" using Cons.prems(2) s by auto
  obtain q v where q: "move (Hot, g) (Archive, g) d w = (q, v)" by (cases "move (Hot, g) (Archive, g) d w")
  have intime: "\<not> d \<le> clock w + el (steps w)" using Cons.prems(5) by (simp add: not_le)
  with Cons.prems(1) q obtain m b pt' n' to' where q': "q = Inr (Some (m, b))"
    and rest: "walk_tables el (Hot, g) (Archive, g) d specs pt' n' to' v = (Inr (Some x), w')"
    by (auto simp: s bindE_def dateNow_def split: sum.splits option.splits)
  have set: "clock v = clock w" "env v = env w" using same_settingD [OF TABLE_SPECS_setting [OF mem] q] by simp_all
  have one: "archival_step spec g w v" by (rule movesD [OF step [OF mem] q])
  with Cons.prems(4) have ids: "ids_distinct spec g v" by (simp add: archival_step_def)
  have later: "archival_step spec g v w'"
    by (rule movesD [OF archival_step.moves_walk_tables rest]) (use step Cons.prems(2) in auto)
  show ?case
  proof (cases "move = moveTableBatches el spec")
    case True
    with q q' Cons.prems(5,6) have "nothing_old spec g (clock w) v"
      unfolding nothing_old_def by (intro moveTableBatches_complete [of el g d w "(m, b)"]) auto
    then show ?thesis by (rule nothing_old_stays [OF later ids])
  next
    case False
    with Cons.prems s set ids show ?thesis using Cons.IH [OF rest] by auto
  qed
qed

end

lemma archival_steps_parts:
  assumes "moves (archival_steps g) m"
  shows "moves (archival_step agent_earnings_spec g) m"
    and "moves (archival_step webhook_events_spec g) m"
    and "moves (archival_step payment_sessions_spec g) m"
    and "moves (archival_step transactions_spec g) m"
    and "moves (archival_step order_items_spec g) m"
    and "moves (archival_step orders_spec g) m"
  using assms by (simp_all add: moves_def archival_steps_def)

lemma rows_tables_cong:
  "tables_of v = tables_of w \<Longrightarrow> ids_distinct spec g v = ids_distinct spec g w"
  "tables_of v = tables_of w \<Longrightarrow> nothing_old spec g t v = nothing_old spec g t w"
  by (simp_all add: ids_distinct_def nothing_old_def hot_rows_def archived_rows_def)

text \<open>The parts of a run that returned a result.\<close>

lemma runArchival_InrE:
  assumes "runArchivalForRegion el pid g w = (Inr (Some (Some res)), w')"
  obtains v x v' where "walk_tables el (Hot, g) (Archive, g)
      (clock w + el (steps v) + archivalMaxRuntimeMin (env w) * 60 * 1000) (TABLE_SPECS el) [] 0 False v = (Inr (Some x), v')"
    and "tables_of v = tables_of w" and "same_setting w v" and "tables_of w' = tables_of v'"
proof -
  let ?lock = "cache_trySet (archivalLockKey g) (Text pid) (Some (archivalMaxRuntimeMin (env w) * 60 + 60))"
  have k: "moves shards_kept ?lock" "moves same_setting ?lock"
    "moves shards_kept (bindE (cache_del (archivalLockKey g)) (\<lambda>_. returnE ()))"
    by (intro moves_intro)+
  obtain q v where lock: "?lock w = (q, v)" by (cases "?lock w")
  have v: "tables_of v = tables_of w" "same_setting w v"
    using tables_keptD [OF k(1) lock] movesD [OF k(2) lock] by simp_all
  let ?d = "clock w + el (steps v) + archivalMaxRuntimeMin (env w) * 60 * 1000"
  let ?walk = "walk_tables el (Hot, g) (Archive, g) ?d (TABLE_SPECS el) [] 0 False"
  let ?del = "bindE (cache_del (archivalLockKey g)) (\<lambda>_. returnE ())"
  from assms lock v(2) obtain x u where fin: "tryFinally ?walk ?del v = (Inr (Some x), u)" and w': "w' = u"
    unfolding runArchivalForRegion_def
    by (auto simp: dateNow_def Let_def same_setting_def split: if_splits option.splits prod.splits)
  obtain p v' where walk: "?walk v = (p, v')" by (cases "?walk v")
  obtain p' u' where del: "?del v' = (p', u')" by (cases "?del v'")
  from fin walk del have "p = Inr (Some x)" "u' = u"
    by (auto simp: tryFinally_def split: sum.splits)
  with walk del v w' tables_keptD [OF k(3) del] show thesis by (intro that) simp_all
qed

context archivable begin

lemma run_complete:
  assumes "runArchivalForRegion el pid g w = (Inr (Some (Some res)), w')"
    and "\<forall>i j. el i - el j < archivalMaxRuntimeMin (env w) * 60 * 1000" and "0 < archivalBatchSize (env w)"
    and "ids_distinct spec g w" and mem: "(sp_table spec, moveTableBatches el spec) \<in> set (TABLE_SPECS el)"
    and part: "\<And>m :: (nat \<times> nat) option io. moves (archival_steps g) m \<Longrightarrow> moves (archival_step spec g) m"
  shows "nothing_old spec g (clock w) w'"
proof -
  from assms(1) obtain v x v' where walk: "walk_tables el (Hot, g) (Archive, g)
      (clock w + el (steps v) + archivalMaxRuntimeMin (env w) * 60 * 1000) (TABLE_SPECS el) [] 0 False v = (Inr (Some x), v')"
    and v: "tables_of v = tables_of w" "clock v = clock w" "env v = env w" and w': "tables_of w' = tables_of v'"
    by (rule runArchival_InrE) (auto simp: same_setting_def)
  have intime: "clock w + el k < clock w + el (steps v) + archivalMaxRuntimeMin (env w) * 60 * 1000" for k
  proof -
    from assms(2) have "el k - el (steps v) < archivalMaxRuntimeMin (env w) * 60 * 1000" by blast
    then show ?thesis by linarith
  qed
  show ?thesis
    unfolding rows_tables_cong(2) [OF w'] v(2) [symmetric]
    by (rule walk_tables_complete [OF walk order_refl mem], rule part, erule walks_step)
      (use assms(3,4) intime v in \<open>simp_all add: rows_tables_cong(1) [OF v(1)]\<close>)
qed

end

lemma own_walks:
  "(sp_table agent_earnings_spec, moveTableBatches el agent_earnings_spec) \<in> set (TABLE_SPECS el)"
  "(sp_table webhook_events_spec, moveTableBatches el webhook_events_spec) \<in> set (TABLE_SPECS el)"
  "(sp_table payment_sessions_spec, moveTableBatches el payment_sessions_spec) \<in> set (TABLE_SPECS el)"
  "(sp_table transactions_spec, moveTableBatches el transactions_spec) \<in> set (TABLE_SPECS el)"
  "(sp_table order_items_spec, moveTableBatches el order_items_spec) \<in> set (TABLE_SPECS el)"
  "(sp_table orders_spec, moveTableBatches el orders_spec) \<in> set (TABLE_SPECS el)"
  by (simp_all add: TABLE_SPECS_def walk_def)

text \<open>C20: A run that returned a report, with a positive batch size and a budget its steps do not use up, has moved
  every row of a former year: where the ids of the hot rows of a table are distinct, none of the six hot tables
  of the region has one left, whatever state the row was in.\<close>

theorem runArchival_complete:
  assumes "runArchivalForRegion el pid g w = (Inr (Some (Some res)), w')"
    and "\<forall>i j. el i - el j < archivalMaxRuntimeMin (env w) * 60 * 1000" and "0 < archivalBatchSize (env w)"
    and "ids_distinct agent_earnings_spec g w" and "ids_distinct webhook_events_spec g w" and "ids_distinct payment_sessions_spec g w"
    and "ids_distinct transactions_spec g w" and "ids_distinct order_items_spec g w" and "ids_distinct orders_spec g w"
  shows "nothing_old agent_earnings_spec g (clock w) w' \<and> nothing_old webhook_events_spec g (clock w) w' \<and>
         nothing_old payment_sessions_spec g (clock w) w' \<and> nothing_old transactions_spec g (clock w) w' \<and>
         nothing_old order_items_spec g (clock w) w' \<and> nothing_old orders_spec g (clock w) w'"
  by (intro conjI earnings_walk.run_complete [OF assms(1-4) own_walks(1) archival_steps_parts(1)]
      webhooks_walk.run_complete [OF assms(1-3,5) own_walks(2) archival_steps_parts(2)]
      sessions_walk.run_complete [OF assms(1-3,6) own_walks(3) archival_steps_parts(3)]
      transactions_walk.run_complete [OF assms(1-3,7) own_walks(4) archival_steps_parts(4)]
      items_walk.run_complete [OF assms(1-3,8) own_walks(5) archival_steps_parts(5)]
      orders_walk.run_complete [OF assms(1-3,9) own_walks(6) archival_steps_parts(6)])

subsection \<open>A copy that an interrupted run left behind\<close>

text \<open>
  \<open>ON CONFLICT DO NOTHING\<close> keeps the row the archive has. When a run stopped after the copy of an order was
  committed and the hot order was changed before the next run, that run deletes the changed order and the archive
  keeps the old one: the change is lost.
\<close>

theorem archival_keeps_stale_copy:
  assumes "runArchivalForRegion el pid g w = (Inr (Some (Some res)), w')"
    and "\<forall>i j. el i - el j < archivalMaxRuntimeMin (env w) * 60 * 1000" and "0 < archivalBatchSize (env w)"
    and "ids_distinct orders_spec g w"
    and changed: "o' \<in> set (hot_rows orders_spec g w)" "o_createdAt o' < cutoff (clock w)"
      "o' \<notin> set (archived_rows orders_spec g w)"
    and stale: "a \<in> set (archived_rows orders_spec g w)" "o_id a = o_id o'" "o_createdAt a = o_createdAt o'"
  shows "a \<in> set (archived_rows orders_spec g w') \<and> o' \<notin> set (archived_rows orders_spec g w') \<and>
         o' \<notin> set (hot_rows orders_spec g w')"
proof -
  have spec: "sp_copy orders_spec = Some" "sp_key orders_spec = (\<lambda>r. (o_id r, o_createdAt r))" "sp_time orders_spec = o_createdAt"
    by (simp_all add: orders_spec_def)
  have safe: "moved_safely orders_spec g w w'"
    using runArchival_steps [OF assms(1)] assms(4) by (simp add: archival_steps_def archival_step_def)
  have gone: "nothing_old orders_spec g (clock w) w'"
    by (rule orders_walk.run_complete [OF assms(1-4) own_walks(6) archival_steps_parts(6)])
  have "sp_key orders_spec o' \<in> sp_key orders_spec ` set (archived_rows orders_spec g w)"
    using stale by (auto simp: spec image_iff intro!: bexI [of _ a])
  with safe changed(3) have "o' \<notin> set (archived_rows orders_spec g w')" unfolding moved_safely_def by (auto simp: spec)
  with safe gone changed(2) stale(1) show ?thesis by (auto simp: moved_safely_def nothing_old_def spec)
qed

subsection \<open>A request between the two halves of a batch\<close>

text \<open>The copy and the deletion of a batch are two transactions that lock nothing in between: a status written to an
  order of the batch between them is lost. Afterwards the order is gone from the hot cluster, the archive has it
  as it was before the update, and the updated row is nowhere.\<close>

theorem archival_loses_update:
  assumes ids: "ids_distinct orders_spec g w"
    and fresh: "\<forall>a\<in>set (archived_rows orders_spec g w). o_id a = o_id o' \<longrightarrow> o_createdAt a = o_createdAt o' \<longrightarrow> a = o'"
    and rows: "set rows \<subseteq> set (hot_rows orders_spec g w)" "o' \<in> set rows"
    and found: "List.find (\<lambda>x. o_publicId x = pid) (hot_rows orders_spec g w) = Some o'" and change: "st \<noteq> o_status o'"
    and copied: "transaction (Archive, g) (archive_rows orders_spec rows (Archive, g)) throwE w = (Inr (), w1)"
    and updated: "updateOrderStatus pid st stamp (Hot, g) w1 = (Inr u, w2)"
    and deleted: "transaction (Hot, g) (delete_rows orders_spec (map o_id rows) (Hot, g)) throwE w2 = (Inr (), w3)"
  shows "o_status u = st \<and> u \<notin> set (hot_rows orders_spec g w3) \<and> u \<notin> set (archived_rows orders_spec g w3) \<and>
         o' \<in> set (archived_rows orders_spec g w3) \<and> (\<forall>x\<in>set (hot_rows orders_spec g w3). o_id x \<noteq> o_id o')"
proof -
  have spec: "sp_id orders_spec = o_id" "sp_get orders_spec = orders" "sp_copy orders_spec = Some"
    "sp_key orders_spec = (\<lambda>r. (o_id r, o_createdAt r))" "orders (sp_put orders_spec rs tb) = rs" for rs tb
    by (simp_all add: orders_spec_def)
  from copied obtain acc where acc: "insert_ignoring orders_spec rows (archived_rows orders_spec g w) = Inr acc"
    and w1: "hot_rows orders_spec g w1 = hot_rows orders_spec g w" "archived_rows orders_spec g w1 = acc"
    by (rule orders_walk.archive_half) (auto simp: hot_rows_def archived_rows_def)
  note half = orders_walk.archive_half_step [OF ids rows(1) acc w1]
  from updated obtain o0 where o0: "List.find (\<lambda>x. o_publicId x = pid) (hot_rows orders_spec g w1) = Some o0"
    and u: "u = status_row st stamp (clock w1) o0"
    and w2: "archived_rows orders_spec g w2 = archived_rows orders_spec g w1"
    by (rule updateOrderStatus_InrE) (simp add: hot_rows_def archived_rows_def spec)
  from o0 found have "o0 = o'" by (simp add: w1)
  with u have u': "o_status u = st" "o_id u = o_id o'" "o_createdAt u = o_createdAt o'"
    by (cases stamp rule: option.exhaust; (cases "the stamp")?; simp add: status_row_def Let_def)+
  from deleted have w3: "hot_rows orders_spec g w3 = filter (\<lambda>x. o_id x \<notin> set (map o_id rows)) (hot_rows orders_spec g w2)"
    "archived_rows orders_spec g w3 = archived_rows orders_spec g w2"
    by (auto elim!: orders_walk.delete_half simp: hot_rows_def archived_rows_def spec)
  have own: "a = o'" if "a \<in> set (archived_rows orders_spec g w1)" "sp_key orders_spec a = sp_key orders_spec o'" for a
    using orders_walk.archived_under_key [OF ids _ _ that] half rows fresh that(2) by (auto simp: spec)
  have "u \<notin> set (archived_rows orders_spec g w1)"
    using own [of u] u' change by (auto simp: spec)
  moreover have "o' \<in> set (archived_rows orders_spec g w1)" using half rows(2) own by metis
  ultimately show ?thesis using u' rows(2) w2 by (auto simp: w3)
qed

subsection \<open>Witnesses\<close>

lemmas run_Archival [run] =
  spec_defs archivalLockKey_def dateNow_def old_rows_def select_old_def archive_rows_def delete_rows_def
  move_batch_def moveTableBatches_def walk_def TABLE_SPECS_def runArchivalForRegion_def

definition old_order :: order_entity where
  "old_order = sample_order\<lparr>o_status := ASSIGNED, o_createdAt := - 5\<rparr>"

definition archival_world :: world where
  "archival_world = with_orders [old_order] sample_world"

lemma archival_world_cutoff: "cutoff 1000000 = 0"
  by (simp add: cutoff_def utcFullYear_def year_start_def day_from_year_def ms_per_day_def)

theorem runArchival_complete_witness:
  "\<exists>res w'. runArchivalForRegion (\<lambda>_. 0) ''1'' ''eg'' archival_world = (Inr (Some (Some res)), w') \<and>
     nothing_old orders_spec ''eg'' 1000000 w'"
proof -
  have "fst (runArchivalForRegion (\<lambda>_. 0) ''1'' ''eg'' archival_world) =
      Inr (Some (Some \<lparr>ar_region = ''eg'', ar_startedAt = toISOString 1000000, ar_durationMs = 0, ar_totalMoved = 1,
        ar_perTable = [(''agent_earnings'', 0, 0), (''payment_webhook_events'', 0, 0), (''payment_sessions'', 0, 0),
          (''transactions'', 0, 0), (''order_items'', 0, 0), (''orders'', 1, 1)], ar_timedOut = False\<rparr>))"
    by (simp add: run archival_world_cutoff archival_world_def old_order_def)
  note ran = run_result [OF refl this]
  have ids: "ids_distinct agent_earnings_spec ''eg'' archival_world" "ids_distinct webhook_events_spec ''eg'' archival_world"
    "ids_distinct payment_sessions_spec ''eg'' archival_world" "ids_distinct transactions_spec ''eg'' archival_world"
    "ids_distinct order_items_spec ''eg'' archival_world" "ids_distinct orders_spec ''eg'' archival_world"
    by (simp_all add: ids_distinct_def hot_rows_def archived_rows_def archival_world_def run)
  have env: "archivalMaxRuntimeMin (env archival_world) = 10" "archivalBatchSize (env archival_world) = 2"
    "clock archival_world = 1000000"
    by (simp_all add: archival_world_def with_orders_def sample_world_def sample_env_def)
  from runArchival_complete [OF ran _ _ ids] ran show ?thesis by (auto simp: env)
qed

definition archival_fault :: world where
  "archival_fault = archival_world\<lparr>ext := sample_outside\<lparr>dbFault := (\<lambda>n. if n = 11 then Some ''connection lost'' else None)\<rparr>\<rparr>"

text \<open>The connection is lost between the copy and the deletion of the order: it is in both clusters.\<close>

theorem runArchival_loses_nothing_witness:
  "\<exists>e w'. runArchivalForRegion (\<lambda>_. 0) ''1'' ''eg'' archival_fault = (Inl e, w') \<and>
     moved_safely orders_spec ''eg'' archival_fault w' \<and> old_order \<in> set (archived_rows orders_spec ''eg'' w')"
proof -
  let ?r = "runArchivalForRegion (\<lambda>_. 0) ''1'' ''eg'' archival_fault"
  have "fst ?r = Inl (JsError ''connection lost'') \<and> archived_rows orders_spec ''eg'' (snd ?r) = [old_order]"
    by (simp add: run archival_world_cutoff archival_fault_def archival_world_def old_order_def archived_rows_def)
  then have ran: "?r = (Inl (JsError ''connection lost''), snd ?r)"
    and arch: "archived_rows orders_spec ''eg'' (snd ?r) = [old_order]" by (auto intro: run_result)
  have ids: "ids_distinct agent_earnings_spec ''eg'' archival_fault" "ids_distinct webhook_events_spec ''eg'' archival_fault"
    "ids_distinct payment_sessions_spec ''eg'' archival_fault" "ids_distinct transactions_spec ''eg'' archival_fault"
    "ids_distinct order_items_spec ''eg'' archival_fault" "ids_distinct orders_spec ''eg'' archival_fault"
    by (simp_all add: ids_distinct_def hot_rows_def archived_rows_def archival_fault_def archival_world_def run)
  have "moved_safely orders_spec ''eg'' archival_fault (snd ?r)"
    using runArchival_loses_nothing [OF ran ids] by blast
  with ran arch show ?thesis by (metis list.set_intros(1))
qed

text \<open>The archive has the order as it was copied; the hot order was picked up since.\<close>

definition stale_world :: world where
  "stale_world = archival_world\<lparr>shards := (shards archival_world)
     ((Hot, ''eg'') := empty_shard\<lparr>tabs := (tabs empty_shard)\<lparr>orders := [old_order\<lparr>o_status := PICKED\<rparr>]\<rparr>\<rparr>,
      (Archive, ''eg'') := empty_shard\<lparr>tabs := (tabs empty_shard)\<lparr>orders := [old_order]\<rparr>\<rparr>)\<rparr>"

theorem archival_keeps_stale_copy_witness:
  "\<exists>res w'. runArchivalForRegion (\<lambda>_. 0) ''1'' ''eg'' stale_world = (Inr (Some (Some res)), w') \<and>
     old_order \<in> set (archived_rows orders_spec ''eg'' w') \<and>
     old_order\<lparr>o_status := PICKED\<rparr> \<notin> set (archived_rows orders_spec ''eg'' w') \<union> set (hot_rows orders_spec ''eg'' w')"
proof -
  have "fst (runArchivalForRegion (\<lambda>_. 0) ''1'' ''eg'' stale_world) =
      Inr (Some (Some \<lparr>ar_region = ''eg'', ar_startedAt = toISOString 1000000, ar_durationMs = 0, ar_totalMoved = 1,
        ar_perTable = [(''agent_earnings'', 0, 0), (''payment_webhook_events'', 0, 0), (''payment_sessions'', 0, 0),
          (''transactions'', 0, 0), (''order_items'', 0, 0), (''orders'', 1, 1)], ar_timedOut = False\<rparr>))"
    by (simp add: run archival_world_cutoff stale_world_def archival_world_def old_order_def)
  note ran = run_result [OF refl this]
  have rows: "hot_rows orders_spec ''eg'' stale_world = [old_order\<lparr>o_status := PICKED\<rparr>]"
    "archived_rows orders_spec ''eg'' stale_world = [old_order]"
    by (simp_all add: hot_rows_def archived_rows_def stale_world_def run)
  have env: "archivalMaxRuntimeMin (env stale_world) = 10" "archivalBatchSize (env stale_world) = 2" "clock stale_world = 1000000"
    by (simp_all add: stale_world_def archival_world_def with_orders_def sample_world_def sample_env_def)
  have "old_order\<lparr>o_status := PICKED\<rparr> \<noteq> old_order" by (simp add: old_order_def sample_order_def)
  then show ?thesis
    using archival_keeps_stale_copy [OF ran, of "old_order\<lparr>o_status := PICKED\<rparr>" old_order] ran
    by (auto simp: env rows ids_distinct_def archival_world_cutoff old_order_def)
qed

theorem archival_loses_update_witness:
  "\<exists>w1 u w2 w3.
     transaction (Archive, ''eg'') (archive_rows orders_spec [old_order] (Archive, ''eg'')) throwE archival_world = (Inr (), w1) \<and>
     updateOrderStatus ''p1'' PICKED (Some PickedAt) (Hot, ''eg'') w1 = (Inr u, w2) \<and>
     transaction (Hot, ''eg'') (delete_rows orders_spec [1] (Hot, ''eg'')) throwE w2 = (Inr (), w3) \<and>
     o_status u = PICKED \<and> u \<notin> set (archived_rows orders_spec ''eg'' w3)"
proof -
  let ?a = "transaction (Archive, ''eg'') (archive_rows orders_spec [old_order] (Archive, ''eg'')) throwE archival_world"
  let ?b = "updateOrderStatus ''p1'' PICKED (Some PickedAt) (Hot, ''eg'') (snd ?a)"
  let ?d = "transaction (Hot, ''eg'') (delete_rows orders_spec (map o_id [old_order]) (Hot, ''eg'')) throwE (snd ?b)"
  have a: "fst ?a = Inr ()"
    by (simp add: run archival_world_def old_order_def)
  have "\<not> isl (fst ?b)"
    by (simp add: run archival_world_def old_order_def updateOrderStatus_def status_row_def set_orders_def)
  then obtain u where b: "fst ?b = Inr u" by (auto dest: result_Inr)
  have d: "fst ?d = Inr ()"
    by (simp add: run archival_world_def old_order_def updateOrderStatus_def status_row_def set_orders_def)
  have ids: "ids_distinct orders_spec ''eg'' archival_world" "set [old_order] \<subseteq> set (hot_rows orders_spec ''eg'' archival_world)"
    "List.find (\<lambda>x. o_publicId x = ''p1'') (hot_rows orders_spec ''eg'' archival_world) = Some old_order"
    by (simp_all add: ids_distinct_def hot_rows_def archived_rows_def archival_world_def old_order_def run)
  have "PICKED \<noteq> o_status old_order" by (simp add: old_order_def)
  moreover have "\<forall>a\<in>set (archived_rows orders_spec ''eg'' archival_world). o_id a = o_id old_order \<longrightarrow>
      o_createdAt a = o_createdAt old_order \<longrightarrow> a = old_order"
    by (simp add: archived_rows_def archival_world_def run)
  ultimately show ?thesis
    using archival_loses_update [OF ids(1) _ ids(2) _ ids(3) _ run_result [OF refl a] run_result [OF refl b] run_result [OF refl d]]
      run_result [OF refl a] run_result [OF refl b] run_result [OF refl d]
    by (auto simp: old_order_def sample_order_def)
qed

end
