(* ===== verification/Realtime.thy ===== *)
theory Realtime
  imports Access
begin

section \<open>The WebSocket server\<close>

text \<open>
  \<open>src/lib/websocket/ws-auth.ts\<close> and \<open>ws-server.ts\<close>: the token of the handshake, the rooms a user may join,
  and the messages of one connected socket. A socket is the set of rooms it is in and the messages it got;
  \<open>ws_steps\<close> runs the events a client sends, and \<open>reached\<close> says which sockets a room's message reaches.
  Verification of the token and the transport are socket.io's and \<open>jsonwebtoken\<close>'s.
\<close>

subsection \<open>ws-auth.ts\<close>

text \<open>\<open>part.indexOf("=")\<close>: \<open>None\<close> is a negative index.\<close>

fun split_at_equals :: "string \<Rightarrow> (string \<times> string) option" where
  "split_at_equals [] = None"
| "split_at_equals (c # cs) =
     (if c = CHR ''='' then Some ([], cs)
      else map_option (\<lambda>(k, v). (c # k, v)) (split_at_equals cs))"

fun cookie_in :: "string list \<Rightarrow> string \<Rightarrow> string option" where
  "cookie_in [] name = None"
| "cookie_in (part # parts) name =
     (case split_at_equals part of
        None \<Rightarrow> cookie_in parts name
      | Some (k, v) \<Rightarrow> if trim k = name then Some (trim v) else cookie_in parts name)"

definition extractCookie :: "string option \<Rightarrow> string \<Rightarrow> string option" where
  "extractCookie cookieHeader name =
     (case cookieHeader of
        None \<Rightarrow> None
      | Some h \<Rightarrow> if h = [] then None else cookie_in (splitOn (CHR '';'') h) name)"

text \<open>\<open>auth?.token ?? cookie\<close>: an empty token of the handshake is not replaced by the cookie.\<close>

definition authenticateHandshake :: "(string \<Rightarrow> actor option) \<Rightarrow> string option \<Rightarrow> string option \<Rightarrow> exn + actor" where
  "authenticateHandshake verify auth_token cookieHeader =
     (let token = (case auth_token of Some t \<Rightarrow> Some t | None \<Rightarrow> extractCookie cookieHeader ''access_token'')
      in case token of
           None \<Rightarrow> Inl WsNoTokenError
         | Some t \<Rightarrow>
             if t = [] then Inl WsNoTokenError
             else (case verify t of None \<Rightarrow> Inl NotAuthenticated | Some a \<Rightarrow> Inr a))"

definition permittedChannels :: "actor \<Rightarrow> string list" where
  "permittedChannels a =
     [''customer:'' @ string_of_int (ac_userId a)] @
     (case ac_restaurantId a of
        Some r \<Rightarrow>
          if ac_role a = RESTAURANT_USER \<and> r \<noteq> 0
          then (''restaurant:'' @ string_of_int r) # map (\<lambda>b. ''branch:'' @ string_of_int b) (branch_list a)
          else []
      | None \<Rightarrow> []) @
     (if ac_role a = DELIVERY_AGENT then [''agent:'' @ string_of_int (ac_userId a)] else [])"

subsection \<open>ws-server.ts: one socket\<close>

text \<open>What a client sends; a channel that is not a string is \<open>None\<close>.\<close>

datatype ws_event = Subscribe "string option" | Unsubscribe "string option"

datatype ws_reply = Hello "string list" | AckDenied | AckOk | Subscribed string

record ws_socket =
  ws_user :: actor
  ws_rooms :: "string list"
  ws_replies :: "ws_reply list"

definition ws_connect :: "(string \<Rightarrow> actor option) \<Rightarrow> string option \<Rightarrow> string option \<Rightarrow> exn + ws_socket" where
  "ws_connect verify auth_token cookieHeader =
     (case authenticateHandshake verify auth_token cookieHeader of
        Inl e \<Rightarrow> Inl e
      | Inr user \<Rightarrow> Inr \<lparr>ws_user = user, ws_rooms = [], ws_replies = [Hello (remdups (permittedChannels user))]\<rparr>)"

fun ws_step :: "ws_event \<Rightarrow> ws_socket \<Rightarrow> ws_socket" where
  "ws_step (Subscribe channel) s =
     (case channel of
        None \<Rightarrow> s\<lparr>ws_replies := ws_replies s @ [AckDenied]\<rparr>
      | Some ch \<Rightarrow>
          if ch \<notin> set (permittedChannels (ws_user s)) then s\<lparr>ws_replies := ws_replies s @ [AckDenied]\<rparr>
          else s\<lparr>ws_rooms := List.insert ch (ws_rooms s), ws_replies := ws_replies s @ [AckOk, Subscribed ch]\<rparr>)"
| "ws_step (Unsubscribe channel) s =
     (case channel of None \<Rightarrow> s | Some ch \<Rightarrow> s\<lparr>ws_rooms := removeAll ch (ws_rooms s)\<rparr>)"

definition ws_steps :: "ws_event list \<Rightarrow> ws_socket \<Rightarrow> ws_socket" where
  "ws_steps evs s = fold ws_step evs s"

text \<open>\<open>io.to(room).emit(..)\<close> reaches the sockets in the room.\<close>

definition reached :: "string \<Rightarrow> ws_socket list \<Rightarrow> ws_socket list" where
  "reached room sockets = filter (\<lambda>s. room \<in> set (ws_rooms s)) sockets"

subsection \<open>Who hears what\<close>

lemma ws_step_user [simp]: "ws_user (ws_step e s) = ws_user s"
  by (cases e) (auto split: option.splits)

lemma ws_steps_user [simp]: "ws_user (ws_steps evs s) = ws_user s"
  by (induction evs arbitrary: s) (simp_all add: ws_steps_def)

lemma ws_steps_rooms:
  "set (ws_rooms s) \<subseteq> set (permittedChannels (ws_user s)) \<Longrightarrow>
   set (ws_rooms (ws_steps evs s)) \<subseteq> set (permittedChannels (ws_user s))"
proof (induction evs arbitrary: s)
  case Nil
  then show ?case by (simp add: ws_steps_def)
next
  case (Cons e evs)
  have "set (ws_rooms (ws_step e s)) \<subseteq> set (permittedChannels (ws_user (ws_step e s)))"
    using Cons.prems by (cases e) (auto split: option.splits)
  from Cons.IH [OF this] show ?case by (simp add: ws_steps_def)
qed

text \<open>The rooms by the first letter after the prefix: prefixes differ, and numbers print injectively.\<close>

lemma permittedChannels_iff:
  "''customer:'' @ string_of_int i \<in> set (permittedChannels a) \<longleftrightarrow> ac_userId a = i"
  "''agent:'' @ string_of_int i \<in> set (permittedChannels a) \<longleftrightarrow> ac_role a = DELIVERY_AGENT \<and> ac_userId a = i"
  "''branch:'' @ string_of_int i \<in> set (permittedChannels a) \<longleftrightarrow>
     ac_role a = RESTAURANT_USER \<and> ac_restaurantId a \<noteq> None \<and> ac_restaurantId a \<noteq> Some 0 \<and> i \<in> set (branch_list a)"
  "''admin:alerts'' \<notin> set (permittedChannels a)"
  by (cases "ac_restaurantId a"; auto simp: permittedChannels_def)+

text \<open>C24: Whatever a client sends after a handshake that was accepted, a message to the room of a customer, of an agent
  or of a branch reaches its socket only when the verified token says it is that customer, that delivery agent, or a
  member of a restaurant with that branch; and nobody ever hears the room of the administrators' alerts.\<close>

theorem ws_isolation:
  assumes "ws_connect verify auth cookie = Inr s" and "t = ws_steps evs s"
  shows "\<exists>token. verify token = Some (ws_user t) \<and>
     (t \<in> set (reached (''customer:'' @ string_of_int i) [t]) \<longrightarrow> ac_userId (ws_user t) = i) \<and>
     (t \<in> set (reached (''agent:'' @ string_of_int i) [t]) \<longrightarrow>
        ac_role (ws_user t) = DELIVERY_AGENT \<and> ac_userId (ws_user t) = i) \<and>
     (t \<in> set (reached (''branch:'' @ string_of_int i) [t]) \<longrightarrow>
        ac_role (ws_user t) = RESTAURANT_USER \<and> i \<in> set (branch_list (ws_user t))) \<and>
     t \<notin> set (reached ''admin:alerts'' [t])"
proof -
  from assms(1) obtain token where token: "verify token = Some (ws_user s)" and rooms: "ws_rooms s = []"
    by (auto simp: ws_connect_def authenticateHandshake_def Let_def split: sum.splits option.splits if_splits)
  have "set (ws_rooms t) \<subseteq> set (permittedChannels (ws_user s))"
    unfolding assms(2) by (rule ws_steps_rooms) (simp add: rooms)
  then have heard: "room \<in> set (permittedChannels (ws_user t))" if "t \<in> set (reached room [t])" for room
    using that assms(2) by (auto simp: reached_def split: if_splits)
  have customer: "ac_userId (ws_user t) = i" if "t \<in> set (reached (''customer:'' @ string_of_int i) [t])"
    using heard [OF that] by (simp only: permittedChannels_iff)
  have agent: "ac_role (ws_user t) = DELIVERY_AGENT \<and> ac_userId (ws_user t) = i"
    if "t \<in> set (reached (''agent:'' @ string_of_int i) [t])"
    using heard [OF that] by (simp only: permittedChannels_iff)
  have branch: "ac_role (ws_user t) = RESTAURANT_USER \<and> i \<in> set (branch_list (ws_user t))"
    if "t \<in> set (reached (''branch:'' @ string_of_int i) [t])"
    using heard [OF that] by (simp only: permittedChannels_iff)
  have admin: "t \<notin> set (reached ''admin:alerts'' [t])"
    using heard [of "''admin:alerts''"] permittedChannels_iff(4) by blast
  have "verify token = Some (ws_user t)" using token assms(2) by simp
  with customer agent branch admin show ?thesis by blast
qed

theorem ws_isolation_witness:
  "\<exists>s. ws_connect (\<lambda>_. Some \<lparr>ac_userId = 5, ac_role = ''restaurant_user'', ac_restaurantId = Some 3,
         ac_restaurantRole = None, ac_branchIds = Some [7]\<rparr>) None (Some ''a=b; access_token=x'') = Inr s \<and>
     ws_rooms (ws_steps [Subscribe (Some (''branch:'' @ string_of_int 7)), Subscribe (Some (''branch:'' @ string_of_int 8)),
       Subscribe (Some ''admin:alerts'')] s) = [''branch:'' @ string_of_int 7] \<and>
     ws_steps [Subscribe (Some ''admin:alerts'')] s \<notin> set (reached ''admin:alerts'' [ws_steps [Subscribe (Some ''admin:alerts'')] s])"
proof -
  let ?v = "\<lambda>_. Some \<lparr>ac_userId = 5, ac_role = ''restaurant_user'', ac_restaurantId = Some 3,
         ac_restaurantRole = None, ac_branchIds = Some [7]\<rparr>"
  obtain s where s: "ws_connect ?v None (Some ''a=b; access_token=x'') = Inr s"
    and r: "ws_user s = the (?v [])" "ws_rooms s = []"
    by (auto simp: ws_connect_def authenticateHandshake_def extractCookie_def run)
  have "ws_rooms (ws_steps [Subscribe (Some (''branch:'' @ string_of_int 7)), Subscribe (Some (''branch:'' @ string_of_int 8)),
       Subscribe (Some ''admin:alerts'')] s) = [''branch:'' @ string_of_int 7]"
    unfolding ws_steps_def fold.simps ws_step.simps comp_def id_def
    by (simp add: r permittedChannels_iff role_defs branch_list_def del: append.simps)
  with s ws_isolation [OF s refl, of "[Subscribe (Some ''admin:alerts'')]" 0] show ?thesis by blast
qed

end
