(* ===== verification/CoreEvents.thy ===== *)
theory CoreEvents
  imports Assignment
begin

section \<open>Events from core-service\<close>

text \<open>
  The consumer of core-service's events: \<open>src/lib/core-events/consumer.ts\<close>, the registered handlers
  (\<open>src/app/order/core-events.handlers.ts\<close>) and the cache projection they write
  (\<open>src/app/order/service/core-data-cache.service.ts\<close>), with the acknowledgement of
  \<open>rabbitmq.client.ts\<close>. A message is its body after \<open>JSON.parse\<close>; \<open>None\<close> is a body that is not JSON.
  The payload is cast, not checked: core-service sends ids, prices and stock as JSON integers, and what is
  not such a number is read as absent.
\<close>

subsection \<open>core-data-cache.service.ts\<close>

definition BRANCH_REJECT_FLAG_TTL :: int where
  "BRANCH_REJECT_FLAG_TTL = toSeconds 7 D"

definition restaurantKey :: "int \<Rightarrow> string" where
  "restaurantKey restaurantId = ''core:restaurant:'' @ string_of_int restaurantId"

definition payload_int :: "string \<Rightarrow> json \<Rightarrow> int option" where
  "payload_int k p = (case jget k p of Some (JNum n) \<Rightarrow> Number n | _ \<Rightarrow> None)"

definition payload_bool :: "string \<Rightarrow> json \<Rightarrow> bool option" where
  "payload_bool k p = (case jget k p of Some (JBool b) \<Rightarrow> Some b | _ \<Rightarrow> None)"

text \<open>\<open>if (!p?.id) return;\<close>: a missing or zero id ends the handler.\<close>

definition with_id :: "string \<Rightarrow> json \<Rightarrow> (int \<Rightarrow> unit io) \<Rightarrow> unit io" where
  "with_id k p f =
     (case payload_int k p of None \<Rightarrow> returnE () | Some i \<Rightarrow> if i = 0 then returnE () else f i)"

definition empty_patch :: product_patch where
  "empty_patch = \<lparr>pp_productId = None, pp_name = None, pp_imageUrl = None, pp_price = None, pp_stock = None,
     pp_isAvailable = None\<rparr>"

text \<open>\<open>existing ? JSON.parse(existing) : {}\<close> of a product entry.\<close>

definition cached_patch :: "rtext option \<Rightarrow> exn + product_patch" where
  "cached_patch existing =
     (case existing of
        None \<Rightarrow> Inr empty_patch
      | Some (ProductText p) \<Rightarrow> Inr p
      | Some (Text []) \<Rightarrow> Inr empty_patch
      | Some _ \<Rightarrow> Inl (JsError ''Unexpected token in JSON''))"

definition merge_stock :: "int \<Rightarrow> int option \<Rightarrow> bool option \<Rightarrow> product_patch \<Rightarrow> product_patch" where
  "merge_stock productId newStock isAvailable p =
     p\<lparr>pp_stock := (case newStock of None \<Rightarrow> pp_stock p | Some n \<Rightarrow> Some n),
       pp_isAvailable := (case isAvailable of None \<Rightarrow> pp_isAvailable p | Some b \<Rightarrow> Some b),
       pp_productId := Some productId\<rparr>"

text \<open>The price is assigned even when the event has none.\<close>

definition merge_price :: "int \<Rightarrow> int option \<Rightarrow> product_patch \<Rightarrow> product_patch" where
  "merge_price productId newPrice p = p\<lparr>pp_price := newPrice, pp_productId := Some productId\<rparr>"

definition upsert_product :: "int \<Rightarrow> int \<Rightarrow> (product_patch \<Rightarrow> product_patch) \<Rightarrow> unit io" where
  "upsert_product branchId productId merge =
     bindE (cache_get (productCacheKey branchId productId)) (\<lambda>existing.
     bindE (checked (cached_patch existing)) (\<lambda>p.
     cache_set (productCacheKey branchId productId) (ProductText (merge p)) (Some PRODUCT_CACHE_TTL)))"

definition handleProductStockChanged :: "json \<Rightarrow> unit io" where
  "handleProductStockChanged p =
     with_id ''branchId'' p (\<lambda>branchId. with_id ''productId'' p (\<lambda>productId.
     upsert_product branchId productId (merge_stock productId (payload_int ''newStock'' p) (payload_bool ''isAvailable'' p))))"

definition handleProductPriceChanged :: "json \<Rightarrow> unit io" where
  "handleProductPriceChanged p =
     with_id ''branchId'' p (\<lambda>branchId. with_id ''productId'' p (\<lambda>productId.
     upsert_product branchId productId (merge_price productId (payload_int ''newPrice'' p))))"

definition handleBranchUpdated :: "json \<Rightarrow> unit io" where
  "handleBranchUpdated p =
     with_id ''branchId'' p (\<lambda>branchId.
     bindE (cache_del (branchCacheKey branchId)) (\<lambda>_.
     bindE (cache_del (rejectFlagKey branchId)) (\<lambda>_. returnE ())))"

definition handleBranchDeactivated :: "json \<Rightarrow> unit io" where
  "handleBranchDeactivated p =
     with_id ''branchId'' p (\<lambda>branchId.
     bindE (cache_del (branchCacheKey branchId)) (\<lambda>_.
     cache_set (rejectFlagKey branchId) (Text ''1'') (Some BRANCH_REJECT_FLAG_TTL)))"

definition handleRestaurantSuspended :: "json \<Rightarrow> unit io" where
  "handleRestaurantSuspended p =
     with_id ''restaurantId'' p (\<lambda>restaurantId.
     bindE (cache_del (restaurantKey restaurantId)) (\<lambda>_. returnE ()))"

subsection \<open>core-events.handlers.ts\<close>

definition handlers :: "string \<Rightarrow> (json \<Rightarrow> unit io) option" where
  "handlers eventType =
     (if eventType = ''product.stock.changed'' then Some handleProductStockChanged
      else if eventType = ''product.price.changed'' then Some handleProductPriceChanged
      else if eventType = ''branch.updated'' then Some handleBranchUpdated
      else if eventType = ''branch.deactivated'' then Some handleBranchDeactivated
      else if eventType = ''restaurant.suspended'' then Some handleRestaurantSuspended
      else if eventType = ''rbac.permissions_changed'' then Some handlePermissionsChanged
      else None)"

subsection \<open>consumer.ts\<close>

definition DEDUPE_TTL_SEC :: int where
  "DEDUPE_TTL_SEC = 24 * 60 * 60"

definition dedupeKey :: "json \<Rightarrow> string" where
  "dedupeKey eventId = ''core-events:dedupe:'' @ js_string eventId"

text \<open>\<open>nack(false)\<close> sends the message to the dead-letter queue.\<close>

datatype settled = Ack | Nack

record core_envelope =
  ce_eventId :: json
  ce_eventType :: json
  ce_payload :: "json option"

definition parseCoreEnvelope :: "json option \<Rightarrow> core_envelope option" where
  "parseCoreEnvelope body =
     (case body of
        None \<Rightarrow> None
      | Some v \<Rightarrow>
          if truthy (jget ''eventId'' v) \<and> truthy (jget ''eventType'' v)
          then Some \<lparr>ce_eventId = the (jget ''eventId'' v), ce_eventType = the (jget ''eventType'' v),
                     ce_payload = jget ''payload'' v\<rparr>
          else None)"

text \<open>\<open>handlers.get(eventType)\<close>: only a string can be a key of the map.\<close>

definition handler_of :: "json \<Rightarrow> (json \<Rightarrow> unit io) option" where
  "handler_of ty = (case ty of JStr s \<Rightarrow> handlers s | _ \<Rightarrow> None)"

definition handle_fresh :: "core_envelope \<Rightarrow> settled io" where
  "handle_fresh envelope =
     (case handler_of (ce_eventType envelope) of
        None \<Rightarrow> returnE Ack
      | Some handler \<Rightarrow>
          tryCatch (seqE (handler (case ce_payload envelope of None \<Rightarrow> JNull | Some p \<Rightarrow> p)) (returnE Ack))
                   (\<lambda>_. returnE Nack))"

definition handleMessage :: "json option \<Rightarrow> settled io" where
  "handleMessage body =
     (case parseCoreEnvelope body of
        None \<Rightarrow> returnE Nack
      | Some envelope \<Rightarrow>
          bindE (cache_trySet (dedupeKey (ce_eventId envelope)) (Text ''1'') (Some DEDUPE_TTL_SEC)) (\<lambda>fresh.
          if \<not> fresh then returnE Ack else handle_fresh envelope))"

text \<open>\<open>rabbitmq.client.ts\<close>: a handler that throws is settled by \<open>nack(false)\<close>.\<close>

definition consume :: "json option \<Rightarrow> settled io" where
  "consume body = tryCatch (handleMessage body) (\<lambda>_. returnE Nack)"

lemmas run_CoreEvents [run] =
  restaurantKey_def with_id_def empty_patch_def cached_patch_def merge_stock_def
  merge_price_def upsert_product_def handleProductStockChanged_def handleProductPriceChanged_def
  handleBranchUpdated_def handleBranchDeactivated_def handleRestaurantSuspended_def handlers_def dedupeKey_def
  handler_of_def handle_fresh_def handleMessage_def consume_def

subsection \<open>Frames\<close>

context quiet_relation begin

lemma moves_with_id [moves_intro]: "(\<And>i. moves R (f i)) \<Longrightarrow> moves R (with_id k p f)"
  unfolding with_id_def by (intro moves_intro)

lemma moves_checked_patch [moves_intro]: "moves R (checked v)"
  unfolding checked_def by (intro moves_intro)

lemma moves_handlers:
  "handlers ty = Some h \<Longrightarrow> moves R (h p)"
  unfolding handlers_def handleProductStockChanged_def handleProductPriceChanged_def handleBranchUpdated_def
    handleBranchDeactivated_def handleRestaurantSuspended_def handlePermissionsChanged_def invalidatePermissions_def
    upsert_product_def
  by (auto split: if_splits intro!: moves_intro R_permCache)

lemma moves_handle_fresh [moves_intro]: "moves R (handle_fresh envelope)"
proof (cases "handler_of (ce_eventType envelope)")
  case None
  then show ?thesis by (simp add: handle_fresh_def del: returnE_app)
next
  case (Some h)
  then have "moves R (h p)" for p
    by (auto simp: handler_of_def split: json.splits intro: moves_handlers)
  with Some show ?thesis unfolding handle_fresh_def
    by (simp only: option.case) (intro moves_intro)
qed

lemma moves_consume [moves_intro]: "moves R (consume body)"
  unfolding consume_def handleMessage_def by (intro moves_intro)

end

subsection \<open>Settlement and de-duplication of messages\<close>

lemma consume_settles: "\<exists>s w'. consume body w = (Inr s, w')"
  by (cases "handleMessage body w"; cases "fst (handleMessage body w)") (auto simp: consume_def tryCatch_def)

lemma trySet_ok:
  assumes "redisFault (ext w) (steps w) = None" and "0 \<le> ttl"
  shows "cache_trySet k v (Some ttl) w =
     (Inr (fst (acquire_lock k v ttl (clock w) (redis w))), (tick w)\<lparr>redis := snd (acquire_lock k v ttl (clock w) (redis w))\<rparr>)"
  using assms r_trySet_acquire [of ttl k v "clock w" "redis w"]
  by (cases "acquire_lock k v ttl (clock w) (redis w)") (simp add: cache_defs redisOp_def)

text \<open>A second delivery while the key of the first lives is acknowledged and does nothing.\<close>

lemma consume_duplicate:
  assumes "parseCoreEnvelope body = Some envelope" and "redisFault (ext w) (steps w) = None"
    and "live (clock w) (redis w) (dedupeKey (ce_eventId envelope)) \<noteq> None"
  shows "consume body w = (Inr Ack, tick w)"
proof -
  have "acquire_lock (dedupeKey (ce_eventId envelope)) (Text ''1'') DEDUPE_TTL_SEC (clock w) (redis w) = (False, redis w)"
    using assms(3) by (rule redis_lock.acquire_held)
  then show ?thesis
    using assms(1,2) trySet_ok [of w DEDUPE_TTL_SEC]
    by (simp add: consume_def handleMessage_def tryCatch_def bindE_def DEDUPE_TTL_SEC_def tick_def)
qed

text \<open>The key that a first delivery leaves behind: no handler writes it.\<close>

lemma dedupe_key_other:
  "dedupeKey e \<noteq> branchCacheKey b" "dedupeKey e \<noteq> rejectFlagKey b" "dedupeKey e \<noteq> restaurantKey b"
  "dedupeKey e \<noteq> productCacheKey b p"
  by (simp_all add: dedupeKey_def branchCacheKey_def rejectFlagKey_def restaurantKey_def productCacheKey_def)

lemma key_kept_del [moves_intro]: "k \<noteq> k' \<Longrightarrow> moves (key_kept k) (cache_del k')"
  unfolding cache_defs by (rule key_kept_redisOp) (auto simp: r_del_def)

lemma key_kept_with_id [moves_intro]: "(\<And>i. moves (key_kept k) (f i)) \<Longrightarrow> moves (key_kept k) (with_id n p f)"
  unfolding with_id_def by (intro moves_intro)

lemma handlers_keep_dedupe_key:
  "handlers ty = Some h \<Longrightarrow> moves (key_kept (dedupeKey e)) (h p)"
  unfolding handlers_def handleProductStockChanged_def handleProductPriceChanged_def handleBranchUpdated_def
    handleBranchDeactivated_def handleRestaurantSuspended_def handlePermissionsChanged_def invalidatePermissions_def
    upsert_product_def checked_def
  by (auto simp: dedupe_key_other key_kept_def split: if_splits intro!: moves_intro)

text \<open>A message whose handler failed goes to the dead-letter queue, but its event id stays marked as processed for
  a day: replaying it from there within that day acknowledges it without calling the handler.\<close>

theorem core_event_failure_is_final:
  assumes env: "parseCoreEnvelope body = Some envelope"
    and first: "redisFault (ext w) (steps w) = None"
      "live (clock w) (redis w) (dedupeKey (ce_eventId envelope)) = None"
    and failed: "consume body w = (Inr Nack, w1)"
    and later: "redis w2 = redis w1" "clock w \<le> clock w2" "clock w2 < clock w + 1000 * 86400"
      "redisFault (ext w2) (steps w2) = None"
  shows "consume body w2 = (Inr Ack, tick w2)"
proof -
  let ?k = "dedupeKey (ce_eventId envelope)"
  let ?acq = "acquire_lock ?k (Text ''1'') DEDUPE_TTL_SEC (clock w) (redis w)"
  have win: "fst ?acq" using first(2) by (rule redis_lock.acquire_free)
  let ?v = "(tick w)\<lparr>redis := snd ?acq\<rparr>"
  have fresh: "tryCatch (handle_fresh envelope) (\<lambda>_. returnE Nack) ?v = (Inr Nack, w1)"
    using failed env first(1) trySet_ok [of w DEDUPE_TTL_SEC ?k "Text ''1''"] win
    by (simp add: consume_def handleMessage_def tryCatch_def bindE_def DEDUPE_TTL_SEC_def)
  have "moves (key_kept ?k) (handle_fresh envelope)"
  proof (cases "handler_of (ce_eventType envelope)")
    case None
    then show ?thesis by (simp add: handle_fresh_def del: returnE_app)
  next
    case (Some h)
    then have "moves (key_kept ?k) (h p)" for p
      by (auto simp: handler_of_def split: json.splits intro: handlers_keep_dedupe_key)
    with Some show ?thesis unfolding handle_fresh_def by (simp only: option.case) (intro moves_intro)
  qed
  then have "moves (key_kept ?k) (tryCatch (handle_fresh envelope) (\<lambda>_. returnE Nack))" by (intro moves_intro)
  from movesD [OF this fresh] have "redis w1 ?k = snd ?acq ?k" by (simp add: key_kept_def)
  then have "live (clock w2) (redis w2) ?k = live (clock w2) (snd ?acq) ?k" by (simp add: live_def later(1))
  moreover have "live (clock w2) (snd ?acq) ?k \<noteq> None"
    using redis_lock.acquire_lookup [OF win, of "clock w2"] later(2,3) by (simp add: DEDUPE_TTL_SEC_def)
  ultimately show ?thesis by (intro consume_duplicate [OF env later(4)]) simp
qed

subsection \<open>A deactivated branch\<close>

lemma reject_flag_other:
  "rejectFlagKey b \<noteq> branchCacheKey b'" "dedupeKey e \<noteq> rejectFlagKey b"
  by (simp_all add: rejectFlagKey_def branchCacheKey_def dedupeKey_def)

lemma reject_ttl: "BRANCH_REJECT_FLAG_TTL = 604800"
  by (simp add: BRANCH_REJECT_FLAG_TTL_def toSeconds_def toMs_def)

lemma cache_set_InrE:
  assumes "cache_set k v ttl w = (Inr u, w')"
  obtains "redis w' = (redis w)(k \<mapsto> (RString v, Cache.deadline (clock w) ttl))" and "clock w' = clock w"
  using assms by (auto simp: cache_defs redisOp_def r_set_def split: option.splits if_splits)

lemma planOrder_not_rejecting:
  assumes "planOrder a body region cid w = (Inr pl, w')"
  shows "live (clock w) (redis w) (rejectFlagKey (co_branchId body)) \<noteq> Some (RString (Text ''1''))"
proof -
  let ?k = "rejectFlagKey (co_branchId body)"
  from assms obtain br w1 v where br: "getBranch (co_branchId body) cid w = (Inr br, w1)"
    and flag: "isBranchRejectingOrders (co_branchId body) w1 = (Inr False, v)"
    unfolding planOrder_def by (auto simp: throwIf_def split: if_splits)
  have "moves (key_kept ?k) (getBranch (co_branchId body) cid)"
    unfolding getBranch_def envelope_data_def ignoring_def by (intro moves_intro reject_flag_other)
  from movesD [OF this br] have "redis w1 ?k = redis w ?k" by (simp add: key_kept_def)
  moreover have "clock w1 = clock w" using same_settingD [OF same_setting.moves_getBranch br] by simp
  ultimately show ?thesis using flag
    by (auto simp: isBranchRejectingOrders_def cache_defs redisOp_def r_get_def live_def
        split: option.splits rvalue.splits sum.splits)
qed

lemma deactivated_flag:
  assumes "handleBranchDeactivated p w = (Inr u, w')" and "payload_int ''branchId'' p = Some b" and "b \<noteq> 0"
  shows "redis w' (rejectFlagKey b) = Some (RString (Text ''1''), Some (clock w + 1000 * 604800)) \<and> clock w' = clock w"
proof -
  from assms obtain n v where del: "cache_del (branchCacheKey b) w = (Inr n, v)"
    and set: "cache_set (rejectFlagKey b) (Text ''1'') (Some BRANCH_REJECT_FLAG_TTL) v = (Inr u, w')"
    by (auto simp: handleBranchDeactivated_def with_id_def)
  have "moves same_setting (cache_del (branchCacheKey b))" by (intro moves_intro)
  from same_settingD [OF this del] have "clock v = clock w" by simp
  with set show ?thesis
    by (elim cache_set_InrE) (simp add: deadline_def reject_ttl)
qed

text \<open>C23: Once the consumer has acknowledged a new branch.deactivated event, no order is placed at that branch for seven
  days, as long as the flag it wrote is not overwritten: placing one throws, whatever core-service and the branch
  cache say, and no table changes.\<close>

theorem deactivated_branch_takes_no_orders:
  assumes env: "parseCoreEnvelope body = Some envelope" and type: "ce_eventType envelope = JStr ''branch.deactivated''"
    and payload: "ce_payload envelope = Some p" "payload_int ''branchId'' p = Some b" "b \<noteq> 0"
    and fresh: "live (clock w) (redis w) (dedupeKey (ce_eventId envelope)) = None"
    and acked: "consume body w = (Inr Ack, w1)"
    and later: "redis w2 (rejectFlagKey b) = redis w1 (rejectFlagKey b)" "clock w2 < clock w + 1000 * 604800"
    and order: "co_branchId req = b"
  shows "\<exists>e w3. placeOrder a req region cid w2 = (Inl e, w3) \<and> tables_of w3 = tables_of w2"
proof -
  obtain v where handled: "handle_fresh envelope v = (Inr Ack, w1)" and v: "clock v = clock w"
  proof -
    let ?taken = "cache_trySet (dedupeKey (ce_eventId envelope)) (Text ''1'') (Some DEDUPE_TTL_SEC)"
    obtain q v where q: "?taken w = (q, v)" by (cases "?taken w")
    have "moves same_setting ?taken" by (intro moves_intro)
    from same_settingD [OF this q] have "clock v = clock w" by simp
    moreover have "q \<noteq> Inr False" using q fresh
      by (auto simp: cache_defs redisOp_def r_trySet_def split: option.splits if_splits)
    then have "handle_fresh envelope v = (Inr Ack, w1)"
      using acked env q by (auto simp: consume_def handleMessage_def tryCatch_def bindE_def split: sum.splits prod.splits)
    ultimately show thesis using that by blast
  qed
  have "handler_of (ce_eventType envelope) = Some handleBranchDeactivated" by (simp add: type handler_of_def handlers_def)
  with handled payload(1) obtain u where "handleBranchDeactivated p v = (Inr u, w1)"
    by (auto simp: handle_fresh_def tryCatch_def seqE_def bindE_def split: sum.splits prod.splits)
  from deactivated_flag [OF this payload(2,3)] v later
  have flag: "live (clock w2) (redis w2) (rejectFlagKey b) = Some (RString (Text ''1''))"
    by (simp add: live_def expired_def)
  obtain q w3 where plan: "planOrder a req region cid w2 = (q, w3)" by (cases "planOrder a req region cid w2")
  with flag order planOrder_not_rejecting obtain e where "q = Inl e" by (cases q) blast+
  with plan have "placeOrder a req region cid w2 = (Inl e, w3)" by (simp add: placeOrder_def bindE_def)
  with tables_keptD [OF shards_kept.moves_planOrder plan] show ?thesis by blast
qed

subsection \<open>Witnesses\<close>

definition deactivated_event :: json where
  "deactivated_event =
     JObj [(''eventId'', JStr ''e1''), (''eventType'', JStr ''branch.deactivated''), (''payload'', JObj [(''branchId'', JNum ''7'')])]"

lemma deactivated_event_parsed:
  "parseCoreEnvelope (Some deactivated_event) =
     Some \<lparr>ce_eventId = JStr ''e1'', ce_eventType = JStr ''branch.deactivated'', ce_payload = Some (JObj [(''branchId'', JNum ''7'')])\<rparr>"
  by (simp add: parseCoreEnvelope_def deactivated_event_def jget_def truthy_def)

lemma seven: "payload_int ''branchId'' (JObj [(''branchId'', JNum ''7'')]) = Some 7"
  by (simp add: payload_int_def jget_def Number_def char_digit_def)

theorem deactivated_branch_takes_no_orders_witness:
  "\<exists>w1 e w3. consume (Some deactivated_event) sample_world = (Inr Ack, w1) \<and>
     placeOrder \<lparr>ac_userId = 5, ac_role = ''customer'', ac_restaurantId = None, ac_restaurantRole = None, ac_branchIds = None\<rparr>
       \<lparr>co_branchId = 7, co_customerAddressId = 4, co_paymentMethod = COD, co_items = [(21, 2)]\<rparr> (Some ''eg'') None w1
       = (Inl e, w3)"
proof -
  have acked: "fst (consume (Some deactivated_event) sample_world) = Inr Ack"
    by (simp add: run deactivated_event_parsed seven reject_ttl DEDUPE_TTL_SEC_def)
  note run = run_result [OF refl acked]
  have "clock (snd (consume (Some deactivated_event) sample_world)) = 1000000"
    using same_settingD [OF same_setting.moves_consume run] by (simp add: sample_world_def)
  with deactivated_branch_takes_no_orders [OF deactivated_event_parsed _ _ seven _ _ run refl, where a = "\<lparr>ac_userId = 5, ac_role = ''customer'', ac_restaurantId = None, ac_restaurantRole = None, ac_branchIds = None\<rparr>" and
      req = "\<lparr>co_branchId = 7, co_customerAddressId = 4, co_paymentMethod = COD, co_items = [(21, 2)]\<rparr>" and
      region = "Some ''eg''" and cid = None] run
  show ?thesis by (simp add: sample_world_def live_def) blast
qed

definition faulty_world :: world where
  "faulty_world = sample_world\<lparr>ext := sample_outside\<lparr>redisFault := (\<lambda>n. if n = 1 then Some ''timeout'' else None)\<rparr>\<rparr>"

theorem core_event_failure_is_final_witness:
  "\<exists>w1. consume (Some deactivated_event) faulty_world = (Inr Nack, w1) \<and>
     consume (Some deactivated_event) w1 = (Inr Ack, tick w1)"
proof -
  have failed: "fst (consume (Some deactivated_event) faulty_world) = Inr Nack"
    and st: "steps (snd (consume (Some deactivated_event) faulty_world)) = 2"
    by (simp_all add: run faulty_world_def deactivated_event_parsed seven reject_ttl DEDUPE_TTL_SEC_def)
  note run = run_result [OF refl failed]
  from same_settingD [OF same_setting.moves_consume run] st
  have "consume (Some deactivated_event) (snd (consume (Some deactivated_event) faulty_world)) =
      (Inr Ack, tick (snd (consume (Some deactivated_event) faulty_world)))"
    by (intro core_event_failure_is_final [OF deactivated_event_parsed _ _ run])
      (simp_all add: faulty_world_def sample_world_def sample_outside_def live_def)
  with run show ?thesis by blast
qed

end
