(* ===== verification/Http.thy ===== *)
theory Http
  imports Access
begin

section \<open>Requests, responses and middleware\<close>

text \<open>
  The parts of \<open>src/lib\<close> that every request passes: correlation id, region, authentication, guards,
  idempotency keys, the response cache, body validation, the response helpers and the final error handler.

  A handler takes the context of a request to a response or throws; a middleware takes a handler to a
  handler, so that what it does before \<open>next()\<close> and, where it replaces \<open>res.json\<close>, after it, is one
  function. \<open>handled\<close> is express with the error handler at the end of the chain: whatever is thrown below a
  middleware that replaced \<open>res.json\<close> passes through the replacement too.

  Express itself is outside: matching a path to a route, parsing query string, cookies and JSON body, sending.
  A query parameter, a header and a path parameter is text or missing (repeated query parameters and nested
  ones, which the parser turns into arrays and objects, are not modelled), and \<open>Number\<close> reads decimal
  integers. The libraries that decide about texts are parameters: \<open>jsonwebtoken\<close>, \<open>class-validator\<close>,
  \<open>Date\<close>'s parser and the number format of a coordinate.
\<close>

subsection \<open>Requests and responses\<close>

record http_request =
  hq_method :: string
  hq_originalUrl :: string
  hq_params :: "string \<rightharpoonup> string"
  hq_query :: "string \<rightharpoonup> string"
  hq_headers :: "string \<rightharpoonup> string"
  hq_accessCookie :: "string option"
  hq_body :: "exn + json option"    \<comment> \<open>the error of the body parser, or the body if it is JSON\<close>

record response =
  rs_status :: int
  rs_body :: json
  rs_headers :: "(string \<times> string) list"

record http_ctx =
  hc_request :: http_request
  hc_region :: "string option"
  hc_user :: "actor option"
  hc_correlationId :: string

type_synonym handler = "http_ctx \<Rightarrow> response io"

datatype dto = CreateOrderRequestDTO | UpdateOrderStatusRequestDTO | CreatePayoutRequestDTO | PresenceLocationRequestDTO

text \<open>
  \<open>verifyToken\<close>: the claims of a valid token. \<open>validationMessages\<close>: \<open>validate(plainToInstance(cls, body))\<close>,
  an exception or the messages of the violated decorators. \<open>parseDate\<close>: the instant of \<open>new Date(text)\<close>,
  \<open>None\<close> for an invalid date. \<open>coordinate\<close>: a JSON coordinate in units of its seventh decimal.
\<close>

record libraries =
  verifyToken :: "string \<Rightarrow> actor option"
  validationMessages :: "dto \<Rightarrow> json option \<Rightarrow> exn + string list"
  parseDate :: "string \<Rightarrow> int option"
  coordinate :: "json \<Rightarrow> int option"

definition body_of :: "http_request \<Rightarrow> json option" where
  "body_of rq = (case hq_body rq of Inl _ \<Rightarrow> None | Inr b \<Rightarrow> b)"

definition param :: "string \<Rightarrow> http_ctx \<Rightarrow> string" where
  "param k c = (case hq_params (hc_request c) k of None \<Rightarrow> ''undefined'' | Some s \<Rightarrow> s)"

text \<open>\<open>res.status(code).json(body)\<close>, and the error responses of guards.\<close>

definition json_response :: "int \<Rightarrow> json \<Rightarrow> response" where
  "json_response code body = \<lparr>rs_status = code, rs_body = body, rs_headers = []\<rparr>"

definition error_json :: "int \<Rightarrow> string \<Rightarrow> response" where
  "error_json code msg = json_response code (JObj [(''error'', JStr msg)])"

definition error_response :: "exn \<Rightarrow> response" where
  "error_response e = (case errorHandler e of (code, msg) \<Rightarrow> error_json code msg)"

text \<open>lib/http/response.ts\<close>

definition sendSuccess :: "json \<Rightarrow> int \<Rightarrow> response" where
  "sendSuccess d code = json_response code (JObj [(''success'', JBool True), (''data'', d)])"

text \<open>Express with \<open>errorHandler\<close> registered last.\<close>

definition handled :: "handler \<Rightarrow> handler" where
  "handled h c = tryCatch (h c) (\<lambda>e. returnE (error_response e))"

subsection \<open>correlationId.ts and region-resolver.ts\<close>

text \<open>\<open>h1 || h2\<close>, and a new UUID when the result is missing or empty.\<close>

definition correlationId :: "http_request \<Rightarrow> string io" where
  "correlationId rq =
     (let pick = (\<lambda>v. case v of Some s \<Rightarrow> if s = [] then None else Some s | None \<Rightarrow> None)
      in case pick (hq_headers rq ''x-correlationid'') of
           Some s \<Rightarrow> returnE s
         | None \<Rightarrow>
             (case pick (hq_headers rq ''x-correlation-id'') of
                Some s \<Rightarrow> returnE s
              | None \<Rightarrow> randomUUID))"

definition ALL_REGIONS :: string where "ALL_REGIONS = ''all''"

definition resolveRegion :: "env \<Rightarrow> http_request \<Rightarrow> string option" where
  "resolveRegion e rq =
     (let norm = normalizeRegion (case hq_headers rq ''x-region'' of Some h \<Rightarrow> Some h | None \<Rightarrow> hq_query rq ''region'')
      in case norm of
           None \<Rightarrow> None
         | Some n \<Rightarrow>
             if n = ALL_REGIONS then Some ALL_REGIONS
             else if n \<noteq> [] \<and> isRegion e (Some n) then Some n
             else None)"

lemma lower_char_idem: "lower_char (lower_char c) = lower_char c"
  by (simp add: lower_char_def Let_def of_char_of)

lemma resolveRegion_lower: "resolveRegion e rq = Some g \<Longrightarrow> toLowerCase g = g"
  by (auto simp: resolveRegion_def normalizeRegion_def ALL_REGIONS_def toLowerCase_def lower_char_idem
      Let_def comp_def split: option.splits if_splits)

definition no_region :: "http_ctx \<Rightarrow> bool" where
  "no_region c \<longleftrightarrow> hc_region c = None \<or> hc_region c = Some []"

definition requireRegion :: "http_ctx \<Rightarrow> exn + unit" where
  "requireRegion c = (if no_region c then Inl RegionNotResolvedError else Inr ())"

definition requireConcreteRegion :: "http_ctx \<Rightarrow> exn + unit" where
  "requireConcreteRegion c =
     (if no_region c \<or> hc_region c = Some ALL_REGIONS then Inl RegionNotResolvedError else Inr ())"

subsection \<open>idempotency.ts\<close>

definition IDEMPOTENCY_TTL :: int where
  "IDEMPOTENCY_TTL = toSeconds 1 D"

definition idempotency_cache_key :: "http_request \<Rightarrow> string \<Rightarrow> string" where
  "idempotency_cache_key rq key =
     ''idempotency:'' @ hq_method rq @ '':'' @ hq_originalUrl rq @ '':'' @ key"

text \<open>
  \<open>JSON.parse(cached)\<close>: the text this middleware and \<open>withCache\<close> write is the JSON of a body; plain text
  fails. Branches and products live under keys of other prefixes.
\<close>

definition parse_cached :: "rtext \<Rightarrow> exn + json" where
  "parse_cached t = (case t of BodyText b \<Rightarrow> Inr b | _ \<Rightarrow> Inl (JsError ''Unexpected token in JSON''))"

definition hit :: "rtext option \<Rightarrow> rtext option" where
  "hit cached = (if cached = Some (Text []) then None else cached)"

definition lift_sum :: "exn + 'a \<Rightarrow> 'a io" where
  "lift_sum r = (case r of Inl e \<Rightarrow> throwE e | Inr x \<Rightarrow> returnE x)"

text \<open>What was stored for the key, parsed; the exceptions of this read end in the \<open>catch\<close> of the middleware.\<close>

definition cached_body :: "string \<Rightarrow> json option io" where
  "cached_body k =
     bindE (cache_get k) (\<lambda>cached.
     case hit cached of
       None \<Rightarrow> returnE None
     | Some t \<Rightarrow> bindE (lift_sum (parse_cached t)) (\<lambda>b. returnE (Some b)))"

text \<open>The replaced \<open>res.json\<close>: it stores the body of whatever response goes out.\<close>

definition storing :: "string \<Rightarrow> int \<Rightarrow> handler \<Rightarrow> handler" where
  "storing k ttl h c =
     bindE (handled h c) (\<lambda>resp.
     seqE (ignoring (cache_set k (BodyText (rs_body resp)) (Some ttl)))
          (returnE resp))"

definition idempotency :: "bool \<Rightarrow> handler \<Rightarrow> handler" where
  "idempotency strict h c =
     (let rq = hc_request c
      in if hq_method rq \<notin> {''POST'', ''PATCH'', ''PUT''} then h c
         else (case hq_headers rq ''idempotency-key'' of
           None \<Rightarrow> if strict then returnE (error_json 400 ''Missing Idempotency-Key header'') else h c
         | Some key \<Rightarrow>
             if key = [] then (if strict then returnE (error_json 400 ''Missing Idempotency-Key header'') else h c)
             else
               (let k = idempotency_cache_key rq key
                in bindE (tryCatch (bindE (cached_body k) (\<lambda>r. returnE (Inr r))) (\<lambda>e. returnE (Inl e))) (\<lambda>r.
                   case r of
                     Inl _ \<Rightarrow>
                       if strict then returnE (error_json 503 ''Idempotency service unavailable'') else h c
                   | Inr (Some b) \<Rightarrow> returnE (json_response 200 b)
                   | Inr None \<Rightarrow> storing k IDEMPOTENCY_TTL h c))))"

subsection \<open>withCache.ts\<close>

definition cache_key :: "bool \<Rightarrow> http_ctx \<Rightarrow> string" where
  "cache_key userScoped c =
     (let rq = hc_request c;
          key = hq_method rq @ '':'' @ hq_originalUrl rq;
          key' = (if userScoped
                  then key @ '':'' @ (case hc_user c of None \<Rightarrow> ''undefined'' | Some a \<Rightarrow> string_of_int (ac_userId a))
                  else key)
      in case hc_region c of None \<Rightarrow> key' | Some r \<Rightarrow> if r = [] then key' else r @ '':'' @ key')"

definition add_header :: "string \<Rightarrow> string \<Rightarrow> response \<Rightarrow> response" where
  "add_header k v resp = resp\<lparr>rs_headers := rs_headers resp @ [(k, v)]\<rparr>"

definition withCache :: "int \<Rightarrow> bool \<Rightarrow> handler \<Rightarrow> handler" where
  "withCache ttl userScoped h c =
     (let k = cache_key userScoped c
      in bindE (cached_body k) (\<lambda>cached.
         case cached of
           Some b \<Rightarrow> returnE (add_header ''X-Cache'' ''HIT'' (json_response 200 b))
         | None \<Rightarrow>
             bindE (handled h c) (\<lambda>resp.
             seqE (whenE (200 \<le> rs_status resp \<and> rs_status resp < 300)
                     (ignoring (cache_set k (BodyText (rs_body resp)) (Some ttl))))
                  (returnE (add_header ''X-Cache'' ''MISS'' resp)))))"

subsection \<open>validate.ts\<close>

definition hex_char :: "char \<Rightarrow> bool" where
  "hex_char c =
     (let k = of_char c :: nat in (48 \<le> k \<and> k \<le> 57) \<or> (97 \<le> k \<and> k \<le> 102) \<or> (65 \<le> k \<and> k \<le> 70))"

text \<open>\<open>/^[0-9a-f]{8}-[0-9a-f]{4}-[0-9a-f]{4}-[0-9a-f]{4}-[0-9a-f]{12}$/i\<close>\<close>

definition isUuidLike :: "string \<Rightarrow> bool" where
  "isUuidLike s \<longleftrightarrow>
     length s = 36 \<and>
     list_all (\<lambda>(i, c). if i \<in> {8, 13, 18, 23} then c = CHR ''-'' else hex_char c) (zip [0..<36] s)"

text \<open>
  \<open>decode\<close> reads the fields of the instance. Without a violated decorator it succeeds, except for integers
  that \<open>String\<close> prints with an exponent, which no column holds.
\<close>

definition validateBody ::
  "libraries \<Rightarrow> dto \<Rightarrow> (json \<Rightarrow> 'a option) \<Rightarrow> json option \<Rightarrow> exn + 'a" where
  "validateBody L cls decode body =
     (case validationMessages L cls body of
        Inl e \<Rightarrow> Inl e
      | Inr messages \<Rightarrow>
          if messages \<noteq> []
          then Inl (appError (let m = joinWith (CHR 0x0A) messages in if m = [] then ''Validation failed'' else m) 400)
          else (case Option.bind body decode of
                  None \<Rightarrow> Inl (JsError ''value out of range'')
                | Some x \<Rightarrow> Inr x))"

subsection \<open>The middleware of a route\<close>

datatype middleware =
    Authenticate
  | RequireRegion
  | RequireConcreteRegion
  | RequireAgent
  | RequireSystemAdmin
  | RequireInternalApiKey
  | RequireRestaurantMember string
  | RequireBranchAccess string
  | Rbac string string
  | Idempotency bool
  | WithCache int

definition guarded :: "guard \<Rightarrow> handler \<Rightarrow> handler" where
  "guarded g h c = (case g of Next \<Rightarrow> h c | Respond code msg \<Rightarrow> returnE (error_json code msg))"

definition param_number :: "string \<Rightarrow> http_ctx \<Rightarrow> int option" where
  "param_number k c = Option.bind (hq_params (hc_request c) k) Number"

definition query_number :: "string \<Rightarrow> http_ctx \<Rightarrow> int option" where
  "query_number k c = Option.bind (hq_query (hc_request c) k) Number"

fun run_middleware :: "libraries \<Rightarrow> middleware \<Rightarrow> handler \<Rightarrow> handler" where
  "run_middleware L Authenticate h c =
     bindE (lift_sum (authenticate (verifyToken L) (hq_accessCookie (hc_request c))
                        (hq_headers (hc_request c) ''authorization''))) (\<lambda>a.
     h (c\<lparr>hc_user := Some a\<rparr>))"
| "run_middleware L RequireRegion h c = seqE (lift_sum (requireRegion c)) (h c)"
| "run_middleware L RequireConcreteRegion h c = seqE (lift_sum (requireConcreteRegion c)) (h c)"
| "run_middleware L RequireAgent h c = guarded (requireAgent (hc_user c)) h c"
| "run_middleware L RequireSystemAdmin h c = guarded (requireSystemAdmin (hc_user c)) h c"
| "run_middleware L RequireInternalApiKey h c =
     bindE (getE env) (\<lambda>e. guarded (requireInternalApiKey e (hq_headers (hc_request c) ''api-key'')) h c)"
| "run_middleware L (RequireRestaurantMember p) h c =
     guarded (requireRestaurantMember (hc_user c) (param_number p c)) h c"
| "run_middleware L (RequireBranchAccess p) h c =
     guarded (requireBranchAccess (hc_user c) (param_number p c) (query_number p c)) h c"
| "run_middleware L (Rbac resource action) h c =
     bindE (rbac resource action True (hc_user c)) (\<lambda>g. guarded g h c)"
| "run_middleware L (Idempotency strict) h c = idempotency strict h c"
| "run_middleware L (WithCache ttl) h c = withCache ttl False h c"

fun chain :: "libraries \<Rightarrow> middleware list \<Rightarrow> handler \<Rightarrow> handler" where
  "chain L [] h = h"
| "chain L (m # ms) h = run_middleware L m (chain L ms h)"

end
