(* ===== verification/Controllers.thy ===== *)
theory Controllers
  imports Http Stock Webhook Settlement Finance
begin

section \<open>Request bodies and controllers\<close>

text \<open>
  The request DTOs of \<open>src/app/*/dto\<close>, the controllers of \<open>src/app/*/controller\<close> and the health route.
  A controller takes the context of a request to a response or throws; its \<open>try .. catch (err) { next(err) }\<close>
  is that exception. A \<open>decode_*\<close> function reads an instance whose decorators hold: it states the decorators
  in its conditions.
\<close>

subsection \<open>Request DTOs\<close>

text \<open>\<open>@IsInt()\<close>, with \<open>@Min\<close>, and \<open>@IsString()\<close> with its lengths.\<close>

definition jnumber :: "json option \<Rightarrow> int option" where
  "jnumber v = (case v of Some (JNum n) \<Rightarrow> if n = [] then None else Number n | _ \<Rightarrow> None)"

definition jint_in :: "int \<Rightarrow> int option \<Rightarrow> json option \<Rightarrow> int option" where
  "jint_in lo hi v =
     (case jnumber v of
        None \<Rightarrow> None
      | Some n \<Rightarrow> if lo \<le> n \<and> (case hi of None \<Rightarrow> True | Some m \<Rightarrow> n \<le> m) then Some n else None)"

definition jstring_in :: "nat \<Rightarrow> nat \<Rightarrow> json option \<Rightarrow> string option" where
  "jstring_in lo hi v =
     (case v of Some (JStr s) \<Rightarrow> if lo \<le> length s \<and> length s \<le> hi then Some s else None | _ \<Rightarrow> None)"

text \<open>\<open>@IsOptional()\<close>: \<open>undefined\<close> and \<open>null\<close> skip the other decorators.\<close>

definition joptional :: "(json option \<Rightarrow> 'a option) \<Rightarrow> json option \<Rightarrow> 'a option option" where
  "joptional f v = (if v = None \<or> v = Some JNull then Some None else map_option Some (f v))"

fun all_some :: "'a option list \<Rightarrow> 'a list option" where
  "all_some [] = Some []"
| "all_some (None # xs) = None"
| "all_some (Some x # xs) = map_option (\<lambda>ys. x # ys) (all_some xs)"

definition payment_method_of :: "string \<Rightarrow> payment_method option" where
  "payment_method_of s = find (\<lambda>m. payment_method_value m = s) [ONLINE, COD]"

definition all_statuses :: "order_status list" where
  "all_statuses = [PENDING_PAYMENT, PLACED, ACCEPTED, REJECTED, PREPARING, READY, ASSIGNED, PICKED, DELIVERED, CANCELLED]"

definition status_of :: "string \<Rightarrow> order_status option" where
  "status_of s = find (\<lambda>x. status_value x = s) all_statuses"

definition jenum :: "(string \<Rightarrow> 'a option) \<Rightarrow> json option \<Rightarrow> 'a option" where
  "jenum f v = (case v of Some (JStr s) \<Rightarrow> f s | _ \<Rightarrow> None)"

definition decode_order_item :: "json \<Rightarrow> stock_item option" where
  "decode_order_item j =
     (case (jint_in 1 None (jget ''productId'' j), jint_in 1 (Some 50) (jget ''quantity'' j)) of
        (Some p, Some q) \<Rightarrow> Some (p, q)
      | _ \<Rightarrow> None)"

definition decode_create_order :: "json \<Rightarrow> create_order_request option" where
  "decode_create_order j =
     (case (jint_in 1 None (jget ''branchId'' j), jint_in 1 None (jget ''customerAddressId'' j),
            jenum payment_method_of (jget ''paymentMethod'' j), jget ''items'' j) of
        (Some b, Some a, Some m, Some (JArr its)) \<Rightarrow>
          if its = [] then None
          else map_option (\<lambda>xs. \<lparr>co_branchId = b, co_customerAddressId = a, co_paymentMethod = m, co_items = xs\<rparr>)
                 (all_some (map decode_order_item its))
      | _ \<Rightarrow> None)"

definition decode_update_status :: "json \<Rightarrow> update_status_request option" where
  "decode_update_status j =
     (case (jenum status_of (jget ''status'' j), joptional (jstring_in 0 500) (jget ''reason'' j)) of
        (Some s, Some r) \<Rightarrow> Some \<lparr>us_status = s, us_reason = r\<rparr>
      | _ \<Rightarrow> None)"

definition decode_create_payout :: "json \<Rightarrow> create_payout_request option" where
  "decode_create_payout j =
     (case (jint_in 1 None (jget ''restaurantId'' j), jint_in 1 None (jget ''amount'' j),
            jstring_in 2 8 (jget ''currency'' j), jstring_in 1 128 (jget ''providerReferenceId'' j),
            joptional (jstring_in 0 500) (jget ''note'' j)) of
        (Some r, Some a, Some cur, Some ref, Some _) \<Rightarrow>
          Some \<lparr>cp_restaurantId = r, cp_amount = a, cp_currency = cur, cp_providerReferenceId = ref\<rparr>
      | _ \<Rightarrow> None)"

definition decode_presence :: "(json \<Rightarrow> int option) \<Rightarrow> json \<Rightarrow> (int \<times> int) option" where
  "decode_presence coord j =
     (case (Option.bind (jget ''lat'' j) coord, Option.bind (jget ''lng'' j) coord) of
        (Some lat, Some lng) \<Rightarrow>
          if \<bar>lat\<bar> \<le> 900000000 \<and> \<bar>lng\<bar> \<le> 1800000000 then Some (lat, lng) else None
      | _ \<Rightarrow> None)"

subsection \<open>Helpers of the controllers\<close>

text \<open>\<open>sendPaginated\<close>\<close>

definition sendPaginated :: "json list \<Rightarrow> pagination_meta \<Rightarrow> response" where
  "sendPaginated ds m =
     json_response 200
       (JObj [(''success'', JBool True), (''data'', JArr ds),
              (''meta'', JObj [(''nextCursor'', jopt JStr (nextCursor m)), (''hasMore'', JBool (hasMore m)),
                               (''count'', jint (int (Pagination.count m)))])])"

text \<open>\<open>if (!req.region || req.region === "all") throw RegionNotResolvedError\<close>\<close>

definition region_of :: "http_ctx \<Rightarrow> exn + string" where
  "region_of c =
     (if no_region c \<or> hc_region c = Some ALL_REGIONS then Inl RegionNotResolvedError
      else Inr (the (hc_region c)))"

text \<open>\<open>req.user!\<close>: reading a property of \<open>undefined\<close> throws.\<close>

definition user_of :: "http_ctx \<Rightarrow> exn + actor" where
  "user_of c =
     (case hc_user c of
        None \<Rightarrow> Inl (JsError ''Cannot read properties of undefined (reading userId)'')
      | Some a \<Rightarrow> Inr a)"

definition publicId_of :: "http_ctx \<Rightarrow> exn + string" where
  "publicId_of c = (if isUuidLike (param ''publicId'' c) then Inr (param ''publicId'' c) else Inl OrderNotFoundError)"

definition query_of :: "http_ctx \<Rightarrow> string \<Rightarrow> string option" where
  "query_of c = hq_query (hc_request c)"

text \<open>
  \<open>req.query.k ? new Date(String(req.query.k)) : d\<close>. An invalid date ends in an internal error, raised by the
  statement it is bound to; here it is raised at once.
\<close>

definition date_or :: "libraries \<Rightarrow> string \<Rightarrow> int option \<Rightarrow> http_ctx \<Rightarrow> exn + int option" where
  "date_or L k d c =
     (case query_of c k of
        None \<Rightarrow> Inr d
      | Some s \<Rightarrow>
          if s = [] then Inr d
          else (case parseDate L s of None \<Rightarrow> Inl cast_error | Some t \<Rightarrow> Inr (Some t)))"

subsection \<open>order.controller.ts\<close>

definition order_placeOrder :: "libraries \<Rightarrow> handler" where
  "order_placeOrder L c =
     bindE (lift_sum (validateBody L CreateOrderRequestDTO decode_create_order (body_of (hc_request c)))) (\<lambda>body.
     bindE (lift_sum (user_of c)) (\<lambda>a.
     bindE (placeOrder a body (hc_region c) (Some (hc_correlationId c))) (\<lambda>res.
     returnE (sendSuccess res 201))))"

definition order_getOrder :: handler where
  "order_getOrder c =
     bindE (lift_sum (region_of c)) (\<lambda>region.
     bindE (lift_sum (publicId_of c)) (\<lambda>publicId.
     bindE (lift_sum (user_of c)) (\<lambda>a.
     bindE (getOrder a region publicId) (\<lambda>res. returnE (sendSuccess res 200)))))"

text \<open>\<open>Number(req.query.year) || new Date().getUTCFullYear()\<close>\<close>

definition year_or_current :: "int option \<Rightarrow> int \<Rightarrow> int" where
  "year_or_current q t = (if q = None \<or> q = Some 0 then utcFullYear t else the q)"

definition order_listCustomerOrders :: handler where
  "order_listCustomerOrders c =
     bindE (lift_sum (region_of c)) (\<lambda>region.
     bindE now (\<lambda>t.
     bindE (lift_sum (user_of c)) (\<lambda>a.
     bindE (listCustomerOrders a region (year_or_current (query_number ''year'' c) t)
              (parsePaginationQuery (query_of c) [''createdAt''])) (\<lambda>(ds, meta).
     returnE (sendPaginated ds meta)))))"

text \<open>
  \<open>Number\<close> of the path parameters: the guards before have refused a restaurant id that is no number. A branch
  id that is none is bound as \<open>NaN\<close>, which the database refuses for its integer column.
\<close>

definition order_listRestaurantOrders :: "libraries \<Rightarrow> handler" where
  "order_listRestaurantOrders L c =
     bindE (lift_sum (region_of c)) (\<lambda>region.
     bindE (lift_sum (date_or L ''from'' None c)) (\<lambda>frm.
     bindE (lift_sum (date_or L ''to'' None c)) (\<lambda>to.
     bindE (lift_sum (user_of c)) (\<lambda>a.
     case param_number ''branchId'' c of
       None \<Rightarrow> throwE cast_error
     | Some branchId \<Rightarrow>
         bindE (listRestaurantOrders region
                  \<lparr>rf_restaurantId = number_or_zero (param_number ''restaurantId'' c), rf_branchId = branchId,
                   rf_status = query_of c ''status'', rf_from = frm, rf_to = to\<rparr>
                  (parsePaginationQuery (query_of c) [''createdAt''])) (\<lambda>(ds, meta).
         returnE (sendPaginated ds meta))))))"

definition order_listOrderHistory :: handler where
  "order_listOrderHistory c =
     bindE (assertRegion (Some (case query_of c ''region'' of None \<Rightarrow> [] | Some r \<Rightarrow> r))) (\<lambda>region.
     case query_number ''year'' c of
       None \<Rightarrow> throwE InvalidBackfillYearError
     | Some year \<Rightarrow>
         bindE (listOrdersForBackfill region year (parsePaginationQuery (query_of c) [''createdAt''])) (\<lambda>(ds, meta).
         returnE (sendPaginated ds meta)))"

definition order_updateStatus :: "libraries \<Rightarrow> handler" where
  "order_updateStatus L c =
     bindE (lift_sum (region_of c)) (\<lambda>region.
     bindE (lift_sum (publicId_of c)) (\<lambda>publicId.
     bindE (lift_sum (validateBody L UpdateOrderStatusRequestDTO decode_update_status (body_of (hc_request c)))) (\<lambda>body.
     bindE (lift_sum (user_of c)) (\<lambda>a.
     bindE (updateStatus a region publicId body) (\<lambda>res. returnE (sendSuccess res 200))))))"

subsection \<open>agent.controller.ts and assignment.controller.ts\<close>

definition ok_true :: json where
  "ok_true = JObj [(''ok'', JBool True)]"

definition agent_presenceUpsert :: "libraries \<Rightarrow> handler" where
  "agent_presenceUpsert L c =
     bindE (lift_sum (region_of c)) (\<lambda>region.
     bindE (lift_sum (validateBody L PresenceLocationRequestDTO (decode_presence (coordinate L)) (body_of (hc_request c))))
       (\<lambda>(lat, lng).
     bindE (lift_sum (user_of c)) (\<lambda>a.
     seqE (upsert region (ac_userId a) lat lng) (returnE (sendSuccess ok_true 200)))))"

definition agent_offline :: handler where
  "agent_offline c =
     bindE (lift_sum (region_of c)) (\<lambda>region.
     bindE (lift_sum (user_of c)) (\<lambda>a.
     seqE (goOffline region (ac_userId a)) (returnE (sendSuccess ok_true 200))))"

definition agent_accept :: handler where
  "agent_accept c =
     bindE (lift_sum (region_of c)) (\<lambda>region.
     bindE (lift_sum (user_of c)) (\<lambda>a.
     bindE (accept (param ''publicId'' c) (ac_userId a) region) (\<lambda>res. returnE (sendSuccess res 200))))"

definition agent_reject :: handler where
  "agent_reject c =
     bindE (lift_sum (region_of c)) (\<lambda>region.
     bindE (lift_sum (user_of c)) (\<lambda>a.
     seqE (reject (param ''publicId'' c) (ac_userId a)) (returnE (sendSuccess ok_true 200))))"

text \<open>\<open>String((req.body ?? {}).status)\<close>\<close>

definition body_field :: "string \<Rightarrow> http_ctx \<Rightarrow> json option" where
  "body_field k c = Option.bind (body_of (hc_request c)) (jget k)"

definition body_text :: "string \<Rightarrow> http_ctx \<Rightarrow> string" where
  "body_text k c = (case body_field k c of None \<Rightarrow> ''undefined'' | Some v \<Rightarrow> js_string v)"

text \<open>\<open>status must be 'picked' or 'delivered'\<close>\<close>

definition bad_target :: string where
  "bad_target =
     ''status must be '' @ CHR 0x27 # ''picked'' @ CHR 0x27 # '' or '' @ CHR 0x27 # ''delivered'' @ [CHR 0x27]"

definition agent_transition :: handler where
  "agent_transition c =
     bindE (lift_sum (region_of c)) (\<lambda>region.
     bindE (lift_sum (publicId_of c)) (\<lambda>publicId.
     let target = body_text ''status'' c
     in if target \<noteq> status_value PICKED \<and> target \<noteq> status_value DELIVERED
        then returnE (error_json 400 bad_target)
        else
          bindE (lift_sum (user_of c)) (\<lambda>a.
          bindE (transition publicId (ac_userId a) region target) (\<lambda>res. returnE (sendSuccess res 200)))))"

definition agent_tasks :: handler where
  "agent_tasks c =
     bindE (lift_sum (region_of c)) (\<lambda>region.
     bindE (lift_sum (user_of c)) (\<lambda>a.
     bindE (listTasks (ac_userId a) region (query_of c ''status'')) (\<lambda>ds.
     returnE (sendSuccess (JArr ds) 200))))"

text \<open>The first instant of the current month: \<open>Date.UTC(y, m, 1)\<close>.\<close>

definition startOfUtcMonth :: "int \<Rightarrow> int" where
  "startOfUtcMonth t =
     (let y = utcFullYear t; d = t div ms_per_day - day_from_year y;
          md = month_day (month_lengths y) 1 d
      in (t div ms_per_day - (snd md - 1)) * ms_per_day)"

definition agent_earnings_handler :: "libraries \<Rightarrow> handler" where
  "agent_earnings_handler L c =
     bindE (lift_sum (region_of c)) (\<lambda>region.
     bindE now (\<lambda>t.
     bindE (lift_sum (date_or L ''from'' (Some (startOfUtcMonth t)) c)) (\<lambda>frm.
     bindE (lift_sum (date_or L ''to'' (Some t) c)) (\<lambda>to.
     bindE (lift_sum (user_of c)) (\<lambda>a.
     bindE (agent_earnings (ac_userId a) region (the frm) (the to)) (\<lambda>res.
     returnE (sendSuccess res 200)))))))"

text \<open>\<open>Number((req.body ?? {}).agentId)\<close>: a text is read as a number too, \<open>null\<close> and \<open>false\<close> are 0.\<close>

definition js_number :: "json option \<Rightarrow> int option" where
  "js_number v =
     (case v of
        None \<Rightarrow> None
      | Some JNull \<Rightarrow> Some 0
      | Some (JBool b) \<Rightarrow> Some (if b then 1 else 0)
      | Some (JObj _) \<Rightarrow> None
      | Some x \<Rightarrow> Number (js_string x))"

definition assignment_adminAssign :: handler where
  "assignment_adminAssign c =
     bindE (lift_sum (region_of c)) (\<lambda>region.
     bindE (lift_sum (publicId_of c)) (\<lambda>publicId.
     case js_number (body_field ''agentId'' c) of
       None \<Rightarrow> returnE (error_json 400 ''agentId is required'')
     | Some agentId \<Rightarrow>
         if agentId \<le> 0 then returnE (error_json 400 ''agentId is required'')
         else bindE (adminAssign publicId agentId region) (\<lambda>res. returnE (sendSuccess res 200))))"

subsection \<open>finance.controller.ts\<close>

definition PAYOUT_LIST_LIMIT :: nat where
  "PAYOUT_LIST_LIMIT = 50"

definition finance_getBalance :: handler where
  "finance_getBalance c =
     bindE (lift_sum (region_of c)) (\<lambda>region.
     bindE (getBalance (number_or_zero (param_number ''restaurantId'' c)) region) (\<lambda>res.
     returnE (sendSuccess res 200)))"

definition finance_listPayouts :: "libraries \<Rightarrow> handler" where
  "finance_listPayouts L c =
     bindE (lift_sum (region_of c)) (\<lambda>region.
     bindE now (\<lambda>t.
     bindE (lift_sum (date_or L ''from'' (Some (t - 90 * 24 * 60 * 60 * 1000)) c)) (\<lambda>frm.
     bindE (lift_sum (date_or L ''to'' (Some t) c)) (\<lambda>to.
     bindE (listPayouts (number_or_zero (param_number ''restaurantId'' c)) region (the frm) (the to) PAYOUT_LIST_LIMIT)
       (\<lambda>ds. returnE (sendSuccess (JArr ds) 200))))))"

text \<open>\<open>{...req.body, restaurantId: Number(req.params.restaurantId)}\<close>; \<open>NaN\<close> is the number printed \<open>NaN\<close>.\<close>

definition payout_payload :: "http_ctx \<Rightarrow> json" where
  "payout_payload c =
     JObj ((case body_of (hc_request c) of Some (JObj kvs) \<Rightarrow> kvs | _ \<Rightarrow> []) @
           [(''restaurantId'',
             (case param_number ''restaurantId'' c of None \<Rightarrow> JNum ''NaN'' | Some n \<Rightarrow> jint n))])"

definition finance_createPayout :: "libraries \<Rightarrow> handler" where
  "finance_createPayout L c =
     bindE (lift_sum (region_of c)) (\<lambda>region.
     bindE (lift_sum (validateBody L CreatePayoutRequestDTO decode_create_payout (Some (payout_payload c)))) (\<lambda>body.
     bindE (recordPayout body region
              (case hq_headers (hc_request c) ''idempotency-key'' of None \<Rightarrow> [] | Some k \<Rightarrow> k)) (\<lambda>res.
     returnE (sendSuccess res 201))))"

subsection \<open>payment.controller.ts and webhook.controller.ts\<close>

definition payment_getById :: handler where
  "payment_getById c =
     (case param_number ''paymentId'' c of
        None \<Rightarrow> returnE (error_json 400 ''invalid paymentId'')
      | Some paymentId \<Rightarrow>
          if paymentId \<le> 0 then returnE (error_json 400 ''invalid paymentId'')
          else
            bindE (paymentGetById paymentId (number_or_zero (param_number ''restaurantId'' c)) (the (hc_region c)))
              (\<lambda>res. returnE (sendSuccess res 200)))"

text \<open>The raw body is there when the body parser has read one.\<close>

definition webhook_kashier :: handler where
  "webhook_kashier c =
     seqE (webhook_controller (map_option Some (body_of (hc_request c)))
             (hq_headers (hc_request c) ''x-kashier-signature'') (the (hc_region c)))
          (returnE (json_response 200 (JObj [(''success'', JBool True)])))"

subsection \<open>health.routes.ts and pingAll of knex.ts\<close>

text \<open>The hot and archive shards are configured for the same regions.\<close>

definition pingOne :: "cluster \<Rightarrow> string \<Rightarrow> (cluster \<times> string \<times> string option) io" where
  "pingOne cl region =
     tryCatch (bindE (getShard cl region) (\<lambda>c. seqE (roundtrip c) (returnE (cl, region, None))))
       (\<lambda>e. returnE (cl, region, Some (exn_message e)))"

fun pings :: "cluster \<Rightarrow> string list \<Rightarrow> (cluster \<times> string \<times> string option) list io" where
  "pings cl [] = returnE []"
| "pings cl (r # rs) = bindE (pingOne cl r) (\<lambda>p. bindE (pings cl rs) (\<lambda>ps. returnE (p # ps)))"

definition pingAll :: "(cluster \<times> string \<times> string option) list io" where
  "pingAll =
     bindE (getE env) (\<lambda>e.
     bindE (pings Hot (regions e)) (\<lambda>hot.
     bindE (pings Archive (regions e)) (\<lambda>archive. returnE (hot @ archive))))"

definition ping_json :: "cluster \<times> string \<times> string option \<Rightarrow> json" where
  "ping_json p =
     (case p of (cl, region, err) \<Rightarrow>
        JObj ([(''region'', JStr region), (''cluster'', JStr (if cl = Hot then ''hot'' else ''archive'')),
               (''ok'', JBool (err = None))] @
              (case err of None \<Rightarrow> [] | Some m \<Rightarrow> [(''error'', JStr m)])))"

definition health :: handler where
  "health c =
     bindE pingAll (\<lambda>shards.
     let allOk = list_all (\<lambda>(_, _, err). err = None) shards
     in returnE (json_response (if allOk then 200 else 503)
          (JObj [(''ok'', JBool allOk), (''shards'', JArr (map ping_json shards))])))"

subsection \<open>Frames\<close>

text \<open>A continuation need only move within the relation on the results it can get.\<close>

context step_relation begin

lemma moves_bindE_on:
  assumes m: "moves R m" and f: "\<And>s x s'. m s = (Inr x, s') \<Longrightarrow> moves R (f x)"
  shows "moves R (bindE m f)"
proof (rule movesI)
  fix s r s'
  assume "bindE m f s = (r, s')"
  then show "R s s'"
  proof (cases rule: bindE_cases)
    case (thrown e)
    then show ?thesis using m by (auto dest: movesD)
  next
    case (went x t)
    from movesD [OF m went(1)] movesD [OF f [OF went(1)] went(2)] show ?thesis by (rule R_trans)
  qed
qed

end

context quiet_relation begin

lemma moves_lift_sum [moves_intro]: "moves R (lift_sum r)"
  unfolding lift_sum_def by (intro moves_intro)

lemma moves_pings [moves_intro]: "moves R (pings cl rs)"
proof (induction rs)
  case (Cons r rs)
  have "moves R (getShard cl r)" by (simp add: moves_def getShard_pure R_refl)
  then show ?case unfolding pings.simps pingOne_def by (intro moves_intro Cons)
qed (simp only: pings.simps moves_returnE)

lemma moves_agent_reject [moves_intro]: "moves R (reject p a)"
  unfolding reject_def drop_offer_def offer_of_def by (intro moves_intro)

lemma moves_finance_reads [moves_intro]: "moves R (getBalance rid g)" "moves R (listPayouts rid g f t n)"
  unfolding getBalance_def listPayouts_def by (intro moves_intro)+

lemma moves_read_controllers [moves_intro]:
  "moves R (health c)" "moves R (order_getOrder c)" "moves R (order_listCustomerOrders c)"
  "moves R (order_listRestaurantOrders L c)" "moves R (order_listOrderHistory c)"
  "moves R (agent_presenceUpsert L c)" "moves R (agent_reject c)" "moves R (agent_tasks c)"
  "moves R (agent_earnings_handler L c)" "moves R (finance_getBalance c)" "moves R (finance_listPayouts L c)"
  "moves R (payment_getById c)"
  unfolding health_def pingAll_def order_getOrder_def order_listCustomerOrders_def order_listRestaurantOrders_def
    order_listOrderHistory_def agent_presenceUpsert_def agent_reject_def agent_tasks_def
    agent_earnings_handler_def finance_getBalance_def finance_listPayouts_def payment_getById_def Let_def
  by (intro moves_intro)+

end

context restoring_relation begin

lemma moves_quiet_transaction [moves_intro]:
  assumes "moves R body"
  shows "moves R (quiet_transaction c body)"
proof (rule movesI)
  fix w r w'
  assume run: "quiet_transaction c body w = (r, w')"
  have t: "moves R (transaction c body throwE)" using assms by (intro moves_intro)
  show "R w w'"
  proof (cases r)
    case (Inl e)
    with run quiet_transaction_Inl obtain e' where "transaction c body throwE w = (Inl e', w')" by blast
    then show ?thesis by (rule movesD [OF t])
  next
    case (Inr x)
    with run have "transaction c body throwE w = (Inr x, w')"
      by (auto simp: quiet_transaction_def transaction_def seqE_def bindE_def tryCatch_def split: prod.splits sum.splits)
    then show ?thesis by (rule movesD [OF t])
  qed
qed

end

lemma planOrder_region:
  assumes "planOrder a body (Some g) cid w = (Inr pl, w')" and "toLowerCase g = g"
  shows "pl_region pl = g"
proof -
  from assms(1) obtain w1 w2 where r: "assertRegion (Some g) w1 = (Inr (pl_region pl), w2)"
    unfolding planOrder_def Let_def
    by (elim bindE_InrE seqE_InrE throwIf_InrE checked_InrE) auto
  with assms(2) show ?thesis
    by (auto simp: assertRegion_def bindE_def normalizeRegion_def split: if_splits)
qed

lemma placeOrder_commit_region:
  assumes "placeOrder_commit a body pl pid cid w = (Inr (o', items), w')"
  shows "o_region o' = pl_region pl"
proof -
  from assms obtain w1 where
    "transaction (Hot, pl_region pl) (placeOrder_body a body pl pid (Hot, pl_region pl))
       (\<lambda>err. seqE (releaseStockSafe (co_branchId body) (co_items body) pid cid) (throwE err)) w1 = (Inr (o', items), w')"
    unfolding placeOrder_commit_def by auto
  then obtain w2 w3 where "placeOrder_body a body pl pid (Hot, pl_region pl) w2 = (Inr (o', items), w3)"
    by (rule transaction_returned) auto
  then obtain i t where "o' = order_row i t (order_input a body pl pid)"
    by (rule placeOrder_body_InrE)
  then show ?thesis by (simp add: order_row_def order_input_def Let_def)
qed

context hot_relation begin

lemma moves_placeOrder:
  assumes g: "toLowerCase g = g"
  shows "moves R (placeOrder a body (Some g) cid)"
proof -
  have paid: "moves R (case x of (o', items) \<Rightarrow> bindE (placeOrder_payment body pl o' cid) (\<lambda>p. placeOrder_finish body pl o' items p))"
    if "pl_region pl = g" "placeOrder_commit a body pl pid cid w = (Inr x, w')" for pl pid x w w'
  proof (cases x)
    case (Pair o' items)
    with that placeOrder_commit_region have "o_region o' = g" by blast
    with that(1) Pair show ?thesis by simp (intro moves_intro; simp)
  qed
  have "moves R (bindE (placeOrder_commit a body pl pid cid)
          (\<lambda>(o', items). bindE (placeOrder_payment body pl o' cid) (\<lambda>p. placeOrder_finish body pl o' items p)))"
    if "pl_region pl = g" for pl pid
    using that by (intro moves_bindE_on moves_placeOrder_commit paid)
  then show ?thesis
    unfolding placeOrder_def
    by (intro moves_bindE_on [OF moves_planOrder] moves_bindE [OF moves_randomUUID] moves_seqE)
       (auto dest: planOrder_region [OF _ g] intro: moves_stock)
qed

lemma moves_updateStatus: "moves R (updateStatus a g p body)"
proof -
  have "moves R (updateStatus_write g body (conn, o', who, st))"
    if "updateStatus_read a g p body w = (Inr (conn, o', who, st), w')" for conn o' who st w w'
  proof -
    from that have "conn = (Hot, g)" by (rule updateStatus_read_InrE)
    then show ?thesis unfolding updateStatus_write_def Let_def by simp (intro moves_intro)
  qed
  then show ?thesis
    unfolding updateStatus_def by (intro moves_bindE_on [OF moves_updateStatus_read]) (auto split: prod.splits)
qed

end

context hot_relation begin

lemma moves_bind_region:
  assumes "hc_region c = Some g" and "moves R (f g)"
  shows "moves R (bindE (lift_sum (region_of c)) f)"
  using assms by (auto simp: region_of_def lift_sum_def)

lemma moves_recordPayout: "moves R (recordPayout body g key)"
  unfolding recordPayout_def by (intro moves_intro)

lemma moves_webhook_controller: "moves R (webhook_controller raw sig g)"
  unfolding webhook_controller_def by (intro moves_intro)

lemma moves_write_controllers:
  assumes r: "hc_region c = Some g" and l: "toLowerCase g = g"
  shows "moves R (order_placeOrder L c)" "moves R (order_updateStatus L c)" "moves R (agent_offline c)"
    "moves R (agent_accept c)" "moves R (agent_transition c)" "moves R (assignment_adminAssign c)"
    "moves R (finance_createPayout L c)" "moves R (webhook_kashier c)"
  unfolding order_placeOrder_def order_updateStatus_def agent_offline_def agent_accept_def agent_transition_def
    assignment_adminAssign_def finance_createPayout_def webhook_kashier_def Let_def accept_def r option.sel
  by (intro moves_bind_region [OF r] moves_placeOrder [OF l] moves_updateStatus moves_recordPayout
      moves_webhook_controller moves_intro)+

end

end
