(* ===== verification/Routes.thy ===== *)
theory Routes
  imports Controllers
begin

section \<open>The routes\<close>

text \<open>
  \<open>src/routes.ts\<close>, \<open>src/app/*/routes.ts\<close> and \<open>src/app.ts\<close>: which middleware stands before which controller.
  A router is the list of its routes (method, path below \<open>/api\<close>, middleware); a route is named by an
  \<open>endpoint\<close>, and \<open>serve\<close> runs a request that express has matched to it. The theorems are about the whole
  chain: who gets through to a controller, what a repeated idempotency key does, what a response can leak.
\<close>

datatype endpoint =
    Health
  | PostOrders | GetOrderById | GetCustomerOrders | PatchCustomerOrder | GetBranchOrders | PatchBranchOrder
  | GetOrderHistory | PatchAdminOrder
  | PostKashierWebhook | GetPaymentById
  | PostOnline | PostPing | PostOffline | PostAccept | PostReject | PatchTask | GetTasks | GetEarnings
  | PostAssign
  | GetRestaurantBalance | GetPayouts | PostPayout

type_synonym route = "endpoint \<times> string \<times> string \<times> middleware list"

definition healthRouter :: "route list" where
  "healthRouter = [(Health, ''GET'', ''/health'', [])]"

definition orderRouter :: "route list" where
  "orderRouter =
     [(PostOrders, ''POST'', ''/orders'', [Authenticate, RequireRegion, Idempotency True]),
      (GetOrderById, ''GET'', ''/orders/:publicId'', [Authenticate, RequireRegion]),
      (GetCustomerOrders, ''GET'', ''/customer/orders'', [Authenticate, RequireRegion]),
      (PatchCustomerOrder, ''PATCH'', ''/customer/orders/:publicId/status'',
         [Authenticate, RequireRegion, Idempotency True]),
      (GetBranchOrders, ''GET'', ''/restaurants/:restaurantId/branches/:branchId/orders'',
         [Authenticate, RequireRegion, RequireRestaurantMember ''restaurantId'', RequireBranchAccess ''branchId'',
          Rbac ''orders'' ''read'', WithCache 10]),
      (PatchBranchOrder, ''PATCH'', ''/restaurants/:restaurantId/branches/:branchId/orders/:publicId/status'',
         [Authenticate, RequireRegion, RequireRestaurantMember ''restaurantId'', RequireBranchAccess ''branchId'',
          Idempotency True]),
      (GetOrderHistory, ''GET'', ''/internal/orders/history'', [RequireInternalApiKey]),
      (PatchAdminOrder, ''PATCH'', ''/admin/orders/:publicId/status'',
         [Authenticate, RequireRegion, Rbac ''orders'' ''cancel'', Idempotency True])]"

definition paymentRouter :: "route list" where
  "paymentRouter =
     [(PostKashierWebhook, ''POST'', ''/payments/webhook/kashier'', [RequireConcreteRegion]),
      (GetPaymentById, ''GET'', ''/restaurants/:restaurantId/payments/:paymentId'',
         [Authenticate, RequireConcreteRegion, RequireRestaurantMember ''restaurantId'', Rbac ''payments'' ''read''])]"

definition agentRouter :: "route list" where
  "agentRouter =
     [(PostOnline, ''POST'', ''/agents/presence/online'', [Authenticate, RequireAgent, RequireRegion]),
      (PostPing, ''POST'', ''/agents/presence/ping'', [Authenticate, RequireAgent, RequireRegion]),
      (PostOffline, ''POST'', ''/agents/presence/offline'', [Authenticate, RequireAgent, RequireRegion]),
      (PostAccept, ''POST'', ''/agents/orders/:publicId/accept'',
         [Authenticate, RequireAgent, RequireRegion, Idempotency True]),
      (PostReject, ''POST'', ''/agents/orders/:publicId/reject'', [Authenticate, RequireAgent, RequireRegion]),
      (PatchTask, ''PATCH'', ''/agents/orders/:publicId/status'',
         [Authenticate, RequireAgent, RequireRegion, Idempotency True]),
      (GetTasks, ''GET'', ''/agents/tasks'', [Authenticate, RequireAgent, RequireRegion]),
      (GetEarnings, ''GET'', ''/agents/earnings'', [Authenticate, RequireAgent, RequireRegion])]"

definition assignmentRouter :: "route list" where
  "assignmentRouter =
     [(PostAssign, ''POST'', ''/admin/orders/:publicId/assign'',
         [Authenticate, RequireRegion, Rbac ''deliveries'' ''assign'', Idempotency True])]"

definition financeRouter :: "route list" where
  "financeRouter =
     [(GetRestaurantBalance, ''GET'', ''/restaurants/:restaurantId/balance'',
         [Authenticate, RequireRegion, RequireRestaurantMember ''restaurantId'', Rbac ''finance'' ''read'']),
      (GetPayouts, ''GET'', ''/restaurants/:restaurantId/payouts'',
         [Authenticate, RequireRegion, RequireRestaurantMember ''restaurantId'', Rbac ''finance'' ''read'']),
      (PostPayout, ''POST'', ''/admin/restaurants/:restaurantId/payouts'',
         [Authenticate, RequireRegion, RequireSystemAdmin, Idempotency True])]"

definition routes :: "route list" where
  "routes = healthRouter @ orderRouter @ paymentRouter @ agentRouter @ assignmentRouter @ financeRouter"

definition middleware_of :: "endpoint \<Rightarrow> middleware list" where
  "middleware_of ep = (case map_of routes ep of None \<Rightarrow> [] | Some (_, _, ms) \<Rightarrow> ms)"

fun controller :: "libraries \<Rightarrow> endpoint \<Rightarrow> handler" where
  "controller L Health = health"
| "controller L PostOrders = order_placeOrder L"
| "controller L GetOrderById = order_getOrder"
| "controller L GetCustomerOrders = order_listCustomerOrders"
| "controller L PatchCustomerOrder = order_updateStatus L"
| "controller L GetBranchOrders = order_listRestaurantOrders L"
| "controller L PatchBranchOrder = order_updateStatus L"
| "controller L GetOrderHistory = order_listOrderHistory"
| "controller L PatchAdminOrder = order_updateStatus L"
| "controller L PostKashierWebhook = webhook_kashier"
| "controller L GetPaymentById = payment_getById"
| "controller L PostOnline = agent_presenceUpsert L"
| "controller L PostPing = agent_presenceUpsert L"
| "controller L PostOffline = agent_offline"
| "controller L PostAccept = agent_accept"
| "controller L PostReject = agent_reject"
| "controller L PatchTask = agent_transition"
| "controller L GetTasks = agent_tasks"
| "controller L GetEarnings = agent_earnings_handler L"
| "controller L PostAssign = assignment_adminAssign"
| "controller L GetRestaurantBalance = finance_getBalance"
| "controller L GetPayouts = finance_listPayouts L"
| "controller L PostPayout = finance_createPayout L"

text \<open>
  \<open>createApp\<close>: the body parser, then the correlation id and the region of every request, the routes, the error
  handler. A body that the parser refuses reaches the error handler at once.
\<close>

definition serve :: "libraries \<Rightarrow> endpoint \<Rightarrow> http_request \<Rightarrow> response io" where
  "serve L ep rq =
     (case hq_body rq of
        Inl e \<Rightarrow> returnE (error_response e)
      | Inr _ \<Rightarrow>
          bindE (correlationId rq) (\<lambda>cid.
          bindE (getE env) (\<lambda>e.
          bindE (handled (chain L (middleware_of ep) (controller L ep))
                   \<lparr>hc_request = rq, hc_region = resolveRegion e rq, hc_user = None, hc_correlationId = cid\<rparr>) (\<lambda>resp.
          returnE (add_header ''X-CorrelationId'' cid resp)))))"

subsection \<open>Every request is answered\<close>

lemma handled_total: "\<exists>resp w'. handled h c w = (Inr resp, w')"
  by (cases "h c w"; cases "fst (h c w)") (auto simp: handled_def tryCatch_def)

lemma correlationId_total: "\<exists>cid w'. correlationId rq w = (Inr cid, w')"
  by (auto simp: correlationId_def Let_def randomUUID_def split: option.splits)

text \<open>What serving a request with a readable body comes down to.\<close>

definition entry_ctx :: "http_request \<Rightarrow> string \<Rightarrow> world \<Rightarrow> http_ctx" where
  "entry_ctx rq cid w =
     \<lparr>hc_request = rq, hc_region = resolveRegion (env w) rq, hc_user = None, hc_correlationId = cid\<rparr>"

definition only_steps :: "world \<Rightarrow> world \<Rightarrow> bool" where
  "only_steps w w' \<longleftrightarrow> (\<exists>n. w' = w\<lparr>steps := n\<rparr>)"

lemma only_steps_refl [simp]: "only_steps w w"
  unfolding only_steps_def by (rule exI [of _ "steps w"]) simp

lemma only_stepsD:
  "only_steps w w' \<Longrightarrow> shards w' = shards w \<and> redis w' = redis w \<and> trace w' = trace w \<and> permCache w' = permCache w \<and>
     env w' = env w \<and> ext w' = ext w \<and> clock w' = clock w"
  by (auto simp: only_steps_def)

lemma correlationId_steps: "correlationId rq w = (r, w') \<Longrightarrow> only_steps w w'"
  by (auto simp: correlationId_def Let_def randomUUID_def only_steps_def split: option.splits if_splits)
     (rule exI [of _ "steps w"], simp)+

lemma serve_Inr:
  assumes "hq_body rq = Inr b"
  obtains cid w1 resp w' where "only_steps w w1"
    and "handled (chain L (middleware_of ep) (controller L ep)) (entry_ctx rq cid w1) w1 = (Inr resp, w')"
    and "serve L ep rq w = (Inr (add_header ''X-CorrelationId'' cid resp), w')"
proof -
  obtain cid w1 where cid: "correlationId rq w = (Inr cid, w1)" using correlationId_total by blast
  obtain resp w' where h: "handled (chain L (middleware_of ep) (controller L ep)) (entry_ctx rq cid w1) w1 = (Inr resp, w')"
    using handled_total by blast
  show ?thesis
    using that [OF correlationId_steps [OF cid] h] assms h by (simp add: serve_def bindE_def cid entry_ctx_def)
qed

lemma serve_total: "\<exists>resp w'. serve L ep rq w = (Inr resp, w')"
proof (cases "hq_body rq")
  case (Inr b)
  then obtain cid resp w' where "serve L ep rq w = (Inr (add_header ''X-CorrelationId'' cid resp), w')"
    by (rule serve_Inr)
  then show ?thesis by blast
qed (simp add: serve_def)

subsection \<open>Who gets through\<close>

definition caller :: "libraries \<Rightarrow> http_request \<Rightarrow> actor option" where
  "caller L rq =
     (case authenticate (verifyToken L) (hq_accessCookie rq) (hq_headers rq ''authorization'') of
        Inl _ \<Rightarrow> None
      | Inr a \<Rightarrow> Some a)"

definition own_restaurant :: "http_request \<Rightarrow> actor \<Rightarrow> bool" where
  "own_restaurant rq a \<longleftrightarrow>
     ac_role a = SYSTEM_ADMIN \<or>
     (ac_restaurantId a \<noteq> None \<and> ac_restaurantId a = Option.bind (hq_params rq ''restaurantId'') Number)"

text \<open>The policy of the API, by endpoint: who may be served at all.\<close>

definition admits :: "endpoint \<Rightarrow> http_request \<Rightarrow> actor option \<Rightarrow> bool" where
  "admits ep rq user =
     (if ep \<in> {Health, PostKashierWebhook, GetOrderHistory} then True
      else (case user of
        None \<Rightarrow> False
      | Some a \<Rightarrow>
          if ep \<in> {PostOnline, PostPing, PostOffline, PostAccept, PostReject, PatchTask, GetTasks, GetEarnings}
          then ac_role a = DELIVERY_AGENT
          else if ep = PostPayout then ac_role a = SYSTEM_ADMIN
          else if ep \<in> {GetBranchOrders, PatchBranchOrder, GetPaymentById, GetRestaurantBalance, GetPayouts}
          then own_restaurant rq a
          else if ep \<in> {PatchAdminOrder, PostAssign} then ac_role a = SYSTEM_ADMIN \<or> ac_role a = RESTAURANT_USER
          else True))"

lemmas router_defs = routes_def healthRouter_def orderRouter_def paymentRouter_def agentRouter_def
  assignmentRouter_def financeRouter_def

lemma error_response_app: "error_response (appError m code) = error_json code m"
  by (simp add: error_response_def errorHandler_appError)

lemma handled_throw: "h c w = (Inl (appError m code), w') \<Longrightarrow> handled h c w = (Inr (error_json code m), w')"
  by (simp add: handled_def tryCatch_def error_response_app)

lemma handled_return: "h c w = (Inr resp, w') \<Longrightarrow> handled h c w = (Inr resp, w')"
  by (simp add: handled_def tryCatch_def)

text \<open>How the guards of a chain end it.\<close>

definition refuses :: "handler \<Rightarrow> http_ctx \<Rightarrow> bool" where
  "refuses h c \<longleftrightarrow>
     (\<forall>w. \<exists>code m. code \<in> {400, 401, 403} \<and>
        (h c w = (Inl (appError m code), w) \<or> h c w = (Inr (error_json code m), w)))"

lemma refusesD: "refuses h c \<Longrightarrow> \<exists>resp. handled h c w = (Inr resp, w) \<and> rs_status resp \<in> {400, 401, 403}"
  using handled_throw [of h c w] handled_return [of h c w]
  by (force simp: refuses_def error_json_def json_response_def)

lemma refuses_throw: "code \<in> {400, 401, 403} \<Longrightarrow> (\<And>w. h c w = (Inl (appError m code), w)) \<Longrightarrow> refuses h c"
  by (auto simp: refuses_def)

lemma refuses_answer: "code \<in> {400, 401, 403} \<Longrightarrow> (\<And>w. h c w = (Inr (error_json code m), w)) \<Longrightarrow> refuses h c"
  by (auto simp: refuses_def)

lemma refuses_unauthenticated:
  assumes "caller L (hc_request c) = None"
  shows "refuses (run_middleware L Authenticate h) c"
proof (rule refuses_throw)
  show "run_middleware L Authenticate h c w = (Inl (appError ''User not authenticated'' 401), w)" for w
    using assms
    by (auto simp: caller_def authenticate_def lift_sum_def NotAuthenticated_def split: sum.splits option.splits if_splits)
qed simp

lemma refuses_authenticated:
  assumes "caller L (hc_request c) = Some a" and "refuses h (c\<lparr>hc_user := Some a\<rparr>)"
  shows "refuses (run_middleware L Authenticate h) c"
  using assms by (auto simp: caller_def lift_sum_def refuses_def split: sum.splits)

lemma refuses_region:
  assumes "refuses h c"
  shows "refuses (run_middleware L RequireRegion h) c" and "refuses (run_middleware L RequireConcreteRegion h) c"
proof -
  show "refuses (run_middleware L RequireRegion h) c"
  proof (cases "no_region c")
    case True
    then show ?thesis
      by (intro refuses_throw [where code = 400]) (auto simp: requireRegion_def lift_sum_def RegionNotResolvedError_def)
  next
    case False
    with assms show ?thesis by (simp add: requireRegion_def lift_sum_def refuses_def)
  qed
  show "refuses (run_middleware L RequireConcreteRegion h) c"
  proof (cases "requireConcreteRegion c")
    case (Inl e)
    then show ?thesis
      by (intro refuses_throw [where code = 400])
         (auto simp: requireConcreteRegion_def lift_sum_def RegionNotResolvedError_def split: if_splits)
  next
    case (Inr u)
    with assms show ?thesis by (simp add: lift_sum_def refuses_def)
  qed
qed

lemma refuses_role:
  assumes "hc_user c = Some a"
  shows "ac_role a \<noteq> DELIVERY_AGENT \<Longrightarrow> refuses (run_middleware L RequireAgent h) c"
    and "ac_role a \<noteq> SYSTEM_ADMIN \<Longrightarrow> refuses (run_middleware L RequireSystemAdmin h) c"
    and "ac_role a \<noteq> SYSTEM_ADMIN \<Longrightarrow> ac_role a \<noteq> RESTAURANT_USER \<Longrightarrow> refuses (run_middleware L (Rbac r x) h) c"
  using assms
  by (auto intro!: refuses_answer [where code = 403] simp: requireAgent_def requireSystemAdmin_def rbac_def guarded_def)

lemma refuses_restaurant:
  assumes "hc_user c = Some a" and "\<not> own_restaurant (hc_request c) a"
  shows "refuses (run_middleware L (RequireRestaurantMember ''restaurantId'') h) c"
proof (cases "requireRestaurantMember (Some a) (param_number ''restaurantId'' c)")
  case Next
  with assms show ?thesis
    by (auto simp: requireRestaurantMember_def own_restaurant_def param_number_def split: option.splits if_splits)
next
  case (Respond code m)
  then have "code \<in> {400, 401, 403}"
    by (auto simp: requireRestaurantMember_def split: option.splits if_splits)
  with Respond assms(1) show ?thesis by (intro refuses_answer [of code]) (simp_all add: guarded_def)
qed

lemma unauthenticated_first:
  "ep \<notin> {Health, PostKashierWebhook, GetOrderHistory} \<Longrightarrow> \<exists>ms. middleware_of ep = Authenticate # ms"
  by (cases ep) (simp_all add: middleware_of_def router_defs)

lemma refused:
  assumes no: "\<not> admits ep (hc_request c) (caller L (hc_request c))"
  shows "refuses (chain L (middleware_of ep) h) c"
proof (cases "caller L (hc_request c)")
  case None
  with no have "ep \<notin> {Health, PostKashierWebhook, GetOrderHistory}" by (auto simp: admits_def)
  from unauthenticated_first [OF this] None show ?thesis by (auto intro: refuses_unauthenticated)
next
  case (Some a)
  with no show ?thesis
    by (cases ep)
       (auto simp: admits_def middleware_of_def router_defs intro!: refuses_authenticated [OF Some] refuses_region refuses_role refuses_restaurant)
qed

subsection \<open>Which shard a request can write\<close>

context quiet_relation begin

lemma moves_handled: "moves R (h c) \<Longrightarrow> moves R (handled h c)"
  unfolding handled_def by (intro moves_intro)

lemma moves_run_middleware:
  assumes "\<And>c'. hc_region c' = hc_region c \<Longrightarrow> moves R (h c')"
  shows "moves R (run_middleware L m h c)"
proof -
  have h: "moves R (h c)" using assms by simp
  have hh: "moves R (handled h c)" using h by (rule moves_handled)
  have g: "moves R (guarded g h c)" for g unfolding guarded_def using h by (cases g) auto
  have cached: "moves R (cached_body k)" for k unfolding cached_body_def by (intro moves_intro)
  have "moves R (rbac r x True (hc_user c))" for r x unfolding rbac_def by (intro moves_intro)
  then show ?thesis
    by (cases m)
       (simp_all only: run_middleware.simps idempotency_def withCache_def storing_def Let_def,
        (intro moves_intro h hh g cached assms | simp)+)
qed

lemma moves_chain:
  assumes "\<And>c'. hc_region c' = hc_region c \<Longrightarrow> moves R (h c')"
  shows "moves R (chain L ms h c)"
  using assms by (induction ms arbitrary: c) (auto intro!: moves_run_middleware)

end

context hot_relation begin

lemma moves_controller:
  assumes "hc_region c = Some g" and "toLowerCase g = g"
  shows "moves R (controller L ep c)"
  by (cases ep) (auto intro: moves_write_controllers [OF assms] moves_read_controllers)

end

lemma refuses_no_region:
  assumes "hc_region c = None"
  shows "refuses (run_middleware L RequireRegion h) c" and "refuses (run_middleware L RequireConcreteRegion h) c"
  using assms
  by (auto intro!: refuses_throw [where code = 400]
      simp: requireRegion_def requireConcreteRegion_def no_region_def lift_sum_def RegionNotResolvedError_def)

lemma refuses_behind:
  assumes "\<And>c'. hc_region c' = hc_region c \<Longrightarrow> refuses h c'"
  shows "refuses (run_middleware L Authenticate h) c" and "refuses (run_middleware L RequireAgent h) c"
proof -
  show "refuses (run_middleware L Authenticate h) c"
    using assms by (cases "caller L (hc_request c)") (auto intro: refuses_unauthenticated refuses_authenticated)
  show "refuses (run_middleware L RequireAgent h) c"
  proof (cases "requireAgent (hc_user c)")
    case Next
    with assms show ?thesis by (auto simp: guarded_def refuses_def)
  next
    case (Respond code m)
    then have "code \<in> {400, 401, 403}" by (auto simp: requireAgent_def split: option.splits if_splits)
    with Respond show ?thesis by (intro refuses_answer [of code]) (simp_all add: guarded_def)
  qed
qed

lemma regionless_refused:
  assumes "hc_region c = None" and "ep \<noteq> Health" and "ep \<noteq> GetOrderHistory"
  shows "refuses (chain L (middleware_of ep) h) c"
  using assms
  by (cases ep) (auto simp: middleware_of_def router_defs intro!: refuses_behind refuses_no_region)

lemma refuses_keeps: "refuses h c \<Longrightarrow> handled h c w = (r, w') \<Longrightarrow> w' = w"
  by (drule refusesD [of h c w]) auto

text \<open>
  Serving moves within every relation that the writes through the hot shard of the request's region move within,
  and without a region within every relation of programs that write no shard.
\<close>

context quiet_relation begin

lemma R_only_steps: "only_steps w w' \<Longrightarrow> R w w'"
  by (auto simp: only_steps_def R_steps)

lemma serve_body:
  assumes run: "serve L ep rq w = (r, w')"
    and h: "\<And>cid (v :: world). env v = env w \<Longrightarrow> moves R (handled (chain L (middleware_of ep) (controller L ep)) (entry_ctx rq cid v))"
  shows "R w w'"
proof (cases "hq_body rq")
  case (Inl e)
  with run show ?thesis by (simp add: serve_def R_refl)
next
  case (Inr b)
  then obtain cid w1 resp w2 where w1: "only_steps w w1"
    and m: "handled (chain L (middleware_of ep) (controller L ep)) (entry_ctx rq cid w1) w1 = (Inr resp, w2)"
    and s: "serve L ep rq w = (Inr (add_header ''X-CorrelationId'' cid resp), w2)"
    by (rule serve_Inr)
  have "env w1 = env w" using w1 by (simp add: only_stepsD)
  from movesD [OF h [OF this] m] R_only_steps [OF w1] s run show ?thesis by (auto intro: R_trans)
qed

lemma serve_regionless:
  assumes none: "resolveRegion (env w) rq = None" and run: "serve L ep rq w = (r, w')"
  shows "R w w'"
  using run
proof (rule serve_body)
  fix cid and v :: world
  assume "env v = env w"
  with none have ctx: "hc_region (entry_ctx rq cid v) = None" by (simp add: entry_ctx_def)
  show "moves R (handled (chain L (middleware_of ep) (controller L ep)) (entry_ctx rq cid v))"
  proof (cases "ep = Health \<or> ep = GetOrderHistory")
    case True
    then show ?thesis by (intro moves_handled moves_chain) (auto intro: moves_read_controllers)
  next
    case False
    then have "refuses (chain L (middleware_of ep) (controller L ep)) (entry_ctx rq cid v)"
      using ctx by (intro regionless_refused) auto
    then show ?thesis by (intro movesI) (auto dest: refuses_keeps simp: R_refl)
  qed
qed

end

context hot_relation begin

lemma serve_regional:
  assumes some: "resolveRegion (env w) rq = Some g" and run: "serve L ep rq w = (r, w')"
  shows "R w w'"
  using run
proof (rule serve_body)
  fix cid and v :: world
  assume "env v = env w"
  with some have ctx: "hc_region (entry_ctx rq cid v) = Some g" by (simp add: entry_ctx_def)
  show "moves R (handled (chain L (middleware_of ep) (controller L ep)) (entry_ctx rq cid v))"
    using ctx resolveRegion_lower [OF some] by (intro moves_handled moves_chain moves_controller) simp_all
qed

end

lemma serve_setting:
  assumes "serve L ep rq w = (r, w')"
  shows "env w' = env w \<and> ext w' = ext w \<and> clock w' = clock w"
  using same_setting.serve_regionless [OF _ assms] setting_hot.serve_regional [OF _ assms]
  by (cases "resolveRegion (env w) rq") (auto simp: same_setting_def)

text \<open>C27: Region isolation: whatever request is served, the only shard whose tables or sequences it can change
  is the hot shard of the region that \<open>resolveRegion\<close> found in the request. A request without a resolvable
  region writes no shard at all, and no request writes an archive.\<close>

theorem region_isolation:
  assumes run: "serve L ep rq w = (r, w')" and changed: "shards w' conn \<noteq> shards w conn"
  shows "\<exists>g. resolveRegion (env w) rq = Some g \<and> conn = (Hot, g)"
  using shards_kept.serve_regionless [OF _ run] others_hot.serve_regional [OF _ run] changed
  by (cases "resolveRegion (env w) rq"; cases conn) (auto simp: shards_kept_def others_kept_def)

text \<open>C26: Admission: a request of somebody the policy \<open>admits\<close> does not name for the endpoint - no valid token,
  not a courier on the courier's routes, not the administrator on payouts, another restaurant's member on a
  restaurant's routes, neither administrator nor restaurant user on the administration routes - is answered
  with 400, 401 or 403 and changes no shard, no Redis key and sends nothing.\<close>

theorem api_admission:
  assumes body: "hq_body rq = Inr b" and no: "\<not> admits ep rq (caller L rq)"
  shows "\<exists>resp w'. serve L ep rq w = (Inr resp, w') \<and> rs_status resp \<in> {400, 401, 403} \<and>
     shards w' = shards w \<and> redis w' = redis w \<and> trace w' = trace w"
proof -
  let ?h = "chain L (middleware_of ep) (controller L ep)"
  obtain cid w1 resp w2 where w1: "only_steps w w1"
    and h: "handled ?h (entry_ctx rq cid w1) w1 = (Inr resp, w2)"
    and s: "serve L ep rq w = (Inr (add_header ''X-CorrelationId'' cid resp), w2)"
    using body by (rule serve_Inr)
  have "refuses ?h (entry_ctx rq cid w1)" using no by (intro refused) (simp add: entry_ctx_def)
  from refusesD [OF this, of w1] h have "rs_status resp \<in> {400, 401, 403}" "w2 = w1" by auto
  with s only_stepsD [OF w1] show ?thesis by (auto simp: add_header_def)
qed

subsection \<open>A repeated idempotency key\<close>

definition redis_up :: "world \<Rightarrow> bool" where
  "redis_up w \<longleftrightarrow> (\<forall>n. redisFault (ext w) n = None)"

lemma ignored_set:
  assumes "redis_up w" and "0 < ttl"
  shows "ignoring (cache_set k v (Some ttl)) w =
     (Inr (), (tick w)\<lparr>redis := (redis w)(k \<mapsto> (RString v, Some (clock w + 1000 * ttl)))\<rparr>)"
  using assms
  by (simp add: redis_up_def ignoring_def tryCatch_def cache_set_def redisOp_def r_set_def bad_ttl_def deadline_def)

lemma cached_body_none:
  assumes "redis_up w" and "live (clock w) (redis w) k = None"
  shows "cached_body k w = (Inr None, tick w)"
  using assms by (cases w)
    (simp add: redis_up_def cached_body_def bindE_def cache_get_def redisOp_def r_get_def hit_def tick_def)

lemma cached_body_some:
  assumes "redis_up w" and "live (clock w) (redis w) k = Some (RString (BodyText b))"
  shows "cached_body k w = (Inr (Some b), tick w)"
  using assms by (cases w)
    (simp add: redis_up_def cached_body_def bindE_def cache_get_def redisOp_def r_get_def hit_def parse_cached_def
      lift_sum_def tick_def)

definition idempotent_request :: "http_request \<Rightarrow> string \<Rightarrow> bool" where
  "idempotent_request rq key \<longleftrightarrow>
     hq_method rq \<in> {''POST'', ''PATCH'', ''PUT''} \<and> hq_headers rq ''idempotency-key'' = Some key \<and> key \<noteq> []"

lemma idempotency_first:
  assumes rq: "idempotent_request (hc_request c) key" and up: "redis_up w"
    and free: "live (clock w) (redis w) (idempotency_cache_key (hc_request c) key) = None"
    and h: "moves same_setting (h c)" and run: "idempotency True h c w = (Inr resp, w')"
  shows "\<exists>v. redis w' = v(idempotency_cache_key (hc_request c) key \<mapsto>
             (RString (BodyText (rs_body resp)), Some (clock w + 1000 * IDEMPOTENCY_TTL)))"
proof -
  let ?k = "idempotency_cache_key (hc_request c) key"
  have "storing ?k IDEMPOTENCY_TTL h c (tick w) = (Inr resp, w')"
    using rq run cached_body_none [OF up free]
    by (auto simp: idempotency_def idempotent_request_def Let_def bindE_def tryCatch_def)
  then obtain resp' v where v: "handled h c (tick w) = (Inr resp', v)"
    and set: "seqE (ignoring (cache_set ?k (BodyText (rs_body resp')) (Some IDEMPOTENCY_TTL))) (returnE resp') v = (Inr resp, w')"
    unfolding storing_def by (elim bindE_InrE) (rule that)
  have s: "env v = env w \<and> ext v = ext w \<and> clock v = clock w"
    using same_settingD [OF same_setting.moves_handled [where h = h and c = c, OF h] v] by simp
  with up have "redis_up v" by (simp add: redis_up_def)
  then have "ignoring (cache_set ?k (BodyText (rs_body resp')) (Some IDEMPOTENCY_TTL)) v =
      (Inr (), (tick v)\<lparr>redis := (redis v)(?k \<mapsto> (RString (BodyText (rs_body resp')), Some (clock v + 1000 * IDEMPOTENCY_TTL)))\<rparr>)"
    by (rule ignored_set) (simp add: IDEMPOTENCY_TTL_def toSeconds_def toMs_def)
  with set s show ?thesis by (auto simp: seqE_def bindE_def)
qed

lemma idempotency_repeat:
  assumes "idempotent_request (hc_request c) key" and "redis_up w"
    and "live (clock w) (redis w) (idempotency_cache_key (hc_request c) key) = Some (RString (BodyText b))"
  shows "idempotency True h c w = (Inr (json_response 200 b), tick w)"
  using assms(1) cached_body_some [OF assms(2,3)]
  by (auto simp: idempotency_def idempotent_request_def Let_def bindE_def tryCatch_def)

lemma customer_write_chain:
  assumes ep: "ep \<in> {PostOrders, PatchCustomerOrder}" and a: "caller L rq = Some a"
    and g: "resolveRegion (env w) rq \<noteq> None"
  shows "chain L (middleware_of ep) h (entry_ctx rq cid w) v =
     idempotency True h (entry_ctx rq cid w\<lparr>hc_user := Some a\<rparr>) v"
proof -
  from g obtain g' where g': "resolveRegion (env w) rq = Some g'" by blast
  then have "g' \<noteq> []" by (auto simp: resolveRegion_def ALL_REGIONS_def Let_def split: option.splits if_splits)
  with ep a g' show ?thesis
    by (auto simp: middleware_of_def router_defs caller_def entry_ctx_def lift_sum_def requireRegion_def no_region_def
        split: sum.splits)
qed

lemma handled_eq: "h c w = h' c' w \<Longrightarrow> handled h c w = handled h' c' w"
  by (simp add: handled_def tryCatch_def)

lemma ignoring_total: "\<exists>u w'. ignoring m w = (Inr u, w')"
  by (cases "m w"; cases "fst (m w)") (auto simp: ignoring_def tryCatch_def)

lemma idempotency_answers: "idempotent_request (hc_request c) key \<Longrightarrow> \<exists>resp w'. idempotency True h c w = (Inr resp, w')"
proof -
  assume rq: "idempotent_request (hc_request c) key"
  have st: "\<exists>resp w'. storing k t h c v = (Inr resp, w')" for k t v
  proof -
    obtain resp v' where "handled h c v = (Inr resp, v')" using handled_total by blast
    moreover obtain u v'' where
      "ignoring (cache_set k (BodyText (rs_body resp)) (Some t)) v' = (Inr u, v'')"
      using ignoring_total by blast
    ultimately show ?thesis by (simp add: storing_def bindE_def seqE_def)
  qed
  let ?k = "idempotency_cache_key (hc_request c) key"
  obtain r v where m: "tryCatch (bindE (cached_body ?k) (\<lambda>r. returnE (Inr r))) (\<lambda>e. returnE (Inl e)) w = (Inr r, v)"
    by (cases "cached_body ?k w"; cases "fst (cached_body ?k w)") (auto simp: tryCatch_def bindE_def)
  show ?thesis
    using rq m st [of ?k IDEMPOTENCY_TTL v]
    by (cases r) (auto simp: idempotency_def idempotent_request_def Let_def bindE_def split: option.splits)
qed

text \<open>How a customer's write comes out, given the outcome of the idempotency middleware.\<close>

lemma serve_customer_write:
  assumes ep: "ep \<in> {PostOrders, PatchCustomerOrder}" and body: "hq_body rq = Inr b"
    and a: "caller L rq = Some a" and g: "resolveRegion (env w) rq \<noteq> None" and key: "idempotent_request rq key"
  obtains cid w1 resp w' where "only_steps w w1"
    and "idempotency True (controller L ep) (entry_ctx rq cid w1\<lparr>hc_user := Some a\<rparr>) w1 = (Inr resp, w')"
    and "serve L ep rq w = (Inr (add_header ''X-CorrelationId'' cid resp), w')"
proof -
  let ?h = "chain L (middleware_of ep) (controller L ep)"
  obtain cid w1 resp w' where w1: "only_steps w w1"
    and h: "handled ?h (entry_ctx rq cid w1) w1 = (Inr resp, w')"
    and s: "serve L ep rq w = (Inr (add_header ''X-CorrelationId'' cid resp), w')"
    using body by (rule serve_Inr)
  have "env w1 = env w" using w1 by (simp add: only_stepsD)
  with g have g1: "resolveRegion (env w1) rq \<noteq> None" by simp
  let ?i = "idempotency True (controller L ep) (entry_ctx rq cid w1\<lparr>hc_user := Some a\<rparr>)"
  obtain resp' v where i: "?i w1 = (Inr resp', v)"
    using idempotency_answers [of "entry_ctx rq cid w1\<lparr>hc_user := Some a\<rparr>" key "controller L ep" w1] key
    by (auto simp: entry_ctx_def)
  with customer_write_chain [OF ep a g1] have "?h (entry_ctx rq cid w1) w1 = (Inr resp', v)" by simp
  then have "handled ?h (entry_ctx rq cid w1) w1 = (Inr resp', v)" by (rule handled_return)
  with h i have "?i w1 = (Inr resp, w')" by simp
  with w1 s that show ?thesis by blast
qed

text \<open>C28: At most once: while Redis answers, a customer's placement or cancellation of an order that repeats
  method, URL and idempotency key within a day is not executed again: it is answered with 200 and the body of
  the first response, and changes no table and sends nothing. This holds whatever the first response was, an
  error included, and whoever sends the second request: the key does not contain the caller.\<close>

theorem retry_is_replayed:
  assumes ep: "ep \<in> {PostOrders, PatchCustomerOrder}" and up: "redis_up w"
    and rq: "hq_body rq = Inr b" "caller L rq = Some a" "resolveRegion (env w) rq \<noteq> None" "idempotent_request rq key"
    and fresh: "live (clock w) (redis w) (idempotency_cache_key rq key) = None"
    and first: "serve L ep rq w = (Inr resp, w1)"
    and rq2: "hq_body rq2 = Inr b2" "caller L rq2 = Some a2" "resolveRegion (env w2) rq2 \<noteq> None"
      "idempotent_request rq2 key" "hq_method rq2 = hq_method rq" "hq_originalUrl rq2 = hq_originalUrl rq"
    and later: "ext w2 = ext w" "redis w2 (idempotency_cache_key rq key) = redis w1 (idempotency_cache_key rq key)"
      "clock w2 < clock w + 24 * 60 * 60 * 1000"
  shows "\<exists>resp2 w3. serve L ep rq2 w2 = (Inr resp2, w3) \<and> rs_status resp2 = 200 \<and>
     rs_body resp2 = rs_body resp \<and> shards w3 = shards w2 \<and> trace w3 = trace w2"
proof -
  let ?k = "idempotency_cache_key rq key"
  obtain cid v resp1 v1 where v: "only_steps w v"
    and i: "idempotency True (controller L ep) (entry_ctx rq cid v\<lparr>hc_user := Some a\<rparr>) v = (Inr resp1, v1)"
    and s: "serve L ep rq w = (Inr (add_header ''X-CorrelationId'' cid resp1), v1)"
    using ep rq by (rule serve_customer_write)
  note v = only_stepsD [OF v]
  obtain g where g: "resolveRegion (env v) rq = Some g" using rq(3) v by auto
  have "moves same_setting (controller L ep (entry_ctx rq cid v\<lparr>hc_user := Some a\<rparr>))"
    using g resolveRegion_lower [OF g] by (intro setting_hot.moves_controller [where g = g]) (simp_all add: entry_ctx_def)
  from idempotency_first [OF _ _ _ this i, of key] up fresh rq(4) v
  have stored: "redis v1 ?k = Some (RString (BodyText (rs_body resp1)), Some (clock w + 1000 * IDEMPOTENCY_TTL))"
    by (auto simp: redis_up_def entry_ctx_def)
  obtain cid2 u resp2 u1 where u: "only_steps w2 u"
    and i2: "idempotency True (controller L ep) (entry_ctx rq2 cid2 u\<lparr>hc_user := Some a2\<rparr>) u = (Inr resp2, u1)"
    and s2: "serve L ep rq2 w2 = (Inr (add_header ''X-CorrelationId'' cid2 resp2), u1)"
    using ep rq2(1-4) by (rule serve_customer_write)
  note u = only_stepsD [OF u]
  have k2: "idempotency_cache_key rq2 key = ?k" using rq2(5,6) by (simp add: idempotency_cache_key_def)
  have "live (clock u) (redis u) ?k = Some (RString (BodyText (rs_body resp1)))"
    using stored later s first u
    by (auto simp: live_def expired_def IDEMPOTENCY_TTL_def toSeconds_def toMs_def)
  moreover have "redis_up u" using up later(1) u by (simp add: redis_up_def)
  ultimately have "idempotency True (controller L ep) (entry_ctx rq2 cid2 u\<lparr>hc_user := Some a2\<rparr>) u =
      (Inr (json_response 200 (rs_body resp1)), tick u)"
    using rq2(4) k2 by (intro idempotency_repeat [where key = key]) (simp_all add: entry_ctx_def)
  with i2 have "resp2 = json_response 200 (rs_body resp1)" "u1 = tick u" by simp_all
  with s s2 first u show ?thesis by (auto simp: add_header_def json_response_def)
qed

lemma idempotency_eq:
  assumes "h c = h c'" and "hq_method (hc_request c) = hq_method (hc_request c')"
    and "hq_headers (hc_request c) = hq_headers (hc_request c')"
    and "hq_originalUrl (hc_request c) = hq_originalUrl (hc_request c')"
  shows "idempotency strict h c = idempotency strict h c'"
proof -
  have "handled h c = handled h c'" by (rule ext) (rule handled_eq, simp add: assms(1))
  then have st: "storing k t h c = storing k t h c'" for k t by (simp add: storing_def)
  have key: "idempotency_cache_key (hc_request c) k = idempotency_cache_key (hc_request c') k" for k
    using assms by (simp add: idempotency_cache_key_def)
  show ?thesis unfolding idempotency_def Let_def assms st key ..
qed

lemma cookie_irrelevant [simp]:
  "resolveRegion e (rq\<lparr>hq_accessCookie := t\<rparr>) = resolveRegion e rq"
  "correlationId (rq\<lparr>hq_accessCookie := t\<rparr>) = correlationId rq"
  by (simp_all add: resolveRegion_def correlationId_def cong: option.case_cong)

lemma assign_controller_eq:
  assumes "hc_region c = hc_region c'" and "hq_params (hc_request c) = hq_params (hc_request c')"
    and "hq_body (hc_request c) = hq_body (hc_request c')"
  shows "assignment_adminAssign c = assignment_adminAssign c'"
  using assms
  by (simp add: assignment_adminAssign_def region_of_def no_region_def publicId_of_def param_def body_field_def body_of_def)

text \<open>C29: Assignment by an administrator is open to every restaurant: a restaurant user whose role has the permission
  \<open>deliveries:assign\<close> gets, for any order of any restaurant, exactly the response and the effects a system
  administrator gets for the same request.\<close>

theorem assign_ignores_tenant:
  assumes a: "caller L rq = Some a" "ac_role a = RESTAURANT_USER"
    and perms: "permCache w (role_name (ac_restaurantRole a)) = Some (ps, t)" "clock w - t < PERMISSION_TTL"
      "''deliveries:assign'' \<in> set ps"
    and adm: "caller L (rq\<lparr>hq_accessCookie := tok\<rparr>) = Some b" "ac_role b = SYSTEM_ADMIN"
  shows "serve L PostAssign rq w = serve L PostAssign (rq\<lparr>hq_accessCookie := tok\<rparr>) w"
proof -
  let ?rq = "rq\<lparr>hq_accessCookie := tok\<rparr>" and ?h = "idempotency True assignment_adminAssign"
  have "handled (chain L (middleware_of PostAssign) assignment_adminAssign) (entry_ctx rq cid v) v =
      handled (chain L (middleware_of PostAssign) assignment_adminAssign) (entry_ctx ?rq cid v) v"
    if v: "only_steps w v" for cid v
  proof -
    note v = only_stepsD [OF v]
    have "getPermissions (role_name (ac_restaurantRole a)) v = (Inr ps, v)"
      using perms v by (intro getPermissions_cached) auto
    then have "rbac ''deliveries'' ''assign'' True (Some a) v = (Inr Next, v)"
      using a(2) perms(3) by (simp add: rbac_def bindE_def hasPermission_def role_defs)
    moreover have "rbac ''deliveries'' ''assign'' True (Some b) v = (Inr Next, v)"
      using adm(2) by (simp add: rbac_def)
    moreover have "?h (entry_ctx rq cid v\<lparr>hc_user := Some a\<rparr>) = ?h (entry_ctx ?rq cid v\<lparr>hc_user := Some b\<rparr>)"
      by (rule idempotency_eq [OF assign_controller_eq]) (simp_all add: entry_ctx_def)
    ultimately show ?thesis
      using a(1) adm(1)
      by (intro handled_eq)
         (auto simp: middleware_of_def router_defs caller_def lift_sum_def requireRegion_def no_region_def bindE_def seqE_def
           guarded_def entry_ctx_def split: sum.splits)
  qed
  then show ?thesis
    by (cases "correlationId rq w")
       (auto simp: serve_def bindE_def entry_ctx_def dest!: correlationId_steps split: sum.splits)
qed

subsection \<open>Concrete requests\<close>

text \<open>Five tokens: two customers, a courier, the owner of restaurant 99, an administrator. The validator answers with the given messages.\<close>

definition token_actor :: "int \<Rightarrow> string \<Rightarrow> actor" where
  "token_actor i r = \<lparr>ac_userId = i, ac_role = r, ac_restaurantId = None, ac_restaurantRole = None, ac_branchIds = None\<rparr>"

definition sample_libraries :: "string list \<Rightarrow> libraries" where
  "sample_libraries messages =
     \<lparr>verifyToken = [''a'' \<mapsto> token_actor 5 ''customer'', ''b'' \<mapsto> token_actor 6 ''customer'', ''c'' \<mapsto> token_actor 77 DELIVERY_AGENT,
         ''o'' \<mapsto> (token_actor 8 RESTAURANT_USER)\<lparr>ac_restaurantId := Some 99, ac_restaurantRole := Some OWNER\<rparr>,
         ''s'' \<mapsto> token_actor 1 SYSTEM_ADMIN],
      validationMessages = (\<lambda>_ _. Inr messages), parseDate = (\<lambda>_. None), coordinate = (\<lambda>_. None)\<rparr>"

definition sample_request :: "string \<Rightarrow> http_request" where
  "sample_request token =
     \<lparr>hq_method = ''POST'', hq_originalUrl = ''/api/orders'', hq_params = Map.empty, hq_query = [''region'' \<mapsto> ''eg''],
      hq_headers = [''idempotency-key'' \<mapsto> ''k'', ''x-correlationid'' \<mapsto> ''c''],
      hq_accessCookie = Some token, hq_body = Inr (Some (JObj []))\<rparr>"

definition assigned_world :: world where
  "assigned_world = with_orders [sample_order\<lparr>o_status := ASSIGNED, o_deliveryAgentId := Some 77\<rparr>] sample_world"

lemmas run_Routes [run] = token_actor_def sample_libraries_def sample_request_def assigned_world_def

lemma sample_caller:
  "caller (sample_libraries ms) (sample_request ''a'') = Some (token_actor 5 ''customer'')"
  "caller (sample_libraries ms) (sample_request ''b'') = Some (token_actor 6 ''customer'')"
  "caller (sample_libraries ms) (sample_request ''c'') = Some (token_actor 77 DELIVERY_AGENT)"
  by (simp_all add: caller_def authenticate_def extractToken_def sample_libraries_def sample_request_def)

lemma sample_region: "env w = sample_env \<Longrightarrow> resolveRegion (env w) (sample_request t) = Some ''eg''"
  by (simp add: resolveRegion_def sample_request_def ALL_REGIONS_def isRegion_def run)

theorem api_admission_witness:
  "\<exists>resp w'. serve (sample_libraries []) PostPayout (sample_request ''a'') sample_world = (Inr resp, w') \<and>
     rs_status resp \<in> {400, 401, 403} \<and> shards w' = shards sample_world \<and> redis w' = redis sample_world \<and>
     trace w' = trace sample_world"
proof (rule api_admission)
  show "hq_body (sample_request ''a'') = Inr (Some (JObj []))" by (simp add: sample_request_def)
  show "\<not> admits PostPayout (sample_request ''a'') (caller (sample_libraries []) (sample_request ''a''))"
    by (simp add: sample_caller admits_def token_actor_def SYSTEM_ADMIN_def)
qed

lemma offline_writes:
  "orders (tables_of (snd (serve (sample_libraries []) PostOffline (sample_request ''c'') assigned_world)) (Hot, ''eg'')) \<noteq>
     orders (tables_of assigned_world (Hot, ''eg''))"
  by (simp add: serve_def correlationId_def sample_region middleware_of_def router_defs handled_def
     lift_sum_def requireRegion_def no_region_def guarded_def requireAgent_def agent_offline_def region_of_def user_of_def goOffline_def
     authenticate_def extractToken_def ALL_REGIONS_def resolveRegion_def isRegion_def run)


theorem region_isolation_witness:
  "shards (snd (serve (sample_libraries []) PostOffline (sample_request ''c'') assigned_world)) (Hot, ''eg'') \<noteq>
     shards assigned_world (Hot, ''eg'') \<and>
   (\<exists>g. resolveRegion (env assigned_world) (sample_request ''c'') = Some g \<and> (Hot, ''eg'') = (Hot, g))"
proof -
  let ?r = "serve (sample_libraries []) PostOffline (sample_request ''c'') assigned_world"
  have changed: "shards (snd ?r) (Hot, ''eg'') \<noteq> shards assigned_world (Hot, ''eg'')"
    using offline_writes by (auto simp: tables_of_def)
  have "?r = (fst ?r, snd ?r)" by simp
  from region_isolation [OF this changed] changed show ?thesis by blast
qed

text \<open>A refused order is answered with 400; the repetition, by another customer, with 200.\<close>

lemma refused_order:
  "serve (sample_libraries [''bad'']) PostOrders (sample_request ''a'') sample_world =
     (Inr (add_header ''X-CorrelationId'' ''c'' (error_json 400 ''bad'')),
      snd (serve (sample_libraries [''bad'']) PostOrders (sample_request ''a'') sample_world))"
  by (rule run_result [OF refl])
     (simp add: serve_def correlationId_def resolveRegion_def isRegion_def middleware_of_def router_defs handled_def
     lift_sum_def requireRegion_def no_region_def idempotency_def cached_body_def hit_def storing_def
     order_placeOrder_def validateBody_def body_of_def error_response_app
     authenticate_def extractToken_def ALL_REGIONS_def ignoring_def run)

theorem retry_is_replayed_witness:
  "\<exists>resp w1 resp2 w3.
     serve (sample_libraries [''bad'']) PostOrders (sample_request ''a'') sample_world = (Inr resp, w1) \<and>
     serve (sample_libraries [''bad'']) PostOrders (sample_request ''b'') w1 = (Inr resp2, w3) \<and>
     rs_status resp = 400 \<and> rs_status resp2 = 200 \<and> rs_body resp2 = rs_body resp"
proof -
  let ?w1 = "snd (serve (sample_libraries [''bad'']) PostOrders (sample_request ''a'') sample_world)"
  have w1: "env ?w1 = env sample_world" "ext ?w1 = ext sample_world" "clock ?w1 = clock sample_world"
    using serve_setting [OF refused_order] by auto
  have idem: "idempotent_request (sample_request t) ''k''" for t by (simp add: idempotent_request_def sample_request_def)
  have reg: "resolveRegion (env w) (sample_request t) \<noteq> None" if "env w = env sample_world" for w t
    using that by (subst sample_region) (simp_all add: sample_world_def)
  have "\<exists>resp2 w3. serve (sample_libraries [''bad'']) PostOrders (sample_request ''b'') ?w1 = (Inr resp2, w3) \<and>
     rs_status resp2 = 200 \<and> rs_body resp2 = rs_body (add_header ''X-CorrelationId'' ''c'' (error_json 400 ''bad'')) \<and>
     shards w3 = shards ?w1 \<and> trace w3 = trace ?w1"
  proof (rule retry_is_replayed [OF _ _ _ sample_caller(1) reg [OF refl] idem _ refused_order _ sample_caller(2) reg [OF w1(1)] idem _ _ w1(2) refl])
    show "redis_up sample_world" by (simp add: redis_up_def run)
    show "live (clock sample_world) (redis sample_world) (idempotency_cache_key (sample_request ''a'') ''k'') = None"
      by (simp add: run)
    show "clock ?w1 < clock sample_world + 24 * 60 * 60 * 1000" by (simp add: w1(3))
  qed (simp_all add: sample_request_def)
  moreover have "rs_status (add_header ''X-CorrelationId'' ''c'' (error_json 400 ''bad'')) = 400"
    by (simp add: add_header_def error_json_def json_response_def)
  ultimately show ?thesis using refused_order by metis
qed


definition owner_world :: world where
  "owner_world = sample_world\<lparr>permCache := [''owner'' \<mapsto> ([''deliveries:assign''], 1000000)]\<rparr>"

theorem assign_ignores_tenant_witness:
  "serve (sample_libraries []) PostAssign (sample_request ''o'') owner_world =
     serve (sample_libraries []) PostAssign ((sample_request ''o'')\<lparr>hq_accessCookie := Some ''s''\<rparr>) owner_world"
  by (rule assign_ignores_tenant [where ps = "[''deliveries:assign'']" and t = 1000000])
     (auto simp: caller_def authenticate_def extractToken_def sample_libraries_def sample_request_def token_actor_def
       owner_world_def sample_world_def role_name_def OWNER_def PERMISSION_TTL_def toMs_def role_defs)

end
