(* ===== verification/Jobs.thy ===== *)
theory Jobs
  imports Assignment Drain Archival
begin

section \<open>The worker's jobs\<close>

text \<open>
  \<open>src/lib/jobs/job-registry.ts\<close>, \<open>scheduler.ts\<close> and the three \<open>register*Jobs\<close> functions: which jobs the worker
  has, and how their ticks interleave. \<open>run_work\<close> is what a job does; the scheduler is a state machine whose
  events are the firing of a job's cron expression and the end of a handler. \<open>node-cron\<close> decides when a job
  fires and which expressions are valid: any order of events is allowed, and validity is a parameter.
\<close>

subsection \<open>job-registry.ts\<close>

datatype work = AssignmentTick string | OutboxDrain string | ArchivalRun string

record job =
  j_name :: string
  j_cron :: string
  j_timezone :: "string option"
  j_work :: work

definition register :: "job \<Rightarrow> job list \<Rightarrow> exn + job list" where
  "register j jobs =
     (if j_name j \<in> set (map j_name jobs) then Inl (JsError (''duplicate scheduled job: '' @ j_name j))
      else Inr (jobs @ [j]))"

text \<open>A sequence of \<open>register(..)\<close> calls: the first duplicate throws out of the module that makes them.\<close>

fun register_all :: "job list \<Rightarrow> job list \<Rightarrow> exn + job list" where
  "register_all [] jobs = Inr jobs"
| "register_all (j # js) jobs =
     (case register j jobs of Inl e \<Rightarrow> Inl e | Inr jobs' \<Rightarrow> register_all js jobs')"

subsection \<open>The registrations\<close>

record job_settings =
  jb_regions :: "string list"
  jb_assignmentTickSec :: int
  jb_drainTickSec :: int
  jb_archivalCron :: string
  jb_archivalTimezone :: string

definition every_n_sec :: "int \<Rightarrow> string" where
  "every_n_sec n = ''*/'' @ string_of_int n @ '' * * * * *''"

definition assignment_job :: "job_settings \<Rightarrow> string \<Rightarrow> job" where
  "assignment_job s region =
     \<lparr>j_name = ''assignment-tick:'' @ region, j_cron = every_n_sec (jb_assignmentTickSec s), j_timezone = None,
      j_work = AssignmentTick region\<rparr>"

definition drain_job :: "job_settings \<Rightarrow> string \<Rightarrow> job" where
  "drain_job s region =
     \<lparr>j_name = ''outbox-drain:'' @ region, j_cron = every_n_sec (jb_drainTickSec s), j_timezone = None,
      j_work = OutboxDrain region\<rparr>"

definition archival_job :: "job_settings \<Rightarrow> string \<Rightarrow> job" where
  "archival_job s region =
     \<lparr>j_name = ''archival:'' @ region, j_cron = jb_archivalCron s, j_timezone = Some (jb_archivalTimezone s),
      j_work = ArchivalRun region\<rparr>"

definition registerAssignmentJobs :: "job_settings \<Rightarrow> job list \<Rightarrow> exn + job list" where
  "registerAssignmentJobs s = register_all (map (assignment_job s) (jb_regions s))"

definition registerOutboxDrainJobs :: "job_settings \<Rightarrow> job list \<Rightarrow> exn + job list" where
  "registerOutboxDrainJobs s = register_all (map (drain_job s) (jb_regions s))"

definition registerArchivalJobs :: "job_settings \<Rightarrow> job list \<Rightarrow> exn + job list" where
  "registerArchivalJobs s = register_all (map (archival_job s) (jb_regions s))"

text \<open>\<open>worker.ts\<close>: the three registrations, one after the other.\<close>

definition worker_jobs :: "job_settings \<Rightarrow> exn + job list" where
  "worker_jobs s =
     (case registerAssignmentJobs s [] of
        Inl e \<Rightarrow> Inl e
      | Inr js \<Rightarrow>
          (case registerOutboxDrainJobs s js of
             Inl e \<Rightarrow> Inl e
           | Inr js' \<Rightarrow> registerArchivalJobs s js'))"

subsection \<open>What a job does\<close>

text \<open>
  \<open>locked\<close>: the outbox rows that other workers hold; \<open>elapsed\<close>, \<open>pid\<close>: clock and process of the archival run. The
  scheduler catches what a handler throws; the drain's handler catches it before.
\<close>

fun run_work :: "int set \<Rightarrow> (nat \<Rightarrow> int) \<Rightarrow> string \<Rightarrow> work \<Rightarrow> unit io" where
  "run_work locked elapsed pid (AssignmentTick region) = bindE (tickRegion region) (\<lambda>_. returnE ())"
| "run_work locked elapsed pid (OutboxDrain region) = tryCatch (drainOutboxForRegion locked region) (\<lambda>_. returnE ())"
| "run_work locked elapsed pid (ArchivalRun region) = bindE (runArchivalForRegion elapsed pid region) (\<lambda>_. returnE ())"

definition run_job :: "int set \<Rightarrow> (nat \<Rightarrow> int) \<Rightarrow> string \<Rightarrow> work \<Rightarrow> unit io" where
  "run_job locked elapsed pid wk = tryCatch (run_work locked elapsed pid wk) (\<lambda>_. returnE ())"

subsection \<open>scheduler.ts\<close>

text \<open>\<open>running\<close> is the set of the code; \<open>inflight\<close> lists the invocations whose handler has not ended.\<close>

record scheduler =
  running :: "string set"
  inflight :: "string list"

datatype sched_event = Fires string | Settles string

definition startAll :: "(string \<Rightarrow> bool) \<Rightarrow> job list \<Rightarrow> exn + scheduler" where
  "startAll valid js =
     (case find (\<lambda>j. \<not> valid (j_cron j)) js of
        Some j \<Rightarrow> Inl (JsError (''invalid cron expression for job '' @ j_name j @ '': '' @ j_cron j))
      | None \<Rightarrow> Inr \<lparr>running = {}, inflight = []\<rparr>)"

inductive sched_step :: "job list \<Rightarrow> scheduler \<Rightarrow> sched_event \<Rightarrow> scheduler \<Rightarrow> bool" for js where
  skipped: "name \<in> set (map j_name js) \<Longrightarrow> name \<in> running s \<Longrightarrow> sched_step js s (Fires name) s"
| started: "name \<in> set (map j_name js) \<Longrightarrow> name \<notin> running s \<Longrightarrow>
     sched_step js s (Fires name) (s\<lparr>running := insert name (running s), inflight := inflight s @ [name]\<rparr>)"
| settled: "name \<in> set (inflight s) \<Longrightarrow>
     sched_step js s (Settles name) (s\<lparr>running := running s - {name}, inflight := remove1 name (inflight s)\<rparr>)"

inductive_cases fires_E: "sched_step js s (Fires name) s'"
inductive_cases settles_E: "sched_step js s (Settles name) s'"

inductive sched_reach :: "(string \<Rightarrow> bool) \<Rightarrow> job list \<Rightarrow> scheduler \<Rightarrow> bool" for valid js where
  boot: "startAll valid js = Inr s \<Longrightarrow> sched_reach valid js s"
| step: "sched_reach valid js s \<Longrightarrow> sched_step js s ev s' \<Longrightarrow> sched_reach valid js s'"

subsection \<open>Registration\<close>

lemma register_all_Inr:
  "distinct (map j_name jobs) \<Longrightarrow>
   register_all js jobs = Inr jobs' \<longleftrightarrow> jobs' = jobs @ js \<and> distinct (map j_name (jobs @ js))"
  by (induction js arbitrary: jobs) (auto simp: register_def)

lemma worker_jobs_Inr:
  "worker_jobs s = Inr js \<longleftrightarrow>
     js = map (assignment_job s) (jb_regions s) @ map (drain_job s) (jb_regions s) @ map (archival_job s) (jb_regions s) \<and>
     distinct (jb_regions s)"
proof -
  let ?a = "map (assignment_job s) (jb_regions s)" and ?d = "map (drain_job s) (jb_regions s)"
    and ?r = "map (archival_job s) (jb_regions s)"
  have d: "distinct (map j_name ?a) = distinct (jb_regions s)"
    "distinct (map j_name (?a @ ?d)) = distinct (jb_regions s)"
    "distinct (map j_name ((?a @ ?d) @ ?r)) = distinct (jb_regions s)"
    by (auto simp: distinct_map inj_on_def assignment_job_def drain_job_def archival_job_def)
  show ?thesis
  proof (cases "distinct (jb_regions s)")
    case True
    have 1: "registerAssignmentJobs s [] = Inr ?a"
      using d True by (simp add: registerAssignmentJobs_def register_all_Inr del: map_map)
    have 2: "registerOutboxDrainJobs s ?a = Inr (?a @ ?d)"
      using d True by (simp add: registerOutboxDrainJobs_def register_all_Inr del: map_map map_append)
    have 3: "registerArchivalJobs s (?a @ ?d) = Inr ((?a @ ?d) @ ?r)"
      using d True by (simp add: registerArchivalJobs_def register_all_Inr del: map_map map_append)
    show ?thesis using True by (auto simp: worker_jobs_def 1 2 3)
  next
    case False
    have "registerAssignmentJobs s [] \<noteq> Inr x" for x
      using d False by (simp add: registerAssignmentJobs_def register_all_Inr del: map_map)
    then show ?thesis using False by (auto simp: worker_jobs_def split: sum.splits)
  qed
qed

text \<open>The worker boots exactly with a list of regions without repetition, and then has three jobs for each
  region - assignment, outbox, archival - under names that are all different; a region listed twice stops it.\<close>

theorem worker_boots:
  "case worker_jobs s of
     Inl _ \<Rightarrow> \<not> distinct (jb_regions s)
   | Inr js \<Rightarrow>
       distinct (jb_regions s) \<and> distinct (map j_name js) \<and> length js = 3 * length (jb_regions s) \<and>
       set (map j_work js) = (\<Union>g\<in>set (jb_regions s). {AssignmentTick g, OutboxDrain g, ArchivalRun g})"
proof (cases "worker_jobs s")
  case (Inl e)
  then show ?thesis using worker_jobs_Inr [of s] by simp
next
  case (Inr js)
  then have "js = map (assignment_job s) (jb_regions s) @ map (drain_job s) (jb_regions s) @ map (archival_job s) (jb_regions s)"
    and "distinct (jb_regions s)"
    by (simp_all add: worker_jobs_Inr)
  with Inr show ?thesis
    by (auto simp: distinct_map inj_on_def assignment_job_def drain_job_def archival_job_def)
qed

subsection \<open>Interleaving of the ticks\<close>

lemma sched_invariant:
  "sched_reach valid js s \<Longrightarrow>
   distinct (inflight s) \<and> running s = set (inflight s) \<and> set (inflight s) \<subseteq> set (map j_name js)"
proof (induction rule: sched_reach.induct)
  case (boot s)
  then show ?case by (auto simp: startAll_def split: option.splits)
next
  case (step s ev s')
  from step.hyps(2) step.IH show ?case by cases auto
qed

text \<open>C30: No two invocations of a job overlap, in whatever order the jobs fire and end: among the handlers that have
  not ended no job occurs twice, and a job that fires is started exactly if none of its own invocations is
  under way, whether the earlier ones returned or threw.\<close>

theorem jobs_do_not_overlap:
  assumes "sched_reach valid js s" and "sched_step js s (Fires name) s'"
  shows "distinct (inflight s') \<and>
     inflight s' = (if name \<in> set (inflight s) then inflight s else inflight s @ [name])"
  using sched_invariant [OF assms(1)] sched_invariant [OF sched_reach.step [OF assms]] assms(2)
  by (auto elim!: fires_E)

definition sample_settings :: job_settings where
  "sample_settings =
     \<lparr>jb_regions = [''eg''], jb_assignmentTickSec = 10, jb_drainTickSec = 2, jb_archivalCron = ''c'', jb_archivalTimezone = ''UTC''\<rparr>"

theorem jobs_do_not_overlap_witness:
  "\<exists>js s s'. worker_jobs sample_settings = Inr js \<and> sched_reach (\<lambda>_. True) js s \<and>
     sched_step js s (Fires ''archival:eg'') s' \<and> inflight s = [''archival:eg''] \<and> inflight s' = [''archival:eg'']"
proof -
  obtain js where js: "worker_jobs sample_settings = Inr js" by (simp add: worker_jobs_Inr sample_settings_def)
  then have n: "''archival:eg'' \<in> set (map j_name js)"
    by (auto simp: worker_jobs_Inr sample_settings_def archival_job_def)
  let ?s = "\<lparr>running = {''archival:eg''}, inflight = [''archival:eg'']\<rparr>"
  have "startAll (\<lambda>_. True) js = Inr \<lparr>running = {}, inflight = []\<rparr>"
    by (auto simp: startAll_def find_None_iff split: option.splits)
  then have "sched_reach (\<lambda>_. True) js \<lparr>running = {}, inflight = []\<rparr>" by (rule boot)
  moreover have "sched_step js \<lparr>running = {}, inflight = []\<rparr> (Fires ''archival:eg'') ?s"
    using started [OF n, of "\<lparr>running = {}, inflight = []\<rparr>"] by simp
  ultimately have r: "sched_reach (\<lambda>_. True) js ?s" by (rule step)
  obtain s' where s: "sched_step js ?s (Fires ''archival:eg'') s'" using skipped [OF n, of ?s] by auto
  have "inflight s' = [''archival:eg'']" using jobs_do_not_overlap [OF r s] by simp
  then show ?thesis by (intro exI [of _ js] exI [of _ ?s] exI [of _ s'] conjI js r s) simp_all
qed

end
