(* ===== verification/Config.thy ===== *)
theory Config
  imports Http Sample
begin

section \<open>Configuration\<close>

text \<open>
  \<open>src/lib/config/env.ts\<close>: the schema of the process environment, the list of regions, the shards of each
  region, and the exported object. A process environment is a partial map. \<open>zod\<close>'s \<open>parse\<close> refuses an
  environment without a required variable, or with an empty \<open>REGIONS\<close>; the text of its error is not modelled.
  A number is read by \<open>Number\<close>, \<open>None\<close> is \<open>NaN\<close>. \<open>env_of\<close> is the part of the object that the services read
  (the record \<open>env\<close> of the world). Paths of the migration directory are the file system's and are left out.
\<close>

subsection \<open>The schema\<close>

type_synonym penv = "string \<rightharpoonup> string"

datatype field_spec = Required | NonEmpty | Default string

definition baseSchema :: "(string \<times> field_spec) list" where
  "baseSchema =
     [(''PORT'', Default ''4000''),
      (''NODE_ENV'', Default ''development''),
      (''ACCESS_SECRET'', Required),
      (''REFRESH_SECRET'', Required),
      (''ACCESS_EXPIRES_IN'', Default ''3600''),
      (''REFRESH_EXPIRES_IN'', Default ''604800''),
      (''CORS_ORIGINS'', Default ''http://localhost:3000''),
      (''REGIONS'', NonEmpty),
      (''DB_POOL_MAX'', Default ''10''),
      (''DB_MIGRATION_DIRECTORY'', Default ''src/migrations''),
      (''DB_MIGRATION_EXTENSION'', Default ''ts''),
      (''REDIS_HOST'', Default ''localhost''),
      (''REDIS_PORT'', Default ''6379''),
      (''REDIS_PASSWORD'', Default []),
      (''RABBITMQ_URL'', Required),
      (''RABBITMQ_CORE_EVENTS_EXCHANGE'', Default ''core.events''),
      (''RABBITMQ_CORE_EVENTS_QUEUE'', Default ''order-service.core-events''),
      (''RABBITMQ_CORE_EVENTS_BINDINGS'', Default ''product.#,branch.#,restaurant.#,rbac.#''),
      (''RABBITMQ_CORE_EVENTS_DLX'', Default ''core.events.dlx''),
      (''RABBITMQ_CORE_EVENTS_DLQ'', Default ''order-service.core-events.dlq''),
      (''RABBITMQ_PREFETCH'', Default ''32''),
      (''RABBITMQ_ORDER_EVENTS_EXCHANGE'', Default ''order.events''),
      (''OUTBOUND_EVENTS_DRAIN_TICK_SEC'', Default ''2''),
      (''OUTBOUND_EVENTS_BATCH_SIZE'', Default ''100''),
      (''CORE_SERVICE_BASE_URL'', Required),
      (''CORE_INTERNAL_API_KEY'', Required),
      (''CORE_HTTP_TIMEOUT_MS'', Default ''5000''),
      (''INTERNAL_API_KEY'', Default []),
      (''WS_HEARTBEAT_SEC'', Default ''30''),
      (''KASHIER_BASE_URL'', Default ''https://test-api.kashier.io''),
      (''KASHIER_FEP_BASE_URL'', Default ''https://test-fep.kashier.io''),
      (''KASHIER_MERCHANT_ID'', Required),
      (''KASHIER_API_KEY'', Required),
      (''KASHIER_SECRET_KEY'', Required),
      (''KASHIER_PAYMENT_TYPE'', Default ''credit''),
      (''KASHIER_RETURN_URL'', Required),
      (''KASHIER_FAIL_URL'', Required),
      (''KASHIER_WEBHOOK_URL'', Required),
      (''PAYMENT_SESSION_TIMEOUT_MIN'', Default ''15''),
      (''ONLINE_PAYMENT_REGIONS'', Default ''eg''),
      (''PRESENCE_STALE_SEC'', Default ''300''),
      (''ASSIGNMENT_TICK_SEC'', Default ''10''),
      (''ASSIGNMENT_RADIUS_METERS'', Default ''5000''),
      (''ASSIGNMENT_CANDIDATES'', Default ''5''),
      (''ASSIGNMENT_OFFER_TTL_SEC'', Default ''30''),
      (''ASSIGNMENT_CLAIM_TTL_SEC'', Default ''300''),
      (''ASSIGNMENT_MAX_ATTEMPTS'', Default ''3''),
      (''ASSIGNMENT_BATCH'', Default ''20''),
      (''AGENT_EARNING_SHARE_BPS'', Default ''8000''),
      (''ARCHIVAL_CRON'', Default ''0 3 * * *''),
      (''ARCHIVAL_TIMEZONE'', Default ''UTC''),
      (''ARCHIVAL_BATCH_SIZE'', Default ''1000''),
      (''ARCHIVAL_MAX_RUNTIME_MIN'', Default ''60'')]"

fun field_ok :: "field_spec \<Rightarrow> string option \<Rightarrow> bool" where
  "field_ok Required v = (v \<noteq> None)"
| "field_ok NonEmpty v = (v \<noteq> None \<and> v \<noteq> Some [])"
| "field_ok (Default d) v = True"

fun field_value :: "field_spec \<Rightarrow> string option \<Rightarrow> string" where
  "field_value (Default d) v = (case v of None \<Rightarrow> d | Some s \<Rightarrow> s)"
| "field_value _ v = (case v of None \<Rightarrow> [] | Some s \<Rightarrow> s)"

datatype config_error = InvalidEnv "string list" | MissingShard string string

definition parse_schema :: "penv \<Rightarrow> config_error + (string \<Rightarrow> string)" where
  "parse_schema p =
     (let bad = map fst (filter (\<lambda>(k, f). \<not> field_ok f (p k)) baseSchema)
      in if bad \<noteq> [] then Inl (InvalidEnv bad)
         else Inr (\<lambda>k. case map_of baseSchema k of None \<Rightarrow> [] | Some f \<Rightarrow> field_value f (p k)))"

subsection \<open>Regions and shards\<close>

definition trimmed_parts :: "string \<Rightarrow> string list" where
  "trimmed_parts raw = map trim (splitOn (CHR '','') raw)"

definition parseRegions :: "string \<Rightarrow> string list" where
  "parseRegions raw = filter (\<lambda>s. 0 < length s) (trimmed_parts raw)"

record shard_config =
  sh_host :: string
  sh_port :: "int option"
  sh_username :: string
  sh_password :: string
  sh_name :: string

definition falsy :: "string option \<Rightarrow> bool" where
  "falsy v \<longleftrightarrow> v = None \<or> v = Some []"

definition readShardConfig :: "penv \<Rightarrow> string \<Rightarrow> string \<Rightarrow> config_error + shard_config" where
  "readShardConfig p region prefix =
     (let v = (\<lambda>suffix. p (prefix @ ''_'' @ region @ ''_'' @ suffix))
      in if falsy (v ''HOST'') \<or> falsy (v ''PORT'') \<or> falsy (v ''USERNAME'') \<or> v ''NAME'' = None
         then Inl (MissingShard prefix region)
         else Inr \<lparr>sh_host = the (v ''HOST''), sh_port = Number (the (v ''PORT'')), sh_username = the (v ''USERNAME''),
                   sh_password = (case v ''PASSWORD'' of None \<Rightarrow> [] | Some s \<Rightarrow> s), sh_name = the (v ''NAME'')\<rparr>)"

type_synonym shard_table = "string \<rightharpoonup> shard_config"

fun read_shards :: "penv \<Rightarrow> string list \<Rightarrow> shard_table \<times> shard_table \<Rightarrow> config_error + (shard_table \<times> shard_table)" where
  "read_shards p [] acc = Inr acc"
| "read_shards p (r # rs) (hot, archive) =
     (case readShardConfig p r ''DB'' of
        Inl e \<Rightarrow> Inl e
      | Inr h \<Rightarrow>
          (case readShardConfig p r ''ARCHIVE_DB'' of
             Inl e \<Rightarrow> Inl e
           | Inr a \<Rightarrow> read_shards p rs (hot(r \<mapsto> h), archive(r \<mapsto> a))))"

subsection \<open>The exported object\<close>

record config =
  c_port :: "int option"
  c_isProduction :: bool
  c_corsOrigins :: "string list"
  c_accessSecret :: string
  c_refreshSecret :: string
  c_accessExpiresIn :: string
  c_refreshExpiresIn :: string
  c_poolMax :: "int option"
  c_migrationExtension :: string
  c_regions :: "string list"
  c_hotShards :: shard_table
  c_archiveShards :: shard_table
  c_redisHost :: string
  c_redisPort :: "int option"
  c_redisPassword :: "string option"
  c_rabbitUrl :: string
  c_rabbitExchange :: string
  c_rabbitQueue :: string
  c_rabbitBindings :: "string list"
  c_rabbitDlx :: string
  c_rabbitDlq :: string
  c_rabbitPrefetch :: "int option"
  c_outboundExchange :: string
  c_drainTickSec :: "int option"
  c_outboundBatchSize :: "int option"
  c_coreBaseUrl :: string
  c_coreApiKey :: string
  c_coreTimeoutMs :: "int option"
  c_internalApiKey :: string
  c_heartbeatSec :: "int option"
  c_kashierBaseUrl :: string
  c_kashierFepBaseUrl :: string
  c_kashierMerchantId :: string
  c_kashierApiKey :: string
  c_kashierSecretKey :: string
  c_kashierPaymentType :: string
  c_kashierReturnUrl :: string
  c_kashierFailUrl :: string
  c_kashierWebhookUrl :: string
  c_sessionTimeoutMin :: "int option"
  c_onlineRegions :: "string list"
  c_presenceStaleSec :: "int option"
  c_assignmentTickSec :: "int option"
  c_radiusMeters :: "int option"
  c_candidates :: "int option"
  c_offerTtlSec :: "int option"
  c_claimTtlSec :: "int option"
  c_maxAttempts :: "int option"
  c_batch :: "int option"
  c_earningShareBps :: "int option"
  c_archivalCron :: string
  c_archivalTimezone :: string
  c_archivalBatchSize :: "int option"
  c_archivalMaxRuntimeMin :: "int option"

definition load_config :: "penv \<Rightarrow> config_error + config" where
  "load_config p =
     (case parse_schema p of
        Inl e \<Rightarrow> Inl e
      | Inr v \<Rightarrow>
          (case read_shards p (parseRegions (v ''REGIONS'')) (Map.empty, Map.empty) of
             Inl e \<Rightarrow> Inl e
           | Inr (hot, archive) \<Rightarrow> Inr
               \<lparr>c_port = Number (v ''PORT''), c_isProduction = (v ''NODE_ENV'' = ''production''),
                c_corsOrigins = trimmed_parts (v ''CORS_ORIGINS''),
                c_accessSecret = v ''ACCESS_SECRET'', c_refreshSecret = v ''REFRESH_SECRET'',
                c_accessExpiresIn = v ''ACCESS_EXPIRES_IN'', c_refreshExpiresIn = v ''REFRESH_EXPIRES_IN'',
                c_poolMax = Number (v ''DB_POOL_MAX''), c_migrationExtension = v ''DB_MIGRATION_EXTENSION'',
                c_regions = parseRegions (v ''REGIONS''), c_hotShards = hot, c_archiveShards = archive,
                c_redisHost = v ''REDIS_HOST'', c_redisPort = Number (v ''REDIS_PORT''),
                c_redisPassword = (if v ''REDIS_PASSWORD'' = [] then None else Some (v ''REDIS_PASSWORD'')),
                c_rabbitUrl = v ''RABBITMQ_URL'', c_rabbitExchange = v ''RABBITMQ_CORE_EVENTS_EXCHANGE'',
                c_rabbitQueue = v ''RABBITMQ_CORE_EVENTS_QUEUE'',
                c_rabbitBindings = trimmed_parts (v ''RABBITMQ_CORE_EVENTS_BINDINGS''),
                c_rabbitDlx = v ''RABBITMQ_CORE_EVENTS_DLX'', c_rabbitDlq = v ''RABBITMQ_CORE_EVENTS_DLQ'',
                c_rabbitPrefetch = Number (v ''RABBITMQ_PREFETCH''),
                c_outboundExchange = v ''RABBITMQ_ORDER_EVENTS_EXCHANGE'',
                c_drainTickSec = Number (v ''OUTBOUND_EVENTS_DRAIN_TICK_SEC''),
                c_outboundBatchSize = Number (v ''OUTBOUND_EVENTS_BATCH_SIZE''),
                c_coreBaseUrl = v ''CORE_SERVICE_BASE_URL'', c_coreApiKey = v ''CORE_INTERNAL_API_KEY'',
                c_coreTimeoutMs = Number (v ''CORE_HTTP_TIMEOUT_MS''), c_internalApiKey = v ''INTERNAL_API_KEY'',
                c_heartbeatSec = Number (v ''WS_HEARTBEAT_SEC''), c_kashierBaseUrl = v ''KASHIER_BASE_URL'',
                c_kashierFepBaseUrl = v ''KASHIER_FEP_BASE_URL'', c_kashierMerchantId = v ''KASHIER_MERCHANT_ID'',
                c_kashierApiKey = v ''KASHIER_API_KEY'', c_kashierSecretKey = v ''KASHIER_SECRET_KEY'',
                c_kashierPaymentType = v ''KASHIER_PAYMENT_TYPE'', c_kashierReturnUrl = v ''KASHIER_RETURN_URL'',
                c_kashierFailUrl = v ''KASHIER_FAIL_URL'', c_kashierWebhookUrl = v ''KASHIER_WEBHOOK_URL'',
                c_sessionTimeoutMin = Number (v ''PAYMENT_SESSION_TIMEOUT_MIN''),
                c_onlineRegions = filter (\<lambda>s. 0 < length s)
                  (map (\<lambda>s. toLowerCase (trim s)) (splitOn (CHR '','') (v ''ONLINE_PAYMENT_REGIONS''))),
                c_presenceStaleSec = Number (v ''PRESENCE_STALE_SEC''),
                c_assignmentTickSec = Number (v ''ASSIGNMENT_TICK_SEC''),
                c_radiusMeters = Number (v ''ASSIGNMENT_RADIUS_METERS''),
                c_candidates = Number (v ''ASSIGNMENT_CANDIDATES''),
                c_offerTtlSec = Number (v ''ASSIGNMENT_OFFER_TTL_SEC''),
                c_claimTtlSec = Number (v ''ASSIGNMENT_CLAIM_TTL_SEC''),
                c_maxAttempts = Number (v ''ASSIGNMENT_MAX_ATTEMPTS''), c_batch = Number (v ''ASSIGNMENT_BATCH''),
                c_earningShareBps = Number (v ''AGENT_EARNING_SHARE_BPS''), c_archivalCron = v ''ARCHIVAL_CRON'',
                c_archivalTimezone = v ''ARCHIVAL_TIMEZONE'', c_archivalBatchSize = Number (v ''ARCHIVAL_BATCH_SIZE''),
                c_archivalMaxRuntimeMin = Number (v ''ARCHIVAL_MAX_RUNTIME_MIN'')\<rparr>))"

text \<open>What the services read; for numeric settings that are numbers.\<close>

definition env_of :: "config \<Rightarrow> env" where
  "env_of c =
     \<lparr>regions = c_regions c, onlineRegions = c_onlineRegions c, sessionTimeoutMin = the (c_sessionTimeoutMin c),
      internalApiKey = c_internalApiKey c, kashierApiKey = c_kashierApiKey c, kashierMerchantId = c_kashierMerchantId c,
      kashierPaymentType = c_kashierPaymentType c, kashierWebhookUrl = c_kashierWebhookUrl c,
      kashierReturnUrl = c_kashierReturnUrl c, presenceStaleSec = the (c_presenceStaleSec c),
      radiusMeters = the (c_radiusMeters c), candidates = nat (the (c_candidates c)),
      offerTtlSec = the (c_offerTtlSec c), claimTtlSec = the (c_claimTtlSec c), maxAttempts = the (c_maxAttempts c),
      batch = nat (the (c_batch c)), agentEarningShareBps = the (c_earningShareBps c),
      outboundExchange = c_outboundExchange c, outboundBatchSize = nat (the (c_outboundBatchSize c)),
      archivalBatchSize = nat (the (c_archivalBatchSize c)), archivalMaxRuntimeMin = the (c_archivalMaxRuntimeMin c)\<rparr>"

subsection \<open>Reading a list of regions\<close>

text \<open>A list of region names - not empty, without commas or surrounding white space - that is written down
  separated by commas, with any white space around each name, is read back as it was.\<close>

theorem regions_roundtrip:
  assumes "rs \<noteq> []" and "\<forall>r\<in>set rs. r \<noteq> []" and "map trim ss = rs" and "\<forall>s\<in>set ss. CHR '','' \<notin> set s"
  shows "parseRegions (joinWith (CHR '','') ss) = rs"
proof -
  have "trimmed_parts (joinWith (CHR '','') ss) = rs"
    using assms(1,3,4) splitOn_joinWith [of ss "CHR '',''"] by (cases "ss = []") (simp_all add: trimmed_parts_def)
  with assms(2) show ?thesis by (auto simp: parseRegions_def filter_id_conv)
qed

theorem regions_roundtrip_witness:
  "parseRegions (joinWith (CHR '','') [''eg'', '' sa '']) = [''eg'', ''sa'']"
  by (rule regions_roundtrip) (simp_all add: trim_def is_space_def)

subsection \<open>Every region has its shards\<close>

text \<open>Shard \<open>s\<close> is what the variables of the process say under the prefix and the name of the region.\<close>

definition shard_of :: "penv \<Rightarrow> string \<Rightarrow> string \<Rightarrow> shard_config \<Rightarrow> bool" where
  "shard_of p prefix r s \<longleftrightarrow>
     p (prefix @ ''_'' @ r @ ''_HOST'') = Some (sh_host s) \<and> sh_host s \<noteq> [] \<and>
     p (prefix @ ''_'' @ r @ ''_USERNAME'') = Some (sh_username s) \<and> sh_username s \<noteq> [] \<and>
     p (prefix @ ''_'' @ r @ ''_NAME'') = Some (sh_name s) \<and>
     (\<exists>port. p (prefix @ ''_'' @ r @ ''_PORT'') = Some port \<and> port \<noteq> [] \<and> sh_port s = Number port) \<and>
     sh_password s = (case p (prefix @ ''_'' @ r @ ''_PASSWORD'') of None \<Rightarrow> [] | Some pw \<Rightarrow> pw)"

lemma readShardConfig_Inr: "readShardConfig p r prefix = Inr s \<Longrightarrow> shard_of p prefix r s"
  by (auto simp: readShardConfig_def shard_of_def Let_def falsy_def split: if_splits)

definition shards_good :: "penv \<Rightarrow> string \<Rightarrow> shard_table \<Rightarrow> bool" where
  "shards_good p prefix t \<longleftrightarrow> (\<forall>r s. t r = Some s \<longrightarrow> shard_of p prefix r s)"

lemma shards_good_upd: "shards_good p prefix t \<Longrightarrow> shard_of p prefix r s \<Longrightarrow> shards_good p prefix (t(r \<mapsto> s))"
  by (auto simp: shards_good_def)

lemma read_shards_Inr:
  "read_shards p rs (h, a) = Inr (hot, archive) \<Longrightarrow>
   dom hot = dom h \<union> set rs \<and> dom archive = dom a \<union> set rs \<and>
   (shards_good p ''DB'' h \<longrightarrow> shards_good p ''DB'' hot) \<and>
   (shards_good p ''ARCHIVE_DB'' a \<longrightarrow> shards_good p ''ARCHIVE_DB'' archive)"
  by (induction rs arbitrary: h a)
     (auto split: sum.splits dest!: readShardConfig_Inr intro: shards_good_upd)

lemma load_config_Inr:
  assumes "load_config p = Inr c"
  shows "c_regions c = parseRegions (the (p ''REGIONS''))" and "dom (c_hotShards c) = set (c_regions c)"
    and "dom (c_archiveShards c) = set (c_regions c)" and "shards_good p ''DB'' (c_hotShards c)" and "shards_good p ''ARCHIVE_DB'' (c_archiveShards c)"
proof -
  from assms obtain v hot archive where v: "parse_schema p = Inr v"
    and r: "read_shards p (parseRegions (v ''REGIONS'')) (Map.empty, Map.empty) = Inr (hot, archive)"
    and c: "c_regions c = parseRegions (v ''REGIONS'')" "c_hotShards c = hot" "c_archiveShards c = archive"
    by (auto simp: load_config_def split: sum.splits)
  have m: "map_of baseSchema ''REGIONS'' = Some NonEmpty" by (simp add: baseSchema_def)
  from v have "v = (\<lambda>k. case map_of baseSchema k of None \<Rightarrow> [] | Some f \<Rightarrow> field_value f (p k))"
    and "\<forall>(k, f)\<in>set baseSchema. field_ok f (p k)"
    by (auto simp: parse_schema_def Let_def filter_empty_conv split: if_splits)
  with m have "p ''REGIONS'' \<noteq> None \<and> v ''REGIONS'' = the (p ''REGIONS'')"
    using map_of_SomeD [OF m] by fastforce
  with c show "c_regions c = parseRegions (the (p ''REGIONS''))" by simp
  have "shards_good p prefix Map.empty" for prefix by (simp add: shards_good_def)
  with read_shards_Inr [OF r] c show "dom (c_hotShards c) = set (c_regions c)" "dom (c_archiveShards c) = set (c_regions c)"
    "shards_good p ''DB'' (c_hotShards c)" "shards_good p ''ARCHIVE_DB'' (c_archiveShards c)"
    by simp_all
qed

text \<open>C31: Which regions are served: in a configuration that was loaded, a region other than \<open>all\<close> that a request
  resolves to has a hot and an archive shard, each with the host and the user - neither of them empty -, the port,
  the name and the password that the variables \<open>DB_<region>_..\<close> and \<open>ARCHIVE_DB_<region>_..\<close> give, and
  \<open>db(region)\<close> and \<open>dbArchive(region)\<close> are its connections - unless \<open>REGIONS\<close> spells the region with upper case
  letters only: then the request passes the region middleware, and \<open>db(region)\<close> fails with an internal error.\<close>

theorem served_regions:
  assumes load: "load_config p = Inr c" and e: "env w = env_of c"
    and g: "resolveRegion (env w) rq = Some g" "g \<noteq> ALL_REGIONS"
  shows "if g \<in> set (c_regions c)
     then db g w = (Inr (Hot, g), w) \<and> dbArchive g w = (Inr (Archive, g), w) \<and>
          (\<exists>h a. c_hotShards c g = Some h \<and> c_archiveShards c g = Some a \<and>
             shard_of p ''DB'' g h \<and> shard_of p ''ARCHIVE_DB'' g a)
     else (\<exists>r\<in>set (c_regions c). toLowerCase r = g \<and> r \<noteq> g) \<and> (\<exists>m. db g w = (Inl (JsError m), w))"
proof -
  have low: "toLowerCase g = g" using g(1) by (rule resolveRegion_lower)
  have ne: "g \<noteq> []" and mem: "g \<in> toLowerCase ` set (c_regions c)"
    using g low
    by (auto simp: resolveRegion_def isRegion_def normalizeRegion_def region_set_def e env_of_def ALL_REGIONS_def Let_def
        split: option.splits if_splits)
  have as: "assertRegion (Some g) w = (Inr g, w)"
    using low ne mem by (auto simp: assertRegion_def bindE_def normalizeRegion_def region_set_def e env_of_def)
  show ?thesis
  proof (cases "g \<in> set (c_regions c)")
    case True
    with load_config_Inr [OF load] obtain h a where "c_hotShards c g = Some h" "c_archiveShards c g = Some a" by blast
    moreover from this load_config_Inr [OF load] have "shard_of p ''DB'' g h" "shard_of p ''ARCHIVE_DB'' g a"
      by (auto simp: shards_good_def)
    ultimately show ?thesis
      using True by (simp add: db_def dbArchive_def getShard_def seqE_def bindE_def as e env_of_def)
  next
    case False
    with mem show ?thesis by (auto simp: db_def getShard_def seqE_def bindE_def as e env_of_def)
  qed
qed

definition sample_penv :: penv where
  "sample_penv = map_of
     (map (\<lambda>k. (k, ''x'')) [''ACCESS_SECRET'', ''REFRESH_SECRET'', ''RABBITMQ_URL'', ''CORE_SERVICE_BASE_URL'',
        ''CORE_INTERNAL_API_KEY'', ''KASHIER_MERCHANT_ID'', ''KASHIER_API_KEY'', ''KASHIER_SECRET_KEY'',
        ''KASHIER_RETURN_URL'', ''KASHIER_FAIL_URL'', ''KASHIER_WEBHOOK_URL'', ''DB_EG_HOST'', ''DB_EG_PORT'',
        ''DB_EG_USERNAME'', ''DB_EG_NAME'', ''ARCHIVE_DB_EG_HOST'', ''ARCHIVE_DB_EG_PORT'', ''ARCHIVE_DB_EG_USERNAME'',
        ''ARCHIVE_DB_EG_NAME''] @ [(''REGIONS'', ''EG'')])"

lemma sample_penv_loads: "\<not> isl (load_config sample_penv)"
  by code_simp

definition region_request :: http_request where
  "region_request =
     \<lparr>hq_method = ''GET'', hq_originalUrl = [], hq_params = Map.empty, hq_query = [''region'' \<mapsto> ''eg''],
      hq_headers = Map.empty, hq_accessCookie = None, hq_body = Inr None\<rparr>"

lemma lowered: "toLowerCase ''EG'' = ''eg''" "toLowerCase ''eg'' = ''eg''"
  by code_simp+

theorem served_regions_witness:
  "\<exists>c m. load_config sample_penv = Inr c \<and> c_regions c = [''EG''] \<and>
     db ''eg'' (sample_world\<lparr>env := env_of c\<rparr>) = (Inl (JsError m), sample_world\<lparr>env := env_of c\<rparr>)"
proof -
  obtain c where c: "load_config sample_penv = Inr c" using sample_penv_loads by (cases "load_config sample_penv") auto
  have "parseRegions ''EG'' = [''EG'']" by code_simp
  with load_config_Inr(1) [OF c] have r: "c_regions c = [''EG'']" by (simp add: sample_penv_def)
  let ?w = "sample_world\<lparr>env := env_of c\<rparr>"
  have "resolveRegion (env ?w) region_request = Some ''eg''"
    by (simp add: resolveRegion_def region_request_def ALL_REGIONS_def isRegion_def normalizeRegion_def region_set_def
        env_of_def r lowered)
  from served_regions [OF c _ this] r show ?thesis using c by (auto simp: ALL_REGIONS_def)
qed

end
