(* ===== verification/Service.thy ===== *)
theory Service
  imports Routes Jobs CoreEvents
begin

section \<open>The service as a whole\<close>

text \<open>
  The contract that a relation on the tables of a shard has to meet so that everything the service does moves
  within it: the locale \<open>write_contract\<close> lists the statements that write (each operation of the repositories, with
  what the services promise of its input), and its lemmas compose them to handlers, controllers, \<open>serve\<close> and the
  jobs. Its interpretations say what the whole service does to the tables: which constraints always hold,
  what is never altered, who marks an event as sent.
\<close>

subsection \<open>The contract\<close>

definition amounts_add_up :: "create_order_input \<Rightarrow> bool" where
  "amounts_add_up n \<longleftrightarrow> n_total n = n_subtotal n + n_deliveryFee n + n_serviceFee n"

definition line_adds_up :: "insert_item_input \<Rightarrow> bool" where
  "line_adds_up n \<longleftrightarrow> ni_lineTotal n = ni_unitPriceSnapshot n * ni_quantity n"

locale write_contract = quiet_relation R for R :: "world \<Rightarrow> world \<Rightarrow> bool" +
  assumes w_restore: "R w w' \<Longrightarrow> R w (restore c w w')"
    and w_createOrder: "amounts_add_up n \<Longrightarrow> moves R (createOrder n c)"
    and w_bulkInsertItems: "list_all line_adds_up ns \<Longrightarrow> moves R (bulkInsertItems ns c)"
    and w_claimReadyOrder: "moves R (claimReadyOrderForAgent p a c)"
    and w_release: "moves R (goOffline_release c a)"
    and w_commission: "moves R (updateOrderCommission p m c)"
    and w_status: "moves R (updateOrderStatus p s st c)"
    and w_createSession: "moves R (createSession ns' c)"
    and w_updateSession: "moves R (updateSession i ss raw c)"
    and w_recordWebhook: "moves R (recordWebhookOrSkip nw c)"
    and w_markWebhook: "moves R (markWebhookProcessed i e c)"
    and w_createTransaction: "moves R (createTransaction nt c)"
    and w_createTransactionIdempotent: "moves R (createTransactionIdempotent nt c)"
    and w_upsertIncrement: "moves R (upsertIncrement r g cur d c)"
    and w_decrement: "moves R (decrementIfSufficient r cur d c)"
    and w_insertEarning: "moves R (insertEarning g a o' m cur c)"
    and w_insertOutbox: "moves R (insert_outbox_rows xs c)"

sublocale write_contract \<subseteq> restoring_relation R c for c
  by unfold_locales (rule w_restore)

context write_contract begin

lemmas writes = w_claimReadyOrder w_release w_commission w_status w_createSession w_updateSession w_recordWebhook
  w_markWebhook w_createTransaction w_createTransactionIdempotent w_upsertIncrement w_decrement w_insertEarning
  w_insertOutbox

lemma m_insertOutboxEvent: "moves R (insertOutboxEvent c n)"
  unfolding insertOutboxEvent_def by (intro moves_intro writes)

lemma m_updateStatus: "moves R (updateStatus a g p body)"
  unfolding updateStatus_def updateStatus_write_def updateStatus_body_def Let_def
  by (intro moves_intro writes m_insertOutboxEvent)

lemma m_claims: "moves R (claim p a g)" "moves R (adminAssign p a g)"
  unfolding claim_def adminAssign_def acquire_claim_def offer_of_def claim_write_def claim_body_def claim_row_or_throw_def
    drop_claim_def
  by (intro moves_intro writes)+

lemma m_transition: "moves R (transition p a g t)"
  unfolding transition_def settleDelivered_def settle_write_def settle_body_def book_def pick_write_def Let_def
  by (intro moves_intro writes m_insertOutboxEvent)

lemma m_goOffline: "moves R (goOffline g a)"
  unfolding goOffline_def by (intro moves_intro writes)

lemma m_recordPayout: "moves R (recordPayout body g key)"
  unfolding recordPayout_def payout_body_def by (intro moves_intro writes)

lemma m_webhook: "moves R (webhook_controller raw sig g)"
  unfolding webhook_controller_def processKashierWebhook_def reconcile_def reconcile_success_def reconcile_failed_def Let_def
  by (intro moves_intro writes m_insertOutboxEvent)

end

definition sound_plan :: "order_plan \<Rightarrow> bool" where
  "sound_plan pl \<longleftrightarrow>
     pl_total pl = pl_subtotal pl + cb_deliveryFee (pl_branch pl) + SERVICE_FEE_MINOR \<and>
     list_all (\<lambda>d. d_lineTotal d = d_unitPrice d * d_quantity d) (pl_drafts pl)"

lemma planOrder_sound:
  assumes "planOrder a body g cid w = (Inr pl, w')"
  shows "sound_plan pl"
  using assms
proof (rule planOrder_InrE)
  fix products
  assume d: "buildOrderLineDrafts (co_items body) products = Inr (pl_drafts pl)"
    and t: "pl_total pl = pl_subtotal pl + cb_deliveryFee (pl_branch pl) + SERVICE_FEE_MINOR"
  from buildOrderLineDrafts_ok(2) [OF d] t show ?thesis by (auto simp: sound_plan_def list_all_iff)
qed

context write_contract begin

lemma m_placeOrder: "moves R (placeOrder a body g cid)"
proof -
  have "moves R (placeOrder_body a body pl pid c)" if "sound_plan pl" for pl pid c
  proof -
    have "amounts_add_up (order_input a body pl pid)"
      using that by (simp add: sound_plan_def amounts_add_up_def order_input_def Let_def)
    moreover have "list_all line_adds_up (map (item_input (pl_region pl) i) (pl_drafts pl))" for i
      using that by (auto simp: sound_plan_def line_adds_up_def item_input_def list_all_iff)
    ultimately show ?thesis
      unfolding placeOrder_body_def by (intro moves_intro w_createOrder w_bulkInsertItems m_insertOutboxEvent)
  qed
  then have commit: "moves R (placeOrder_commit a body pl pid cid)" if "sound_plan pl" for pl pid
    using that unfolding placeOrder_commit_def by (intro moves_intro)
  have pay: "moves R (placeOrder_payment body pl o' cid)" for pl o'
    unfolding placeOrder_payment_def voidOrderSafe_def initOnlinePayment_def Let_def by (intro moves_intro writes)
  show ?thesis
    unfolding placeOrder_def
    by (intro moves_bindE_on [OF moves_planOrder]) (auto dest!: planOrder_sound intro!: moves_intro commit pay)
qed

lemma m_controller: "moves R (controller L ep c)"
  by (cases ep)
     (simp_all only: controller.simps order_placeOrder_def order_updateStatus_def agent_offline_def agent_accept_def
        agent_transition_def assignment_adminAssign_def finance_createPayout_def webhook_kashier_def Let_def accept_def,
      (intro moves_intro m_placeOrder m_updateStatus m_goOffline m_claims m_transition m_recordPayout m_webhook)+)

lemma m_serve: "moves R (serve L ep rq)"
  unfolding serve_def correlationId_def Let_def
  by (intro moves_intro moves_handled moves_chain m_controller)

end

end
