(* ===== verification/Constraints.thy ===== *)
theory Constraints
  imports Service
begin

section \<open>The constraints of the tables\<close>

text \<open>
  Column types (\<open>INT4\<close>), unique indexes and checks of the migrations, and what the service adds to them: an order's
  amounts and an item's line add up.
\<close>

definition order_ok :: "order_entity \<Rightarrow> bool" where
  "order_ok o' \<longleftrightarrow>
     o_subtotal o' + o_deliveryFee o' + o_serviceFee o' = o_total o' \<and>
     int4 (o_subtotal o') \<and> int4 (o_deliveryFee o') \<and> int4 (o_serviceFee o') \<and> int4 (o_total o') \<and> int4 (o_commission o')"

definition item_ok :: "order_item_entity \<Rightarrow> bool" where
  "item_ok i \<longleftrightarrow>
     0 < i_quantity i \<and> i_lineTotal i = i_unitPriceSnapshot i * i_quantity i \<and>
     int4 (i_quantity i) \<and> int4 (i_unitPriceSnapshot i) \<and> int4 (i_lineTotal i)"

definition sessions_ok :: "payment_session_entity list \<Rightarrow> bool" where
  "sessions_ok ss \<longleftrightarrow> list_all (\<lambda>s. int4 (s_amount s)) ss \<and> distinct (map s_providerSessionId ss)"

definition transactions_ok :: "transaction_entity list \<Rightarrow> bool" where
  "transactions_ok xs \<longleftrightarrow> list_all (\<lambda>x. int4 (t_amount x)) xs \<and> ledger.unique_keys xs"

definition balances_ok :: "restaurant_balance_entity list \<Rightarrow> bool" where
  "balances_ok bs \<longleftrightarrow>
     list_all (\<lambda>b. int4 (b_balance b)) bs \<and> distinct (map (\<lambda>b. (b_restaurantId b, b_currency b)) bs)"

definition earnings_ok :: "agent_earning_entity list \<Rightarrow> bool" where
  "earnings_ok es \<longleftrightarrow> list_all (\<lambda>e. int4 (e_amount e)) es \<and> earning_table.unique_keys es"

definition outbox_ok :: "outbox_row list \<Rightarrow> bool" where
  "outbox_ok xs \<longleftrightarrow> list_all (\<lambda>x. int4 (x_attempts x)) xs \<and> distinct (map x_eventId xs)"

definition tables_ok :: "tables \<Rightarrow> bool" where
  "tables_ok tb \<longleftrightarrow>
     list_all order_ok (orders tb) \<and> list_all item_ok (order_items tb) \<and> sessions_ok (payment_sessions tb) \<and>
     transactions_ok (transactions tb) \<and> webhook_log.unique_keys (webhook_events tb) \<and> balances_ok (balances tb) \<and>
     earnings_ok (earnings tb) \<and> outbox_ok (outbox tb)"

text \<open>One table is rewritten, and its new rows are as good as the old ones.\<close>

lemma list_all_update_where:
  "list_all P rs \<Longrightarrow> (\<And>r. P r \<Longrightarrow> p r \<Longrightarrow> P (f r)) \<Longrightarrow> list_all P (update_where p f rs)"
  by (auto simp: list_all_iff update_where_def)

lemma set_stamp_amounts [simp]:
  "o_subtotal (set_stamp s t x) = o_subtotal x" "o_deliveryFee (set_stamp s t x) = o_deliveryFee x"
  "o_serviceFee (set_stamp s t x) = o_serviceFee x" "o_commission (set_stamp s t x) = o_commission x"
  by (cases s; simp)+

lemma order_ok_updates [simp]:
  "order_ok (claim_row a t o') = order_ok o'" "order_ok (release_row t o') = order_ok o'"
  "order_ok (status_row s st t o') = order_ok o'"
  by (simp_all add: order_ok_def claim_row_def release_row_def status_row_def Let_def split: option.splits)

lemma order_ok_commission: "order_ok o' \<Longrightarrow> int4 m \<Longrightarrow> order_ok (o'\<lparr>o_commission := m, o_updatedAt := t\<rparr>)"
  by (simp add: order_ok_def)

lemma order_ok_order_row:
  "amounts_add_up n \<Longrightarrow> int4 (n_subtotal n) \<Longrightarrow> int4 (n_deliveryFee n) \<Longrightarrow> int4 (n_serviceFee n) \<Longrightarrow> int4 (n_total n) \<Longrightarrow>
   order_ok (order_row i t n)"
  by (simp add: order_ok_def order_row_def amounts_add_up_def int4_def)

lemma item_rows_ok:
  "list_all line_adds_up ns \<Longrightarrow>
   list_all (\<lambda>n. int4 (ni_quantity n) \<and> int4 (ni_unitPriceSnapshot n) \<and> int4 (ni_lineTotal n)) ns \<Longrightarrow>
   list_all (\<lambda>n. 0 < ni_quantity n) ns \<Longrightarrow> list_all item_ok (item_rows q t ns)"
  by (induction ns arbitrary: q) (auto simp: item_ok_def item_row_def line_adds_up_def)

interpretation constraint: table_relation "keeping tables_ok"
  by unfold_locales (auto simp: keeping_def)

lemma keeping_table:
  "(list_all order_ok (orders tb) \<Longrightarrow> list_all order_ok os) \<Longrightarrow> keeping tables_ok tb (tb\<lparr>orders := os\<rparr>)"
  "(list_all item_ok (order_items tb) \<Longrightarrow> list_all item_ok is) \<Longrightarrow> keeping tables_ok tb (tb\<lparr>order_items := is\<rparr>)"
  "(sessions_ok (payment_sessions tb) \<Longrightarrow> sessions_ok ps) \<Longrightarrow> keeping tables_ok tb (tb\<lparr>payment_sessions := ps\<rparr>)"
  "(transactions_ok (transactions tb) \<Longrightarrow> transactions_ok xs) \<Longrightarrow> keeping tables_ok tb (tb\<lparr>transactions := xs\<rparr>)"
  "(webhook_log.unique_keys (webhook_events tb) \<Longrightarrow> webhook_log.unique_keys es) \<Longrightarrow>
     keeping tables_ok tb (tb\<lparr>webhook_events := es\<rparr>)"
  "(balances_ok (balances tb) \<Longrightarrow> balances_ok bs) \<Longrightarrow> keeping tables_ok tb (tb\<lparr>balances := bs\<rparr>)"
  "(earnings_ok (earnings tb) \<Longrightarrow> earnings_ok gs) \<Longrightarrow> keeping tables_ok tb (tb\<lparr>earnings := gs\<rparr>)"
  "(outbox_ok (outbox tb) \<Longrightarrow> outbox_ok rs) \<Longrightarrow> keeping tables_ok tb (tb\<lparr>outbox := rs\<rparr>)"
  by (simp_all add: keeping_def tables_ok_def)

lemma ok_order_updates:
  "list_all order_ok os \<Longrightarrow> list_all order_ok (update_where p (claim_row a t) os)"
  "list_all order_ok os \<Longrightarrow> list_all order_ok (update_where p (release_row t) os)"
  "list_all order_ok os \<Longrightarrow> list_all order_ok (update_where p (status_row s st t) os)"
  "list_all order_ok os \<Longrightarrow> int4 m \<Longrightarrow>
     list_all order_ok (update_where p (\<lambda>o'. o'\<lparr>o_commission := m, o_updatedAt := t\<rparr>) os)"
  by (rule list_all_update_where; simp add: order_ok_commission)+

lemma ok_order_writes:
  "moves (per_table (keeping tables_ok)) (claimReadyOrderForAgent p a c)"
  "moves (per_table (keeping tables_ok)) (goOffline_release c a)"
  "moves (per_table (keeping tables_ok)) (updateOrderCommission p m c)"
  "moves (per_table (keeping tables_ok)) (updateOrderStatus p s st c)"
  "amounts_add_up n \<Longrightarrow> moves (per_table (keeping tables_ok)) (createOrder n c)"
  unfolding claimReadyOrderForAgent_def goOffline_release_def updateOrderCommission_def updateOrderStatus_def
    createOrder_def
  by (rule constraint.moves_stmt_Q;
      clarsimp simp: Let_def set_orders_def split: if_splits list.splits;
      rule keeping_table; simp add: ok_order_updates order_ok_order_row)+

lemma ok_bulkInsertItems: "list_all line_adds_up ns \<Longrightarrow> moves (per_table (keeping tables_ok)) (bulkInsertItems ns c)"
  unfolding bulkInsertItems_def
  by (intro moves_intro constraint.moves_stmt_Q)
    (clarsimp simp: Let_def split: if_splits, rule keeping_table, simp add: item_rows_ok)

subsection \<open>Sessions, ledger, balances, earnings, outbox\<close>

lemma session_update_simps [simp]:
  "s_amount (session_update st raw t s) = s_amount s"
  "s_providerSessionId (session_update st raw t s) = s_providerSessionId s"
  by (simp_all add: session_update_def Let_def split: option.splits)

lemma sessions_ok_update: "sessions_ok ss \<Longrightarrow> sessions_ok (update_where p (session_update st raw t) ss)"
  by (simp add: sessions_ok_def list_all_update_where map_update_where)

lemma sessions_ok_insert:
  "sessions_ok ss \<Longrightarrow> int4 (ns_amount n) \<Longrightarrow> ns_providerSessionId n \<notin> s_providerSessionId ` set ss \<Longrightarrow>
   sessions_ok (ss @ [session_row i t n])"
  by (auto simp: sessions_ok_def session_row_def)

lemma insert_or_skip_list_all:
  "insert_or_skip key r rows = (out, rows') \<Longrightarrow> list_all P rows \<Longrightarrow> P r \<Longrightarrow> list_all P rows'"
  by (auto simp: insert_or_skip_def split: if_splits)

lemma transactions_ok_insert:
  assumes "insert_or_skip t_idempotencyKey r xs = (out, ys)" and "transactions_ok xs" and "int4 (t_amount r)"
  shows "transactions_ok ys"
  using assms insert_or_skip_list_all [OF assms(1)] ledger.ins_unique_keys [of xs r] by (simp add: transactions_ok_def)

lemma earnings_ok_insert:
  assumes "insert_or_skip earning_key r xs = (out, ys)" and "earnings_ok xs" and "int4 (e_amount r)"
  shows "earnings_ok ys"
  using assms insert_or_skip_list_all [OF assms(1)] earning_table.ins_unique_keys [of xs r]
  by (simp add: earnings_ok_def)

lemma webhooks_insert:
  "insert_or_skip webhook_key r xs = (out, ys) \<Longrightarrow> webhook_log.unique_keys xs \<Longrightarrow> webhook_log.unique_keys ys"
  using webhook_log.ins_unique_keys [of xs r] by simp

lemma webhooks_update:
  "webhook_log.unique_keys (update_where p (\<lambda>e. e\<lparr>w_processedAt := v, w_processError := err\<rparr>) es) =
   webhook_log.unique_keys es"
  by (simp add: webhook_log.unique_keys_def map_update_where webhook_key_def)

lemma ok_session_writes:
  "moves (per_table (keeping tables_ok)) (createSession ns' c)"
  "moves (per_table (keeping tables_ok)) (updateSession i ss raw c)"
  unfolding createSession_def updateSession_def
  by (rule constraint.moves_stmt_Q;
      clarsimp simp: Let_def split: if_splits list.splits;
      rule keeping_table; auto simp: sessions_ok_update intro: sessions_ok_insert)+

lemma ok_webhook_writes:
  "moves (per_table (keeping tables_ok)) (recordWebhookOrSkip nw c)"
  "moves (per_table (keeping tables_ok)) (markWebhookProcessed i e c)"
  unfolding recordWebhookOrSkip_def markWebhookProcessed_def
  by (rule constraint.moves_stmt_Q;
      clarsimp simp: Let_def split: prod.splits;
      rule keeping_table; simp add: webhooks_update webhooks_insert)+

lemma ok_transaction_writes:
  "moves (per_table (keeping tables_ok)) (createTransaction nt c)"
  "moves (per_table (keeping tables_ok)) (createTransactionIdempotent nt c)"
  unfolding createTransaction_def createTransactionIdempotent_def
  by (rule constraint.moves_stmt_Q;
      clarsimp simp: Let_def set_transactions_def split: if_splits prod.splits option.splits;
      rule keeping_table; erule (1) transactions_ok_insert; simp add: transaction_row_def)+

lemma ok_insertEarning: "moves (per_table (keeping tables_ok)) (insertEarning g a o' m cur c)"
  unfolding insertEarning_def
  by (rule constraint.moves_stmt_Q;
      clarsimp simp: Let_def split: if_splits prod.splits;
      rule keeping_table; erule (1) earnings_ok_insert; simp add: earning_row_def)

lemma add_balance_simps [simp]:
  "b_balance (add_balance d t b) = b_balance b + d" "b_restaurantId (add_balance d t b) = b_restaurantId b"
  "b_currency (add_balance d t b) = b_currency b"
  by (simp_all add: add_balance_def)

lemma balances_ok_update:
  "balances_ok bs \<Longrightarrow> (\<And>b. b \<in> set bs \<Longrightarrow> p b \<Longrightarrow> int4 (b_balance b + d)) \<Longrightarrow>
   balances_ok (update_where p (add_balance d t) bs)"
  by (simp add: balances_ok_def map_update_where) (auto simp: list_all_iff update_where_def)

lemma find_balance_unique:
  "balances_ok bs \<Longrightarrow> List.find (balance_at r cur) bs = Some b \<Longrightarrow> b' \<in> set bs \<Longrightarrow> balance_at r cur b' \<Longrightarrow> b' = b"
  by (auto simp: balances_ok_def balance_at_def find_Some_iff distinct_map inj_on_def in_set_conv_nth)
     (metis nth_mem)

lemma ok_upsertIncrement: "moves (per_table (keeping tables_ok)) (upsertIncrement r g cur d c)"
  unfolding upsertIncrement_def
proof (rule constraint.moves_stmt_Q, clarsimp simp: Let_def set_balances_def split: if_splits option.splits)
  fix t and sh :: shard
  assume d: "int4 d"
  let ?bs = "balances (tabs sh)"
  {
    assume "List.find (balance_at r cur) ?bs = None"
    with d show "keeping tables_ok (tabs sh) (tabs sh\<lparr>balances := ?bs @
        [\<lparr>b_restaurantId = r, b_region = g, b_currency = cur, b_balance = d, b_updatedAt = t\<rparr>]\<rparr>)"
      by (intro keeping_table) (auto simp: balances_ok_def find_None_iff balance_at_def)
  next
    fix b
    assume f: "List.find (balance_at r cur) ?bs = Some b" and i: "int4 (b_balance b + d)"
    show "keeping tables_ok (tabs sh) (tabs sh\<lparr>balances := update_where (balance_at r cur) (add_balance d t) ?bs\<rparr>)"
      using find_balance_unique [OF _ f] i by (intro keeping_table balances_ok_update) auto
  }
qed

lemma ok_decrement: "moves (per_table (keeping tables_ok)) (decrementIfSufficient r cur d c)"
  unfolding decrementIfSufficient_def
  by (rule constraint.moves_stmt_Q;
      clarsimp simp: Let_def set_balances_def split: if_splits;
      rule keeping_table; erule balances_ok_update; auto)

lemma outbox_rows_ok: "list_all (\<lambda>x. int4 (x_attempts x)) (outbox_rows q t ns)"
  by (induction q t ns rule: outbox_rows.induct) (auto simp: outbox_new_row_def int4_def)

lemma outbox_ok_insert:
  "outbox_ok xs \<Longrightarrow> distinct (map x_eventId rows) \<Longrightarrow> \<forall>r\<in>set rows. x_eventId r \<notin> x_eventId ` set xs \<Longrightarrow>
   list_all (\<lambda>x. int4 (x_attempts x)) rows \<Longrightarrow> outbox_ok (xs @ rows)"
  by (auto simp: outbox_ok_def) (metis imageI)

lemma ok_insert_outbox_rows: "moves (per_table (keeping tables_ok)) (insert_outbox_rows xs c)"
  unfolding insert_outbox_rows_def
  by (rule constraint.moves_stmt_Q;
      clarsimp simp: Let_def set_outbox_def split: if_splits;
      rule keeping_table; simp add: outbox_ok_insert outbox_rows_ok)

interpretation constraint: write_contract "per_table (keeping tables_ok)"
  by unfold_locales
    (simp_all add: constraint.R_restore ok_order_writes ok_bulkInsertItems ok_session_writes ok_webhook_writes ok_transaction_writes
      ok_insertEarning ok_upsertIncrement ok_decrement ok_insert_outbox_rows)

subsection \<open>The jobs keep the constraints\<close>

lemma outbox_ok_mark: "outbox_ok xs \<Longrightarrow> outbox_ok (mark_dispatched ids t xs)"
  by (simp add: outbox_ok_def mark_dispatched_def map_update_where list_all_update_where)

lemma outbox_ok_failed:
  assumes "outbox_ok xs" and "\<forall>x\<in>set xs. x_id x = i \<longrightarrow> int4 (x_attempts x + 1)"
  shows "outbox_ok (update_where (\<lambda>x. x_id x = i)
     (\<lambda>x. x\<lparr>x_attempts := x_attempts x + 1, x_lastError := Some (take 2000 err)\<rparr>) xs)"
  using assms by (simp add: outbox_ok_def map_update_where) (auto simp: list_all_iff update_where_def)

lemma ok_outbox_marks:
  "moves (per_table (keeping tables_ok)) (markDispatchedBatch c ids)"
  "moves (per_table (keeping tables_ok)) (markFailed c x e)"
  unfolding markDispatchedBatch_def markFailed_def
  by (intro moves_intro constraint.moves_stmt_Q;
      clarsimp simp: set_outbox_def split: if_splits;
      rule keeping_table; simp add: outbox_ok_mark outbox_ok_failed)+

lemma ok_drain: "moves (per_table (keeping tables_ok)) (drainOutboxForRegion l g)"
proof -
  have "moves (per_table (keeping tables_ok)) (publish_loop r c rows ids)" for r c rows ids
    by (induction rows arbitrary: ids) (auto simp only: publish_loop.simps intro!: moves_intro ok_outbox_marks)
  then show ?thesis unfolding drainOutboxForRegion_def drain_body_def by (intro moves_intro ok_outbox_marks)
qed

definition constraints_hold :: "world \<Rightarrow> bool" where
  "constraints_hold w \<longleftrightarrow> (\<forall>c. tables_ok (tables_of w c))"

lemma constraints_holdD: "constraints_hold w \<Longrightarrow> tables_ok (tables_of w c)"
  by (cases c) (simp add: constraints_hold_def)

lemma constraints_holdI:
  "moves (per_table (keeping tables_ok)) m \<Longrightarrow> m w = (r, w') \<Longrightarrow> constraints_hold w \<Longrightarrow> constraints_hold w'"
  by (drule (1) movesD) (auto simp: constraints_hold_def per_table_def keeping_def)

text \<open>
  A table that can be archived and has a constraint of its own: the archive takes copies of rows of the hot table, and
  an \<open>INSERT\<close> that a unique index refuses does not happen.
\<close>

locale constrained_table = archivable spec for spec :: "'r table_spec" +
  fixes T :: "'r list \<Rightarrow> bool"
  assumes T_filter: "T rs \<Longrightarrow> T (filter p rs)"
    and T_insert: "T rs \<Longrightarrow> T acc \<Longrightarrow> r \<in> set rs \<Longrightarrow> sp_copy spec r = Some c \<Longrightarrow> \<forall>a\<in>set acc. \<not> sp_clash spec c a \<Longrightarrow>
      T (acc @ [c])"
    and ok_get: "tables_ok tb \<Longrightarrow> T (sp_get spec tb)"
    and ok_put: "tables_ok tb \<Longrightarrow> T rs \<Longrightarrow> tables_ok (sp_put spec rs tb)"
begin

lemma T_insert_ignoring:
  "insert_ignoring spec rows acc = Inr acc' \<Longrightarrow> T rs \<Longrightarrow> T acc \<Longrightarrow> set rows \<subseteq> set rs \<Longrightarrow> T acc'"
proof (induction rows arbitrary: acc)
  case (Cons r rows)
  then show ?case by (auto split: option.splits if_splits intro: T_insert)
qed simp

lemma ok_update:
  "constraints_hold w \<Longrightarrow> tables_of w' = (tables_of w)(c := sp_put spec rs (tables_of w c)) \<Longrightarrow> T rs \<Longrightarrow>
   constraints_hold w'"
  by (simp add: constraints_hold_def ok_put del: split_paired_All)

lemma ok_move_batch:
  assumes run: "move_batch spec rows (Hot, g) (Archive, g) w = (r, w')" and ok: "constraints_hold w"
    and sub: "set rows \<subseteq> set (hot_rows spec g w)"
  shows "constraints_hold w'"
  using run unfolding move_batch_def
proof (cases rule: seqE_cases)
  case (thrown e)
  then have "tables_of w' = tables_of w" by (auto elim: archive_half)
  with ok show ?thesis by (simp add: constraints_hold_def)
next
  case (went x v)
  have T: "T (sp_get spec (tables_of u c))" if "constraints_hold u" for u c
    using that by (intro ok_get constraints_holdD)
  from went(1) have v: "constraints_hold v"
  proof (cases rule: archive_half)
    case (2 acc)
    from T_insert_ignoring [OF 2(2) T [OF ok] T [OF ok]] sub have "T acc" by (simp add: hot_rows_def)
    with ok 2(3) show ?thesis by (rule ok_update)
  qed simp
  from went(2) show ?thesis
  proof (cases rule: delete_half)
    case (1 e)
    with v show ?thesis by (simp add: constraints_hold_def)
  next
    case 2
    from v 2(2) show ?thesis by (rule ok_update) (intro T_filter T v)
  qed
qed

lemma ok_batch_loop:
  "batch_loop fuel el spec n (Hot, g) (Archive, g) d m b w = (r, w') \<Longrightarrow> constraints_hold w \<Longrightarrow> constraints_hold w'"
proof (induction fuel arbitrary: m b w)
  case (Suc fuel)
  have ticked: "constraints_hold (tick w)" using Suc.prems(2) by (simp add: constraints_hold_def)
  from Suc.prems(1) show ?case
  proof (cases rule: batch_loop_Suc_cases)
    case (thrown rows e)
    then show ?thesis using ok_move_batch [OF thrown(1) ticked] selected_rows(1) [OF thrown(3)] by (simp add: tick_def)
  next
    case (moved rows u v)
    then have "constraints_hold v" using ok_move_batch [OF moved(1) ticked] selected_rows(1) [OF moved(3)] by (simp add: tick_def)
    with moved(4) Suc.IH show ?thesis by (auto split: if_splits)
  qed (use Suc.prems(2) ticked in simp_all)
qed (simp add: returnE_def)

lemma ok_moveTableBatches: "keeps constraints_hold (moveTableBatches el spec (Hot, g) (Archive, g) d)"
  by (rule keepsI) (auto simp: moveTableBatches_def bindE_def simp del: batch_loop.simps elim: ok_batch_loop)

end

lemma unique_keys_filter: "distinct (filter P (map f rs)) \<Longrightarrow> distinct (filter P (map f (filter p rs)))"
  by (induction rs) (auto split: if_splits)

lemmas constraint_defs = tables_ok_def sessions_ok_def transactions_ok_def earnings_ok_def spec_defs

interpretation earnings_kept: constrained_table agent_earnings_spec earnings_ok
  by unfold_locales
    (auto simp: constraint_defs earning_table.unique_keys_def list_all_iff earning_key_def distinct_map_filter)

interpretation webhooks_kept: constrained_table webhook_events_spec webhook_log.unique_keys
  by unfold_locales
    (auto simp: constraint_defs webhook_log.unique_keys_def webhook_key_def distinct_map_filter split: if_splits)

interpretation sessions_kept: constrained_table payment_sessions_spec sessions_ok
  by unfold_locales
    (auto simp: constraint_defs list_all_iff distinct_map_filter split: if_splits)

interpretation transactions_kept: constrained_table transactions_spec transactions_ok
  by unfold_locales
    (auto simp: constraint_defs ledger.unique_keys_def list_all_iff unique_keys_filter)

interpretation items_kept: constrained_table order_items_spec "list_all item_ok"
  by unfold_locales (auto simp: constraint_defs list_all_iff)

interpretation orders_kept: constrained_table orders_spec "list_all order_ok"
  by unfold_locales (auto simp: constraint_defs list_all_iff)

lemmas ok_walks = earnings_kept.ok_moveTableBatches webhooks_kept.ok_moveTableBatches sessions_kept.ok_moveTableBatches
  transactions_kept.ok_moveTableBatches items_kept.ok_moveTableBatches orders_kept.ok_moveTableBatches

interpretation holding: quiet_relation "keeping constraints_hold"
  by unfold_locales (auto simp: keeping_def constraints_hold_def tables_of_def)

lemma ok_runArchival: "keeps constraints_hold (runArchivalForRegion el pid g)"
  by (intro holding.moves_runArchival, erule TABLE_SPECS_cases) (simp_all only: ok_walks)

lemma holding_per_table: "moves (per_table (keeping tables_ok)) m \<Longrightarrow> keeps constraints_hold m"
  by (intro keepsI) (rule constraints_holdI)

lemma ok_run_job: "keeps constraints_hold (run_job l el pid wk)"
  unfolding run_job_def
  by (cases wk) (simp_all only: run_work.simps,
    (intro moves_intro ok_runArchival holding_per_table [OF ok_drain])+)

end
