(* ===== verification/Numbering.thy ===== *)
theory Numbering
  imports Constraints
begin

section \<open>The ids of the hot tables\<close>

text \<open>
  Every table but the balances draws its ids from a sequence that a rollback does not put back. So the ids of a
  table are different and none is above its sequence. This holds for the hot clusters, which all inserts of the
  service go to; an archive gets the ids of its hot cluster.
\<close>

definition numbered :: "int \<Rightarrow> int list \<Rightarrow> bool" where
  "numbered q ids \<longleftrightarrow> distinct ids \<and> (\<forall>i\<in>set ids. i \<le> q)"

definition ids_ok :: "shard \<Rightarrow> bool" where
  "ids_ok sh \<longleftrightarrow>
     numbered (q_orders (sqs sh)) (map o_id (orders (tabs sh))) \<and>
     numbered (q_items (sqs sh)) (map i_id (order_items (tabs sh))) \<and>
     numbered (q_sessions (sqs sh)) (map s_id (payment_sessions (tabs sh))) \<and>
     numbered (q_transactions (sqs sh)) (map t_id (transactions (tabs sh))) \<and>
     numbered (q_webhooks (sqs sh)) (map w_id (webhook_events (tabs sh))) \<and>
     numbered (q_earnings (sqs sh)) (map e_id (earnings (tabs sh))) \<and>
     numbered (q_outbox (sqs sh)) (map x_id (outbox (tabs sh)))"

definition seqs_le :: "seqs \<Rightarrow> seqs \<Rightarrow> bool" where
  "seqs_le q q' \<longleftrightarrow>
     q_orders q \<le> q_orders q' \<and> q_items q \<le> q_items q' \<and> q_sessions q \<le> q_sessions q' \<and>
     q_transactions q \<le> q_transactions q' \<and> q_webhooks q \<le> q_webhooks q' \<and> q_earnings q \<le> q_earnings q' \<and>
     q_outbox q \<le> q_outbox q'"

definition numbers_on :: "shard \<Rightarrow> shard \<Rightarrow> bool" where
  "numbers_on sh sh' \<longleftrightarrow> seqs_le (sqs sh) (sqs sh') \<and> (ids_ok sh \<longrightarrow> ids_ok sh')"

definition numbering :: "world \<Rightarrow> world \<Rightarrow> bool" where
  "numbering w w' \<longleftrightarrow> (\<forall>g. numbers_on (shards w (Hot, g)) (shards w' (Hot, g)))"

lemma numbered_mono: "numbered q ids \<Longrightarrow> q \<le> q' \<Longrightarrow> numbered q' ids"
  by (auto simp: numbered_def)

lemma seqs_le_refl [simp]: "seqs_le q q" and seqs_le_trans: "seqs_le q q' \<Longrightarrow> seqs_le q' q'' \<Longrightarrow> seqs_le q q''"
  by (auto simp: seqs_le_def)

lemma numbers_on_refl [simp]: "numbers_on sh sh"
  by (simp add: numbers_on_def)

lemma numbers_on_trans: "numbers_on sh sh' \<Longrightarrow> numbers_on sh' sh'' \<Longrightarrow> numbers_on sh sh''"
  by (auto simp: numbers_on_def intro: seqs_le_trans)

text \<open>A rollback puts the tables back and keeps the sequences.\<close>

lemma numbers_on_rollback: "numbers_on sh sh' \<Longrightarrow> numbers_on sh (sh'\<lparr>tabs := tabs sh\<rparr>)"
  by (auto simp: numbers_on_def ids_ok_def seqs_le_def intro: numbered_mono)

interpretation numbering: restoring_relation numbering c for c
proof
  show "numbering s u" if "numbering s t" "numbering t u" for s t u
    using that numbers_on_trans unfolding numbering_def by blast
  show "numbering w (restore c w w')" if "numbering w w'" for w w'
    using that by (auto simp: numbering_def restore_def numbers_on_rollback)
qed (simp_all add: numbering_def)

lemma numbering_stmt:
  assumes "\<And>t sh x sh'. f t sh = Inr (x, sh') \<Longrightarrow> numbers_on sh sh'"
  shows "moves numbering (stmt c f)"
proof (rule movesI)
  fix w r w'
  assume "stmt c f w = (r, w')"
  with assms show "numbering w w'"
    by (auto simp: stmt_def numbering_def split: option.splits sum.splits prod.splits)
qed

lemma archive_stmt: "moves numbering (stmt (Archive, g) f)"
  by (rule movesI) (auto simp: stmt_def numbering_def split: option.splits sum.splits prod.splits)

subsection \<open>The statements that write\<close>

lemma numbered_append [simp]: "numbered q ids \<Longrightarrow> numbered (q + 1) (ids @ [q + 1])"
  by (auto simp: numbered_def)

lemma numbered_filter: "numbered q (map f rs) \<Longrightarrow> numbered q (map f (filter p rs))"
  by (auto simp: numbered_def distinct_map_filter)

lemma numbered_items:
  "numbered q ids \<Longrightarrow> numbered (q + int (length ns)) (ids @ map i_id (item_rows q t ns))"
proof (induction ns arbitrary: q ids)
  case (Cons n ns)
  from Cons.IH [OF numbered_append [OF Cons.prems]] show ?case by (simp add: item_row_def add.assoc)
qed simp

lemma numbered_outbox:
  "numbered q ids \<Longrightarrow> numbered (q + int (length ns)) (ids @ map x_id (outbox_rows q t ns))"
proof (induction ns arbitrary: q ids)
  case (Cons p ns)
  obtain u n where "p = (u, n)" by (cases p)
  with Cons.IH [OF numbered_append [OF Cons.prems]] show ?case by (simp add: outbox_new_row_def add.assoc)
qed simp

lemma update_keeps_ids [simp]:
  "map o_id (update_where p (claim_row a t) os) = map o_id os"
  "map o_id (update_where p (release_row t) os) = map o_id os"
  "map o_id (update_where p (status_row s st t) os) = map o_id os"
  "map o_id (update_where p (\<lambda>o'. o'\<lparr>o_commission := m, o_updatedAt := t\<rparr>) os) = map o_id os"
  "map s_id (update_where p' (session_update ss raw t) xs) = map s_id xs"
  "map w_id (update_where p'' (\<lambda>e. e\<lparr>w_processedAt := v, w_processError := err\<rparr>) es) = map w_id es"
  by (simp_all add: map_update_where claim_row_def release_row_def session_update_def Let_def split: option.splits)

lemma numbered_insert_or_skip:
  assumes "insert_or_skip key r rows = (out, rows')" and "numbered q (map f rows)" and "f r = q + 1"
  shows "numbered (q + 1) (map f rows')"
  using assms by (auto simp: insert_or_skip_def intro: numbered_mono split: if_splits)

lemmas numbers_simps = numbers_on_def seqs_le_def ids_ok_def set_orders_def set_transactions_def set_balances_def
  set_outbox_def Let_def

lemma numbering_order_writes:
  "moves numbering (createOrder n c)" "moves numbering (claimReadyOrderForAgent p a c)"
  "moves numbering (goOffline_release c a)" "moves numbering (updateOrderCommission p m c)"
  "moves numbering (updateOrderStatus p s st c)"
  unfolding createOrder_def claimReadyOrderForAgent_def goOffline_release_def updateOrderCommission_def
    updateOrderStatus_def
  by (rule numbering_stmt; clarsimp simp: numbers_simps order_row_def split: if_splits list.splits)+

lemma numbering_bulkInsertItems: "moves numbering (bulkInsertItems ns c)"
  unfolding bulkInsertItems_def
  by (intro moves_intro numbering_stmt; clarsimp simp: numbers_simps numbered_items split: if_splits)

lemma numbering_session_writes: "moves numbering (createSession n c)" "moves numbering (updateSession i ss raw c)"
  unfolding createSession_def updateSession_def
  by (rule numbering_stmt; clarsimp simp: numbers_simps session_row_def split: if_splits list.splits)+

lemma numbering_webhook_writes:
  "moves numbering (recordWebhookOrSkip nw c)" "moves numbering (markWebhookProcessed i e c)"
  unfolding recordWebhookOrSkip_def markWebhookProcessed_def
  by (rule numbering_stmt; clarsimp simp: numbers_simps split: prod.splits;
      erule (1) numbered_insert_or_skip; simp add: webhook_row_def)+

lemma numbering_transaction_writes:
  "moves numbering (createTransaction nt c)" "moves numbering (createTransactionIdempotent nt c)"
  unfolding createTransaction_def createTransactionIdempotent_def
  by (rule numbering_stmt; clarsimp simp: numbers_simps split: if_splits prod.splits option.splits;
      erule (1) numbered_insert_or_skip; simp add: transaction_row_def)+

lemma numbering_insertEarning: "moves numbering (insertEarning g a o' m cur c)"
  unfolding insertEarning_def
  by (rule numbering_stmt; clarsimp simp: numbers_simps split: if_splits prod.splits;
      erule (1) numbered_insert_or_skip; simp add: earning_row_def)

lemma numbering_balance_writes:
  "moves numbering (upsertIncrement r g cur d c)" "moves numbering (decrementIfSufficient r cur d c)"
  unfolding upsertIncrement_def decrementIfSufficient_def
  by (rule numbering_stmt; clarsimp simp: numbers_simps split: if_splits option.splits)+

lemma numbering_insert_outbox_rows: "moves numbering (insert_outbox_rows xs c)"
  unfolding insert_outbox_rows_def
  by (rule numbering_stmt; clarsimp simp: numbers_simps numbered_outbox split: if_splits)

interpretation numbering: write_contract numbering
  by unfold_locales
    (simp_all add: numbering.R_restore numbering_order_writes numbering_bulkInsertItems numbering_session_writes
      numbering_webhook_writes numbering_transaction_writes numbering_insertEarning numbering_balance_writes
      numbering_insert_outbox_rows)

subsection \<open>The jobs\<close>

lemma numbering_outbox_marks:
  "moves numbering (markDispatchedBatch c ids)" "moves numbering (markFailed c x e)"
  unfolding markDispatchedBatch_def markFailed_def
  by (intro moves_intro numbering_stmt; clarsimp simp: numbers_simps mark_dispatched_def map_update_where split: if_splits)+

lemma numbering_drain: "moves numbering (drainOutboxForRegion l g)"
proof -
  have "moves numbering (publish_loop r c rows ids)" for r c rows ids
    by (induction rows arbitrary: ids) (auto simp only: publish_loop.simps intro!: moves_intro numbering_outbox_marks)
  then show ?thesis unfolding drainOutboxForRegion_def drain_body_def by (intro moves_intro numbering_outbox_marks)
qed

lemma numbering_moveTableBatches:
  assumes "\<And>sh p. ids_ok sh \<Longrightarrow> ids_ok (sh\<lparr>tabs := sp_put spec (filter p (sp_get spec (tabs sh))) (tabs sh)\<rparr>)"
  shows "moves numbering (moveTableBatches el spec h (Archive, g) d)"
proof -
  have "moves numbering (move_batch spec rows h (Archive, g))" for rows
    unfolding move_batch_def archive_rows_def delete_rows_def
    by (intro moves_intro archive_stmt numbering_stmt) (auto simp: numbers_on_def assms)
  then show ?thesis by (rule numbering.moves_moveTableBatches)
qed

lemma numbering_walks:
  "moves numbering (moveTableBatches el agent_earnings_spec h (Archive, g) d)"
  "moves numbering (moveTableBatches el webhook_events_spec h (Archive, g) d)"
  "moves numbering (moveTableBatches el payment_sessions_spec h (Archive, g) d)"
  "moves numbering (moveTableBatches el transactions_spec h (Archive, g) d)"
  "moves numbering (moveTableBatches el order_items_spec h (Archive, g) d)"
  "moves numbering (moveTableBatches el orders_spec h (Archive, g) d)"
  by (rule numbering_moveTableBatches; simp add: ids_ok_def spec_defs numbered_filter)+

lemma numbering_run_job: "moves numbering (run_job l el pid wk)"
proof -
  have "moves numbering (runArchivalForRegion el pid g)" for g
    by (intro numbering.moves_runArchival, erule TABLE_SPECS_cases) (simp_all only: numbering_walks)
  then show ?thesis
    unfolding run_job_def by (cases wk) (simp_all only: run_work.simps, (intro moves_intro numbering_drain)+)
qed

end
