(* ===== verification/Runs.thy ===== *)
theory Runs
  imports Numbering "HOL-Library.Sublist"
begin

section \<open>Runs of the service\<close>

text \<open>
  Any sequence of requests, core events and job runs from empty databases, in any order, with anything happening to
  Redis, to the outside services and to the clock in between. Each of them runs to its end before the next one
  starts; what interleaved statements can do is the subject of the race lemmas of the components. Three things hold
  in every state: the constraints of the tables, the uniqueness of the ids, and that an outbox row is marked as
  dispatched only if its event was published. A request moreover only appends: history is not rewritten.
\<close>

subsection \<open>Requests only append\<close>

text \<open>An order without what its life cycle changes; a session and a logged webhook likewise.\<close>

definition as_placed :: "order_entity \<Rightarrow> order_entity" where
  "as_placed o' = o'\<lparr>o_status := PLACED, o_commission := 0, o_deliveryAgentId := None, o_updatedAt := 0,
     o_acceptedAt := None, o_rejectedAt := None, o_readyAt := None, o_assignedAt := None, o_pickedAt := None,
     o_deliveredAt := None, o_cancelledAt := None\<rparr>"

definition as_opened :: "payment_session_entity \<Rightarrow> payment_session_entity" where
  "as_opened s = s\<lparr>s_status := INITIALIZED, s_rawLastPayload := None, s_updatedAt := 0\<rparr>"

definition as_received :: "webhook_event_entity \<Rightarrow> webhook_event_entity" where
  "as_received e = e\<lparr>w_processedAt := None, w_processError := None\<rparr>"

definition balance_owner :: "restaurant_balance_entity \<Rightarrow> int \<times> string" where
  "balance_owner b = (b_restaurantId b, b_currency b)"

definition appends :: "tables \<Rightarrow> tables \<Rightarrow> bool" where
  "appends tb tb' \<longleftrightarrow>
     prefix (map as_placed (orders tb)) (map as_placed (orders tb')) \<and>
     prefix (order_items tb) (order_items tb') \<and>
     prefix (map as_opened (payment_sessions tb)) (map as_opened (payment_sessions tb')) \<and>
     prefix (transactions tb) (transactions tb') \<and>
     prefix (map as_received (webhook_events tb)) (map as_received (webhook_events tb')) \<and>
     prefix (map balance_owner (balances tb)) (map balance_owner (balances tb')) \<and>
     prefix (earnings tb) (earnings tb') \<and>
     (\<exists>new. outbox tb' = outbox tb @ new \<and> list_all pending_row new)"

interpretation appending: table_relation appends
proof
  show "appends tb tb''" if "appends tb tb'" "appends tb' tb''" for tb tb' tb''
    using that unfolding appends_def by (auto intro: prefix_order.trans)
qed (simp add: appends_def)

lemma as_placed_updates [simp]:
  "map as_placed (update_where p (claim_row a t) os) = map as_placed os"
  "map as_placed (update_where p (release_row t) os) = map as_placed os"
  "map as_placed (update_where p (\<lambda>o'. o'\<lparr>o_commission := m, o_updatedAt := t\<rparr>) os) = map as_placed os"
  by (simp_all add: map_update_where as_placed_def claim_row_def release_row_def)

lemma as_placed_status [simp]: "map as_placed (update_where p (status_row s st t) os) = map as_placed os"
proof (rule map_update_where)
  show "as_placed (status_row s st t r) = as_placed r" for r
    by (cases st; cases "the st") (simp_all add: as_placed_def status_row_def)
qed

lemma as_other_updates [simp]:
  "map as_opened (update_where p (session_update ss raw t) xs) = map as_opened xs"
  "map as_received (update_where p' (\<lambda>e. e\<lparr>w_processedAt := v, w_processError := err\<rparr>) es) = map as_received es"
  "map balance_owner (update_where q (add_balance d t) bs) = map balance_owner bs"
  by (simp_all add: map_update_where as_opened_def as_received_def balance_owner_def session_update_def Let_def
      split: option.splits)

lemma insert_or_skip_prefix: "insert_or_skip key r rows = (out, rows') \<Longrightarrow> prefix rows rows'"
  by (auto simp: insert_or_skip_def split: if_splits)

lemma map_prefix: "prefix xs ys \<Longrightarrow> prefix (map f xs) (map f ys)"
  by (rule map_mono_prefix)

lemma outbox_rows_pending: "list_all pending_row (outbox_rows q t ns)"
  by (induction q t ns rule: outbox_rows.induct) (auto simp: outbox_new_row_def pending_row_def)

lemmas appends_simps = appends_def set_orders_def set_transactions_def set_balances_def set_outbox_def Let_def

lemma appending_order_writes:
  "moves (per_table appends) (createOrder n c)" "moves (per_table appends) (claimReadyOrderForAgent p a c)"
  "moves (per_table appends) (goOffline_release c a)" "moves (per_table appends) (updateOrderCommission p m c)"
  "moves (per_table appends) (updateOrderStatus p s st c)"
  unfolding createOrder_def claimReadyOrderForAgent_def goOffline_release_def updateOrderCommission_def
    updateOrderStatus_def
  by (rule appending.moves_stmt_Q; clarsimp simp: appends_simps split: if_splits list.splits)+

lemma appending_other_writes:
  "moves (per_table appends) (bulkInsertItems is c)"
  "moves (per_table appends) (createSession ns c)" "moves (per_table appends) (updateSession i ss raw c)"
  "moves (per_table appends) (markWebhookProcessed i e c)"
  "moves (per_table appends) (upsertIncrement r g cur d c)" "moves (per_table appends) (decrementIfSufficient r cur d c)"
  "moves (per_table appends) (insert_outbox_rows xs c)"
  unfolding bulkInsertItems_def createSession_def updateSession_def markWebhookProcessed_def upsertIncrement_def
    decrementIfSufficient_def insert_outbox_rows_def
  by (intro moves_intro appending.moves_stmt_Q;
      clarsimp simp: appends_simps outbox_rows_pending split: if_splits list.splits option.splits)+

lemma appending_idempotent_writes:
  "moves (per_table appends) (recordWebhookOrSkip nw c)"
  "moves (per_table appends) (createTransaction nt c)" "moves (per_table appends) (createTransactionIdempotent nt c)"
  "moves (per_table appends) (insertEarning g a o' m cur c)"
  unfolding recordWebhookOrSkip_def createTransaction_def createTransactionIdempotent_def insertEarning_def
  by (rule appending.moves_stmt_Q;
      clarsimp simp: appends_simps split: if_splits prod.splits option.splits;
      auto dest: insert_or_skip_prefix intro: map_prefix)+

interpretation appending: write_contract "per_table appends"
  by unfold_locales
    (simp_all add: appending.R_restore appending_order_writes appending_other_writes appending_idempotent_writes)

text \<open>C33: No request rewrites history, whatever it is and however it ends: in every table of every shard the rows that
  were there are there afterwards, in their order, and only the life cycle of an order (status, courier, time
  stamps, commission), the state of a payment session, the outcome of a logged webhook and the amount of a
  balance can differ. Ledger entries, earnings and items are never altered, and new outbox rows are not yet dispatched.\<close>

theorem requests_append:
  "appends (tables_of w c) (tables_of (snd (serve L ep rq w)) c)"
  using movesD [OF appending.m_serve, of L ep rq w "fst (serve L ep rq w)" "snd (serve L ep rq w)"]
  by (cases c) (auto simp: per_table_def)

subsection \<open>Steps and reachable states\<close>

text \<open>
  \<open>elsewhere\<close>: time passes, Redis expires or loses keys, the outside services change their answers; the databases,
  the configuration and what was sent stay.
\<close>

inductive service_step :: "libraries \<Rightarrow> world \<Rightarrow> world \<Rightarrow> bool" for L where
  request: "serve L ep rq w = (r, w') \<Longrightarrow> service_step L w w'"
| event: "consume body w = (s, w') \<Longrightarrow> service_step L w w'"
| job: "run_job locked elapsed pid wk w = (u, w') \<Longrightarrow> service_step L w w'"
| elsewhere: "shards w' = shards w \<Longrightarrow> env w' = env w \<Longrightarrow> trace w' = trace w \<Longrightarrow> service_step L w w'"

inductive service_reach :: "libraries \<Rightarrow> world \<Rightarrow> bool" for L where
  start: "\<forall>c. shards w c = empty_shard \<Longrightarrow> service_reach L w"
| step: "service_reach L w \<Longrightarrow> service_step L w w' \<Longrightarrow> service_reach L w'"

definition ids_hold :: "world \<Rightarrow> bool" where
  "ids_hold w \<longleftrightarrow> (\<forall>g. ids_ok (shards w (Hot, g)))"

lemma ids_holdI: "moves numbering m \<Longrightarrow> m w = (r, w') \<Longrightarrow> ids_hold w \<Longrightarrow> ids_hold w'"
  by (drule (1) movesD) (simp add: ids_hold_def numbering_def numbers_on_def)

text \<open>What a step does to the tables is a matter of the frames of its program.\<close>

lemma service_step_keeps:
  assumes "service_step L w w'" and "constraints_hold w \<and> ids_hold w"
  shows "constraints_hold w' \<and> ids_hold w'"
  using assms
proof (induction rule: service_step.induct)
  case (request ep rq w r w')
  then show ?case using constraints_holdI [OF constraint.m_serve request.hyps] ids_holdI [OF numbering.m_serve request.hyps]
    by simp
next
  case (event body w s w')
  from shards_keptD [OF shards_kept.moves_consume event.hyps] event.prems show ?case
    by (simp add: constraints_hold_def ids_hold_def tables_of_def)
next
  case (job locked elapsed pid wk w u w')
  then show ?case using keepsD [OF ok_run_job _ job.hyps] ids_holdI [OF numbering_run_job job.hyps] by simp
next
  case (elsewhere w' w)
  then show ?case by (simp add: constraints_hold_def ids_hold_def tables_of_def)
qed

lemma empty_shard_ok: "tables_ok (tabs empty_shard)" "ids_ok empty_shard"
  by (simp_all add: empty_shard_def constraint_defs ids_ok_def numbered_def ledger.unique_keys_def
      webhook_log.unique_keys_def earning_table.unique_keys_def balances_ok_def outbox_ok_def)

lemma service_reach_keeps: "service_reach L w \<Longrightarrow> constraints_hold w \<and> ids_hold w"
proof (induction rule: service_reach.induct)
  case (start w)
  then show ?case by (simp add: constraints_hold_def ids_hold_def tables_of_def empty_shard_ok)
next
  case (step w w')
  from service_step_keeps [OF step.hyps(2) step.IH] show ?case .
qed

text \<open>C32: In every state the service can reach from empty databases, through any sequence of requests, core events and
  job runs, whatever of them failed: every table of every shard satisfies its constraints - an order's amounts add up
  to its total, an item's line is price times quantity, every amount and balance fits its INT column, session ids,
  idempotency keys, webhook keys, the earning of an order, balances and event ids are unique - and the ids of each
  hot table are different and not above its sequence.\<close>

theorem constraints_always_hold:
  assumes "service_reach L w"
  shows "tables_ok (tables_of w c) \<and> ids_ok (shards w (Hot, g))"
  using service_reach_keeps [OF assms] by (simp_all add: constraints_holdD ids_hold_def)

subsection \<open>Only published events are marked\<close>

definition was_published :: "world \<Rightarrow> string \<Rightarrow> outbox_row \<Rightarrow> bool" where
  "was_published w g x \<longleftrightarrow> (\<exists>exchange t. Publish exchange (x_eventType x) (envelope g t x) \<in> set (trace w))"

definition marks_sound :: "world \<Rightarrow> bool" where
  "marks_sound w \<longleftrightarrow>
     (\<forall>g. \<forall>x\<in>set (outbox (tables_of w (Hot, g))). x_dispatchedAt x \<noteq> None \<longrightarrow> was_published w g x)"

lemma marks_sound_mono:
  assumes "marks_sound w" and "set (trace w) \<subseteq> set (trace w')"
    and "\<And>g x. x \<in> set (outbox (tables_of w' (Hot, g))) \<Longrightarrow> x_dispatchedAt x \<noteq> None \<Longrightarrow>
       x \<in> set (outbox (tables_of w (Hot, g)))"
  shows "marks_sound w'"
  using assms unfolding marks_sound_def was_published_def by blast

lemma serve_trace:
  assumes "serve L ep rq w = (r, w')"
  shows "set (trace w) \<subseteq> set (trace w')"
  using trace_grows.serve_regionless [OF _ assms] trace_hot.serve_regional [OF _ assms]
  by (cases "resolveRegion (env w) rq") (auto simp: trace_grows_def)

lemma trace_run_job: "moves trace_grows (run_job l el pid wk)"
proof -
  have "moves trace_grows (move_batch spec rows h a)" for spec :: "'r table_spec" and rows h a
    unfolding move_batch_def archive_rows_def delete_rows_def
    by (intro trace_grows.moves_seqE trace_grows.moves_transaction trace_grows.moves_stmt trace_grows.moves_throwE)
  then have walk: "moves trace_grows (moveTableBatches el spec h a d)" for spec :: "'r table_spec" and h a d
    by (rule trace_grows.moves_moveTableBatches)
  have "moves trace_grows (runArchivalForRegion el pid g)" for g
    by (intro trace_grows.moves_runArchival, erule TABLE_SPECS_cases) (simp_all only: walk)
  then show ?thesis
    unfolding run_job_def by (cases wk) (simp_all only: run_work.simps, (intro moves_intro trace_hot.moves_drain)+)
qed

lemma outbox_other_jobs:
  assumes "\<And>g. wk \<noteq> OutboxDrain g"
  shows "moves (per_table (same outbox)) (run_job l el pid wk)"
proof -
  have "moves (per_table (same outbox)) (runArchivalForRegion el pid g)" for g
    by (intro same.moves_runArchival, erule TABLE_SPECS_cases; simp only:;
        intro same.moves_moveTableBatches same_move_batch; simp add: spec_defs)
  then show ?thesis
  proof (cases wk)
    case (OutboxDrain g)
    with assms show ?thesis by blast
  qed (simp_all only: run_job_def run_work.simps, (intro moves_intro)+)
qed

lemma envelope_cong:
  "x_eventId y = x_eventId x \<Longrightarrow> x_eventType y = x_eventType x \<Longrightarrow> x_aggregateType y = x_aggregateType x \<Longrightarrow>
   x_aggregateId y = x_aggregateId x \<Longrightarrow> x_payload y = x_payload x \<Longrightarrow> envelope g t y = envelope g t x"
  by (simp add: envelope_def)

text \<open>A row after a pass: the row it comes from has the same message, and it was dispatched before or is one of the published ones.\<close>

lemma drained_row:
  assumes "y \<in> set (drained rows k err t xs)" and "x_dispatchedAt y \<noteq> None"
  obtains x where "x \<in> set xs" and "x_id y = x_id x" and "x_eventType y = x_eventType x"
    and "\<forall>g s. envelope g s y = envelope g s x"
    and "x_dispatchedAt x \<noteq> None \<or> x_id x \<in> x_id ` set (take k rows)"
  using assms
  by (auto simp: drained_def mark_dispatched_def failed_at_def update_where_def envelope_def split: if_splits)

text \<open>A pass that publishes a prefix of the claimed rows and marks those keeps the marks sound.\<close>

lemma drained_marks:
  assumes sound: "marks_sound w" and inj: "inj_on x_id (set (outbox (tables_of w (Hot, g))))"
    and rows: "set rows \<subseteq> set (outbox (tables_of w (Hot, g)))"
    and tr: "trace w' = trace w @ published w g (take k rows)"
    and tb: "tables_of w' = (tables_of w)((Hot, g) :=
        (tables_of w (Hot, g))\<lparr>outbox := drained rows k err (clock w) (outbox (tables_of w (Hot, g)))\<rparr>)"
  shows "marks_sound w'"
proof -
  have grows: "was_published w h x \<Longrightarrow> was_published w' h x" for h x by (auto simp: was_published_def tr)
  have "was_published w' h y" if y: "y \<in> set (outbox (tables_of w' (Hot, h)))" "x_dispatchedAt y \<noteq> None" for h y
  proof (cases "h = g")
    case False
    with y tb sound grows show ?thesis by (simp add: marks_sound_def)
  next
    case True
    with y tb obtain x where x: "x \<in> set (outbox (tables_of w (Hot, g)))" "x_eventType y = x_eventType x"
      and env: "\<forall>g s. envelope g s y = envelope g s x"
      and or: "x_dispatchedAt x \<noteq> None \<or> x_id x \<in> x_id ` set (take k rows)"
      by (auto elim: drained_row)
    have "set (take k rows) \<subseteq> set (outbox (tables_of w (Hot, g)))" using rows by (auto dest: in_set_takeD)
    with or consider (before) "x_dispatchedAt x \<noteq> None" | (sent) "x \<in> set (take k rows)"
      using inj_onD [OF inj _ x(1)] by (metis imageE subsetD)
    then have "was_published w' g x"
    proof cases
      case before
      with sound x(1) grows show ?thesis by (simp add: marks_sound_def)
    next
      case sent
      then have "Publish (outboundExchange (env w)) (x_eventType x) (envelope g (clock w) x) \<in> set (trace w')"
        by (auto simp: tr published_def)
      then show ?thesis unfolding was_published_def by blast
    qed
    with True x(2) env show ?thesis by (simp add: was_published_def)
  qed
  then show ?thesis by (simp add: marks_sound_def)
qed

lemma drain_marks:
  assumes run: "drainOutboxForRegion locked g w = (r, w')" and sound: "marks_sound w" and ids: "ids_hold w"
  shows "marks_sound w'"
proof -
  let ?c = "(Hot, g)"
  have grows: "set (trace w) \<subseteq> set (trace w')"
    using movesD [OF trace_hot.moves_drain run] by (auto simp: trace_grows_def)
  from run consider (thrown) e where "db g w = (Inl e, w')"
    | (went) n where "transaction ?c (drain_body locked g n ?c) throwE w = (r, w')"
    unfolding drainOutboxForRegion_def by (auto elim!: bindE_cases)
  then show ?thesis
  proof cases
    case thrown
    then have "w' = w" using getShard_pure [of Hot g w] by (simp add: db_def)
    then show ?thesis using sound by simp
  next
    case went
    have "moves (others_kept ?c) (drain_body locked g n ?c)" by (rule others_kept.moves_drain_body)
    with went show ?thesis
    proof (cases rule: transaction_throwE_cases)
      case (1 e)
      then show ?thesis using marks_sound_mono [OF sound grows] by simp
    next
      case (2 u w2)
      let ?rows = "claim_rows locked n (outbox (tables_of w ?c))"
      from drain_body_Inr [OF 2(2)] 2(3) obtain k err where tr: "trace w' = trace w @ published w g (take k ?rows)"
        and tb: "tables_of w' = (tables_of w)(?c :=
            (tables_of w ?c)\<lparr>outbox := drained ?rows k err (clock w) (outbox (tables_of w ?c))\<rparr>)"
        by (auto simp: published_def)
      have "inj_on x_id (set (outbox (tables_of w ?c)))"
        using ids by (auto simp: ids_hold_def ids_ok_def numbered_def distinct_map tables_of_def)
      moreover have "set ?rows \<subseteq> set (outbox (tables_of w ?c))" by (auto simp: claim_rows_def dest!: in_set_takeD)
      ultimately show ?thesis using tr tb by (rule drained_marks [OF sound])
    qed
  qed
qed

lemma marks_step:
  assumes "service_step L w w'" and "marks_sound w" and "ids_hold w"
  shows "marks_sound w'"
  using assms
proof (induction rule: service_step.induct)
  case (request ep rq w r w')
  show ?case
  proof (rule marks_sound_mono [OF request.prems(1) serve_trace [OF request.hyps]])
    fix g x
    assume x: "x \<in> set (outbox (tables_of w' (Hot, g)))" "x_dispatchedAt x \<noteq> None"
    have "appends (tables_of w (Hot, g)) (tables_of w' (Hot, g))"
      using movesD [OF appending.m_serve request.hyps] by (simp add: per_table_def)
    with x show "x \<in> set (outbox (tables_of w (Hot, g)))"
      by (auto simp: appends_def list_all_iff pending_row_def)
  qed
next
  case (event body w s w')
  have "set (trace w) \<subseteq> set (trace w')"
    using movesD [OF trace_grows.moves_consume event.hyps] by (auto simp: trace_grows_def)
  with event.prems(1) show ?case
    by (rule marks_sound_mono) (simp add: tables_keptD [OF shards_kept.moves_consume event.hyps])
next
  case (job locked elapsed pid wk w u w')
  show ?case
  proof (cases "\<exists>g. wk = OutboxDrain g")
    case True
    then obtain g where "wk = OutboxDrain g" by blast
    with job.hyps obtain r where "drainOutboxForRegion locked g w = (r, w')"
      by (auto simp: run_job_def tryCatch_def split: prod.splits sum.splits)
    from drain_marks [OF this job.prems] show ?thesis .
  next
    case False
    have "set (trace w) \<subseteq> set (trace w')"
      using movesD [OF trace_run_job job.hyps] by (auto simp: trace_grows_def)
    moreover have "outbox (tables_of w' c) = outbox (tables_of w c)" for c
      using sameD [OF outbox_other_jobs job.hyps] False by blast
    ultimately show ?thesis by (intro marks_sound_mono [OF job.prems(1)]) simp_all
  qed
next
  case (elsewhere w' w)
  then have "tables_of w' = tables_of w" by (simp add: tables_of_def fun_eq_iff)
  with elsewhere show ?case by (simp add: marks_sound_def was_published_def)
qed

lemma service_reach_marks: "service_reach L w \<Longrightarrow> marks_sound w"
proof (induction rule: service_reach.induct)
  case (start w)
  then show ?case by (simp add: marks_sound_def tables_of_def empty_shard_def)
next
  case (step w w')
  with marks_step service_reach_keeps show ?case by blast
qed

text \<open>C34: The outbox never lies: in every state the service can reach from empty databases, through any sequence of
  requests, core events and job runs, whatever of them failed, a row of a region's outbox that is marked as
  dispatched has had its message published, with its event id, type, aggregate and payload and the region.\<close>

theorem dispatched_was_published:
  assumes "service_reach L w" and "x \<in> set (outbox (tables_of w (Hot, g)))" and "x_dispatchedAt x \<noteq> None"
  shows "\<exists>exchange t. Publish exchange (x_eventType x) (envelope g t x) \<in> set (trace w)"
  using service_reach_marks [OF assms(1)] assms(2,3) by (auto simp: marks_sound_def was_published_def)

subsection \<open>A run: an order is placed, then the outbox is drained\<close>

definition order_body :: json where
  "order_body = JObj [(''branchId'', JNum ''7''), (''customerAddressId'', JNum ''4''), (''paymentMethod'', JStr ''cod''),
     (''items'', JArr [JObj [(''productId'', JNum ''21''), (''quantity'', JNum ''2'')]])]"

definition order_request :: http_request where
  "order_request = (sample_request ''a'')\<lparr>hq_body := Inr (Some order_body)\<rparr>"

definition ordered_world :: world where
  "ordered_world = snd (serve (sample_libraries []) PostOrders order_request sample_world)"

lemma order_body_decoded: "decode_create_order order_body =
    Some \<lparr>co_branchId = 7, co_customerAddressId = 4, co_paymentMethod = COD, co_items = [(21, 2)]\<rparr>"
  by code_simp

lemmas placing = ordered_world_def serve_def correlationId_def resolveRegion_def isRegion_def middleware_of_def
  router_defs handled_def lift_sum_def requireRegion_def no_region_def idempotency_def cached_body_def hit_def
  storing_def order_placeOrder_def validateBody_def body_of_def user_of_def entry_ctx_def error_response_app
  order_body_decoded placeOrder_def authenticate_def extractToken_def ALL_REGIONS_def ignoring_def order_request_def run

text \<open>The state is evaluated once.\<close>

definition placed_one :: "tables \<Rightarrow> bool" where
  "placed_one tb \<longleftrightarrow>
     (\<exists>o'. orders tb = [o'] \<and> o_total o' = 6500) \<and> (\<exists>x. outbox tb = [x] \<and> x_dispatchedAt x = None)"

lemma ordered: "placed_one (tables_of ordered_world (Hot, ''eg''))"
  by (simp add: placing placed_one_def)

lemma ordered_orders: "\<exists>o'. orders (tables_of ordered_world (Hot, ''eg'')) = [o'] \<and> o_total o' = 6500"
  and ordered_outbox: "\<exists>x. outbox (tables_of ordered_world (Hot, ''eg'')) = [x] \<and> x_dispatchedAt x = None"
  using ordered by (simp_all add: placed_one_def)

lemma ordered_step: "serve (sample_libraries []) PostOrders order_request sample_world =
    (fst (serve (sample_libraries []) PostOrders order_request sample_world), ordered_world)"
  by (simp add: ordered_world_def)

lemma ordered_reached: "service_reach (sample_libraries []) ordered_world"
proof (rule service_reach.step)
  show "service_reach (sample_libraries []) sample_world" by (rule start) (simp add: sample_world_def)
  show "service_step (sample_libraries []) sample_world ordered_world" using ordered_step by (rule request)
qed

theorem constraints_always_hold_witness:
  "\<exists>o'. orders (tables_of ordered_world (Hot, ''eg'')) = [o'] \<and> o_total o' = 6500 \<and> order_ok o' \<and>
     ids_ok (shards ordered_world (Hot, ''eg''))"
  using constraints_always_hold [OF ordered_reached, of "(Hot, ''eg'')" "''eg''"] ordered_orders
  by (auto simp: tables_ok_def)

theorem dispatched_was_published_witness:
  "\<exists>w x. service_reach (sample_libraries []) w \<and> x \<in> set (outbox (tables_of w (Hot, ''eg''))) \<and> x_dispatchedAt x \<noteq> None \<and>
     (\<exists>exchange t. Publish exchange (x_eventType x) (envelope ''eg'' t x) \<in> set (trace w))"
proof -
  have setting: "env ordered_world = sample_env" "ext ordered_world = sample_outside"
    using serve_setting [OF ordered_step] by (simp_all add: sample_world_def)
  obtain x where x: "outbox (tables_of ordered_world (Hot, ''eg'')) = [x]" "x_dispatchedAt x = None"
    using ordered_outbox by blast
  have "\<exists>w'. drainOutboxForRegion {} ''eg'' ordered_world = (Inr (), w') \<and> ext w' = ext ordered_world \<and>
     env w' = env ordered_world \<and> clock w' = clock ordered_world \<and>
     trace w' = trace ordered_world @ published ordered_world ''eg'' (take (outboundBatchSize (env ordered_world))
       (pending_rows (outbox (tables_of ordered_world (Hot, ''eg''))))) \<and>
     outbox (tables_of w' (Hot, ''eg'')) =
       mark_dispatched (map x_id (take (outboundBatchSize (env ordered_world))
         (pending_rows (outbox (tables_of ordered_world (Hot, ''eg''))))))
         (clock ordered_world) (outbox (tables_of ordered_world (Hot, ''eg'')))"
    by (rule drain_ok) (simp_all add: setting known_region_def sample_env_def sample_outside_def toLowerCase_def lower_char_def)
  then obtain w' where drained: "drainOutboxForRegion {} ''eg'' ordered_world = (Inr (), w')"
    and out: "outbox (tables_of w' (Hot, ''eg'')) = [x\<lparr>x_dispatchedAt := Some (clock ordered_world)\<rparr>]"
    by (auto simp: x setting pending_rows_def pending_row_def mark_dispatched_def update_where_def sample_env_def)
  have "run_job {} (\<lambda>_. 0) [] (OutboxDrain ''eg'') ordered_world = (Inr (), w')"
    using drained by (simp add: run_job_def tryCatch_def)
  then have r: "service_reach (sample_libraries []) w'" by (rule service_reach.step [OF ordered_reached job])
  let ?y = "x\<lparr>x_dispatchedAt := Some (clock ordered_world)\<rparr>"
  have y: "?y \<in> set (outbox (tables_of w' (Hot, ''eg'')))" "x_dispatchedAt ?y \<noteq> None" using out by simp_all
  from r y dispatched_was_published [OF r y] show ?thesis by blast
qed

end
