(* ===== verification/Broker.thy ===== *)
theory Broker
  imports Runs
begin

section \<open>The message broker\<close>

text \<open>
  \<open>src/pkg/messaging/rabbitmq/rabbitmq.client.ts\<close> and its use by \<open>consumer.ts\<close> and \<open>lib/events/jobs.ts\<close>. The
  client runs on a RabbitMQ broker, of which the model has what the AMQP documentation says of the calls the
  client makes: declaring an exchange or a queue again with the same settings changes nothing and with others
  fails, a binding needs both ends, a topic pattern is matched word by word, a queue gets a message once however
  many of its bindings match, and a rejected message goes to the dead-letter exchange of its queue with its
  routing key. \<open>amqp-connection-manager\<close> replays the setup of every open channel when it reconnects.
\<close>

subsection \<open>The broker\<close>

record queue_settings =
  qs_durable :: bool
  qs_deadLetterExchange :: "string option"

record message =
  mg_routingKey :: string
  mg_body :: "json option"

record broker =
  bk_exchanges :: "string \<rightharpoonup> string \<times> bool"
  bk_queues :: "string \<rightharpoonup> queue_settings"
  bk_bindings :: "(string \<times> string \<times> string) list"
  bk_ready :: "string \<Rightarrow> message list"

text \<open>\<open>*\<close> is one word, \<open>#\<close> any number of words.\<close>

fun words_match :: "string list \<Rightarrow> string list \<Rightarrow> bool" where
  "words_match [] ks \<longleftrightarrow> ks = []"
| "words_match (p # ps) [] \<longleftrightarrow> p = ''#'' \<and> words_match ps []"
| "words_match (p # ps) (k # ks) \<longleftrightarrow>
     (if p = ''#'' then words_match ps (k # ks) \<or> words_match (p # ps) ks
      else (p = ''*'' \<or> p = k) \<and> words_match ps ks)"

definition topic_matches :: "string \<Rightarrow> string \<Rightarrow> bool" where
  "topic_matches pattern key = words_match (splitOn (CHR ''.'') pattern) (splitOn (CHR ''.'') key)"

definition bound :: "broker \<Rightarrow> string \<Rightarrow> string \<Rightarrow> string \<Rightarrow> bool" where
  "bound b exchange key queue \<longleftrightarrow>
     list_ex (\<lambda>(q, e, p). q = queue \<and> e = exchange \<and> topic_matches p key) (bk_bindings b)"

definition route :: "string \<Rightarrow> message \<Rightarrow> broker \<Rightarrow> broker" where
  "route exchange m b =
     b\<lparr>bk_ready := (\<lambda>q. if bound b exchange (mg_routingKey m) q then bk_ready b q @ [m] else bk_ready b q)\<rparr>"

definition assertExchange :: "string \<Rightarrow> string \<Rightarrow> bool \<Rightarrow> (broker, exn, unit) prog" where
  "assertExchange name kind durable b =
     (case bk_exchanges b name of
        None \<Rightarrow> (Inr (), b\<lparr>bk_exchanges := (bk_exchanges b)(name \<mapsto> (kind, durable))\<rparr>)
      | Some s \<Rightarrow> if s = (kind, durable) then (Inr (), b) else (Inl (JsError ''PRECONDITION_FAILED''), b))"

definition assertQueue :: "string \<Rightarrow> queue_settings \<Rightarrow> (broker, exn, unit) prog" where
  "assertQueue name settings b =
     (case bk_queues b name of
        None \<Rightarrow> (Inr (), b\<lparr>bk_queues := (bk_queues b)(name \<mapsto> settings), bk_ready := (bk_ready b)(name := [])\<rparr>)
      | Some s \<Rightarrow> if s = settings then (Inr (), b) else (Inl (JsError ''PRECONDITION_FAILED''), b))"

definition bindQueue :: "string \<Rightarrow> string \<Rightarrow> string \<Rightarrow> (broker, exn, unit) prog" where
  "bindQueue queue exchange key b =
     (if bk_queues b queue = None \<or> bk_exchanges b exchange = None then (Inl (JsError ''NOT_FOUND''), b)
      else if (queue, exchange, key) \<in> set (bk_bindings b) then (Inr (), b)
      else (Inr (), b\<lparr>bk_bindings := bk_bindings b @ [(queue, exchange, key)]\<rparr>))"

subsection \<open>rabbitmq.client.ts\<close>

record consumer_options =
  cs_queue :: string
  cs_exchange :: string
  cs_bindingKeys :: "string list"
  cs_deadLetterExchange :: "string option"
  cs_deadLetterQueue :: "string option"
  cs_prefetch :: int

definition given :: "string option \<Rightarrow> bool" where
  "given s \<longleftrightarrow> s \<noteq> None \<and> s \<noteq> Some []"

definition queue_of_opts :: "consumer_options \<Rightarrow> queue_settings" where
  "queue_of_opts opts =
     \<lparr>qs_durable = True,
      qs_deadLetterExchange = (if given (cs_deadLetterExchange opts) then cs_deadLetterExchange opts else None)\<rparr>"

definition assertTopology :: "consumer_options \<Rightarrow> (broker, exn, unit) prog" where
  "assertTopology opts =
     seqE (assertExchange (cs_exchange opts) ''topic'' True)
    (seqE (whenE (given (cs_deadLetterExchange opts) \<and> given (cs_deadLetterQueue opts))
             (let dlx = the (cs_deadLetterExchange opts); dlq = the (cs_deadLetterQueue opts)
              in seqE (assertExchange dlx ''topic'' True)
                (seqE (assertQueue dlq \<lparr>qs_durable = True, qs_deadLetterExchange = None\<rparr>)
                      (bindQueue dlq dlx ''#''))))
    (seqE (assertQueue (cs_queue opts) (queue_of_opts opts))
          (forE (cs_bindingKeys opts) (bindQueue (cs_queue opts) (cs_exchange opts)))))"

text \<open>
  The client: whether it has a connection and a publisher channel, and the consumers registered on it. All of them
  work on one broker.
\<close>

record bus =
  bus_broker :: broker
  bus_connection :: "int option"   \<comment> \<open>the seconds between attempts to reconnect\<close>
  bus_publishChannel :: bool
  bus_consumers :: "consumer_options list"

definition on_broker :: "(broker, exn, 'a) prog \<Rightarrow> (bus, exn, 'a) prog" where
  "on_broker m s = (case m (bus_broker s) of (r, b) \<Rightarrow> (r, s\<lparr>bus_broker := b\<rparr>))"

text \<open>\<open>Math.round\<close> of a quotient by 1000\<close>

definition reconnect_sec :: "int \<Rightarrow> int" where
  "reconnect_sec ms = max 1 ((ms + 500) div 1000)"

definition connect :: "int \<Rightarrow> (bus, exn, unit) prog" where
  "connect reconnectInitialMs s =
     (if bus_connection s \<noteq> None then (Inr (), s)
      else (Inr (), s\<lparr>bus_connection := Some (reconnect_sec reconnectInitialMs), bus_publishChannel := True\<rparr>))"

definition close_bus :: "(bus, exn, unit) prog" where
  "close_bus = modifyE (\<lambda>s. s\<lparr>bus_publishChannel := False, bus_connection := None, bus_consumers := []\<rparr>)"

definition declareTopology :: "int \<Rightarrow> consumer_options \<Rightarrow> (bus, exn, unit) prog" where
  "declareTopology ms opts = seqE (connect ms) (on_broker (assertTopology opts))"

definition consume_queue :: "int \<Rightarrow> consumer_options \<Rightarrow> (bus, exn, unit) prog" where
  "consume_queue ms opts =
     seqE (connect ms)
    (seqE (on_broker (assertTopology opts))
          (modifyE (\<lambda>s. s\<lparr>bus_consumers := bus_consumers s @ [opts]\<rparr>)))"

text \<open>A publish to an exchange that does not exist closes the channel.\<close>

definition publish_message :: "int \<Rightarrow> string \<Rightarrow> string \<Rightarrow> json \<Rightarrow> (bus, exn, unit) prog" where
  "publish_message ms exchange routingKey body =
     seqE (connect ms) (on_broker (\<lambda>b.
       if bk_exchanges b exchange = None then (Inl (JsError ''NOT_FOUND''), b)
       else (Inr (), route exchange \<lparr>mg_routingKey = routingKey, mg_body = Some body\<rparr> b)))"

text \<open>A reconnection runs the setup of every consumer channel again.\<close>

definition reconnect :: "(bus, exn, unit) prog" where
  "reconnect s = on_broker (forE (bus_consumers s) assertTopology) s"

subsection \<open>Deliveries\<close>

definition dead_letter :: "string \<Rightarrow> message \<Rightarrow> broker \<Rightarrow> broker" where
  "dead_letter queue m b =
     (case bk_queues b queue of
        None \<Rightarrow> b
      | Some s \<Rightarrow> (case qs_deadLetterExchange s of None \<Rightarrow> b | Some x \<Rightarrow> route x m b))"

text \<open>
  \<open>handleMessage\<close> of the client around the handler of the service (\<open>consume\<close> of \<open>CoreEvents\<close> is both): the first
  message of the queue is handled, and acknowledged or rejected without requeue.
\<close>

definition deliver :: "string \<Rightarrow> world \<times> broker \<Rightarrow> world \<times> broker" where
  "deliver queue s =
     (case s of (w, b) \<Rightarrow>
        (case bk_ready b queue of
           [] \<Rightarrow> (w, b)
         | m # ms \<Rightarrow>
             (let b' = b\<lparr>bk_ready := (bk_ready b)(queue := ms)\<rparr>
              in case consume (mg_body m) w of
                   (Inr Ack, w') \<Rightarrow> (w', b')
                 | (_, w') \<Rightarrow> (w', dead_letter queue m b'))))"

subsection \<open>consumer.ts and lib/events/jobs.ts\<close>

definition startCoreEventsConsumer :: "int \<Rightarrow> consumer_options \<Rightarrow> (bus, exn, unit) prog" where
  "startCoreEventsConsumer ms topology = seqE (declareTopology ms topology) (consume_queue ms topology)"

definition outbound_topology :: "string \<Rightarrow> consumer_options" where
  "outbound_topology exchange =
     \<lparr>cs_queue = ''__outbox-drain-noop__'', cs_exchange = exchange, cs_bindingKeys = [], cs_deadLetterExchange = None,
      cs_deadLetterQueue = None, cs_prefetch = 1\<rparr>"

definition declareOutboundExchange :: "int \<Rightarrow> string \<Rightarrow> (bus, exn, unit) prog" where
  "declareOutboundExchange ms exchange =
     tryCatch (seqE (connect ms) (declareTopology ms (outbound_topology exchange))) (\<lambda>_. returnE ())"

subsection \<open>Declaring again changes nothing\<close>

definition extends :: "broker \<Rightarrow> broker \<Rightarrow> bool" where
  "extends b b' \<longleftrightarrow>
     bk_exchanges b \<subseteq>\<^sub>m bk_exchanges b' \<and> bk_queues b \<subseteq>\<^sub>m bk_queues b' \<and> set (bk_bindings b) \<subseteq> set (bk_bindings b')"

interpretation extends: step_relation extends
  by unfold_locales (auto simp: extends_def intro: map_le_trans)

lemma extends_asserts [moves_intro]:
  "moves extends (assertExchange n k d)" "moves extends (assertQueue n qs)" "moves extends (bindQueue q e key)"
  by (rule movesI; force simp: assertExchange_def assertQueue_def bindQueue_def extends_def map_le_def
      split: option.splits if_splits)+

lemma extends_assertTopology: "moves extends (assertTopology opts)"
  unfolding assertTopology_def Let_def by (intro moves_intro)

text \<open>What the client wants of the broker.\<close>

definition topology_in :: "consumer_options \<Rightarrow> broker \<Rightarrow> bool" where
  "topology_in opts b \<longleftrightarrow>
     bk_exchanges b (cs_exchange opts) = Some (''topic'', True) \<and>
     bk_queues b (cs_queue opts) = Some (queue_of_opts opts) \<and>
     (\<forall>key\<in>set (cs_bindingKeys opts). (cs_queue opts, cs_exchange opts, key) \<in> set (bk_bindings b)) \<and>
     (given (cs_deadLetterExchange opts) \<and> given (cs_deadLetterQueue opts) \<longrightarrow>
        bk_exchanges b (the (cs_deadLetterExchange opts)) = Some (''topic'', True) \<and>
        bk_queues b (the (cs_deadLetterQueue opts)) = Some \<lparr>qs_durable = True, qs_deadLetterExchange = None\<rparr> \<and>
        (the (cs_deadLetterQueue opts), the (cs_deadLetterExchange opts), ''#'') \<in> set (bk_bindings b))"

lemma map_le_Some: "m \<subseteq>\<^sub>m m' \<Longrightarrow> m k = Some v \<Longrightarrow> m' k = Some v"
  by (force simp: map_le_def)

lemma topology_in_extends: "topology_in opts b \<Longrightarrow> extends b b' \<Longrightarrow> topology_in opts b'"
  unfolding topology_in_def extends_def by (auto dest: map_le_Some)

lemma bindings_present:
  "bk_queues b q \<noteq> None \<Longrightarrow> bk_exchanges b e \<noteq> None \<Longrightarrow> \<forall>key\<in>set keys. (q, e, key) \<in> set (bk_bindings b) \<Longrightarrow>
   forE keys (bindQueue q e) b = (Inr (), b)"
  by (induction keys) (auto simp: seqE_def bindE_def bindQueue_def)

lemma assertTopology_present:
  assumes "topology_in opts b"
  shows "assertTopology opts b = (Inr (), b)"
proof -
  have "forE (cs_bindingKeys opts) (bindQueue (cs_queue opts) (cs_exchange opts)) b = (Inr (), b)"
    using assms by (intro bindings_present) (auto simp: topology_in_def)
  with assms show ?thesis
    by (auto simp: assertTopology_def topology_in_def queue_of_opts_def seqE_def bindE_def whenE_def assertExchange_def
        assertQueue_def bindQueue_def Let_def)
qed

lemma asserted:
  "assertExchange n k d b = (Inr u, b') \<Longrightarrow> bk_exchanges b' n = Some (k, d)"
  "assertQueue n qs b = (Inr u, b') \<Longrightarrow> bk_queues b' n = Some qs"
  "bindQueue q e key b = (Inr u, b') \<Longrightarrow> (q, e, key) \<in> set (bk_bindings b')"
  by (auto simp: assertExchange_def assertQueue_def bindQueue_def split: option.splits if_splits)

lemma forE_bound:
  "forE keys (bindQueue q e) b = (Inr u, b') \<Longrightarrow> \<forall>key\<in>set keys. (q, e, key) \<in> set (bk_bindings b')"
proof (induction keys arbitrary: b)
  case (Cons key keys)
  then obtain v b1 where 1: "bindQueue q e key b = (Inr v, b1)" and 2: "forE keys (bindQueue q e) b1 = (Inr u, b')"
    by (auto elim!: seqE_InrE)
  have "moves extends (forE keys (bindQueue q e))" by (intro moves_intro)
  from movesD [OF this 2] asserted(3) [OF 1] Cons.IH [OF 2] show ?case by (auto simp: extends_def)
qed simp

lemma assertTopology_establishes:
  assumes run: "assertTopology opts b = (Inr u, b')"
  shows "topology_in opts b'"
proof -
  let ?dlx = "the (cs_deadLetterExchange opts)" and ?dlq = "the (cs_deadLetterQueue opts)"
  let ?given = "given (cs_deadLetterExchange opts) \<and> given (cs_deadLetterQueue opts)"
  let ?plain = "\<lparr>qs_durable = True, qs_deadLetterExchange = None\<rparr>"
  let ?dead = "seqE (assertExchange ?dlx ''topic'' True) (seqE (assertQueue ?dlq ?plain) (bindQueue ?dlq ?dlx ''#''))"
  from run obtain u1 b1 u2 b2 u3 b3 where 1: "assertExchange (cs_exchange opts) ''topic'' True b = (Inr u1, b1)"
    and 2: "whenE ?given ?dead b1 = (Inr u2, b2)" and 3: "assertQueue (cs_queue opts) (queue_of_opts opts) b2 = (Inr u3, b3)"
    and 4: "forE (cs_bindingKeys opts) (bindQueue (cs_queue opts) (cs_exchange opts)) b3 = (Inr u, b')"
    unfolding assertTopology_def Let_def by (elim seqE_InrE) (rule that)
  have e2: "extends b1 b2" using 2 by (rule movesD [rotated]) (intro moves_intro)
  have e3: "extends b2 b3" using 3 by (rule movesD [rotated]) (intro moves_intro)
  have e4: "extends b3 b'" using 4 by (rule movesD [rotated]) (intro moves_intro)
  have late: "extends b1 b'" "extends b2 b'" using e2 e3 e4 extends.R_trans by blast+
  have dead: "bk_exchanges b2 ?dlx = Some (''topic'', True) \<and> bk_queues b2 ?dlq = Some ?plain \<and>
      (?dlq, ?dlx, ''#'') \<in> set (bk_bindings b2)" if ?given
  proof -
    from 2 that have "?dead b1 = (Inr u2, b2)" by (simp add: whenE_def)
    then obtain v1 c1 v2 c2 where x: "assertExchange ?dlx ''topic'' True b1 = (Inr v1, c1)"
      and q: "assertQueue ?dlq ?plain c1 = (Inr v2, c2)" and k: "bindQueue ?dlq ?dlx ''#'' c2 = (Inr u2, b2)"
      by (elim seqE_InrE) (rule that)
    have k': "extends c2 b2" using k by (rule movesD [rotated]) (intro moves_intro)
    have "extends c1 c2" using q by (rule movesD [rotated]) (intro moves_intro)
    then have "extends c1 b2" using k' by (rule extends.R_trans)
    with asserted(1) [OF x] asserted(2) [OF q] asserted(3) [OF k] k' show ?thesis
      by (auto simp: extends_def dest: map_le_Some)
  qed
  show ?thesis
    using asserted(1) [OF 1] asserted(2) [OF 3] forE_bound [OF 4] dead late e4
    unfolding topology_in_def extends_def by (auto dest: map_le_Some)
qed

text \<open>A name is not taken, or with these settings. Each declaration without a conflict, exactly.\<close>

definition unclaimed :: "('a \<rightharpoonup> 'b) \<Rightarrow> 'a \<Rightarrow> 'b \<Rightarrow> bool" where
  "unclaimed m n v \<longleftrightarrow> (\<forall>u. m n = Some u \<longrightarrow> u = v)"

lemma unclaimed_upd [simp]: "unclaimed (m(k \<mapsto> u)) n v \<longleftrightarrow> (if n = k then u = v else unclaimed m n v)"
  by (auto simp: unclaimed_def)

lemma assertExchange_ok:
  "unclaimed (bk_exchanges b) n (k, d) \<Longrightarrow>
   assertExchange n k d b = (Inr (), b\<lparr>bk_exchanges := (bk_exchanges b)(n \<mapsto> (k, d))\<rparr>)"
  by (cases b) (auto simp: assertExchange_def unclaimed_def fun_upd_idem split: option.splits)

lemma assertQueue_ok:
  "unclaimed (bk_queues b) n qs \<Longrightarrow>
   assertQueue n qs b = (Inr (), b\<lparr>bk_queues := (bk_queues b)(n \<mapsto> qs),
     bk_ready := (bk_ready b)(n := (if bk_queues b n = None then [] else bk_ready b n))\<rparr>)"
  by (cases b) (auto simp: assertQueue_def unclaimed_def fun_upd_idem split: option.splits)

lemma bindQueue_ok:
  assumes "bk_queues b q \<noteq> None" and "bk_exchanges b e \<noteq> None"
  obtains bs where "bindQueue q e key b = (Inr (), b\<lparr>bk_bindings := bs\<rparr>)" and "set bs = insert (q, e, key) (set (bk_bindings b))"
proof (cases "(q, e, key) \<in> set (bk_bindings b)")
  case True
  with assms show thesis by (intro that [of "bk_bindings b"]) (auto simp: bindQueue_def)
next
  case False
  with assms show thesis by (intro that [of "bk_bindings b @ [(q, e, key)]"]) (auto simp: bindQueue_def)
qed

lemma forE_bindQueue_ok:
  assumes "bk_queues b q \<noteq> None" and "bk_exchanges b e \<noteq> None"
  shows "\<exists>bs. forE keys (bindQueue q e) b = (Inr (), b\<lparr>bk_bindings := bs\<rparr>) \<and>
    set bs = set (bk_bindings b) \<union> {(q, e, key) |key. key \<in> set keys}"
  using assms
proof (induction keys arbitrary: b)
  case Nil
  show ?case by (intro exI [of _ "bk_bindings b"]) simp
next
  case (Cons key keys)
  from Cons.prems obtain bs where 1: "bindQueue q e key b = (Inr (), b\<lparr>bk_bindings := bs\<rparr>)"
    and s: "set bs = insert (q, e, key) (set (bk_bindings b))" by (rule bindQueue_ok)
  from Cons.IH [of "b\<lparr>bk_bindings := bs\<rparr>"] Cons.prems obtain bs' where
    "forE keys (bindQueue q e) (b\<lparr>bk_bindings := bs\<rparr>) = (Inr (), b\<lparr>bk_bindings := bs'\<rparr>)"
    "set bs' = set bs \<union> {(q, e, key) |key. key \<in> set keys}" by auto
  with 1 s show ?case by (intro exI [of _ bs']) (auto simp: seqE_def bindE_def)
qed

text \<open>
  What a consumer needs, told apart from the calls that create it. The dead-letter exchange and queue exist only
  if both are given; the queue names the exchange whenever that is given.
\<close>

definition dead_letters :: "consumer_options \<Rightarrow> (string \<times> string) option" where
  "dead_letters opts =
     (case (cs_deadLetterExchange opts, cs_deadLetterQueue opts) of
        (Some x, Some q) \<Rightarrow> if x = [] \<or> q = [] then None else Some (x, q)
      | _ \<Rightarrow> None)"

definition wanted_queue :: "consumer_options \<Rightarrow> queue_settings" where
  "wanted_queue opts =
     \<lparr>qs_durable = True, qs_deadLetterExchange =
        (case cs_deadLetterExchange opts of Some x \<Rightarrow> if x = [] then None else Some x | None \<Rightarrow> None)\<rparr>"

definition wanted_exchanges :: "consumer_options \<Rightarrow> string list" where
  "wanted_exchanges opts = cs_exchange opts # (case dead_letters opts of None \<Rightarrow> [] | Some (x, q) \<Rightarrow> [x])"

definition wanted_queues :: "consumer_options \<Rightarrow> (string \<times> queue_settings) list" where
  "wanted_queues opts =
     (case dead_letters opts of None \<Rightarrow> [] | Some (x, q) \<Rightarrow> [(q, \<lparr>qs_durable = True, qs_deadLetterExchange = None\<rparr>)]) @
     [(cs_queue opts, wanted_queue opts)]"

definition wanted_bindings :: "consumer_options \<Rightarrow> (string \<times> string \<times> string) set" where
  "wanted_bindings opts =
     {(cs_queue opts, cs_exchange opts, key) |key. key \<in> set (cs_bindingKeys opts)} \<union>
     (case dead_letters opts of None \<Rightarrow> {} | Some (x, q) \<Rightarrow> {(q, x, ''#'')})"

text \<open>A name is taken with other settings, or the dead-letter queue is the queue itself.\<close>

definition conflict :: "consumer_options \<Rightarrow> broker \<Rightarrow> bool" where
  "conflict opts b \<longleftrightarrow>
     (\<exists>x\<in>set (wanted_exchanges opts). \<not> unclaimed (bk_exchanges b) x (''topic'', True)) \<or>
     (\<exists>(q, s)\<in>set (wanted_queues opts). \<not> unclaimed (bk_queues b) q s) \<or>
     (\<exists>x. dead_letters opts = Some (x, cs_queue opts))"

text \<open>Exactly what is wanted was added, and no message was lost; new queues are empty.\<close>

definition declared :: "consumer_options \<Rightarrow> broker \<Rightarrow> broker \<Rightarrow> bool" where
  "declared opts b b' \<longleftrightarrow>
     bk_exchanges b' = bk_exchanges b ++ map_of (map (\<lambda>x. (x, (''topic'', True))) (wanted_exchanges opts)) \<and>
     bk_queues b' = bk_queues b ++ map_of (wanted_queues opts) \<and>
     set (bk_bindings b') = set (bk_bindings b) \<union> wanted_bindings opts \<and>
     (\<forall>q. bk_ready b' q = (if bk_queues b q = None \<and> bk_queues b' q \<noteq> None then [] else bk_ready b q))"

lemmas wanted_defs = dead_letters_def wanted_queue_def wanted_exchanges_def wanted_queues_def wanted_bindings_def

lemma dead_letters_given:
  "dead_letters opts =
     (if given (cs_deadLetterExchange opts) \<and> given (cs_deadLetterQueue opts)
      then Some (the (cs_deadLetterExchange opts), the (cs_deadLetterQueue opts)) else None)"
  by (auto simp: dead_letters_def given_def split: option.splits)

lemma wanted_queue_is: "queue_of_opts opts = wanted_queue opts"
  by (auto simp: queue_of_opts_def wanted_queue_def given_def split: option.splits)

lemma dead_letters_not_plain:
  "dead_letters opts = Some (x, q) \<Longrightarrow> wanted_queue opts \<noteq> \<lparr>qs_durable = True, qs_deadLetterExchange = None\<rparr>"
  by (auto simp: dead_letters_def wanted_queue_def split: option.splits if_splits)

text \<open>A success is no conflict: what was there before is there still.\<close>

lemma success_no_conflict:
  assumes run: "assertTopology opts b = (Inr u, b')"
  shows "\<not> conflict opts b"
proof
  assume "conflict opts b"
  have top: "topology_in opts b'" using run by (rule assertTopology_establishes)
  have "extends b b'" using run by (rule movesD [rotated]) (rule extends_assertTopology)
  then have e: "\<And>n s. bk_exchanges b n = Some s \<Longrightarrow> bk_exchanges b' n = Some s"
    and q: "\<And>n s. bk_queues b n = Some s \<Longrightarrow> bk_queues b' n = Some s"
    by (auto simp: extends_def dest: map_le_Some)
  have x: "bk_exchanges b' n = Some (''topic'', True)" if "n \<in> set (wanted_exchanges opts)" for n
    using top that by (auto simp: topology_in_def wanted_exchanges_def dead_letters_given split: if_splits)
  have y: "bk_queues b' n = Some s" if "(n, s) \<in> set (wanted_queues opts)" for n s
    using top that
    by (auto simp: topology_in_def wanted_queues_def wanted_queue_is dead_letters_given split: if_splits)
  have z: "dead_letters opts \<noteq> Some (n, cs_queue opts)" for n
  proof
    assume d: "dead_letters opts = Some (n, cs_queue opts)"
    then have "bk_queues b' (cs_queue opts) = Some \<lparr>qs_durable = True, qs_deadLetterExchange = None\<rparr>"
      and "bk_queues b' (cs_queue opts) = Some (wanted_queue opts)"
      by (auto intro!: y simp: wanted_queues_def)
    with dead_letters_not_plain [OF d] show False by simp
  qed
  have "unclaimed (bk_exchanges b) n (''topic'', True)" if "n \<in> set (wanted_exchanges opts)" for n
    using x [OF that] e unfolding unclaimed_def by force
  moreover have "unclaimed (bk_queues b) n s" if "(n, s) \<in> set (wanted_queues opts)" for n s
    using y [OF that] q unfolding unclaimed_def by force
  ultimately show False using \<open>conflict opts b\<close> z unfolding conflict_def by blast
qed

text \<open>Without a conflict every call succeeds.\<close>

lemma declare_dead_letters:
  assumes "dead_letters opts = Some (x, q)" and "unclaimed (bk_exchanges b) x (''topic'', True)"
    and "unclaimed (bk_queues b) q \<lparr>qs_durable = True, qs_deadLetterExchange = None\<rparr>"
  obtains bs where "seqE (assertExchange x ''topic'' True)
      (seqE (assertQueue q \<lparr>qs_durable = True, qs_deadLetterExchange = None\<rparr>) (bindQueue q x ''#'')) b =
      (Inr (), b\<lparr>bk_exchanges := (bk_exchanges b)(x \<mapsto> (''topic'', True)),
        bk_queues := (bk_queues b)(q \<mapsto> \<lparr>qs_durable = True, qs_deadLetterExchange = None\<rparr>),
        bk_ready := (bk_ready b)(q := (if bk_queues b q = None then [] else bk_ready b q)), bk_bindings := bs\<rparr>)"
    and "set bs = insert (q, x, ''#'') (set (bk_bindings b))"
proof -
  let ?plain = "\<lparr>qs_durable = True, qs_deadLetterExchange = None\<rparr>"
  let ?b = "b\<lparr>bk_exchanges := (bk_exchanges b)(x \<mapsto> (''topic'', True)), bk_queues := (bk_queues b)(q \<mapsto> ?plain),
        bk_ready := (bk_ready b)(q := (if bk_queues b q = None then [] else bk_ready b q))\<rparr>"
  have "bk_queues ?b q \<noteq> None" "bk_exchanges ?b x \<noteq> None" by simp_all
  then obtain bs where "bindQueue q x ''#'' ?b = (Inr (), ?b\<lparr>bk_bindings := bs\<rparr>)" and "set bs = insert (q, x, ''#'') (set (bk_bindings b))"
    by (rule bindQueue_ok) simp
  with that [of bs] assms(2,3) show thesis by (simp add: seqE_def bindE_def assertExchange_ok assertQueue_ok cong: if_cong)
qed

lemma declare_plain:
  assumes free: "\<not> conflict opts b" and None: "dead_letters opts = None"
  shows "\<exists>b'. assertTopology opts b = (Inr (), b') \<and> declared opts b b'"
proof -
  from None have d: "\<not> (given (cs_deadLetterExchange opts) \<and> given (cs_deadLetterQueue opts))"
    by (auto simp: dead_letters_given split: if_splits)
  from free None have x: "unclaimed (bk_exchanges b) (cs_exchange opts) (''topic'', True)"
    and q: "unclaimed (bk_queues b) (cs_queue opts) (wanted_queue opts)"
    by (auto simp: conflict_def wanted_exchanges_def wanted_queues_def)
  let ?b = "b\<lparr>bk_exchanges := (bk_exchanges b)(cs_exchange opts \<mapsto> (''topic'', True)),
      bk_queues := (bk_queues b)(cs_queue opts \<mapsto> wanted_queue opts),
      bk_ready := (bk_ready b)(cs_queue opts := (if bk_queues b (cs_queue opts) = None then [] else bk_ready b (cs_queue opts)))\<rparr>"
  obtain bs where bs: "forE (cs_bindingKeys opts) (bindQueue (cs_queue opts) (cs_exchange opts)) ?b = (Inr (), ?b\<lparr>bk_bindings := bs\<rparr>)"
    "set bs = set (bk_bindings b) \<union> {(cs_queue opts, cs_exchange opts, key) |key. key \<in> set (cs_bindingKeys opts)}"
    using forE_bindQueue_ok [of ?b "cs_queue opts" "cs_exchange opts" "cs_bindingKeys opts"] by auto
  let ?b1 = "b\<lparr>bk_exchanges := (bk_exchanges b)(cs_exchange opts \<mapsto> (''topic'', True))\<rparr>"
  have skip: "whenE (given (cs_deadLetterExchange opts) \<and> given (cs_deadLetterQueue opts)) m ?b1 = (Inr (), ?b1)" for m
    using d unfolding whenE_def by (simp only: if_False returnE_app)
  have "unclaimed (bk_queues ?b1) (cs_queue opts) (wanted_queue opts)" using q by simp
  from assertQueue_ok [OF this] have queue: "assertQueue (cs_queue opts) (wanted_queue opts) ?b1 = (Inr (), ?b)" by (simp cong: if_cong)
  have "assertTopology opts b = (Inr (), ?b\<lparr>bk_bindings := bs\<rparr>)"
    unfolding assertTopology_def Let_def wanted_queue_is
    by (subst seqE_Inr, rule assertExchange_ok [OF x], subst seqE_Inr, rule skip, subst seqE_Inr, rule queue, rule bs(1))
  moreover have "declared opts b (?b\<lparr>bk_bindings := bs\<rparr>)"
    using None bs(2) by (auto simp: declared_def wanted_exchanges_def wanted_queues_def wanted_bindings_def)
  ultimately show ?thesis by blast
qed

lemma declare_with_dead_letters:
  assumes free: "\<not> conflict opts b" and Some: "dead_letters opts = Some (dx, dq)"
  shows "\<exists>b'. assertTopology opts b = (Inr (), b') \<and> declared opts b b'"
proof -
  from Some have d: "given (cs_deadLetterExchange opts)" "given (cs_deadLetterQueue opts)"
    "the (cs_deadLetterExchange opts) = dx" "the (cs_deadLetterQueue opts) = dq"
    by (auto simp: dead_letters_given split: if_splits)
  let ?plain = "\<lparr>qs_durable = True, qs_deadLetterExchange = None\<rparr>"
  from free Some have x: "unclaimed (bk_exchanges b) (cs_exchange opts) (''topic'', True)"
    and q: "unclaimed (bk_queues b) (cs_queue opts) (wanted_queue opts)"
    and dead: "unclaimed (bk_exchanges b) dx (''topic'', True)" "unclaimed (bk_queues b) dq ?plain" "dq \<noteq> cs_queue opts"
    by (auto simp: conflict_def wanted_exchanges_def wanted_queues_def)
  let ?b1 = "b\<lparr>bk_exchanges := (bk_exchanges b)(cs_exchange opts \<mapsto> (''topic'', True))\<rparr>"
  have "unclaimed (bk_exchanges ?b1) dx (''topic'', True)" "unclaimed (bk_queues ?b1) dq ?plain" using dead by auto
  from declare_dead_letters [OF Some this] obtain ds where
    2: "seqE (assertExchange dx ''topic'' True) (seqE (assertQueue dq ?plain) (bindQueue dq dx ''#'')) ?b1 =
      (Inr (), ?b1\<lparr>bk_exchanges := (bk_exchanges ?b1)(dx \<mapsto> (''topic'', True)), bk_queues := (bk_queues ?b1)(dq \<mapsto> ?plain),
        bk_ready := (bk_ready ?b1)(dq := (if bk_queues ?b1 dq = None then [] else bk_ready ?b1 dq)), bk_bindings := ds\<rparr>)"
    and ds: "set ds = insert (dq, dx, ''#'') (set (bk_bindings ?b1))" by blast
  let ?b2 = "?b1\<lparr>bk_exchanges := (bk_exchanges ?b1)(dx \<mapsto> (''topic'', True)), bk_queues := (bk_queues ?b1)(dq \<mapsto> ?plain),
        bk_ready := (bk_ready ?b1)(dq := (if bk_queues ?b1 dq = None then [] else bk_ready ?b1 dq)), bk_bindings := ds\<rparr>"
  let ?b3 = "?b2\<lparr>bk_queues := (bk_queues ?b2)(cs_queue opts \<mapsto> wanted_queue opts),
      bk_ready := (bk_ready ?b2)(cs_queue opts := (if bk_queues ?b2 (cs_queue opts) = None then [] else bk_ready ?b2 (cs_queue opts)))\<rparr>"
  have q2: "unclaimed (bk_queues ?b2) (cs_queue opts) (wanted_queue opts)" using q dead(3) by auto
  have "bk_queues ?b3 (cs_queue opts) \<noteq> None" "bk_exchanges ?b3 (cs_exchange opts) \<noteq> None" by auto
  from forE_bindQueue_ok [OF this, of "cs_bindingKeys opts"] obtain bs where
    bs: "forE (cs_bindingKeys opts) (bindQueue (cs_queue opts) (cs_exchange opts)) ?b3 = (Inr (), ?b3\<lparr>bk_bindings := bs\<rparr>)"
    "set bs = set (bk_bindings ?b3) \<union> {(cs_queue opts, cs_exchange opts, key) |key. key \<in> set (cs_bindingKeys opts)}" by blast
  have dead_ran: "whenE (given (cs_deadLetterExchange opts) \<and> given (cs_deadLetterQueue opts))
      (seqE (assertExchange dx ''topic'' True) (seqE (assertQueue dq ?plain) (bindQueue dq dx ''#''))) ?b1 = (Inr (), ?b2)"
    using d(1,2) 2 by (simp add: whenE_def)
  have "assertTopology opts b = (Inr (), ?b3\<lparr>bk_bindings := bs\<rparr>)"
    unfolding assertTopology_def Let_def d(3,4) wanted_queue_is
    by (subst seqE_Inr, rule assertExchange_ok [OF x], subst seqE_Inr, rule dead_ran, subst seqE_Inr,
        rule assertQueue_ok [OF q2], rule bs(1))
  moreover have "declared opts b (?b3\<lparr>bk_bindings := bs\<rparr>)"
    using Some bs(2) ds dead(3)
    by (auto simp: declared_def wanted_exchanges_def wanted_queues_def wanted_bindings_def fun_eq_iff map_add_def)
  ultimately show ?thesis by blast
qed

lemma no_conflict_success: "\<not> conflict opts b \<Longrightarrow> \<exists>b'. assertTopology opts b = (Inr (), b') \<and> declared opts b b'"
  using declare_plain declare_with_dead_letters by (cases "dead_letters opts") auto

text \<open>C38: What declaring the topology of a consumer does. If one of its names is taken with other settings, or the
  dead-letter queue is the queue itself, it fails. Otherwise it succeeds and adds exactly: the exchange and the
  dead-letter exchange, both durable topics; the durable dead-letter queue, bound to its exchange with \<open>#\<close>, if
  both dead-letter names are given; the durable queue, which names the dead-letter exchange if one is given, bound
  to the exchange with every binding key. No message in a queue is touched. Running the same setup again - on a
  reconnection, at a restart, by the second process, after any other topologies have been declared - succeeds
  and changes nothing.\<close>

theorem topology_declared:
  "if conflict opts b then \<exists>e b1. assertTopology opts b = (Inl e, b1)
   else \<exists>b1. assertTopology opts b = (Inr (), b1) \<and> declared opts b b1 \<and>
     (\<forall>others. case forE others assertTopology b1 of (_, b2) \<Rightarrow> assertTopology opts b2 = (Inr (), b2))"
proof (cases "conflict opts b")
  case True
  obtain r b1 where run: "assertTopology opts b = (r, b1)" by (cases "assertTopology opts b")
  with True success_no_conflict show ?thesis by (cases r) auto
next
  case False
  with no_conflict_success obtain b1 where run: "assertTopology opts b = (Inr (), b1)" and d: "declared opts b b1" by blast
  have "assertTopology opts b2 = (Inr (), b2)" if "forE others assertTopology b1 = (r, b2)" for others r b2
  proof (rule assertTopology_present)
    have "extends b1 b2" using that by (rule movesD [rotated]) (intro moves_intro extends_assertTopology)
    with assertTopology_establishes [OF run] show "topology_in opts b2" by (rule topology_in_extends)
  qed
  with False run d show ?thesis by (auto split: prod.splits)
qed

subsection \<open>Rejected messages are kept\<close>

lemma hash_matches: "words_match [''#''] ks"
  by (induction ks) auto

lemma topic_hash [simp]: "topic_matches ''#'' key"
  by (simp add: topic_matches_def splitOn_no_sep hash_matches)

text \<open>C39: No rejected event is lost: when the consumer does not acknowledge the message at the head of its queue - its
  body is no event, Redis failed, the handler threw - the message ends up in the dead-letter queue, whatever its
  routing key, and no queue but the consumer's own has lost a message. This needs both dead-letter settings: the
  queue is bound only if both are given.\<close>

theorem rejected_event_is_kept:
  assumes declared: "assertTopology opts b0 = (Inr u, b1)" and later: "extends b1 b"
    and dead: "given (cs_deadLetterExchange opts)" "given (cs_deadLetterQueue opts)" "cs_deadLetterQueue opts = Some dlq"
    and own: "dlq \<noteq> cs_queue opts"
    and head: "bk_ready b (cs_queue opts) = m # ms" and rejected: "fst (consume (mg_body m) w) \<noteq> Inr Ack"
    and run: "deliver (cs_queue opts) (w, b) = (w', b')"
  shows "bk_ready b' dlq = bk_ready b dlq @ [m] \<and>
     (\<forall>q. q \<noteq> cs_queue opts \<longrightarrow> (\<exists>new. bk_ready b' q = bk_ready b q @ new))"
proof -
  have top: "topology_in opts b" using assertTopology_establishes [OF declared] later by (rule topology_in_extends)
  obtain dlx where dlx: "cs_deadLetterExchange opts = Some dlx" using dead(1) by (auto simp: given_def)
  let ?b = "b\<lparr>bk_ready := (bk_ready b)(cs_queue opts := ms)\<rparr>"
  have "b' = dead_letter (cs_queue opts) m ?b"
    using run head rejected by (auto simp: deliver_def Let_def split: prod.splits sum.splits settled.splits)
  also have "\<dots> = route dlx m ?b"
    using top dead(1) dlx by (simp add: dead_letter_def topology_in_def queue_of_opts_def)
  finally have b': "b' = route dlx m ?b" .
  have "(dlq, dlx, ''#'') \<in> set (bk_bindings b)" using top dead dlx by (simp add: topology_in_def)
  then have "bound ?b dlx (mg_routingKey m) dlq" by (force simp: bound_def list_ex_iff)
  with b' own show ?thesis by (auto simp: route_def)
qed

subsection \<open>Two processes on one queue\<close>

text \<open>
  \<open>server.ts\<close> and \<open>worker.ts\<close> both start the consumer, so each event is handled by one of the two processes only.
  Tables and Redis are shared, the permission cache is a map in each process.
\<close>

datatype process = Api | Worker

definition handled_by :: "process \<Rightarrow> json option \<Rightarrow> world \<times> (process \<Rightarrow> string \<rightharpoonup> string list \<times> int) \<Rightarrow>
    (exn + settled) \<times> world \<times> (process \<Rightarrow> string \<rightharpoonup> string list \<times> int)" where
  "handled_by p body s =
     (case s of (w, caches) \<Rightarrow>
        (case consume body (w\<lparr>permCache := caches p\<rparr>) of (r, w') \<Rightarrow> (r, w', caches(p := permCache w'))))"

text \<open>
  What the worker takes from the queue does not reach the cache of the API: it goes on answering with the old
  permissions until the entry is an hour old.
\<close>

lemma permission_change_can_miss_the_api:
  assumes "handled_by Worker body (w, caches) = (r, w1, caches1)" and "caches Api role = Some (ps, t)"
    and "clock w2 - t < PERMISSION_TTL"
  shows "fst (getPermissions role (w2\<lparr>permCache := caches1 Api\<rparr>)) = Inr ps"
  using assms by (auto simp: handled_by_def getPermissions_def bindE_def now_def split: prod.splits)

subsection \<open>The deployment's topology\<close>

definition core_topology :: consumer_options where
  "core_topology =
     \<lparr>cs_queue = ''order.core'', cs_exchange = ''core.events'', cs_bindingKeys = [''product.*'', ''branch.#''],
      cs_deadLetterExchange = Some ''core.dlx'', cs_deadLetterQueue = Some ''order.dlq'', cs_prefetch = 10\<rparr>"

definition empty_broker :: broker where
  "empty_broker = \<lparr>bk_exchanges = Map.empty, bk_queues = Map.empty, bk_bindings = [], bk_ready = (\<lambda>_. [])\<rparr>"

lemmas broker_defs = assertTopology_def assertExchange_def assertQueue_def bindQueue_def queue_of_opts_def given_def
  prog_defs Let_def

lemma core_declared: "\<exists>b. assertTopology core_topology empty_broker = (Inr (), b) \<and> bk_ready b = (\<lambda>_. [])"
  by (simp add: broker_defs core_topology_def empty_broker_def fun_eq_iff)

theorem topology_declared_witness:
  "\<exists>b1. assertTopology core_topology empty_broker = (Inr (), b1) \<and> assertTopology core_topology b1 = (Inr (), b1) \<and>
     bk_exchanges b1 = [''core.events'' \<mapsto> (''topic'', True), ''core.dlx'' \<mapsto> (''topic'', True)] \<and>
     bk_queues b1 = [''order.dlq'' \<mapsto> \<lparr>qs_durable = True, qs_deadLetterExchange = None\<rparr>,
       ''order.core'' \<mapsto> \<lparr>qs_durable = True, qs_deadLetterExchange = Some ''core.dlx''\<rparr>] \<and>
     set (bk_bindings b1) = {(''order.core'', ''core.events'', ''product.*''), (''order.core'', ''core.events'', ''branch.#''),
       (''order.dlq'', ''core.dlx'', ''#'')}"
proof -
  have "\<not> conflict core_topology empty_broker"
    by (auto simp: conflict_def wanted_defs core_topology_def empty_broker_def unclaimed_def)
  with topology_declared [of core_topology empty_broker] obtain b1 where
    b1: "assertTopology core_topology empty_broker = (Inr (), b1)" "declared core_topology empty_broker b1"
    and again: "\<And>others. case forE others assertTopology b1 of (_, b2) \<Rightarrow> assertTopology core_topology b2 = (Inr (), b2)"
    by auto
  from again [of "[]"] have "assertTopology core_topology b1 = (Inr (), b1)" by simp
  with b1 show ?thesis
    by (intro exI [of _ b1])
      (auto simp: declared_def wanted_defs core_topology_def empty_broker_def fun_eq_iff map_add_def)
qed

theorem rejected_event_is_kept_witness:
  "\<exists>b w' b'. deliver ''order.core'' (sample_world, b) = (w', b') \<and> bk_ready b ''order.core'' = [\<lparr>mg_routingKey = ''x'', mg_body = None\<rparr>] \<and>
     bk_ready b' ''order.dlq'' = [\<lparr>mg_routingKey = ''x'', mg_body = None\<rparr>]"
proof -
  let ?m = "\<lparr>mg_routingKey = ''x'', mg_body = None\<rparr>"
  obtain b1 where b1: "assertTopology core_topology empty_broker = (Inr (), b1)" "bk_ready b1 = (\<lambda>_. [])"
    using core_declared by blast
  let ?b = "b1\<lparr>bk_ready := (\<lambda>_. [])(''order.core'' := [?m])\<rparr>"
  obtain w' b' where run: "deliver ''order.core'' (sample_world, ?b) = (w', b')"
    by (cases "deliver ''order.core'' (sample_world, ?b)")
  have "bk_ready b' ''order.dlq'' = bk_ready ?b ''order.dlq'' @ [?m] \<and>
      (\<forall>q. q \<noteq> cs_queue core_topology \<longrightarrow> (\<exists>new. bk_ready b' q = bk_ready ?b q @ new))"
  proof (rule rejected_event_is_kept [OF b1(1)])
    show "extends b1 ?b" by (simp add: extends_def)
    show "fst (consume (mg_body ?m) sample_world) \<noteq> Inr Ack"
      by (simp add: consume_def handleMessage_def parseCoreEnvelope_def tryCatch_def)
    show "deliver (cs_queue core_topology) (sample_world, ?b) = (w', b')" using run by (simp add: core_topology_def)
  qed (simp_all add: core_topology_def given_def)
  then show ?thesis using run by (intro exI [of _ ?b] exI [of _ w'] exI [of _ b']) simp
qed

end
