(* ===== verification/Filters.thy ===== *)
theory Filters
  imports Payment Pagination
begin

section \<open>Column filters\<close>

text \<open>
  \<open>parseFilters\<close> of \<open>src/lib/http/pagination/parse-query.ts\<close> and \<open>applyFilters\<close>, \<open>camelToSnake\<close> of
  \<open>cursor-pagination.ts\<close>: from \<open>?filter[field][op]=value\<close>, as \<open>qs\<close> parses it, to the clauses of the query. The
  service passes an empty list of filters so far; what the functions promise a later caller is that the fields and
  operators that reach the SQL text come from a fixed list, whatever the query string is.
\<close>

record filter_params =
  fp_field :: string
  fp_operator :: string
  fp_value :: json

datatype clause =
    Where string string json     \<comment> \<open>column, comparison, value\<close>
  | WhereLike string string
  | WhereIn string "json list"

definition allowedOps :: "string list" where
  "allowedOps = [''eq'', ''gt'', ''lt'', ''gte'', ''lte'', ''like'', ''in'']"

text \<open>
  \<open>Object.entries(..)\<close> of an object of the filter; an array has the keys \<open>''0''\<close>, \<open>''1''\<close>, .., none of them an operator.
\<close>

definition entries :: "json \<Rightarrow> (string \<times> json) list" where
  "entries j = (case j of JObj kvs \<Rightarrow> kvs | JArr vs \<Rightarrow> zip (map (\<lambda>i. string_of_int (int i)) [0..<length vs]) vs | _ \<Rightarrow> [])"

definition is_object :: "json option \<Rightarrow> bool" where
  "is_object v = (case v of Some (JObj _) \<Rightarrow> True | Some (JArr _) \<Rightarrow> True | _ \<Rightarrow> False)"

definition field_filters :: "json \<Rightarrow> string \<Rightarrow> filter_params list" where
  "field_filters flt field =
     (if \<not> is_object (jget field flt) then []
      else map (\<lambda>(operator, value). \<lparr>fp_field = field, fp_operator = operator, fp_value = value\<rparr>)
             (filter (\<lambda>(operator, _). operator \<in> set allowedOps) (entries (the (jget field flt)))))"

definition parseFilters :: "json \<Rightarrow> string list \<Rightarrow> filter_params list" where
  "parseFilters q allowedFields =
     (if \<not> is_object (jget ''filter'' q) then []
      else concat (map (field_filters (the (jget ''filter'' q))) allowedFields))"

definition filter_clause :: "filter_params \<Rightarrow> clause list" where
  "filter_clause f =
     (if fp_operator f = ''eq'' then [Where (fp_field f) ''='' (fp_value f)]
      else if fp_operator f = ''gt'' then [Where (fp_field f) ''>'' (fp_value f)]
      else if fp_operator f = ''lt'' then [Where (fp_field f) ''<'' (fp_value f)]
      else if fp_operator f = ''lte'' then [Where (fp_field f) ''<='' (fp_value f)]
      else if fp_operator f = ''gte'' then [Where (fp_field f) ''>='' (fp_value f)]
      else if fp_operator f = ''like'' then [WhereLike (fp_field f) (''%'' @ js_string (fp_value f) @ ''%'')]
      else if fp_operator f = ''in'' then
        [WhereIn (fp_field f) (case fp_value f of JArr vs \<Rightarrow> vs | v \<Rightarrow> [v])]
      else [])"

definition applyFilters :: "clause list \<Rightarrow> filter_params list \<Rightarrow> clause list" where
  "applyFilters clauses filters = clauses @ concat (map filter_clause filters)"

fun camelToSnake :: "string \<Rightarrow> string" where
  "camelToSnake [] = []"
| "camelToSnake (c # cs) =
     (if CHR ''A'' \<le> c \<and> c \<le> CHR ''Z'' then CHR ''_'' # char_of (of_char c + (32 :: nat)) # camelToSnake cs
      else c # camelToSnake cs)"

fun clause_column :: "clause \<Rightarrow> string" where
  "clause_column (Where c _ _) = c"
| "clause_column (WhereLike c _) = c"
| "clause_column (WhereIn c _) = c"

lemma parseFilters_fields:
  "f \<in> set (parseFilters q allowed) \<Longrightarrow> fp_field f \<in> set allowed \<and> fp_operator f \<in> set allowedOps"
  by (auto simp: parseFilters_def field_filters_def split: if_splits)

lemma filter_clause_column: "c \<in> set (filter_clause f) \<Longrightarrow> clause_column c = fp_field f"
  by (auto simp: filter_clause_def split: if_splits)

lemma filter_clause_one: "fp_operator f \<in> set allowedOps \<Longrightarrow> length (filter_clause f) = 1"
  by (auto simp: filter_clause_def allowedOps_def)

lemma one_clause_each: "\<forall>f\<in>set fs. fp_operator f \<in> set allowedOps \<Longrightarrow> length (concat (map filter_clause fs)) = length fs"
  by (induction fs) (simp_all add: filter_clause_one)

text \<open>
  Whatever the query string holds, the clauses that are added name columns of the list the caller allows, one clause
  for each filter that was parsed, and the clauses of the query stay in front.
\<close>

lemma filters_are_whitelisted:
  "\<exists>new. applyFilters clauses (parseFilters q allowed) = clauses @ new \<and>
     clause_column ` set new \<subseteq> set allowed \<and> length new = length (parseFilters q allowed)"
proof -
  let ?fs = "parseFilters q allowed"
  have "clause_column c \<in> set allowed" if "c \<in> set (concat (map filter_clause ?fs))" for c
    using that parseFilters_fields filter_clause_column by fastforce
  moreover have "length (concat (map filter_clause ?fs)) = length ?fs"
    by (rule one_clause_each) (use parseFilters_fields in blast)
  ultimately show ?thesis by (auto simp: applyFilters_def)
qed

lemma createdAt_column: "camelToSnake ''createdAt'' = ''created_at''"
  by code_simp

end
