(* ===== verification/Migrations.thy ===== *)
theory Migrations
  imports Schema
begin

section \<open>The migrations\<close>

text \<open>
  \<open>src/migrations\<close>: each migration is the list of the statements of its \<open>up\<close> and of its \<open>down\<close>, and a statement is
  what Postgres does to a catalogue of tables. A table carries its columns with their types, nullability, defaults
  and column checks, its unique constraints (the primary key is the first) and its rows. Statements that
  only concern speed or placement (indexes, partitions, the owner of a sequence) are kept as catalogue entries.
\<close>

subsection \<open>The catalogue\<close>

datatype pg_value = PgNull | PgInt int | PgText string | PgBool bool | PgTime int | PgJson json

type_synonym pg_row = "(string \<times> pg_value) list"

datatype column_type = BIGINT | INT4 | SMALLINT | TEXT | UUID | DECIMAL | BOOLEAN | TIMESTAMP | JSONB

datatype column_default = NoDefault | NextVal | Now | Value pg_value

datatype column_check = Anything | OneOf "string list" | Positive

record column =
  c_name :: string
  c_type :: column_type
  c_notNull :: bool
  c_default :: column_default
  c_check :: column_check

record db_table =
  tb_columns :: "column list"
  tb_uniques :: "string list list"
  tb_rows :: "pg_row list"

record catalogue =
  ct_tables :: "(string \<times> db_table) list"
  ct_sequences :: "string list"
  ct_indexes :: "(string \<times> string \<times> string list) list"   \<comment> \<open>index, table, columns\<close>
  ct_partitions :: "(string \<times> string) list"                  \<comment> \<open>partition, parent\<close>

datatype statement =
    CreateSequence string
  | CreateTable string "column list" "string list list"
  | OwnSequence string string
  | CreateIndex string string "string list"
  | CreateDefaultPartition string string
  | DropTable string
  | DropSequence string
  | DropCheck string string
  | AddCheck string string "string list"
  | InsertRow string pg_row

definition undefined_table :: exn where "undefined_table = JsError ''relation does not exist''"
definition duplicate_relation :: exn where "duplicate_relation = JsError ''relation already exists''"
definition undefined_constraint :: exn where "undefined_constraint = JsError ''constraint does not exist''"

definition relations :: "catalogue \<Rightarrow> string list" where
  "relations d = map fst (ct_tables d) @ ct_sequences d @ map fst (ct_indexes d) @ map fst (ct_partitions d)"

text \<open>\<open>CHECK\<close>: a null satisfies it.\<close>

fun check_ok :: "column_check \<Rightarrow> pg_value \<Rightarrow> bool" where
  "check_ok Anything v \<longleftrightarrow> True"
| "check_ok (OneOf values) v \<longleftrightarrow> (case v of PgNull \<Rightarrow> True | PgText s \<Rightarrow> s \<in> set values | _ \<Rightarrow> False)"
| "check_ok Positive v \<longleftrightarrow> (case v of PgNull \<Rightarrow> True | PgInt n \<Rightarrow> 0 < n | _ \<Rightarrow> False)"

definition pg_get :: "string \<Rightarrow> pg_row \<Rightarrow> pg_value" where
  "pg_get k r = (case map_of r k of None \<Rightarrow> PgNull | Some v \<Rightarrow> v)"

definition update_table :: "string \<Rightarrow> (db_table \<Rightarrow> db_table) \<Rightarrow> catalogue \<Rightarrow> catalogue" where
  "update_table name f d = d\<lparr>ct_tables := map (\<lambda>(n, tb). (n, if n = name then f tb else tb)) (ct_tables d)\<rparr>"

definition set_check :: "string \<Rightarrow> column_check \<Rightarrow> db_table \<Rightarrow> db_table" where
  "set_check col chk tb =
     tb\<lparr>tb_columns := map (\<lambda>c. if c_name c = col then c\<lparr>c_check := chk\<rparr> else c) (tb_columns tb)\<rparr>"

definition check_of :: "string \<Rightarrow> db_table \<Rightarrow> column_check" where
  "check_of col tb = (case find (\<lambda>c. c_name c = col) (tb_columns tb) of None \<Rightarrow> Anything | Some c \<Rightarrow> c_check c)"

text \<open>\<open>ADD CONSTRAINT .. CHECK\<close> looks at every row that is there.\<close>

fun execute :: "statement \<Rightarrow> catalogue \<Rightarrow> exn + catalogue" where
  "execute (CreateSequence s) d =
     (if s \<in> set (ct_sequences d) then Inr d
      else if s \<in> set (relations d) then Inl duplicate_relation
      else Inr (d\<lparr>ct_sequences := ct_sequences d @ [s]\<rparr>))"
| "execute (CreateTable n cols uniques) d =
     (if n \<in> set (relations d) then Inl duplicate_relation
      else Inr (d\<lparr>ct_tables := ct_tables d @ [(n, \<lparr>tb_columns = cols, tb_uniques = uniques, tb_rows = []\<rparr>)]\<rparr>))"
| "execute (OwnSequence s n) d =
     (if s \<in> set (ct_sequences d) \<and> n \<in> fst ` set (ct_tables d) then Inr d else Inl undefined_table)"
| "execute (CreateIndex i n cols) d =
     (if n \<notin> fst ` set (ct_tables d) then Inl undefined_table
      else if i \<in> set (relations d) then Inl duplicate_relation
      else Inr (d\<lparr>ct_indexes := ct_indexes d @ [(i, n, cols)]\<rparr>))"
| "execute (CreateDefaultPartition p n) d =
     (if n \<notin> fst ` set (ct_tables d) then Inl undefined_table
      else if p \<in> set (relations d) then Inl duplicate_relation
      else Inr (d\<lparr>ct_partitions := ct_partitions d @ [(p, n)]\<rparr>))"
| "execute (DropTable n) d =
     Inr (d\<lparr>ct_tables := filter (\<lambda>(m, _). m \<noteq> n) (ct_tables d),
            ct_indexes := filter (\<lambda>(_, m, _). m \<noteq> n) (ct_indexes d),
            ct_partitions := filter (\<lambda>(_, m). m \<noteq> n) (ct_partitions d)\<rparr>)"
| "execute (DropSequence s) d = Inr (d\<lparr>ct_sequences := filter (\<lambda>m. m \<noteq> s) (ct_sequences d)\<rparr>)"
| "execute (DropCheck n col) d =
     (case map_of (ct_tables d) n of
        None \<Rightarrow> Inl undefined_table
      | Some tb \<Rightarrow> if check_of col tb = Anything then Inl undefined_constraint
                   else Inr (update_table n (set_check col Anything) d))"
| "execute (AddCheck n col values) d =
     (case map_of (ct_tables d) n of
        None \<Rightarrow> Inl undefined_table
      | Some tb \<Rightarrow>
          if check_of col tb \<noteq> Anything then Inl duplicate_relation
          else if list_all (\<lambda>r. check_ok (OneOf values) (pg_get col r)) (tb_rows tb)
          then Inr (update_table n (set_check col (OneOf values)) d)
          else Inl check_error)"
| "execute (InsertRow n row) d =
     (if n \<in> fst ` set (ct_tables d) then Inr (update_table n (\<lambda>tb. tb\<lparr>tb_rows := tb_rows tb @ [row]\<rparr>) d)
      else Inl undefined_table)"

fun execute_all :: "statement list \<Rightarrow> catalogue \<Rightarrow> exn + catalogue" where
  "execute_all [] d = Inr d"
| "execute_all (s # ss) d = (case execute s d of Inl e \<Rightarrow> Inl e | Inr d' \<Rightarrow> execute_all ss d')"

subsection \<open>The tables\<close>

definition col :: "string \<Rightarrow> column_type \<Rightarrow> column" where
  "col n ty = \<lparr>c_name = n, c_type = ty, c_notNull = True, c_default = NoDefault, c_check = Anything\<rparr>"

definition null_col :: "string \<Rightarrow> column_type \<Rightarrow> column" where
  "null_col n ty = (col n ty)\<lparr>c_notNull := False\<rparr>"

definition default_col :: "string \<Rightarrow> column_type \<Rightarrow> column_default \<Rightarrow> column" where
  "default_col n ty v = (col n ty)\<lparr>c_default := v\<rparr>"

definition check_col :: "string \<Rightarrow> column_type \<Rightarrow> column_check \<Rightarrow> column" where
  "check_col n ty chk = (col n ty)\<lparr>c_check := chk\<rparr>"

definition orders_columns :: "column list" where
  "orders_columns =
     [default_col ''id'' BIGINT NextVal, col ''region'' TEXT, col ''public_id'' UUID, col ''country_code'' TEXT,
      col ''restaurant_id'' BIGINT, col ''restaurant_owner_id'' BIGINT, col ''branch_id'' BIGINT, col ''customer_id'' BIGINT,
      col ''customer_address_id'' BIGINT, col ''delivery_lat'' DECIMAL, col ''delivery_lng'' DECIMAL,
      col ''delivery_address_text_snapshot'' TEXT, col ''branch_lat'' DECIMAL, col ''branch_lng'' DECIMAL,
      check_col ''status'' TEXT (OneOf [''pending_payment'', ''placed'', ''accepted'', ''rejected'', ''preparing'', ''ready'',
        ''assigned'', ''picked'', ''delivered'', ''cancelled'']),
      col ''subtotal'' INT4, col ''delivery_fee'' INT4, col ''service_fee'' INT4, col ''total'' INT4,
      default_col ''commission'' INT4 (Value (PgInt 0)), col ''currency'' TEXT,
      check_col ''payment_method'' TEXT (OneOf [''online'', ''cod'']), null_col ''delivery_agent_id'' BIGINT,
      default_col ''created_at'' TIMESTAMP Now, default_col ''updated_at'' TIMESTAMP Now, null_col ''accepted_at'' TIMESTAMP,
      null_col ''rejected_at'' TIMESTAMP, null_col ''ready_at'' TIMESTAMP, null_col ''assigned_at'' TIMESTAMP,
      null_col ''picked_at'' TIMESTAMP, null_col ''delivered_at'' TIMESTAMP, null_col ''cancelled_at'' TIMESTAMP]"

definition order_items_columns :: "column list" where
  "order_items_columns =
     [default_col ''id'' BIGINT NextVal, col ''region'' TEXT, col ''order_id'' BIGINT, col ''product_id'' BIGINT,
      check_col ''quantity'' INT4 Positive, col ''unit_price_snapshot'' INT4, col ''name_snapshot'' TEXT,
      null_col ''image_url_snapshot'' TEXT, col ''line_total'' INT4, default_col ''created_at'' TIMESTAMP Now]"

definition payment_providers_columns :: "column list" where
  "payment_providers_columns =
     [col ''id'' INT4, col ''name'' TEXT, default_col ''is_enabled'' BOOLEAN (Value (PgBool True)),
      default_col ''priority'' SMALLINT (Value (PgInt 100))]"

definition payment_sessions_columns :: "column list" where
  "payment_sessions_columns =
     [default_col ''id'' BIGINT NextVal, col ''region'' TEXT, col ''order_id'' BIGINT, col ''provider_id'' INT4,
      col ''provider_session_id'' TEXT, col ''redirect_url'' TEXT, col ''amount'' INT4, col ''currency'' TEXT,
      check_col ''status'' TEXT (OneOf [''initialized'', ''pending'', ''authorized'', ''captured'', ''failed'', ''expired'', ''cancelled'']),
      col ''raw_init_payload'' JSONB, null_col ''raw_last_payload'' JSONB,
      default_col ''created_at'' TIMESTAMP Now, default_col ''updated_at'' TIMESTAMP Now]"

definition old_transaction_types :: "string list" where
  "old_transaction_types = [''charge'', ''refund'', ''commission'', ''payout'', ''cod_collection'', ''adjustment'']"

definition new_transaction_types :: "string list" where
  "new_transaction_types =
     [''charge'', ''refund'', ''commission'', ''payout'', ''cod_collection'', ''service_fee'', ''delivery_fee'', ''adjustment'']"

definition transactions_columns :: "column list" where
  "transactions_columns =
     [default_col ''id'' BIGINT NextVal, col ''region'' TEXT, null_col ''order_id'' BIGINT,
      check_col ''transaction_type'' TEXT (OneOf old_transaction_types),
      check_col ''method'' TEXT (OneOf [''online'', ''cod'', ''bank_transfer'', ''system'']),
      null_col ''provider_id'' INT4, null_col ''provider_reference_id'' TEXT,
      check_col ''status'' TEXT (OneOf [''pending'', ''succeeded'', ''failed'', ''reversed'']),
      col ''amount'' INT4, col ''currency'' TEXT, null_col ''src_acc_id'' BIGINT, null_col ''dst_acc_id'' BIGINT,
      default_col ''is_refunded'' BOOLEAN (Value (PgBool False)), null_col ''refunded_payment_id'' BIGINT,
      null_col ''idempotency_key'' TEXT, default_col ''created_at'' TIMESTAMP Now, default_col ''updated_at'' TIMESTAMP Now]"

definition webhook_events_columns :: "column list" where
  "webhook_events_columns =
     [default_col ''id'' BIGINT NextVal, col ''region'' TEXT, col ''provider_id'' INT4, col ''provider_event_id'' TEXT,
      col ''signature'' TEXT, col ''payload'' JSONB, default_col ''received_at'' TIMESTAMP Now,
      null_col ''processed_at'' TIMESTAMP, null_col ''process_error'' TEXT]"

definition balances_columns :: "column list" where
  "balances_columns =
     [col ''restaurant_id'' BIGINT, col ''region'' TEXT, col ''currency'' TEXT,
      default_col ''balance'' INT4 (Value (PgInt 0)), default_col ''updated_at'' TIMESTAMP Now]"

definition earnings_columns :: "column list" where
  "earnings_columns =
     [default_col ''id'' BIGINT NextVal, col ''region'' TEXT, col ''agent_id'' BIGINT, col ''order_id'' BIGINT,
      col ''amount'' INT4, col ''currency'' TEXT, default_col ''earned_at'' TIMESTAMP Now]"

definition outbox_columns :: "column list" where
  "outbox_columns =
     [default_col ''id'' BIGINT NextVal, col ''aggregate_type'' TEXT, col ''aggregate_id'' TEXT, col ''event_type'' TEXT,
      col ''event_id'' UUID, col ''payload'' JSONB, default_col ''created_at'' TIMESTAMP Now,
      null_col ''dispatched_at'' TIMESTAMP, default_col ''attempts'' INT4 (Value (PgInt 0)), null_col ''last_error'' TEXT]"

lemmas column_defs = orders_columns_def order_items_columns_def payment_providers_columns_def
  payment_sessions_columns_def transactions_columns_def webhook_events_columns_def balances_columns_def
  earnings_columns_def outbox_columns_def old_transaction_types_def new_transaction_types_def
  col_def null_col_def default_col_def check_col_def

subsection \<open>The files of src/migrations\<close>

record migration =
  mi_name :: string
  mi_up :: "statement list"
  mi_down :: "statement list"

definition create_orders :: migration where
  "create_orders =
     \<lparr>mi_name = ''20260418000020_create_orders'',
      mi_up =
        [CreateSequence ''orders_id_seq'', CreateTable ''orders'' orders_columns [[''id'', ''created_at'']],
         OwnSequence ''orders_id_seq'' ''orders'',
         CreateIndex ''idx_orders_public_id'' ''orders'' [''public_id''],
         CreateIndex ''idx_orders_customer_id_created_at'' ''orders'' [''customer_id'', ''created_at''],
         CreateIndex ''idx_orders_branch_status_created_at'' ''orders'' [''branch_id'', ''status'', ''created_at''],
         CreateIndex ''idx_orders_status_created_at'' ''orders'' [''status'', ''created_at''],
         CreateIndex ''idx_orders_delivery_agent_id_status'' ''orders'' [''delivery_agent_id'', ''status''],
         CreateDefaultPartition ''orders_default'' ''orders''],
      mi_down = [DropTable ''orders'', DropSequence ''orders_id_seq'']\<rparr>"

definition create_order_items :: migration where
  "create_order_items =
     \<lparr>mi_name = ''20260418000030_create_order_items'',
      mi_up = [CreateTable ''order_items'' order_items_columns [[''id'']],
               CreateIndex ''idx_order_items_order_id'' ''order_items'' [''order_id'']],
      mi_down = [DropTable ''order_items'']\<rparr>"

text \<open>\<open>(process.env.REGION ?? '').toLowerCase()\<close> of the process that runs the migration is the parameter.\<close>

definition create_payment_providers :: "string \<Rightarrow> migration" where
  "create_payment_providers region =
     \<lparr>mi_name = ''20260506000010_create_payment_providers'',
      mi_up = CreateTable ''payment_providers'' payment_providers_columns [[''id''], [''name'']] #
        (if region = ''eg''
         then [InsertRow ''payment_providers'' [(''id'', PgInt 1), (''name'', PgText ''kashier''), (''is_enabled'', PgBool True), (''priority'', PgInt 10)]]
         else []),
      mi_down = [DropTable ''payment_providers'']\<rparr>"

definition create_payment_sessions :: migration where
  "create_payment_sessions =
     \<lparr>mi_name = ''20260506000040_create_payment_sessions'',
      mi_up = [CreateTable ''payment_sessions'' payment_sessions_columns [[''id''], [''provider_session_id'']],
               CreateIndex ''idx_payment_sessions_provider_session_id'' ''payment_sessions'' [''provider_session_id''],
               CreateIndex ''idx_payment_sessions_order_id'' ''payment_sessions'' [''order_id'']],
      mi_down = [DropTable ''payment_sessions'']\<rparr>"

definition create_transactions :: migration where
  "create_transactions =
     \<lparr>mi_name = ''20260506000050_create_transactions'',
      mi_up = [CreateTable ''transactions'' transactions_columns [[''id''], [''idempotency_key'']],
               CreateIndex ''idx_transactions_order_id'' ''transactions'' [''order_id''],
               CreateIndex ''idx_transactions_provider_reference_id'' ''transactions'' [''provider_reference_id''],
               CreateIndex ''idx_transactions_dst_acc_type_created_at'' ''transactions'' [''dst_acc_id'', ''transaction_type'', ''created_at''],
               CreateIndex ''idx_transactions_type_status_created_at'' ''transactions'' [''transaction_type'', ''status'', ''created_at'']],
      mi_down = [DropTable ''transactions'']\<rparr>"

definition create_payment_webhook_events :: migration where
  "create_payment_webhook_events =
     \<lparr>mi_name = ''20260506000110_create_payment_webhook_events'',
      mi_up = [CreateTable ''payment_webhook_events'' webhook_events_columns [[''id''], [''provider_id'', ''provider_event_id'']]],
      mi_down = [DropTable ''payment_webhook_events'']\<rparr>"

definition create_restaurant_balances :: migration where
  "create_restaurant_balances =
     \<lparr>mi_name = ''20260507000060_create_restaurant_balances'',
      mi_up = [CreateTable ''restaurant_balances'' balances_columns [[''restaurant_id'', ''currency'']]],
      mi_down = [DropTable ''restaurant_balances'']\<rparr>"

definition create_agent_earnings :: migration where
  "create_agent_earnings =
     \<lparr>mi_name = ''20260507000090_create_agent_earnings'',
      mi_up = [CreateTable ''agent_earnings'' earnings_columns [[''id''], [''order_id'']],
               CreateIndex ''idx_agent_earnings_agent_earned_at'' ''agent_earnings'' [''agent_id'', ''earned_at'']],
      mi_down = [DropTable ''agent_earnings'']\<rparr>"

definition create_events_outbox :: migration where
  "create_events_outbox =
     \<lparr>mi_name = ''20260511000001_create_events_outbox'',
      mi_up = [CreateTable ''events_outbox'' outbox_columns [[''id''], [''event_id'']],
               CreateIndex ''idx_events_outbox_pending'' ''events_outbox'' [''id'']],
      mi_down = [DropTable ''events_outbox'']\<rparr>"

definition add_fee_transaction_types :: migration where
  "add_fee_transaction_types =
     \<lparr>mi_name = ''20260902000001_add_fee_transaction_types'',
      mi_up = [DropCheck ''transactions'' ''transaction_type'', AddCheck ''transactions'' ''transaction_type'' new_transaction_types],
      mi_down = [DropCheck ''transactions'' ''transaction_type'', AddCheck ''transactions'' ''transaction_type'' old_transaction_types]\<rparr>"

definition migrations :: "string \<Rightarrow> migration list" where
  "migrations region =
     [create_orders, create_order_items, create_payment_providers region, create_payment_sessions, create_transactions,
      create_payment_webhook_events, create_restaurant_balances, create_agent_earnings, create_events_outbox,
      add_fee_transaction_types]"

lemmas migration_defs = create_orders_def create_order_items_def create_payment_providers_def create_payment_sessions_def
  create_transactions_def create_payment_webhook_events_def create_restaurant_balances_def create_agent_earnings_def
  create_events_outbox_def add_fee_transaction_types_def

definition empty_catalogue :: catalogue where
  "empty_catalogue = \<lparr>ct_tables = [], ct_sequences = [], ct_indexes = [], ct_partitions = []\<rparr>"

text \<open>\<open>knex migrate:latest\<close>: every \<open>up\<close> in the order of the file names; \<open>migrate:rollback --all\<close>: every \<open>down\<close>, last first.\<close>

definition latest :: "migration list \<Rightarrow> catalogue \<Rightarrow> exn + catalogue" where
  "latest ms = execute_all (concat (map mi_up ms))"

definition rollback :: "migration list \<Rightarrow> catalogue \<Rightarrow> exn + catalogue" where
  "rollback ms = execute_all (concat (map mi_down (rev ms)))"

subsection \<open>Up and down\<close>

lemma execute_all_append:
  "execute_all (ss @ ts) d = (case execute_all ss d of Inl e \<Rightarrow> Inl e | Inr d' \<Rightarrow> execute_all ts d')"
  by (induction ss arbitrary: d) (auto split: sum.splits)

text \<open>The relations a migration creates.\<close>

fun creates :: "statement \<Rightarrow> string list" where
  "creates (CreateSequence s) = [s]"
| "creates (CreateTable n _ _) = [n]"
| "creates (CreateIndex i _ _) = [i]"
| "creates (CreateDefaultPartition p _) = [p]"
| "creates _ = []"

text \<open>A table, its indexes and partitions are in a catalogue under names of their own, and dropping a table that is not there changes nothing.\<close>

definition catalogue_ok :: "catalogue \<Rightarrow> bool" where
  "catalogue_ok d \<longleftrightarrow>
     (\<forall>(i, n, cols)\<in>set (ct_indexes d). n \<in> fst ` set (ct_tables d)) \<and>
     (\<forall>(p, n)\<in>set (ct_partitions d). n \<in> fst ` set (ct_tables d))"

text \<open>\<open>d'\<close> is \<open>d\<close> with one more table and what belongs to it.\<close>

definition adds :: "string \<Rightarrow> catalogue \<Rightarrow> catalogue \<Rightarrow> bool" where
  "adds n d d' \<longleftrightarrow>
     n \<notin> set (relations d) \<and> ct_sequences d' = ct_sequences d \<and>
     (\<exists>tb. ct_tables d' = ct_tables d @ [(n, tb)]) \<and>
     (\<exists>is. ct_indexes d' = ct_indexes d @ is \<and> list_all (\<lambda>(_, m, _). m = n) is) \<and>
     (\<exists>ps. ct_partitions d' = ct_partitions d @ ps \<and> list_all (\<lambda>(_, m). m = n) ps)"

text \<open>The statements of an \<open>up\<close> after its \<open>CREATE TABLE\<close>.\<close>

fun on_table :: "string set \<Rightarrow> string \<Rightarrow> statement \<Rightarrow> bool" where
  "on_table qs n (CreateIndex _ m _) \<longleftrightarrow> m = n"
| "on_table qs n (CreateDefaultPartition _ m) \<longleftrightarrow> m = n"
| "on_table qs n (InsertRow m _) \<longleftrightarrow> m = n"
| "on_table qs n (OwnSequence s m) \<longleftrightarrow> m = n \<and> s \<in> qs"
| "on_table qs n _ \<longleftrightarrow> False"

lemma update_table_last:
  assumes "n \<notin> fst ` set (ct_tables d)" and "ct_tables d' = ct_tables d @ [(n, tb)]"
  shows "ct_tables (update_table n f d') = ct_tables d @ [(n, f tb)]"
proof -
  have "map (\<lambda>(m, tb). (m, if m = n then f tb else tb)) (ct_tables d) = ct_tables d"
    using assms(1) by (intro map_idI) force
  with assms(2) show ?thesis by (simp add: update_table_def)
qed

lemma update_table_simps [simp]:
  "ct_sequences (update_table n f d) = ct_sequences d" "ct_indexes (update_table n f d) = ct_indexes d"
  "ct_partitions (update_table n f d) = ct_partitions d" "relations (update_table n f d) = relations d"
  by (auto simp: update_table_def relations_def)

lemma execute_on:
  assumes ad: "adds n d d'" and on: "on_table (set (ct_sequences d)) n s" and new: "set (creates s) \<inter> set (relations d') = {}"
  shows "\<exists>d''. execute s d' = Inr d'' \<and> adds n d d'' \<and> set (relations d'') = set (relations d') \<union> set (creates s)"
proof (cases s)
  case (InsertRow m row)
  with ad on obtain tb where tb: "n \<notin> fst ` set (ct_tables d)" "ct_tables d' = ct_tables d @ [(n, tb)]" "m = n"
    by (auto simp: adds_def relations_def)
  from update_table_last [OF tb(1,2)] ad tb InsertRow show ?thesis by (simp add: adds_def)
qed (use ad on new in \<open>auto simp: adds_def relations_def\<close>)

lemma execute_all_on:
  "adds n d d' \<Longrightarrow> \<forall>s\<in>set ss. on_table (set (ct_sequences d)) n s \<Longrightarrow> distinct (concat (map creates ss)) \<Longrightarrow>
   set (concat (map creates ss)) \<inter> set (relations d') = {} \<Longrightarrow> \<exists>d''. execute_all ss d' = Inr d'' \<and> adds n d d''"
proof (induction ss arbitrary: d')
  case (Cons s ss)
  then obtain d1 where d1: "execute s d' = Inr d1" "adds n d d1" "set (relations d1) = set (relations d') \<union> set (creates s)"
    using execute_on [of n d d' s] by auto
  with Cons.prems have "set (concat (map creates ss)) \<inter> set (relations d1) = {}" by auto
  with Cons.IH [OF d1(2)] Cons.prems d1 show ?case by simp
qed simp

lemma drop_added:
  assumes "adds n d d'" and "catalogue_ok d"
  shows "execute (DropTable n) d' = Inr d"
proof -
  have n: "n \<notin> fst ` set (ct_tables d)" using assms(1) by (simp add: adds_def relations_def)
  then have "filter (\<lambda>(m, _). m \<noteq> n) (ct_tables d) = ct_tables d" by (intro filter_True) force
  moreover have "filter (\<lambda>(_, m, _). m \<noteq> n) (ct_indexes d) = ct_indexes d"
    using assms(2) n by (intro filter_True) (auto simp: catalogue_ok_def)
  moreover have "filter (\<lambda>(_, m). m \<noteq> n) (ct_partitions d) = ct_partitions d"
    using assms(2) n by (intro filter_True) (auto simp: catalogue_ok_def)
  moreover have "filter (\<lambda>(_, m, _). m \<noteq> n) is = []" if "list_all (\<lambda>(_, m, _). m = n) is"
    for "is" :: "(string \<times> string \<times> string list) list"
    using that by (auto simp: list_all_iff filter_empty_conv)
  moreover have "filter (\<lambda>(_, m). m \<noteq> n) ps = []" if "list_all (\<lambda>(_, m). m = n) ps" for ps :: "(string \<times> string) list"
    using that by (auto simp: list_all_iff filter_empty_conv)
  ultimately show ?thesis using assms(1) by (cases d; cases d') (auto simp: adds_def)
qed

text \<open>An \<open>up\<close> that creates one table and then only works on it, and a \<open>down\<close> that drops it.\<close>

definition one_table :: "string set \<Rightarrow> migration \<Rightarrow> bool" where
  "one_table qs m \<longleftrightarrow>
     (case mi_up m of
        CreateTable n cols us # ss \<Rightarrow> mi_down m = [DropTable n] \<and> list_all (on_table qs n) ss
      | _ \<Rightarrow> False) \<and>
     distinct (concat (map creates (mi_up m)))"

lemma one_table_up_down:
  assumes one: "one_table (set (ct_sequences d)) m" and ok: "catalogue_ok d"
    and new: "set (concat (map creates (mi_up m))) \<inter> set (relations d) = {}"
  shows "\<exists>d'. execute_all (mi_up m) d = Inr d' \<and> execute_all (mi_down m) d' = Inr d"
proof -
  from one obtain n cols us ss where up: "mi_up m = CreateTable n cols us # ss" and down: "mi_down m = [DropTable n]"
    and on: "\<forall>s\<in>set ss. on_table (set (ct_sequences d)) n s" and names: "distinct (concat (map creates (mi_up m)))"
    by (auto simp: one_table_def list_all_iff split: list.splits statement.splits)
  let ?d1 = "d\<lparr>ct_tables := ct_tables d @ [(n, \<lparr>tb_columns = cols, tb_uniques = us, tb_rows = []\<rparr>)]\<rparr>"
  have n: "n \<notin> set (relations d)" using new up by simp
  then have create: "execute (CreateTable n cols us) d = Inr ?d1" by simp
  have ad: "adds n d ?d1" using n by (simp add: adds_def)
  have "set (concat (map creates ss)) \<inter> set (relations ?d1) = {}"
    using new names up by (auto simp: relations_def)
  with execute_all_on [OF ad on] names up obtain d' where "execute_all ss ?d1 = Inr d'" "adds n d d'" by auto
  with drop_added [OF _ ok] create show ?thesis by (auto simp: up down)
qed

lemma one_tables:
  "one_table {} create_order_items" "one_table {} (create_payment_providers region)" "one_table {} create_payment_sessions"
  "one_table {} create_transactions" "one_table {} create_payment_webhook_events" "one_table {} create_restaurant_balances"
  "one_table {} create_agent_earnings" "one_table {} create_events_outbox"
  by (simp_all add: one_table_def migration_defs)

lemma on_table_mono: "on_table {} n s \<Longrightarrow> on_table qs n s"
  by (cases s) auto

lemma one_table_mono: "one_table {} m \<Longrightarrow> one_table qs m"
  by (auto simp: one_table_def list_all_iff split: list.splits statement.splits intro: on_table_mono)

text \<open>C37: Every migration that creates tables can be taken back: on any catalogue that has none of the names it
  creates, \<open>up\<close> succeeds and \<open>down\<close> then restores the catalogue exactly.\<close>

theorem migration_up_down:
  assumes m: "m \<in> set (migrations region)" "m \<noteq> add_fee_transaction_types"
    and ok: "catalogue_ok d" and new: "set (concat (map creates (mi_up m))) \<inter> set (relations d) = {}"
  shows "\<exists>d'. execute_all (mi_up m) d = Inr d' \<and> execute_all (mi_down m) d' = Inr d"
proof (cases "m = create_orders")
  case False
  with m have "m \<in> {create_order_items, create_payment_providers region, create_payment_sessions, create_transactions,
      create_payment_webhook_events, create_restaurant_balances, create_agent_earnings, create_events_outbox}"
    by (simp add: migrations_def)
  with one_tables have "one_table {} m" by blast
  then show ?thesis by (intro one_table_up_down ok new) (rule one_table_mono)
next
  case True
  let ?q = "''orders_id_seq''"
  let ?d = "d\<lparr>ct_sequences := ct_sequences d @ [?q]\<rparr>"
  let ?m = "\<lparr>mi_name = [], mi_up = tl (mi_up create_orders), mi_down = [DropTable ''orders'']\<rparr>"
  have q: "?q \<notin> set (relations d)" using new True by (simp add: create_orders_def)
  then have seq: "execute (CreateSequence ?q) d = Inr ?d" by (simp add: relations_def)
  have "\<exists>d'. execute_all (mi_up ?m) ?d = Inr d' \<and> execute_all (mi_down ?m) d' = Inr ?d"
  proof (rule one_table_up_down)
    show "catalogue_ok ?d" using ok by (simp add: catalogue_ok_def)
    show "set (concat (map creates (mi_up ?m))) \<inter> set (relations ?d) = {}"
      using new True by (auto simp: create_orders_def relations_def)
  qed (simp add: create_orders_def one_table_def)
  then obtain d' where up: "execute_all (tl (mi_up create_orders)) ?d = Inr d'"
    and "execute_all [DropTable ''orders''] d' = Inr ?d"
    by (simp only: migration.simps) blast
  then have down: "execute (DropTable ''orders'') d' = Inr ?d"
    by (cases "execute (DropTable ''orders'') d'") (simp_all del: execute.simps)
  have "filter (\<lambda>s. s \<noteq> ?q) (ct_sequences d) = ct_sequences d" using q by (intro filter_True) (auto simp: relations_def)
  then have drop: "execute (DropSequence ?q) ?d = Inr d" by simp
  have "mi_up m = CreateSequence ?q # tl (mi_up create_orders)" "mi_down m = [DropTable ''orders'', DropSequence ?q]"
    by (simp_all add: True create_orders_def)
  with seq up down drop show ?thesis by (simp del: execute.simps)
qed

text \<open>The whole list, from an empty database: it runs through, and rolling everything back leaves nothing behind.\<close>

lemma latest_rollback:
  "\<exists>d. latest (migrations region) empty_catalogue = Inr d \<and> rollback (migrations region) d = Inr empty_catalogue"
proof (cases "region = ''eg''")
  case True
  have "case latest (migrations ''eg'') empty_catalogue of Inl _ \<Rightarrow> False
      | Inr d \<Rightarrow> rollback (migrations ''eg'') d = Inr empty_catalogue" by code_simp
  with True show ?thesis by (auto split: sum.splits)
next
  case False
  then have "migrations region = migrations []" by (simp add: migrations_def create_payment_providers_def)
  moreover have "case latest (migrations []) empty_catalogue of Inl _ \<Rightarrow> False
      | Inr d \<Rightarrow> rollback (migrations []) d = Inr empty_catalogue" by code_simp
  ultimately show ?thesis by (auto split: sum.splits)
qed

theorem migration_up_down_witness:
  "\<exists>d'. execute_all (mi_up create_transactions) empty_catalogue = Inr d' \<and>
     execute_all (mi_down create_transactions) d' = Inr empty_catalogue"
  by (rule migration_up_down [of _ "''eg''"])
    (simp_all add: migrations_def catalogue_ok_def relations_def empty_catalogue_def migration_defs)

text \<open>
  The last migration cannot be taken back once a fee was booked: its \<open>down\<close> puts the old list of transaction types
  back, and a row of the settlement violates it.
\<close>

lemma map_of_update:
  "map_of (map (\<lambda>(n, tb). (n, if n = k then f tb else tb)) xs) k = map_option f (map_of xs k)"
  by (induction xs) auto

lemma fee_types_down_fails:
  assumes "map_of (ct_tables d) ''transactions'' = Some tb" and "check_of ''transaction_type'' tb \<noteq> Anything"
    and "r \<in> set (tb_rows tb)" and "pg_get ''transaction_type'' r \<in> {PgText ''service_fee'', PgText ''delivery_fee''}"
  shows "execute_all (mi_down add_fee_transaction_types) d = Inl check_error"
proof -
  let ?set = "set_check ''transaction_type'' Anything"
  have "map_of (ct_tables (update_table ''transactions'' ?set d)) ''transactions'' = Some (?set tb)"
    using assms(1) by (simp add: update_table_def map_of_update)
  moreover have "tb_rows (?set tb) = tb_rows tb" by (simp add: set_check_def)
  moreover have "check_of ''transaction_type'' (?set tb) = Anything"
    by (auto simp: check_of_def set_check_def find_Some_iff split: option.splits)
  moreover have "\<not> list_all (\<lambda>r. check_ok (OneOf old_transaction_types) (pg_get ''transaction_type'' r)) (tb_rows tb)"
    using assms(3,4) by (auto simp: list_all_iff old_transaction_types_def intro!: bexI [of _ r])
  ultimately show ?thesis using assms(1,2) by (simp add: add_fee_transaction_types_def)
qed

end
