(* ===== verification/Digits.thy ===== *)
theory Digits
  imports Util
begin

section \<open>Decimal texts of a fixed length\<close>

text \<open>
  What \<open>padStart\<close> of \<open>String(n)\<close> is read back as: shared by the dates of the partitions and the decimals of the driver.
\<close>

lemma nat_of_digits_acc: "nat_of_digits 0 s = Some b \<Longrightarrow> nat_of_digits acc s = Some (acc * 10 ^ length s + b)"
proof (induction s arbitrary: b rule: rev_induct)
  case (snoc c s)
  then obtain a d where "nat_of_digits 0 s = Some a" "char_digit c = Some d" "b = 10 * a + d"
    by (auto simp: nat_of_digits_append split: option.splits)
  with snoc.IH [of a] show ?case by (simp add: nat_of_digits_append algebra_simps)
qed simp

lemma nat_of_digits_zeros: "nat_of_digits 0 (replicate k CHR ''0'' @ s) = nat_of_digits 0 s"
  by (induction k) (simp_all add: char_digit_def)

lemma length_string_of_nat: "n < 10 ^ Suc k \<Longrightarrow> length (string_of_nat n) \<le> Suc k"
proof (induction k arbitrary: n)
  case (Suc k)
  then have "n div 10 < 10 ^ Suc k" by (intro less_mult_imp_div_less) (simp add: mult.commute)
  with Suc.IH show ?case by (subst string_of_nat.simps) simp
qed (subst string_of_nat.simps, simp)

lemma padStart_digits:
  assumes "n < 10 ^ k" and "0 < k"
  shows "length (padStart k (string_of_nat n)) = k"
    and "nat_of_digits acc (padStart k (string_of_nat n)) = Some (acc * 10 ^ k + n)"
proof -
  show len: "length (padStart k (string_of_nat n)) = k"
    using length_string_of_nat [of n "k - 1"] assms by (simp add: padStart_def)
  have "nat_of_digits 0 (padStart k (string_of_nat n)) = Some n"
    by (simp add: padStart_def nat_of_digits_zeros nat_of_digits_string_of_nat)
  from nat_of_digits_acc [OF this, of acc] len
  show "nat_of_digits acc (padStart k (string_of_nat n)) = Some (acc * 10 ^ k + n)" by simp
qed

lemma no_point: "CHR ''.'' \<notin> set (string_of_nat n)"
  by (auto dest: string_of_nat_chars)

lemma digit_chars: "c \<in> set (string_of_nat n) \<Longrightarrow> char_digit c \<noteq> None"
  using string_of_nat_chars [of c n] by (simp add: char_digit_def Let_def)

lemma padStart_chars: "c \<in> set (padStart k (string_of_nat n)) \<Longrightarrow> char_digit c \<noteq> None"
  by (auto simp: padStart_def char_digit_def dest: digit_chars split: if_splits)

lemma string_of_nat_length: "10 ^ k \<le> n \<Longrightarrow> n < 10 ^ Suc k \<Longrightarrow> length (string_of_nat n) = Suc k"
proof (induction k arbitrary: n)
  case (Suc k)
  then have "10 ^ k \<le> n div 10" "n div 10 < 10 ^ Suc k"
    by (simp_all add: less_eq_div_iff_mult_less_eq less_mult_imp_div_less mult.commute)
  moreover have "10 \<le> n" using Suc.prems(1) le_trans [of 10 "10 * 10 ^ k" n] by simp
  then have "\<not> n < 10" by simp
  ultimately show ?case using Suc.IH [of "n div 10"] by (subst string_of_nat.simps) simp
qed (subst string_of_nat.simps, simp)

end
