(* ===== verification/Rows.thy ===== *)
theory Rows
  imports Migrations Numbering Digits
begin

section \<open>Between rows and entities\<close>

text \<open>
  The repositories send column maps to Postgres and read driver rows back with \<open>toEntity\<close>; \<open>OrderRepo\<close>,
  \<open>LedgerRepo\<close> and \<open>OutboxRepo\<close> work on entities directly. Here the two views meet: \<open>pg_insert\<close> is an \<open>INSERT\<close>
  into a table of the migrations, \<open>driver\<close> is what \<open>node-postgres\<close> makes of a column (a \<open>BIGINT\<close> or a \<open>DECIMAL\<close>
  comes as text, a \<open>TIMESTAMP\<close> as a \<open>Date\<close>, a JSON null as \<open>null\<close>), \<open>*_values\<close> is the column map of an insert, and
  \<open>*_pg\<close> is an entity as a row. A coordinate is its number of ten-millionths in the table and in the entity; its
  text has a point and seven digits, and \<open>DECIMAL(10,7)\<close> takes three digits before the point. A JSON document is compared up to the order of its keys.
\<close>

subsection \<open>INSERT into a migrated table\<close>

definition null_error :: exn where
  "null_error = JsError ''null value violates not-null constraint''"

definition fill :: "int \<Rightarrow> int \<Rightarrow> pg_row \<Rightarrow> column \<Rightarrow> pg_value" where
  "fill newId t values c =
     (case map_of values (c_name c) of
        Some v \<Rightarrow> v
      | None \<Rightarrow> (case c_default c of NoDefault \<Rightarrow> PgNull | NextVal \<Rightarrow> PgInt newId | Now \<Rightarrow> PgTime t | Value v \<Rightarrow> v))"

fun fits :: "column_type \<Rightarrow> pg_value \<Rightarrow> bool" where
  "fits INT4 (PgInt n) \<longleftrightarrow> int4 n"
| "fits SMALLINT (PgInt n) \<longleftrightarrow> - 32768 \<le> n \<and> n \<le> 32767"
| "fits DECIMAL (PgInt n) \<longleftrightarrow> \<bar>n\<bar> < 10000000000"
| "fits _ _ \<longleftrightarrow> True"

definition new_row :: "int \<Rightarrow> int \<Rightarrow> pg_row \<Rightarrow> db_table \<Rightarrow> pg_row" where
  "new_row newId t values tb = map (\<lambda>c. (c_name c, fill newId t values c)) (tb_columns tb)"

definition same_key :: "pg_row \<Rightarrow> pg_row \<Rightarrow> string list \<Rightarrow> bool" where
  "same_key r r' ks \<longleftrightarrow> list_all (\<lambda>k. pg_get k r \<noteq> PgNull \<and> pg_get k r = pg_get k r') ks"

text \<open>
  One \<open>INSERT\<close> of one row: \<open>newId\<close> is what the sequence gives, \<open>t\<close> is \<open>NOW()\<close>, and \<open>target\<close> is the target of
  \<open>ON CONFLICT .. DO NOTHING\<close>, if there is one. It returns the new row, if any, and the rows after.
\<close>

definition conflicts :: "pg_row \<Rightarrow> db_table \<Rightarrow> string list \<Rightarrow> bool" where
  "conflicts r tb ks \<longleftrightarrow> list_ex (\<lambda>r'. same_key r r' ks) (tb_rows tb)"

definition pg_insert ::
  "int \<Rightarrow> int \<Rightarrow> string list option \<Rightarrow> pg_row \<Rightarrow> db_table \<Rightarrow> exn + (pg_row option \<times> pg_row list)" where
  "pg_insert newId t target values tb =
     (let r = new_row newId t values tb
      in if \<not> list_all2 (\<lambda>c (k, v). fits (c_type c) v) (tb_columns tb) r then Inl int4_error
         else if \<not> list_all2 (\<lambda>c (k, v). c_notNull c \<longrightarrow> v \<noteq> PgNull) (tb_columns tb) r then Inl null_error
         else if \<not> list_all2 (\<lambda>c (k, v). check_ok (c_check c) v) (tb_columns tb) r then Inl check_error
         else if case target of None \<Rightarrow> False | Some ks \<Rightarrow> conflicts r tb ks then Inr (None, tb_rows tb)
         else if list_ex (conflicts r tb) (tb_uniques tb) then Inl unique_error
         else Inr (Some r, tb_rows tb @ [r]))"

text \<open>A table as the migrations leave it, with rows.\<close>

definition migrated :: "string \<Rightarrow> pg_row list \<Rightarrow> db_table" where
  "migrated n rows =
     (case latest (migrations ''eg'') empty_catalogue of
        Inr d \<Rightarrow> (the (map_of (ct_tables d) n))\<lparr>tb_rows := rows\<rparr>
      | Inl _ \<Rightarrow> \<lparr>tb_columns = [], tb_uniques = [], tb_rows = rows\<rparr>)"

subsection \<open>The driver\<close>

datatype js_value = JsNull | JsNumber int | JsString string | JsBool bool | JsDate int | JsJson json

definition decimal_text :: "int \<Rightarrow> string" where
  "decimal_text n =
     (let m = nat \<bar>n\<bar>
      in (if n < 0 then ''-'' else []) @ string_of_nat (m div 10000000) @ ''.'' @ padStart 7 (string_of_nat (m mod 10000000)))"

fun driver :: "column_type \<Rightarrow> pg_value \<Rightarrow> js_value" where
  "driver _ PgNull = JsNull"
| "driver BIGINT (PgInt n) = JsString (string_of_int n)"
| "driver DECIMAL (PgInt n) = JsString (decimal_text n)"
| "driver _ (PgInt n) = JsNumber n"
| "driver _ (PgText s) = JsString s"
| "driver _ (PgBool b) = JsBool b"
| "driver _ (PgTime t) = JsDate t"
| "driver _ (PgJson j) = (if j = JNull then JsNull else JsJson j)"

type_synonym js_row = "string \<Rightarrow> js_value"

definition js_row_of :: "(string \<times> js_value) list \<Rightarrow> js_row" where
  "js_row_of kvs k = (case map_of kvs k of Some v \<Rightarrow> v | None \<Rightarrow> JsNull)"

definition returned :: "string list \<Rightarrow> db_table \<Rightarrow> pg_row \<Rightarrow> js_row" where
  "returned columns tb r =
     js_row_of (map (\<lambda>k. (k, driver (case find (\<lambda>c. c_name c = k) (tb_columns tb) of Some c \<Rightarrow> c_type c | None \<Rightarrow> TEXT)
                                (pg_get k r))) columns)"

text \<open>\<open>Number(v)\<close>; \<open>v !== null ? Number(v) : null\<close>; a text, date or JSON column as it is.\<close>

fun js_number :: "js_value \<Rightarrow> int" where
  "js_number (JsNumber n) = n"
| "js_number (JsString s) = (case Number s of Some n \<Rightarrow> n | None \<Rightarrow> 0)"
| "js_number _ = 0"

text \<open>\<open>Number(v)\<close> of a coordinate: the digits of its text without the point.\<close>

fun js_coordinate :: "js_value \<Rightarrow> int" where
  "js_coordinate (JsString s) = (case Number (filter (\<lambda>c. c \<noteq> CHR ''.'') s) of Some n \<Rightarrow> n | None \<Rightarrow> 0)"
| "js_coordinate _ = 0"

definition js_number_or_null :: "js_value \<Rightarrow> int option" where
  "js_number_or_null v = (if v = JsNull then None else Some (js_number v))"

fun js_text :: "js_value \<Rightarrow> string" where
  "js_text (JsString s) = s" | "js_text _ = []"

definition js_text_or_null :: "js_value \<Rightarrow> string option" where
  "js_text_or_null v = (if v = JsNull then None else Some (js_text v))"

fun js_time :: "js_value \<Rightarrow> int" where
  "js_time (JsDate t) = t" | "js_time _ = 0"

definition js_time_or_null :: "js_value \<Rightarrow> int option" where
  "js_time_or_null v = (if v = JsNull then None else Some (js_time v))"

fun js_json :: "js_value \<Rightarrow> json" where
  "js_json (JsJson j) = j" | "js_json _ = JNull"

definition js_json_or_null :: "js_value \<Rightarrow> json option" where
  "js_json_or_null v = (if v = JsNull then None else Some (js_json v))"

text \<open>\<open>row.status as OrderStatus\<close>: the text is taken for a member of the enumeration.\<close>

definition member_of :: "('a \<Rightarrow> string) \<Rightarrow> 'a list \<Rightarrow> js_value \<Rightarrow> 'a" where
  "member_of value members v = (case find (\<lambda>m. value m = js_text v) members of Some m \<Rightarrow> m | None \<Rightarrow> hd members)"

definition opt_pg :: "('a \<Rightarrow> pg_value) \<Rightarrow> 'a option \<Rightarrow> pg_value" where
  "opt_pg f v = (case v of None \<Rightarrow> PgNull | Some x \<Rightarrow> f x)"

lemma Number_text [simp]: "js_number (JsString (string_of_int n)) = n"
  by (simp add: Number_string_of_int)


lemma coordinate_text_read [simp]: "js_coordinate (JsString (decimal_text n)) = n"
proof -
  let ?m = "nat \<bar>n\<bar>"
  let ?ds = "string_of_nat (?m div 10000000) @ padStart 7 (string_of_nat (?m mod 10000000))"
  have keep: "filter (\<lambda>c. c \<noteq> CHR ''.'') (string_of_nat k) = string_of_nat k" for k
    using no_point [of k] by (intro filter_True) auto
  have ds: "nat_of_digits 0 ?ds = Some ?m"
    using padStart_digits(2) [of "?m mod 10000000" 7 "?m div 10000000"]
    by (simp add: nat_of_digits_append nat_of_digits_string_of_nat)
  have "filter (\<lambda>c. c \<noteq> CHR ''.'') (decimal_text n) = (if n < 0 then CHR ''-'' # ?ds else ?ds)"
    by (simp add: decimal_text_def Let_def padStart_def keep)
  moreover obtain c cs where "?ds = c # cs" "c \<noteq> CHR ''-''"
    by (cases ?ds) (use minus_not_in_string_of_nat [of "?m div 10000000"] in
      \<open>auto simp: append_eq_Cons_conv\<close>)
  ultimately show ?thesis using ds by (auto simp: Number_def)
qed

declare js_coordinate.simps [simp del]


subsection \<open>The tables the repositories use\<close>

text \<open>The columns of \<open>transactions\<close> after the last migration; then the catalogue after all of them, run once.\<close>

definition transactions_final_columns :: "column list" where
  "transactions_final_columns =
     map (\<lambda>c. if c_name c = ''transaction_type'' then c\<lparr>c_check := OneOf new_transaction_types\<rparr> else c) transactions_columns"

lemma migrated_tables:
  "case latest (migrations ''eg'') empty_catalogue of
     Inl _ \<Rightarrow> False
   | Inr d \<Rightarrow>
       map_of (ct_tables d) ''orders'' = Some \<lparr>tb_columns = orders_columns, tb_uniques = [[''id'', ''created_at'']], tb_rows = []\<rparr> \<and>
       map_of (ct_tables d) ''order_items'' = Some \<lparr>tb_columns = order_items_columns, tb_uniques = [[''id'']], tb_rows = []\<rparr> \<and>
       map_of (ct_tables d) ''payment_sessions'' = Some \<lparr>tb_columns = payment_sessions_columns, tb_uniques = [[''id''], [''provider_session_id'']], tb_rows = []\<rparr> \<and>
       map_of (ct_tables d) ''transactions'' = Some \<lparr>tb_columns = transactions_final_columns, tb_uniques = [[''id''], [''idempotency_key'']], tb_rows = []\<rparr> \<and>
       map_of (ct_tables d) ''payment_webhook_events'' = Some \<lparr>tb_columns = webhook_events_columns, tb_uniques = [[''id''], [''provider_id'', ''provider_event_id'']], tb_rows = []\<rparr> \<and>
       map_of (ct_tables d) ''restaurant_balances'' = Some \<lparr>tb_columns = balances_columns, tb_uniques = [[''restaurant_id'', ''currency'']], tb_rows = []\<rparr> \<and>
       map_of (ct_tables d) ''agent_earnings'' = Some \<lparr>tb_columns = earnings_columns, tb_uniques = [[''id''], [''order_id'']], tb_rows = []\<rparr> \<and>
       map_of (ct_tables d) ''events_outbox'' = Some \<lparr>tb_columns = outbox_columns, tb_uniques = [[''id''], [''event_id'']], tb_rows = []\<rparr>"
  by code_simp

lemma tables_migrated:
  "migrated ''orders'' rows =
     \<lparr>tb_columns = orders_columns, tb_uniques = [[''id'', ''created_at'']], tb_rows = rows\<rparr>"
  "migrated ''order_items'' rows =
     \<lparr>tb_columns = order_items_columns, tb_uniques = [[''id'']], tb_rows = rows\<rparr>"
  "migrated ''payment_sessions'' rows =
     \<lparr>tb_columns = payment_sessions_columns, tb_uniques = [[''id''], [''provider_session_id'']], tb_rows = rows\<rparr>"
  "migrated ''transactions'' rows =
     \<lparr>tb_columns = transactions_final_columns, tb_uniques = [[''id''], [''idempotency_key'']], tb_rows = rows\<rparr>"
  "migrated ''payment_webhook_events'' rows =
     \<lparr>tb_columns = webhook_events_columns, tb_uniques = [[''id''], [''provider_id'', ''provider_event_id'']], tb_rows = rows\<rparr>"
  "migrated ''restaurant_balances'' rows =
     \<lparr>tb_columns = balances_columns, tb_uniques = [[''restaurant_id'', ''currency'']], tb_rows = rows\<rparr>"
  "migrated ''agent_earnings'' rows =
     \<lparr>tb_columns = earnings_columns, tb_uniques = [[''id''], [''order_id'']], tb_rows = rows\<rparr>"
  "migrated ''events_outbox'' rows =
     \<lparr>tb_columns = outbox_columns, tb_uniques = [[''id''], [''event_id'']], tb_rows = rows\<rparr>"
  using migrated_tables by (auto simp: migrated_def split: sum.splits)

text \<open>\<open>select(COLUMNS)\<close> and \<open>returning(COLUMNS)\<close> name every column of the table.\<close>

definition ORDER_COLUMNS :: "string list" where
  "ORDER_COLUMNS =
     [''id'', ''region'', ''public_id'', ''country_code'', ''restaurant_id'', ''restaurant_owner_id'', ''branch_id'',
      ''customer_id'', ''customer_address_id'', ''delivery_lat'', ''delivery_lng'', ''delivery_address_text_snapshot'',
      ''branch_lat'', ''branch_lng'', ''status'', ''subtotal'', ''delivery_fee'', ''service_fee'', ''total'', ''commission'',
      ''currency'', ''payment_method'', ''delivery_agent_id'', ''created_at'', ''updated_at'', ''accepted_at'',
      ''rejected_at'', ''ready_at'', ''assigned_at'', ''picked_at'', ''delivered_at'', ''cancelled_at'']"

definition ORDER_ITEM_COLUMNS :: "string list" where
  "ORDER_ITEM_COLUMNS =
     [''id'', ''region'', ''order_id'', ''product_id'', ''quantity'', ''unit_price_snapshot'', ''name_snapshot'',
      ''image_url_snapshot'', ''line_total'', ''created_at'']"

definition PAYMENT_SESSION_COLUMNS :: "string list" where
  "PAYMENT_SESSION_COLUMNS =
     [''id'', ''region'', ''order_id'', ''provider_id'', ''provider_session_id'', ''redirect_url'', ''amount'', ''currency'',
      ''status'', ''raw_init_payload'', ''raw_last_payload'', ''created_at'', ''updated_at'']"

definition TRANSACTION_COLUMNS :: "string list" where
  "TRANSACTION_COLUMNS =
     [''id'', ''region'', ''order_id'', ''transaction_type'', ''method'', ''provider_id'', ''provider_reference_id'',
      ''status'', ''amount'', ''currency'', ''src_acc_id'', ''dst_acc_id'', ''is_refunded'', ''refunded_payment_id'',
      ''idempotency_key'', ''created_at'', ''updated_at'']"

definition WEBHOOK_EVENT_COLUMNS :: "string list" where
  "WEBHOOK_EVENT_COLUMNS =
     [''id'', ''region'', ''provider_id'', ''provider_event_id'', ''signature'', ''payload'', ''received_at'',
      ''processed_at'', ''process_error'']"

definition BALANCE_COLUMNS :: "string list" where
  "BALANCE_COLUMNS = [''restaurant_id'', ''region'', ''currency'', ''balance'', ''updated_at'']"

definition AGENT_EARNING_COLUMNS :: "string list" where
  "AGENT_EARNING_COLUMNS = [''id'', ''region'', ''agent_id'', ''order_id'', ''amount'', ''currency'', ''earned_at'']"

lemmas column_lists = ORDER_COLUMNS_def ORDER_ITEM_COLUMNS_def PAYMENT_SESSION_COLUMNS_def TRANSACTION_COLUMNS_def
  WEBHOOK_EVENT_COLUMNS_def BALANCE_COLUMNS_def AGENT_EARNING_COLUMNS_def

subsection \<open>Entities as rows\<close>

fun session_status_value :: "payment_session_status \<Rightarrow> string" where
  "session_status_value INITIALIZED = ''initialized''"
| "session_status_value PENDING = ''pending''"
| "session_status_value AUTHORIZED = ''authorized''"
| "session_status_value CAPTURED = ''captured''"
| "session_status_value FAILED = ''failed''"
| "session_status_value EXPIRED = ''expired''"
| "session_status_value SESSION_CANCELLED = ''cancelled''"

definition order_pg :: "order_entity \<Rightarrow> pg_row" where
  "order_pg e =
     [(''id'', PgInt (o_id e)), (''region'', PgText (o_region e)), (''public_id'', PgText (o_publicId e)),
      (''country_code'', PgText (o_countryCode e)), (''restaurant_id'', PgInt (o_restaurantId e)),
      (''restaurant_owner_id'', PgInt (o_restaurantOwnerId e)), (''branch_id'', PgInt (o_branchId e)),
      (''customer_id'', PgInt (o_customerId e)), (''customer_address_id'', PgInt (o_customerAddressId e)),
      (''delivery_lat'', PgInt (o_deliveryLat e)), (''delivery_lng'', PgInt (o_deliveryLng e)),
      (''delivery_address_text_snapshot'', PgText (o_deliveryAddressTextSnapshot e)),
      (''branch_lat'', PgInt (o_branchLat e)), (''branch_lng'', PgInt (o_branchLng e)),
      (''status'', PgText (status_value (o_status e))), (''subtotal'', PgInt (o_subtotal e)),
      (''delivery_fee'', PgInt (o_deliveryFee e)), (''service_fee'', PgInt (o_serviceFee e)), (''total'', PgInt (o_total e)),
      (''commission'', PgInt (o_commission e)), (''currency'', PgText (o_currency e)),
      (''payment_method'', PgText (payment_method_value (o_paymentMethod e))),
      (''delivery_agent_id'', opt_pg PgInt (o_deliveryAgentId e)), (''created_at'', PgTime (o_createdAt e)),
      (''updated_at'', PgTime (o_updatedAt e)), (''accepted_at'', opt_pg PgTime (o_acceptedAt e)),
      (''rejected_at'', opt_pg PgTime (o_rejectedAt e)), (''ready_at'', opt_pg PgTime (o_readyAt e)),
      (''assigned_at'', opt_pg PgTime (o_assignedAt e)), (''picked_at'', opt_pg PgTime (o_pickedAt e)),
      (''delivered_at'', opt_pg PgTime (o_deliveredAt e)), (''cancelled_at'', opt_pg PgTime (o_cancelledAt e))]"

definition item_pg :: "order_item_entity \<Rightarrow> pg_row" where
  "item_pg e =
     [(''id'', PgInt (i_id e)), (''region'', PgText (i_region e)), (''order_id'', PgInt (i_orderId e)),
      (''product_id'', PgInt (i_productId e)), (''quantity'', PgInt (i_quantity e)),
      (''unit_price_snapshot'', PgInt (i_unitPriceSnapshot e)), (''name_snapshot'', PgText (i_nameSnapshot e)),
      (''image_url_snapshot'', opt_pg PgText (i_imageUrlSnapshot e)), (''line_total'', PgInt (i_lineTotal e)),
      (''created_at'', PgTime (i_createdAt e))]"

definition session_pg :: "payment_session_entity \<Rightarrow> pg_row" where
  "session_pg e =
     [(''id'', PgInt (s_id e)), (''region'', PgText (s_region e)), (''order_id'', PgInt (s_orderId e)),
      (''provider_id'', PgInt (s_providerId e)), (''provider_session_id'', PgText (s_providerSessionId e)),
      (''redirect_url'', PgText (s_redirectUrl e)), (''amount'', PgInt (s_amount e)), (''currency'', PgText (s_currency e)),
      (''status'', PgText (session_status_value (s_status e))), (''raw_init_payload'', PgJson (s_rawInitPayload e)),
      (''raw_last_payload'', opt_pg PgJson (s_rawLastPayload e)), (''created_at'', PgTime (s_createdAt e)),
      (''updated_at'', PgTime (s_updatedAt e))]"

definition transaction_pg :: "transaction_entity \<Rightarrow> pg_row" where
  "transaction_pg e =
     [(''id'', PgInt (t_id e)), (''region'', PgText (t_region e)), (''order_id'', opt_pg PgInt (t_orderId e)),
      (''transaction_type'', PgText (transaction_type_value (t_transactionType e))),
      (''method'', PgText (transaction_method_value (t_method e))), (''provider_id'', opt_pg PgInt (t_providerId e)),
      (''provider_reference_id'', opt_pg PgText (t_providerReferenceId e)),
      (''status'', PgText (transaction_status_value (t_status e))), (''amount'', PgInt (t_amount e)),
      (''currency'', PgText (t_currency e)), (''src_acc_id'', opt_pg PgInt (t_srcAccId e)),
      (''dst_acc_id'', opt_pg PgInt (t_dstAccId e)), (''is_refunded'', PgBool (t_isRefunded e)),
      (''refunded_payment_id'', opt_pg PgInt (t_refundedPaymentId e)),
      (''idempotency_key'', opt_pg PgText (t_idempotencyKey e)), (''created_at'', PgTime (t_createdAt e)),
      (''updated_at'', PgTime (t_updatedAt e))]"

definition webhook_pg :: "webhook_event_entity \<Rightarrow> pg_row" where
  "webhook_pg e =
     [(''id'', PgInt (w_id e)), (''region'', PgText (w_region e)), (''provider_id'', PgInt (w_providerId e)),
      (''provider_event_id'', PgText (w_providerEventId e)), (''signature'', PgText (w_signature e)),
      (''payload'', PgJson (w_payload e)), (''received_at'', PgTime (w_receivedAt e)),
      (''processed_at'', opt_pg PgTime (w_processedAt e)), (''process_error'', opt_pg PgText (w_processError e))]"

definition balance_pg :: "restaurant_balance_entity \<Rightarrow> pg_row" where
  "balance_pg e =
     [(''restaurant_id'', PgInt (b_restaurantId e)), (''region'', PgText (b_region e)),
      (''currency'', PgText (b_currency e)), (''balance'', PgInt (b_balance e)), (''updated_at'', PgTime (b_updatedAt e))]"

definition earning_pg :: "agent_earning_entity \<Rightarrow> pg_row" where
  "earning_pg e =
     [(''id'', PgInt (e_id e)), (''region'', PgText (e_region e)), (''agent_id'', PgInt (e_agentId e)),
      (''order_id'', PgInt (e_orderId e)), (''amount'', PgInt (e_amount e)), (''currency'', PgText (e_currency e)),
      (''earned_at'', PgTime (e_earnedAt e))]"

definition outbox_pg :: "outbox_row \<Rightarrow> pg_row" where
  "outbox_pg e =
     [(''id'', PgInt (x_id e)), (''aggregate_type'', PgText (x_aggregateType e)),
      (''aggregate_id'', PgText (x_aggregateId e)), (''event_type'', PgText (x_eventType e)),
      (''event_id'', PgText (x_eventId e)), (''payload'', PgJson (x_payload e)), (''created_at'', PgTime (x_createdAt e)),
      (''dispatched_at'', opt_pg PgTime (x_dispatchedAt e)), (''attempts'', PgInt (x_attempts e)),
      (''last_error'', opt_pg PgText (x_lastError e))]"

lemmas pg_defs = order_pg_def item_pg_def session_pg_def transaction_pg_def webhook_pg_def balance_pg_def earning_pg_def
  outbox_pg_def

subsection \<open>toEntity\<close>

definition order_toEntity :: "js_row \<Rightarrow> order_entity" where
  "order_toEntity row =
     \<lparr>o_id = js_number (row ''id''), o_region = js_text (row ''region''), o_publicId = js_text (row ''public_id''),
      o_countryCode = js_text (row ''country_code''), o_restaurantId = js_number (row ''restaurant_id''),
      o_restaurantOwnerId = js_number (row ''restaurant_owner_id''), o_branchId = js_number (row ''branch_id''),
      o_customerId = js_number (row ''customer_id''), o_customerAddressId = js_number (row ''customer_address_id''),
      o_deliveryLat = js_coordinate (row ''delivery_lat''), o_deliveryLng = js_coordinate (row ''delivery_lng''),
      o_deliveryAddressTextSnapshot = js_text (row ''delivery_address_text_snapshot''),
      o_branchLat = js_coordinate (row ''branch_lat''), o_branchLng = js_coordinate (row ''branch_lng''),
      o_status = member_of status_value
        [PENDING_PAYMENT, PLACED, ACCEPTED, REJECTED, PREPARING, READY, ASSIGNED, PICKED, DELIVERED, CANCELLED] (row ''status''), o_subtotal = js_number (row ''subtotal''),
      o_deliveryFee = js_number (row ''delivery_fee''), o_serviceFee = js_number (row ''service_fee''),
      o_total = js_number (row ''total''), o_commission = js_number (row ''commission''),
      o_currency = js_text (row ''currency''),
      o_paymentMethod = member_of payment_method_value [ONLINE, COD] (row ''payment_method''),
      o_deliveryAgentId = js_number_or_null (row ''delivery_agent_id''), o_createdAt = js_time (row ''created_at''),
      o_updatedAt = js_time (row ''updated_at''), o_acceptedAt = js_time_or_null (row ''accepted_at''),
      o_rejectedAt = js_time_or_null (row ''rejected_at''), o_readyAt = js_time_or_null (row ''ready_at''),
      o_assignedAt = js_time_or_null (row ''assigned_at''), o_pickedAt = js_time_or_null (row ''picked_at''),
      o_deliveredAt = js_time_or_null (row ''delivered_at''), o_cancelledAt = js_time_or_null (row ''cancelled_at'')\<rparr>"

definition item_toEntity :: "js_row \<Rightarrow> order_item_entity" where
  "item_toEntity row =
     \<lparr>i_id = js_number (row ''id''), i_region = js_text (row ''region''), i_orderId = js_number (row ''order_id''),
      i_productId = js_number (row ''product_id''), i_quantity = js_number (row ''quantity''),
      i_unitPriceSnapshot = js_number (row ''unit_price_snapshot''), i_nameSnapshot = js_text (row ''name_snapshot''),
      i_imageUrlSnapshot = js_text_or_null (row ''image_url_snapshot''), i_lineTotal = js_number (row ''line_total''),
      i_createdAt = js_time (row ''created_at'')\<rparr>"

definition session_toEntity :: "js_row \<Rightarrow> payment_session_entity" where
  "session_toEntity row =
     \<lparr>s_id = js_number (row ''id''), s_region = js_text (row ''region''), s_orderId = js_number (row ''order_id''),
      s_providerId = js_number (row ''provider_id''), s_providerSessionId = js_text (row ''provider_session_id''),
      s_redirectUrl = js_text (row ''redirect_url''), s_amount = js_number (row ''amount''),
      s_currency = js_text (row ''currency''),
      s_status = member_of session_status_value
                   [INITIALIZED, PENDING, AUTHORIZED, CAPTURED, FAILED, EXPIRED, SESSION_CANCELLED] (row ''status''),
      s_rawInitPayload = js_json (row ''raw_init_payload''), s_rawLastPayload = js_json_or_null (row ''raw_last_payload''),
      s_createdAt = js_time (row ''created_at''), s_updatedAt = js_time (row ''updated_at'')\<rparr>"

definition transaction_toEntity :: "js_row \<Rightarrow> transaction_entity" where
  "transaction_toEntity row =
     \<lparr>t_id = js_number (row ''id''), t_region = js_text (row ''region''), t_orderId = js_number_or_null (row ''order_id''),
      t_transactionType = member_of transaction_type_value
        [CHARGE, REFUND, COMMISSION, PAYOUT, COD_COLLECTION, SERVICE_FEE, DELIVERY_FEE, ADJUSTMENT] (row ''transaction_type''),
      t_method = member_of transaction_method_value [TX_ONLINE, TX_COD, BANK_TRANSFER, TX_SYSTEM] (row ''method''),
      t_providerId = js_number_or_null (row ''provider_id''),
      t_providerReferenceId = js_text_or_null (row ''provider_reference_id''),
      t_status = member_of transaction_status_value [TX_PENDING, TX_SUCCEEDED, TX_FAILED, TX_REVERSED] (row ''status''),
      t_amount = js_number (row ''amount''), t_currency = js_text (row ''currency''),
      t_srcAccId = js_number_or_null (row ''src_acc_id''), t_dstAccId = js_number_or_null (row ''dst_acc_id''),
      t_isRefunded = (row ''is_refunded'' = JsBool True),
      t_refundedPaymentId = js_number_or_null (row ''refunded_payment_id''),
      t_idempotencyKey = js_text_or_null (row ''idempotency_key''), t_createdAt = js_time (row ''created_at''),
      t_updatedAt = js_time (row ''updated_at'')\<rparr>"

definition webhook_toEntity :: "js_row \<Rightarrow> webhook_event_entity" where
  "webhook_toEntity row =
     \<lparr>w_id = js_number (row ''id''), w_region = js_text (row ''region''), w_providerId = js_number (row ''provider_id''),
      w_providerEventId = js_text (row ''provider_event_id''), w_signature = js_text (row ''signature''),
      w_payload = js_json (row ''payload''), w_receivedAt = js_time (row ''received_at''),
      w_processedAt = js_time_or_null (row ''processed_at''), w_processError = js_text_or_null (row ''process_error'')\<rparr>"

definition balance_toEntity :: "js_row \<Rightarrow> restaurant_balance_entity" where
  "balance_toEntity row =
     \<lparr>b_restaurantId = js_number (row ''restaurant_id''), b_region = js_text (row ''region''),
      b_currency = js_text (row ''currency''), b_balance = js_number (row ''balance''),
      b_updatedAt = js_time (row ''updated_at'')\<rparr>"

definition earning_toEntity :: "js_row \<Rightarrow> agent_earning_entity" where
  "earning_toEntity row =
     \<lparr>e_id = js_number (row ''id''), e_region = js_text (row ''region''), e_agentId = js_number (row ''agent_id''),
      e_orderId = js_number (row ''order_id''), e_amount = js_number (row ''amount''),
      e_currency = js_text (row ''currency''), e_earnedAt = js_time (row ''earned_at'')\<rparr>"

lemmas toEntity_defs = order_toEntity_def item_toEntity_def session_toEntity_def transaction_toEntity_def
  webhook_toEntity_def balance_toEntity_def earning_toEntity_def

lemma opt_pg_simps [simp]: "opt_pg f None = PgNull" "opt_pg f (Some x) = f x"
  by (simp_all add: opt_pg_def)

lemma driver_opt_time [simp]: "js_time_or_null (driver TIMESTAMP (opt_pg PgTime v)) = v"
  by (cases v) (simp_all add: js_time_or_null_def)

lemma driver_opt_text [simp]: "js_text_or_null (driver TEXT (opt_pg PgText v)) = v"
  by (cases v) (simp_all add: js_text_or_null_def)

lemma driver_opt_number [simp]:
  "js_number_or_null (driver BIGINT (opt_pg PgInt v)) = v" "js_number_or_null (driver INT4 (opt_pg PgInt v)) = v"
  by (cases v; simp add: js_number_or_null_def)+

lemma driver_json [simp]: "js_json (driver JSONB (PgJson j)) = j"
  by simp

lemma driver_opt_json [simp]: "v \<noteq> Some JNull \<Longrightarrow> js_json_or_null (driver JSONB (opt_pg PgJson v)) = v"
  by (cases v) (auto simp: js_json_or_null_def)

lemma member_status [simp]:
  "member_of status_value [PENDING_PAYMENT, PLACED, ACCEPTED, REJECTED, PREPARING, READY, ASSIGNED, PICKED, DELIVERED, CANCELLED]
     (JsString (status_value s)) = s"
  by (cases s) (simp_all add: member_of_def)

lemma member_method [simp]:
  "member_of payment_method_value [ONLINE, COD] (JsString (payment_method_value m)) = m"
  by (cases m) (simp_all add: member_of_def)

lemma member_session_status [simp]:
  "member_of session_status_value [INITIALIZED, PENDING, AUTHORIZED, CAPTURED, FAILED, EXPIRED, SESSION_CANCELLED]
     (JsString (session_status_value s)) = s"
  by (cases s) (simp_all add: member_of_def)

lemma member_transaction_type [simp]:
  "member_of transaction_type_value [CHARGE, REFUND, COMMISSION, PAYOUT, COD_COLLECTION, SERVICE_FEE, DELIVERY_FEE, ADJUSTMENT]
     (JsString (transaction_type_value t)) = t"
  by (cases t) (simp_all add: member_of_def)

lemma member_transaction_method [simp]:
  "member_of transaction_method_value [TX_ONLINE, TX_COD, BANK_TRANSFER, TX_SYSTEM] (JsString (transaction_method_value m)) = m"
  by (cases m) (simp_all add: member_of_def)

lemma member_transaction_status [simp]:
  "member_of transaction_status_value [TX_PENDING, TX_SUCCEEDED, TX_FAILED, TX_REVERSED] (JsString (transaction_status_value s)) = s"
  by (cases s) (simp_all add: member_of_def)

text \<open>A row of each table as the driver returns it.\<close>

lemma js_row_of_Cons [simp]: "js_row_of ((k', v) # kvs) k = (if k = k' then v else js_row_of kvs k)"
  by (simp add: js_row_of_def)

text \<open>The rows of the model carry the columns of their table in its order.\<close>

lemma returned_in_order:
  assumes names: "map c_name (tb_columns tb) = map fst r" "columns = map fst r" and "distinct columns"
  shows "returned columns tb r = js_row_of (map2 (\<lambda>c (k, v). (k, driver (c_type c) v)) (tb_columns tb) r)"
proof -
  have len: "length (tb_columns tb) = length r" using names(1) by (metis length_map)
  have "(fst (r ! i), driver (case find (\<lambda>c. c_name c = fst (r ! i)) (tb_columns tb) of Some c \<Rightarrow> c_type c | None \<Rightarrow> TEXT)
          (pg_get (fst (r ! i)) r)) = (fst (r ! i), driver (c_type (tb_columns tb ! i)) (snd (r ! i)))"
    if i: "i < length r" for i
  proof -
    have nm: "c_name (tb_columns tb ! j) = fst (r ! j)" if "j < length r" for j
      using arg_cong [OF names(1), of "\<lambda>xs. xs ! j"] that len by simp
    have "fst (r ! j) \<noteq> fst (r ! i)" if "j < i" for j
      using assms(2,3) i that by (auto simp: distinct_conv_nth)
    then have "find (\<lambda>c. c_name c = fst (r ! i)) (tb_columns tb) = Some (tb_columns tb ! i)"
      using i len nm by (auto simp: find_Some_iff intro!: exI [of _ i])
    moreover have "map_of r (fst (r ! i)) = Some (snd (r ! i))" using assms(2,3) i by simp
    ultimately show ?thesis by (simp add: pg_get_def)
  qed
  with len show ?thesis
    unfolding returned_def assms(2) by (intro arg_cong [where f = js_row_of] nth_equalityI) (auto simp: case_prod_beta)
qed

lemmas in_order = tables_migrated column_defs column_lists pg_defs transactions_final_columns_def

lemmas reading = returned_in_order tables_migrated column_defs pg_defs transactions_final_columns_def toEntity_defs

lemma item_read:
  "item_toEntity (returned ORDER_ITEM_COLUMNS (migrated ''order_items'' rows) (item_pg e)) = e"
  by (subst returned_in_order, simp add: in_order, simp add: in_order, code_simp) (simp add: reading)

lemma session_read:
  "s_rawLastPayload e \<noteq> Some JNull \<Longrightarrow>
   session_toEntity (returned PAYMENT_SESSION_COLUMNS (migrated ''payment_sessions'' rows) (session_pg e)) = e"
  by (subst returned_in_order, simp add: in_order, simp add: in_order, code_simp) (simp add: reading)

lemma transaction_read:
  "transaction_toEntity (returned TRANSACTION_COLUMNS (migrated ''transactions'' rows) (transaction_pg e)) = e"
  by (subst returned_in_order, simp add: in_order, simp add: in_order, code_simp) (simp add: reading)

lemma webhook_read:
  "webhook_toEntity (returned WEBHOOK_EVENT_COLUMNS (migrated ''payment_webhook_events'' rows) (webhook_pg e)) = e"
  by (subst returned_in_order, simp add: in_order, simp add: in_order, code_simp) (simp add: reading)

lemma balance_read:
  "balance_toEntity (returned BALANCE_COLUMNS (migrated ''restaurant_balances'' rows) (balance_pg e)) = e"
  by (subst returned_in_order, simp add: in_order, simp add: in_order, code_simp) (simp add: reading)

lemma earning_read:
  "earning_toEntity (returned AGENT_EARNING_COLUMNS (migrated ''agent_earnings'' rows) (earning_pg e)) = e"
  by (subst returned_in_order, simp add: in_order, simp add: in_order, code_simp) (simp add: reading)

lemma order_read:
  "order_toEntity (returned ORDER_COLUMNS (migrated ''orders'' rows) (order_pg e)) = e"
  by (subst returned_in_order, simp add: in_order, simp add: in_order, code_simp) (simp add: reading)

lemma session_read_null:
  "session_toEntity (returned PAYMENT_SESSION_COLUMNS (migrated ''payment_sessions'' rows) (session_pg e)) =
   e\<lparr>s_rawLastPayload := (if s_rawLastPayload e = Some JNull then None else s_rawLastPayload e)\<rparr>"
proof (cases "s_rawLastPayload e = Some JNull")
  case True
  then show ?thesis
    by (subst returned_in_order, simp add: in_order, simp add: in_order, code_simp)
      (simp add: reading js_json_or_null_def)
qed (simp add: session_read)

subsection \<open>Inserts\<close>

text \<open>The column maps the repositories insert; a column that is not named takes its default.\<close>

definition order_values :: "create_order_input \<Rightarrow> pg_row" where
  "order_values n =
     [(''region'', PgText (n_region n)), (''public_id'', PgText (n_publicId n)), (''country_code'', PgText (n_countryCode n)),
      (''restaurant_id'', PgInt (n_restaurantId n)), (''restaurant_owner_id'', PgInt (n_restaurantOwnerId n)),
      (''branch_id'', PgInt (n_branchId n)), (''customer_id'', PgInt (n_customerId n)),
      (''customer_address_id'', PgInt (n_customerAddressId n)), (''delivery_lat'', PgInt (n_deliveryLat n)),
      (''delivery_lng'', PgInt (n_deliveryLng n)),
      (''delivery_address_text_snapshot'', PgText (n_deliveryAddressTextSnapshot n)),
      (''branch_lat'', PgInt (n_branchLat n)), (''branch_lng'', PgInt (n_branchLng n)),
      (''status'', PgText (status_value (n_status n))), (''subtotal'', PgInt (n_subtotal n)),
      (''delivery_fee'', PgInt (n_deliveryFee n)), (''service_fee'', PgInt (n_serviceFee n)), (''total'', PgInt (n_total n)),
      (''commission'', PgInt 0), (''currency'', PgText (n_currency n)),
      (''payment_method'', PgText (payment_method_value (n_paymentMethod n)))]"

definition session_values :: "create_session_input \<Rightarrow> pg_row" where
  "session_values n =
     [(''region'', PgText (ns_region n)), (''order_id'', PgInt (ns_orderId n)), (''provider_id'', PgInt (ns_providerId n)),
      (''provider_session_id'', PgText (ns_providerSessionId n)), (''redirect_url'', PgText (ns_redirectUrl n)),
      (''amount'', PgInt (ns_amount n)), (''currency'', PgText (ns_currency n)),
      (''status'', PgText (session_status_value (ns_status n))), (''raw_init_payload'', PgJson (ns_rawInitPayload n))]"

definition transaction_values :: "create_transaction_input \<Rightarrow> pg_row" where
  "transaction_values n =
     [(''region'', PgText (nt_region n)), (''order_id'', opt_pg PgInt (nt_orderId n)),
      (''transaction_type'', PgText (transaction_type_value (nt_transactionType n))),
      (''method'', PgText (transaction_method_value (nt_method n))), (''provider_id'', opt_pg PgInt (nt_providerId n)),
      (''provider_reference_id'', opt_pg PgText (nt_providerReferenceId n)),
      (''status'', PgText (transaction_status_value (nt_status n))), (''amount'', PgInt (nt_amount n)),
      (''currency'', PgText (nt_currency n)), (''src_acc_id'', opt_pg PgInt (nt_srcAccId n)),
      (''dst_acc_id'', opt_pg PgInt (nt_dstAccId n)), (''idempotency_key'', opt_pg PgText (nt_idempotencyKey n))]"

definition webhook_values :: "record_webhook_input \<Rightarrow> pg_row" where
  "webhook_values n =
     [(''region'', PgText (nw_region n)), (''provider_id'', PgInt (nw_providerId n)),
      (''provider_event_id'', PgText (nw_providerEventId n)), (''signature'', PgText (nw_signature n)),
      (''payload'', PgJson (nw_payload n))]"

definition earning_values :: "string \<Rightarrow> int \<Rightarrow> int \<Rightarrow> int \<Rightarrow> string \<Rightarrow> pg_row" where
  "earning_values region agentId orderId amount currency =
     [(''region'', PgText region), (''agent_id'', PgInt agentId), (''order_id'', PgInt orderId), (''amount'', PgInt amount),
      (''currency'', PgText currency)]"

definition outbox_values :: "string \<Rightarrow> outbox_input \<Rightarrow> pg_row" where
  "outbox_values eventId n =
     [(''aggregate_type'', PgText (ox_aggregateType n)), (''aggregate_id'', PgText (ox_aggregateId n)),
      (''event_type'', PgText (ox_eventType n)), (''event_id'', PgText eventId), (''payload'', PgJson (ox_payload n))]"

lemmas values_defs = order_values_def session_values_def transaction_values_def webhook_values_def earning_values_def
  outbox_values_def

lemmas row_defs = order_row_def session_row_def transaction_row_def webhook_row_def earning_row_def outbox_new_row_def

lemma fill_absent: "k \<notin> fst ` set values \<Longrightarrow> map_of values k = None"
  by (simp add: map_of_eq_None_iff)

lemmas filling = new_row_def tables_migrated column_defs transactions_final_columns_def pg_defs values_defs row_defs fill_def

lemma earning_new:
  "new_row newId t (earning_values region agentId orderId amount currency) (migrated ''agent_earnings'' rows) =
   earning_pg (earning_row newId t region agentId orderId amount currency)"
  by (simp add: filling)

lemma webhook_new:
  "new_row newId t (webhook_values n) (migrated ''payment_webhook_events'' rows) = webhook_pg (webhook_row newId t n)"
  by (simp add: filling)

lemma session_new:
  "new_row newId t (session_values n) (migrated ''payment_sessions'' rows) = session_pg (session_row newId t n)"
  by (simp add: filling)

lemma outbox_new:
  "new_row newId t (outbox_values eventId n) (migrated ''events_outbox'' rows) = outbox_pg (outbox_new_row newId t eventId n)"
  by (simp add: filling)

lemma transaction_new:
  "new_row newId t (transaction_values n) (migrated ''transactions'' rows) = transaction_pg (transaction_row newId t n)"
  by (simp add: filling)

lemma order_new: "new_row newId t (order_values n) (migrated ''orders'' rows) = order_pg (order_row newId t n)"
  by (simp add: filling)

text \<open>
  An insert into a table whose id is new: besides the id it has one unique key, and only \<open>INT\<close> columns can refuse a
  value.
\<close>

lemma pg_insert_key:
  assumes "new_row newId t values tb = pg e" and "tb_rows tb = map pg es" and "tb_uniques tb = [ident, ks]"
    and "list_all2 (\<lambda>c (k, v). fits (c_type c) v) (tb_columns tb) (pg e) \<longleftrightarrow> ok"
    and "list_all2 (\<lambda>c (k, v). c_notNull c \<longrightarrow> v \<noteq> PgNull) (tb_columns tb) (pg e)"
    and "list_all2 (\<lambda>c (k, v). check_ok (c_check c) v) (tb_columns tb) (pg e)"
    and fresh: "\<And>e'. e' \<in> set es \<Longrightarrow> \<not> same_key (pg e) (pg e') ident"
    and key: "\<And>e'. same_key (pg e) (pg e') ks \<longleftrightarrow> key e \<noteq> None \<and> key e = key e'"
  shows "pg_insert newId t None values tb =
      (if \<not> ok then Inl int4_error
       else case insert_or_skip key e es of (None, _) \<Rightarrow> Inl unique_error | (Some x, rows) \<Rightarrow> Inr (Some (pg x), map pg rows))"
    and "pg_insert newId t (Some ks) values tb =
      (if \<not> ok then Inl int4_error else Inr (map_prod (map_option pg) (map pg) (insert_or_skip key e es)))"
proof -
  have "\<not> conflicts (pg e) tb ident" "conflicts (pg e) tb ks \<longleftrightarrow> key e \<noteq> None \<and> key e \<in> key ` set es"
    using fresh by (auto simp: conflicts_def list_ex_iff assms(2) key)
  with assms(1-6) show "pg_insert newId t None values tb =
      (if \<not> ok then Inl int4_error
       else case insert_or_skip key e es of (None, _) \<Rightarrow> Inl unique_error | (Some x, rows) \<Rightarrow> Inr (Some (pg x), map pg rows))"
    and "pg_insert newId t (Some ks) values tb =
      (if \<not> ok then Inl int4_error else Inr (map_prod (map_option pg) (map pg) (insert_or_skip key e es)))"
    by (simp_all add: pg_insert_def insert_or_skip_def Let_def)
qed

lemmas column_checks = tables_migrated column_defs transactions_final_columns_def pg_defs row_defs

lemma opt_pg_eq [simp]: "opt_pg PgText k = PgNull \<longleftrightarrow> k = None" "opt_pg PgText k = opt_pg PgText k' \<longleftrightarrow> k = k'"
  by (cases k; cases k'; simp)+

lemma fits_any [simp]: "fits BIGINT v" "fits TEXT v" "fits TIMESTAMP v"
  by (cases v; simp)+

lemma fits_opt [simp]: "fits INT4 (opt_pg PgInt p) \<longleftrightarrow> (case p of None \<Rightarrow> True | Some n \<Rightarrow> int4 n)"
  by (cases p) simp_all

lemma type_checked [simp]: "check_ok (OneOf [''charge'', ''refund'', ''commission'', ''payout'', ''cod_collection'',
     ''service_fee'', ''delivery_fee'', ''adjustment'']) (PgText (transaction_type_value v))"
  by (cases v) simp_all

lemma method_checked [simp]: "check_ok (OneOf [''online'', ''cod'', ''bank_transfer'', ''system'']) (PgText (transaction_method_value v))"
  by (cases v) (simp_all)

lemma transaction_status_checked [simp]: "check_ok (OneOf [''pending'', ''succeeded'', ''failed'', ''reversed'']) (PgText (transaction_status_value v))"
  by (cases v) (simp_all)

lemma session_status_checked [simp]: "check_ok (OneOf [''initialized'', ''pending'', ''authorized'', ''captured'', ''failed'', ''expired'', ''cancelled'']) (PgText (session_status_value v))"
  by (cases v) (simp_all)

lemma status_checked [simp]: "check_ok (OneOf [''pending_payment'', ''placed'', ''accepted'', ''rejected'', ''preparing'', ''ready'', ''assigned'', ''picked'',
    ''delivered'', ''cancelled'']) (PgText (status_value v))"
  by (cases v) (simp_all)

lemma payment_method_checked [simp]: "check_ok (OneOf [''online'', ''cod'']) (PgText (payment_method_value v))"
  by (cases v) (simp_all)

declare check_ok.simps(2) [simp del]

lemmas key_checks = column_checks same_key_def pg_get_def earning_key_def webhook_key_def

lemma earning_insert:
  "newId \<notin> e_id ` set es \<Longrightarrow>
   pg_insert newId t (Some [''order_id'']) (earning_values region agentId orderId amount currency)
     (migrated ''agent_earnings'' (map earning_pg es)) =
   (if \<not> int4 amount then Inl int4_error
    else Inr (map_prod (map_option earning_pg) (map earning_pg)
           (insert_or_skip earning_key (earning_row newId t region agentId orderId amount currency) es)))"
  by (intro pg_insert_key(2) [where ident = "[''id'']"] earning_new) (auto simp: key_checks)

lemma webhook_insert:
  "newId \<notin> w_id ` set es \<Longrightarrow> int4 (nw_providerId n) \<Longrightarrow>
   pg_insert newId t (Some [''provider_id'', ''provider_event_id'']) (webhook_values n)
     (migrated ''payment_webhook_events'' (map webhook_pg es)) =
   Inr (map_prod (map_option webhook_pg) (map webhook_pg) (insert_or_skip webhook_key (webhook_row newId t n) es))"
  by (subst pg_insert_key(2) [where ident = "[''id'']" and ok = True and pg = webhook_pg and key = webhook_key, OF webhook_new])
    (auto simp: key_checks)

lemma session_insert:
  "newId \<notin> s_id ` set es \<Longrightarrow> int4 (ns_providerId n) \<Longrightarrow>
   pg_insert newId t None (session_values n) (migrated ''payment_sessions'' (map session_pg es)) =
   (if \<not> int4 (ns_amount n) then Inl int4_error
    else case insert_or_skip (\<lambda>s. Some (s_providerSessionId s)) (session_row newId t n) es of
           (None, _) \<Rightarrow> Inl unique_error | (Some x, rows) \<Rightarrow> Inr (Some (session_pg x), map session_pg rows))"
  by (intro pg_insert_key(1) [where ident = "[''id'']" and ks = "[''provider_session_id'']"] session_new) (auto simp: key_checks)

lemma transaction_insert:
  "newId \<notin> t_id ` set es \<Longrightarrow> pred_option int4 (nt_providerId n) \<Longrightarrow>
   pg_insert newId t None (transaction_values n) (migrated ''transactions'' (map transaction_pg es)) =
   (if \<not> int4 (nt_amount n) then Inl int4_error
    else case insert_or_skip t_idempotencyKey (transaction_row newId t n) es of
           (None, _) \<Rightarrow> Inl unique_error | (Some x, rows) \<Rightarrow> Inr (Some (transaction_pg x), map transaction_pg rows))"
  by (intro pg_insert_key(1) [where ident = "[''id'']" and ks = "[''idempotency_key'']"] transaction_new)
    (auto simp: key_checks split: option.splits)

lemma transaction_insert_or_skip:
  "newId \<notin> t_id ` set es \<Longrightarrow> pred_option int4 (nt_providerId n) \<Longrightarrow>
   pg_insert newId t (Some [''idempotency_key'']) (transaction_values n) (migrated ''transactions'' (map transaction_pg es)) =
   (if \<not> int4 (nt_amount n) then Inl int4_error
    else Inr (map_prod (map_option transaction_pg) (map transaction_pg)
           (insert_or_skip t_idempotencyKey (transaction_row newId t n) es)))"
  by (intro pg_insert_key(2) [where ident = "[''id'']"] transaction_new) (auto simp: key_checks split: option.splits)

definition coordinates_fit :: "create_order_input \<Rightarrow> bool" where
  "coordinates_fit n \<longleftrightarrow>
     (\<forall>x\<in>{n_deliveryLat n, n_deliveryLng n, n_branchLat n, n_branchLng n}. \<bar>x\<bar> < 10000000000)"

lemma order_insert:
  assumes "newId \<notin> o_id ` set es" and fit: "coordinates_fit n"
  shows "pg_insert newId t None (order_values n) (migrated ''orders'' (map order_pg es)) =
     (if \<not> (int4 (n_subtotal n) \<and> int4 (n_deliveryFee n) \<and> int4 (n_serviceFee n) \<and> int4 (n_total n)) then Inl int4_error
      else Inr (Some (order_pg (order_row newId t n)), map order_pg (es @ [order_row newId t n])))"
proof -
  let ?tb = "migrated ''orders'' (map order_pg es)" and ?r = "order_pg (order_row newId t n)"
  have "list_all2 (\<lambda>c (k, v). fits (c_type c) v) (tb_columns ?tb) ?r \<longleftrightarrow>
      int4 (n_subtotal n) \<and> int4 (n_deliveryFee n) \<and> int4 (n_serviceFee n) \<and> int4 (n_total n)"
    and "list_all2 (\<lambda>c (k, v). c_notNull c \<longrightarrow> v \<noteq> PgNull) (tb_columns ?tb) ?r"
    and "list_all2 (\<lambda>c (k, v). check_ok (c_check c) v) (tb_columns ?tb) ?r"
    using fit by (auto simp: column_checks int4_def coordinates_fit_def)
  moreover have "\<not> conflicts ?r ?tb [''id'', ''created_at'']"
    using assms by (auto simp: conflicts_def list_ex_iff key_checks)
  moreover have "tb_uniques ?tb = [[''id'', ''created_at'']]" "tb_rows ?tb = map order_pg es" by (simp_all add: tables_migrated)
  ultimately show ?thesis by (simp add: pg_insert_def order_new Let_def)
qed

subsection \<open>The repositories on the migrated tables\<close>

text \<open>
  An insert of a repository as SQL: the entities become the rows of the migrated table, Postgres inserts, and
  \<open>toEntity\<close> reads the row that comes back, and the table after.
\<close>

definition insert_sql ::
  "string \<Rightarrow> string list \<Rightarrow> (js_row \<Rightarrow> 'e) \<Rightarrow> ('e \<Rightarrow> pg_row) \<Rightarrow> string list option \<Rightarrow> pg_row \<Rightarrow> int \<Rightarrow> int \<Rightarrow> 'e list \<Rightarrow>
   exn + ('e option \<times> 'e list)" where
  "insert_sql name columns toEntity pg target values newId t es =
     (let tb = migrated name (map pg es); read = (\<lambda>r. toEntity (returned columns tb r))
      in case pg_insert newId t target values tb of
           Inl e \<Rightarrow> Inl e
         | Inr (r, rows) \<Rightarrow> Inr (map_option read r, map read rows))"

text \<open>The contract between a table and the repository that reads it: what was stored is what is read.\<close>

locale stored_entity =
  fixes name :: string and columns :: "string list" and toEntity :: "js_row \<Rightarrow> 'e" and pg :: "'e \<Rightarrow> pg_row"
    and ok :: "'e \<Rightarrow> bool"
  assumes read: "ok e \<Longrightarrow> toEntity (returned columns (migrated name rows) (pg e)) = e"
begin

lemma read_all: "list_all ok es \<Longrightarrow> map (\<lambda>r. toEntity (returned columns (migrated name rows) r)) (map pg es) = es"
  by (induction es) (simp_all add: read)

lemma insert_sql_Inr:
  assumes "pg_insert newId t target values (migrated name (map pg es)) = Inr (map_option pg out, map pg rows)"
    and "pred_option ok out" and "list_all ok rows"
  shows "insert_sql name columns toEntity pg target values newId t es = Inr (out, rows)"
  using assms read_all [OF assms(3)] by (cases out) (simp_all add: insert_sql_def read del: map_map)

lemma insert_sql_Inl:
  "pg_insert newId t target values (migrated name (map pg es)) = Inl e \<Longrightarrow>
   insert_sql name columns toEntity pg target values newId t es = Inl e"
  by (simp add: insert_sql_def)

text \<open>\<open>ON CONFLICT DO NOTHING\<close> on the entities.\<close>

lemma insert_sql_or_skip:
  assumes "pg_insert newId t target values (migrated name (map pg es)) =
      (if \<not> fine then Inl err else Inr (map_prod (map_option pg) (map pg) (insert_or_skip key e es)))"
    and "ok e" and "list_all ok es"
  shows "insert_sql name columns toEntity pg target values newId t es =
      (if \<not> fine then Inl err else Inr (insert_or_skip key e es))"
proof (cases fine)
  case True
  obtain out rows where split: "insert_or_skip key e es = (out, rows)" by fastforce
  with assms(2,3) have "pred_option ok out" "list_all ok rows" by (auto simp: insert_or_skip_def split: if_splits)
  with insert_sql_Inr [of newId t target "values" es out rows] True split assms(1) show ?thesis by simp
qed (use assms(1) in \<open>simp add: insert_sql_Inl\<close>)

lemma insert_sql_unique:
  assumes "pg_insert newId t target values (migrated name (map pg es)) =
      (if \<not> fine then Inl err
       else case insert_or_skip key e es of (None, _) \<Rightarrow> Inl err' | (Some x, rows) \<Rightarrow> Inr (Some (pg x), map pg rows))"
    and "ok e" and "list_all ok es"
  shows "insert_sql name columns toEntity pg target values newId t es =
      (if \<not> fine then Inl err
       else case insert_or_skip key e es of (None, _) \<Rightarrow> Inl err' | (Some x, rows) \<Rightarrow> Inr (Some x, rows))"
proof (cases "fine \<and> fst (insert_or_skip key e es) \<noteq> None")
  case True
  then have split: "insert_or_skip key e es = (Some e, es @ [e])" by (auto simp: insert_or_skip_def split: if_splits)
  with assms insert_sql_Inr [of newId t target "values" es "Some e" "es @ [e]"] True show ?thesis by simp
next
  case False
  with assms(1) show ?thesis by (auto simp: insert_sql_Inl split: prod.splits option.splits if_splits)
qed

end

interpretation stored_order: stored_entity "''orders''" ORDER_COLUMNS order_toEntity order_pg "\<lambda>_. True"
  by unfold_locales (rule order_read)

interpretation stored_item: stored_entity "''order_items''" ORDER_ITEM_COLUMNS item_toEntity item_pg "\<lambda>_. True"
  by unfold_locales (rule item_read)

interpretation stored_session: stored_entity "''payment_sessions''" PAYMENT_SESSION_COLUMNS session_toEntity session_pg
  "\<lambda>s. s_rawLastPayload s \<noteq> Some JNull"
  by unfold_locales (rule session_read)

interpretation stored_transaction: stored_entity "''transactions''" TRANSACTION_COLUMNS transaction_toEntity transaction_pg "\<lambda>_. True"
  by unfold_locales (rule transaction_read)

interpretation stored_webhook: stored_entity "''payment_webhook_events''" WEBHOOK_EVENT_COLUMNS webhook_toEntity webhook_pg "\<lambda>_. True"
  by unfold_locales (rule webhook_read)

interpretation stored_balance: stored_entity "''restaurant_balances''" BALANCE_COLUMNS balance_toEntity balance_pg "\<lambda>_. True"
  by unfold_locales (rule balance_read)

interpretation stored_earning: stored_entity "''agent_earnings''" AGENT_EARNING_COLUMNS earning_toEntity earning_pg "\<lambda>_. True"
  by unfold_locales (rule earning_read)

lemma stmt_cong_at: "(\<And>t. f t (shards w c) = g t (shards w c)) \<Longrightarrow> stmt c f w = stmt c g w"
  by (simp add: stmt_def split: option.split)

definition order_sql :: "create_order_input \<Rightarrow> int \<Rightarrow> shard \<Rightarrow> exn + (order_entity \<times> shard)" where
  "order_sql n t sh =
     (case insert_sql ''orders'' ORDER_COLUMNS order_toEntity order_pg None (order_values n)
             (q_orders (sqs sh) + 1) t (orders (tabs sh)) of
        Inl e \<Rightarrow> Inl e
      | Inr (r, rows) \<Rightarrow> Inr (the r, (set_orders rows sh)\<lparr>sqs := (sqs sh)\<lparr>q_orders := q_orders (sqs sh) + 1\<rparr>\<rparr>))"

definition session_sql :: "create_session_input \<Rightarrow> int \<Rightarrow> shard \<Rightarrow> exn + (payment_session_entity \<times> shard)" where
  "session_sql n t sh =
     (case insert_sql ''payment_sessions'' PAYMENT_SESSION_COLUMNS session_toEntity session_pg None (session_values n)
             (q_sessions (sqs sh) + 1) t (payment_sessions (tabs sh)) of
        Inl e \<Rightarrow> Inl e
      | Inr (r, rows) \<Rightarrow> Inr (the r, sh\<lparr>tabs := (tabs sh)\<lparr>payment_sessions := rows\<rparr>,
                                        sqs := (sqs sh)\<lparr>q_sessions := q_sessions (sqs sh) + 1\<rparr>\<rparr>))"

definition transaction_sql ::
  "string list option \<Rightarrow> create_transaction_input \<Rightarrow> int \<Rightarrow> shard \<Rightarrow> exn + (transaction_entity option \<times> shard)" where
  "transaction_sql target n t sh =
     (case insert_sql ''transactions'' TRANSACTION_COLUMNS transaction_toEntity transaction_pg target (transaction_values n)
             (q_transactions (sqs sh) + 1) t (transactions (tabs sh)) of
        Inl e \<Rightarrow> Inl e
      | Inr (r, rows) \<Rightarrow> Inr (r, set_transactions rows (q_transactions (sqs sh) + 1) sh))"

definition webhook_sql :: "record_webhook_input \<Rightarrow> int \<Rightarrow> shard \<Rightarrow> exn + (webhook_event_entity option \<times> shard)" where
  "webhook_sql n t sh =
     (case insert_sql ''payment_webhook_events'' WEBHOOK_EVENT_COLUMNS webhook_toEntity webhook_pg
             (Some [''provider_id'', ''provider_event_id'']) (webhook_values n)
             (q_webhooks (sqs sh) + 1) t (webhook_events (tabs sh)) of
        Inl e \<Rightarrow> Inl e
      | Inr (r, rows) \<Rightarrow> Inr (r, sh\<lparr>tabs := (tabs sh)\<lparr>webhook_events := rows\<rparr>,
                                    sqs := (sqs sh)\<lparr>q_webhooks := q_webhooks (sqs sh) + 1\<rparr>\<rparr>))"

definition earning_sql ::
  "string \<Rightarrow> int \<Rightarrow> int \<Rightarrow> int \<Rightarrow> string \<Rightarrow> int \<Rightarrow> shard \<Rightarrow> exn + (agent_earning_entity option \<times> shard)" where
  "earning_sql region agentId orderId amount currency t sh =
     (case insert_sql ''agent_earnings'' AGENT_EARNING_COLUMNS earning_toEntity earning_pg (Some [''order_id''])
             (earning_values region agentId orderId amount currency) (q_earnings (sqs sh) + 1) t (earnings (tabs sh)) of
        Inl e \<Rightarrow> Inl e
      | Inr (r, rows) \<Rightarrow> Inr (r, sh\<lparr>tabs := (tabs sh)\<lparr>earnings := rows\<rparr>,
                                    sqs := (sqs sh)\<lparr>q_earnings := q_earnings (sqs sh) + 1\<rparr>\<rparr>))"

lemma ids_fresh:
  assumes "ids_ok sh"
  shows "q_orders (sqs sh) + 1 \<notin> o_id ` set (orders (tabs sh))"
    and "q_sessions (sqs sh) + 1 \<notin> s_id ` set (payment_sessions (tabs sh))"
    and "q_transactions (sqs sh) + 1 \<notin> t_id ` set (transactions (tabs sh))"
    and "q_webhooks (sqs sh) + 1 \<notin> w_id ` set (webhook_events (tabs sh))"
    and "q_earnings (sqs sh) + 1 \<notin> e_id ` set (earnings (tabs sh))"
  using assms by (auto simp: ids_ok_def numbered_def)

lemma order_by_sql:
  assumes fit: "coordinates_fit n" and "ids_ok (shards w c)"
  shows "createOrder n c w = stmt c (order_sql n) w"
  unfolding createOrder_def
proof (rule stmt_cong_at)
  fix t
  let ?sh = "shards w c" and ?ok = "int4 (n_subtotal n) \<and> int4 (n_deliveryFee n) \<and> int4 (n_serviceFee n) \<and> int4 (n_total n)"
  let ?id = "q_orders (sqs ?sh) + 1" and ?es = "orders (tabs ?sh)"
  note ins = order_insert [OF ids_fresh(1) [OF assms(2)] fit, of t]
  have "insert_sql ''orders'' ORDER_COLUMNS order_toEntity order_pg None (order_values n) ?id t ?es =
      (if \<not> ?ok then Inl int4_error else Inr (Some (order_row ?id t n), ?es @ [order_row ?id t n]))"
  proof (cases ?ok)
    case True
    with ins show ?thesis by (simp del: map_append add: stored_order.insert_sql_Inr list_all_iff)
  qed (use ins in \<open>simp add: stored_order.insert_sql_Inl\<close>)
  then show "(if \<not> ?ok then Inl int4_error
      else let newId = ?id; row = order_row newId t n
           in Inr (row, (set_orders (orders (tabs ?sh) @ [row]) ?sh)\<lparr>sqs := (sqs ?sh)\<lparr>q_orders := newId\<rparr>\<rparr>)) = order_sql n t ?sh"
    by (simp add: order_sql_def Let_def)
qed

lemma session_by_sql:
  assumes "ids_ok (shards w c)" "int4 (ns_providerId n)"
    and "list_all (\<lambda>s. s_rawLastPayload s \<noteq> Some JNull) (payment_sessions (tabs (shards w c)))"
  shows "createSession n c w = stmt c (session_sql n) w"
  unfolding createSession_def
proof (rule stmt_cong_at)
  fix t
  let ?row = "session_row (q_sessions (sqs (shards w c)) + 1) t n"
  have "s_rawLastPayload ?row \<noteq> Some JNull" by (simp add: session_row_def)
  note sql = stored_session.insert_sql_unique [OF session_insert [OF ids_fresh(2) [OF assms(1)] assms(2)] this assms(3)]
  have "s_providerSessionId ?row = ns_providerSessionId n" by (simp add: session_row_def)
  then show "(if \<not> int4 (ns_amount n) then Inl int4_error
      else if ns_providerSessionId n \<in> s_providerSessionId ` set (payment_sessions (tabs (shards w c))) then Inl unique_error
      else let newId = q_sessions (sqs (shards w c)) + 1; row = session_row newId t n
           in Inr (row, (shards w c)\<lparr>tabs := (tabs (shards w c))\<lparr>payment_sessions := payment_sessions (tabs (shards w c)) @ [row]\<rparr>,
                                     sqs := (sqs (shards w c))\<lparr>q_sessions := newId\<rparr>\<rparr>)) = session_sql n t (shards w c)"
    by (auto simp: session_sql_def sql insert_or_skip_def image_iff Let_def)
qed

lemma transaction_by_sql:
  assumes "ids_ok (shards w c)" "pred_option int4 (nt_providerId n)"
  shows "createTransaction n c w = stmt c (\<lambda>t sh. map_sum id (map_prod the id) (transaction_sql None n t sh)) w"
  unfolding createTransaction_def
  by (rule stmt_cong_at)
    (use stored_transaction.insert_sql_unique [OF transaction_insert [OF ids_fresh(3) [OF assms(1)] assms(2)]] in
      \<open>simp add: transaction_sql_def list_all_iff insert_or_skip_def Let_def\<close>)

lemma transaction_or_skip_by_sql:
  assumes "ids_ok (shards w c)" "pred_option int4 (nt_providerId n)"
  shows "createTransactionIdempotent n c w = stmt c (transaction_sql (Some [''idempotency_key'']) n) w"
  unfolding createTransactionIdempotent_def
  by (rule stmt_cong_at)
    (use stored_transaction.insert_sql_or_skip [OF transaction_insert_or_skip [OF ids_fresh(3) [OF assms(1)] assms(2)]] in
      \<open>simp add: transaction_sql_def list_all_iff case_prod_beta Let_def\<close>)

lemma webhook_by_sql:
  assumes "ids_ok (shards w c)" "int4 (nw_providerId n)"
  shows "recordWebhookOrSkip n c w = stmt c (webhook_sql n) w"
  unfolding recordWebhookOrSkip_def
  by (rule stmt_cong_at)
    (use stored_webhook.insert_sql_or_skip [where fine = True, simplified, OF webhook_insert [OF ids_fresh(4) [OF assms(1)] assms(2)]] in
      \<open>simp add: webhook_sql_def list_all_iff case_prod_beta Let_def\<close>)

lemma earning_by_sql:
  assumes "ids_ok (shards w c)"
  shows "insertEarning region agentId orderId amount currency c w = stmt c (earning_sql region agentId orderId amount currency) w"
  unfolding insertEarning_def
  by (rule stmt_cong_at)
    (use stored_earning.insert_sql_or_skip [OF earning_insert [OF ids_fresh(5) [OF assms(1)]]] in
      \<open>simp add: earning_sql_def list_all_iff case_prod_beta Let_def\<close>)

subsection \<open>Properties\<close>

text \<open>C36: What is stored is what is read: for every entity class, \<open>toEntity\<close> of the driver's row (ids and decimals as
  text, nulls, dates, JSON, members of an enumeration) selected with the repository's column list from the migrated table
  gives the entity back, field by field. A payment session whose last payload was JSON \<open>null\<close> is the exception.\<close>

theorem entities_roundtrip:
  "order_toEntity (returned ORDER_COLUMNS (migrated ''orders'' rows) (order_pg o')) = o' \<and>
   item_toEntity (returned ORDER_ITEM_COLUMNS (migrated ''order_items'' rows) (item_pg i)) = i \<and>
   session_toEntity (returned PAYMENT_SESSION_COLUMNS (migrated ''payment_sessions'' rows) (session_pg s)) =
     s\<lparr>s_rawLastPayload := (if s_rawLastPayload s = Some JNull then None else s_rawLastPayload s)\<rparr> \<and>
   transaction_toEntity (returned TRANSACTION_COLUMNS (migrated ''transactions'' rows) (transaction_pg x)) = x \<and>
   webhook_toEntity (returned WEBHOOK_EVENT_COLUMNS (migrated ''payment_webhook_events'' rows) (webhook_pg w)) = w \<and>
   balance_toEntity (returned BALANCE_COLUMNS (migrated ''restaurant_balances'' rows) (balance_pg b)) = b \<and>
   earning_toEntity (returned AGENT_EARNING_COLUMNS (migrated ''agent_earnings'' rows) (earning_pg e)) = e"
  by (simp add: order_read item_read session_read_null transaction_read webhook_read balance_read earning_read)

end
