(* ===== verification/Inserts.thy ===== *)
theory Inserts
  imports Rows
begin

section \<open>Inserts of several rows, upserts, and all inserts against the schema\<close>

text \<open>
  \<open>bulkInsertItems\<close> and the outbox insert several rows with one \<open>INSERT\<close>, \<open>upsertIncrement\<close> is an
  \<open>INSERT .. ON CONFLICT .. DO UPDATE\<close>. Here these statements run on the migrated tables like the single-row
  inserts of \<open>Rows\<close>, and all eight inserting functions of the repositories are shown to be their SQL.
\<close>

subsection \<open>INSERT of several rows\<close>

text \<open>Every parameter is converted to the type of its column before a row is inserted.\<close>

definition params_fit :: "pg_row \<Rightarrow> db_table \<Rightarrow> bool" where
  "params_fit values tb \<longleftrightarrow>
     list_all (\<lambda>c. case map_of values (c_name c) of None \<Rightarrow> True | Some v \<Rightarrow> fits (c_type c) v) (tb_columns tb)"

text \<open>\<open>q\<close> is the last id the sequence gave. A row that is refused undoes the statement.\<close>

fun pg_insert_rows :: "int \<Rightarrow> int \<Rightarrow> pg_row list \<Rightarrow> db_table \<Rightarrow> exn + (pg_row list \<times> pg_row list)" where
  "pg_insert_rows q t [] tb = Inr ([], tb_rows tb)"
| "pg_insert_rows q t (v # vs) tb =
     (case pg_insert (q + 1) t None v tb of
        Inl e \<Rightarrow> Inl e
      | Inr (r, rows) \<Rightarrow>
          (case pg_insert_rows (q + 1) t vs (tb\<lparr>tb_rows := rows\<rparr>) of
             Inl e \<Rightarrow> Inl e
           | Inr (rs, rows') \<Rightarrow> Inr (the r # rs, rows')))"

definition pg_insert_many :: "int \<Rightarrow> int \<Rightarrow> pg_row list \<Rightarrow> db_table \<Rightarrow> exn + (pg_row list \<times> pg_row list)" where
  "pg_insert_many q t vs tb =
     (if list_all (\<lambda>v. params_fit v tb) vs then pg_insert_rows q t vs tb else Inl int4_error)"

lemma migrated_rows [simp]: "(migrated n rows)\<lparr>tb_rows := rows'\<rparr> = migrated n rows'"
  by (simp add: migrated_def split: sum.split)

definition item_values :: "insert_item_input \<Rightarrow> pg_row" where
  "item_values n =
     [(''region'', PgText (ni_region n)), (''order_id'', PgInt (ni_orderId n)), (''product_id'', PgInt (ni_productId n)),
      (''quantity'', PgInt (ni_quantity n)), (''unit_price_snapshot'', PgInt (ni_unitPriceSnapshot n)),
      (''name_snapshot'', PgText (ni_nameSnapshot n)), (''image_url_snapshot'', opt_pg PgText (ni_imageUrlSnapshot n)),
      (''line_total'', PgInt (ni_lineTotal n))]"

lemma item_new: "new_row newId t (item_values n) (migrated ''order_items'' rows) = item_pg (item_row newId t n)"
  by (simp add: filling item_values_def item_row_def)

lemma item_params:
  "params_fit (item_values n) (migrated ''order_items'' rows) \<longleftrightarrow>
   int4 (ni_quantity n) \<and> int4 (ni_unitPriceSnapshot n) \<and> int4 (ni_lineTotal n)"
  by (simp add: params_fit_def item_values_def tables_migrated column_defs)

lemma item_insert:
  assumes "newId \<notin> i_id ` set es" and "int4 (ni_quantity n)" and "int4 (ni_unitPriceSnapshot n)" and "int4 (ni_lineTotal n)"
  shows "pg_insert newId t None (item_values n) (migrated ''order_items'' (map item_pg es)) =
     (if 0 < ni_quantity n then Inr (Some (item_pg (item_row newId t n)), map item_pg (es @ [item_row newId t n]))
      else Inl check_error)"
proof -
  let ?tb = "migrated ''order_items'' (map item_pg es)" and ?r = "item_pg (item_row newId t n)"
  have "list_all2 (\<lambda>c (k, v). fits (c_type c) v) (tb_columns ?tb) ?r"
    and "list_all2 (\<lambda>c (k, v). c_notNull c \<longrightarrow> v \<noteq> PgNull) (tb_columns ?tb) ?r"
    and "list_all2 (\<lambda>c (k, v). check_ok (c_check c) v) (tb_columns ?tb) ?r \<longleftrightarrow> 0 < ni_quantity n"
    using assms(2-4) by (auto simp: column_checks item_row_def)
  moreover have "\<not> conflicts ?r ?tb [''id'']"
    using assms(1) by (auto simp: conflicts_def list_ex_iff key_checks item_row_def)
  moreover have "tb_uniques ?tb = [[''id'']]" "tb_rows ?tb = map item_pg es" by (simp_all add: tables_migrated)
  ultimately show ?thesis by (simp add: pg_insert_def item_new Let_def)
qed

lemma items_inserted:
  assumes "\<forall>e\<in>set es. i_id e \<le> q"
    and "list_all (\<lambda>n. int4 (ni_quantity n) \<and> int4 (ni_unitPriceSnapshot n) \<and> int4 (ni_lineTotal n)) ns"
  shows "pg_insert_rows q t (map item_values ns) (migrated ''order_items'' (map item_pg es)) =
     (if list_all (\<lambda>n. 0 < ni_quantity n) ns
      then Inr (map item_pg (item_rows q t ns), map item_pg (es @ item_rows q t ns)) else Inl check_error)"
  using assms
proof (induction ns arbitrary: q es)
  case Nil
  then show ?case by (simp add: tables_migrated)
next
  case (Cons n ns)
  have "q + 1 \<notin> i_id ` set es" using Cons.prems(1) by force
  note one = item_insert [OF this, of n t]
  have "\<forall>e\<in>set (es @ [item_row (q + 1) t n]). i_id e \<le> q + 1" using Cons.prems(1) by (force simp: item_row_def)
  note rest = Cons.IH [OF this]
  from one rest Cons.prems(2) show ?case by (simp del: map_append)
qed

lemma outbox_inserted:
  assumes "\<forall>e\<in>set es. x_id e \<le> q"
  shows "pg_insert_rows q t (map (\<lambda>(u, n). outbox_values u n) us) (migrated ''events_outbox'' (map outbox_pg es)) =
     (if distinct (map fst us) \<and> set (map fst us) \<inter> x_eventId ` set es = {}
      then Inr (map outbox_pg (outbox_rows q t us), map outbox_pg (es @ outbox_rows q t us)) else Inl unique_error)"
  using assms
proof (induction us arbitrary: q es)
  case Nil
  then show ?case by (simp add: tables_migrated)
next
  case (Cons un us)
  obtain u n where un: "un = (u, n)" by (cases un)
  let ?row = "outbox_new_row (q + 1) t u n"
  have "q + 1 \<notin> x_id ` set es" using Cons.prems by force
  then have one: "pg_insert (q + 1) t None (outbox_values u n) (migrated ''events_outbox'' (map outbox_pg es)) =
      (if \<not> True then Inl int4_error
       else case insert_or_skip (\<lambda>x. Some (x_eventId x)) ?row es of
              (None, _) \<Rightarrow> Inl unique_error | (Some x, rows) \<Rightarrow> Inr (Some (outbox_pg x), map outbox_pg rows))"
    by (intro pg_insert_key(1) [where ident = "[''id'']" and ks = "[''event_id'']"] outbox_new)
      (auto simp: key_checks int4_def)
  have "\<forall>e\<in>set (es @ [?row]). x_id e \<le> q + 1" using Cons.prems by (force simp: outbox_new_row_def)
  note rest = Cons.IH [OF this]
  have "x_eventId ?row = u" by (simp add: outbox_new_row_def)
  with one rest show ?case by (auto simp: un insert_or_skip_def image_iff simp del: map_append)
qed

subsection \<open>INSERT .. ON CONFLICT .. DO UPDATE\<close>

text \<open>\<open>upd\<close> makes the row that is there and \<open>EXCLUDED\<close>, the row that was to be inserted, the updated row.\<close>

definition row_fits :: "pg_row \<Rightarrow> db_table \<Rightarrow> bool" where
  "row_fits r tb \<longleftrightarrow> list_all2 (\<lambda>c (k, v). fits (c_type c) v) (tb_columns tb) r"

definition pg_upsert ::
  "int \<Rightarrow> string list \<Rightarrow> (pg_row \<Rightarrow> pg_row \<Rightarrow> pg_row) \<Rightarrow> pg_row \<Rightarrow> db_table \<Rightarrow> exn + (pg_row \<times> pg_row list)" where
  "pg_upsert t target upd values tb =
     (let new = new_row 0 t values tb
      in case pg_insert 0 t (Some target) values tb of
           Inl e \<Rightarrow> Inl e
         | Inr (Some r, rows) \<Rightarrow> Inr (r, rows)
         | Inr (None, rows) \<Rightarrow>
             (case find (\<lambda>r. same_key new r target) rows of
                None \<Rightarrow> Inl unique_error
              | Some old \<Rightarrow>
                  if row_fits (upd old new) tb
                  then Inr (upd old new, map (\<lambda>r. if same_key new r target then upd r new else r) rows)
                  else Inl int4_error))"

definition pg_set :: "string \<Rightarrow> pg_value \<Rightarrow> pg_row \<Rightarrow> pg_row" where
  "pg_set k v r = map (\<lambda>(k', v'). (k', if k' = k then v else v')) r"

fun pg_plus :: "pg_value \<Rightarrow> pg_value \<Rightarrow> pg_value" where
  "pg_plus (PgInt a) (PgInt b) = PgInt (a + b)"
| "pg_plus _ _ = PgNull"

definition balance_values :: "int \<Rightarrow> string \<Rightarrow> string \<Rightarrow> int \<Rightarrow> int \<Rightarrow> pg_row" where
  "balance_values restaurantId region currency delta t =
     [(''restaurant_id'', PgInt restaurantId), (''region'', PgText region), (''currency'', PgText currency),
      (''balance'', PgInt delta), (''updated_at'', PgTime t)]"

text \<open>\<open>SET balance = restaurant_balances.balance + EXCLUDED.balance, updated_at = NOW()\<close>\<close>

definition balance_update :: "int \<Rightarrow> pg_row \<Rightarrow> pg_row \<Rightarrow> pg_row" where
  "balance_update t old new =
     pg_set ''updated_at'' (PgTime t)
       (pg_set ''balance'' (pg_plus (pg_get ''balance'' old) (pg_get ''balance'' new)) old)"

abbreviation first_balance :: "int \<Rightarrow> string \<Rightarrow> string \<Rightarrow> int \<Rightarrow> int \<Rightarrow> restaurant_balance_entity" where
  "first_balance restaurantId region currency delta t \<equiv>
     \<lparr>b_restaurantId = restaurantId, b_region = region, b_currency = currency, b_balance = delta, b_updatedAt = t\<rparr>"

lemma balance_new:
  "new_row newId t (balance_values r g cur d t) (migrated ''restaurant_balances'' rows) = balance_pg (first_balance r g cur d t)"
  by (simp add: filling balance_values_def)

lemma balance_key:
  "same_key (balance_pg (first_balance r g cur d t)) (balance_pg b) [''restaurant_id'', ''currency''] \<longleftrightarrow> balance_at r cur b"
  by (auto simp: same_key_def pg_get_def balance_pg_def balance_at_def)

lemma balance_updated:
  "balance_update t (balance_pg b) (balance_pg (first_balance r g cur d t)) = balance_pg (add_balance d t b)"
  by (simp add: balance_update_def pg_set_def pg_get_def balance_pg_def add_balance_def)

lemma balance_fits: "row_fits (balance_pg b) (migrated ''restaurant_balances'' rows) \<longleftrightarrow> int4 (b_balance b)"
  by (simp add: row_fits_def tables_migrated column_defs balance_pg_def)

lemma find_map: "find p (map f xs) = map_option f (find (\<lambda>x. p (f x)) xs)"
  by (induction xs) auto

lemma balance_upsert:
  "pg_upsert t [''restaurant_id'', ''currency''] (balance_update t) (balance_values r g cur d t)
     (migrated ''restaurant_balances'' (map balance_pg bs)) =
   (if \<not> int4 d then Inl int4_error
    else case find (balance_at r cur) bs of
           None \<Rightarrow> Inr (balance_pg (first_balance r g cur d t), map balance_pg (bs @ [first_balance r g cur d t]))
         | Some b \<Rightarrow>
             if int4 (b_balance b + d)
             then Inr (balance_pg (add_balance d t b), map balance_pg (update_where (balance_at r cur) (add_balance d t) bs))
             else Inl int4_error)"
proof -
  let ?tb = "migrated ''restaurant_balances'' (map balance_pg bs)" and ?new = "balance_pg (first_balance r g cur d t)"
  let ?ks = "[''restaurant_id'', ''currency'']"
  have "list_all2 (\<lambda>c (k, v). fits (c_type c) v) (tb_columns ?tb) ?new \<longleftrightarrow> int4 d"
    and "list_all2 (\<lambda>c (k, v). c_notNull c \<longrightarrow> v \<noteq> PgNull) (tb_columns ?tb) ?new"
    and "list_all2 (\<lambda>c (k, v). check_ok (c_check c) v) (tb_columns ?tb) ?new"
    by (auto simp: tables_migrated column_defs balance_pg_def)
  moreover have "tb_uniques ?tb = [?ks]" "tb_rows ?tb = map balance_pg bs" by (simp_all add: tables_migrated)
  moreover have "conflicts ?new ?tb ?ks \<longleftrightarrow> find (balance_at r cur) bs \<noteq> None"
    by (auto simp: conflicts_def list_ex_iff tables_migrated balance_key find_None_iff)
  ultimately have ins: "pg_insert 0 t (Some ?ks) (balance_values r g cur d t) ?tb =
      (if \<not> int4 d then Inl int4_error
       else if find (balance_at r cur) bs \<noteq> None then Inr (None, map balance_pg bs)
       else Inr (Some ?new, map balance_pg bs @ [?new]))"
    by (simp add: pg_insert_def balance_new Let_def)
  have upd: "map (\<lambda>r'. if same_key ?new r' ?ks then balance_update t r' ?new else r') (map balance_pg bs) =
      map balance_pg (update_where (balance_at r cur) (add_balance d t) bs)"
    by (simp add: update_where_def balance_key balance_updated)
  show ?thesis
    unfolding pg_upsert_def ins balance_new Let_def
    by (auto simp: find_map balance_key balance_updated balance_fits upd add_balance_def simp del: map_map
        split: option.splits)
qed

subsection \<open>The repositories on the migrated tables\<close>

text \<open>A row of \<open>events_outbox\<close> with all its columns; \<open>claimBatch\<close> selects those the drain needs.\<close>

definition outbox_read :: "js_row \<Rightarrow> outbox_row" where
  "outbox_read row =
     \<lparr>x_id = js_number (row ''id''), x_aggregateType = js_text (row ''aggregate_type''),
      x_aggregateId = js_text (row ''aggregate_id''), x_eventType = js_text (row ''event_type''),
      x_eventId = js_text (row ''event_id''), x_payload = js_json (row ''payload''),
      x_createdAt = js_time (row ''created_at''), x_dispatchedAt = js_time_or_null (row ''dispatched_at''),
      x_attempts = js_number (row ''attempts''), x_lastError = js_text_or_null (row ''last_error'')\<rparr>"

definition OUTBOX_COLUMNS :: "string list" where
  "OUTBOX_COLUMNS =
     [''id'', ''aggregate_type'', ''aggregate_id'', ''event_type'', ''event_id'', ''payload'', ''created_at'',
      ''dispatched_at'', ''attempts'', ''last_error'']"

interpretation stored_outbox: stored_entity "''events_outbox''" OUTBOX_COLUMNS outbox_read outbox_pg "\<lambda>_. True"
  by unfold_locales
    (subst returned_in_order, simp add: in_order, simp add: in_order OUTBOX_COLUMNS_def, code_simp,
     simp add: reading outbox_read_def)

definition items_sql :: "insert_item_input list \<Rightarrow> int \<Rightarrow> shard \<Rightarrow> exn + (order_item_entity list \<times> shard)" where
  "items_sql ns t sh =
     (let tb = migrated ''order_items'' (map item_pg (order_items (tabs sh)));
          read = (\<lambda>r. item_toEntity (returned ORDER_ITEM_COLUMNS tb r))
      in case pg_insert_many (q_items (sqs sh)) t (map item_values ns) tb of
           Inl e \<Rightarrow> Inl e
         | Inr (rs, rows) \<Rightarrow>
             Inr (map read rs, sh\<lparr>tabs := (tabs sh)\<lparr>order_items := map read rows\<rparr>,
                                  sqs := (sqs sh)\<lparr>q_items := q_items (sqs sh) + int (length ns)\<rparr>\<rparr>))"

definition outbox_sql :: "(string \<times> outbox_input) list \<Rightarrow> int \<Rightarrow> shard \<Rightarrow> exn + (unit \<times> shard)" where
  "outbox_sql us t sh =
     (let tb = migrated ''events_outbox'' (map outbox_pg (outbox (tabs sh)));
          read = (\<lambda>r. outbox_read (returned OUTBOX_COLUMNS tb r))
      in case pg_insert_many (q_outbox (sqs sh)) t (map (\<lambda>(u, n). outbox_values u n) us) tb of
           Inl e \<Rightarrow> Inl e
         | Inr (_, rows) \<Rightarrow>
             Inr ((), (set_outbox (map read rows) sh)\<lparr>sqs := (sqs sh)\<lparr>q_outbox := q_outbox (sqs sh) + int (length us)\<rparr>\<rparr>))"

definition balance_sql ::
  "int \<Rightarrow> string \<Rightarrow> string \<Rightarrow> int \<Rightarrow> int \<Rightarrow> shard \<Rightarrow> exn + (restaurant_balance_entity \<times> shard)" where
  "balance_sql restaurantId region currency delta t sh =
     (let tb = migrated ''restaurant_balances'' (map balance_pg (balances (tabs sh)));
          read = (\<lambda>r. balance_toEntity (returned BALANCE_COLUMNS tb r))
      in case pg_upsert t [''restaurant_id'', ''currency''] (balance_update t)
                (balance_values restaurantId region currency delta t) tb of
           Inl e \<Rightarrow> Inl e
         | Inr (r, rows) \<Rightarrow> Inr (read r, set_balances (map read rows) sh))"

lemma read_back:
  "map (\<lambda>r. item_toEntity (returned ORDER_ITEM_COLUMNS (migrated ''order_items'' rows) r)) (map item_pg es) = es"
  "map (\<lambda>r. outbox_read (returned OUTBOX_COLUMNS (migrated ''events_outbox'' rows) r)) (map outbox_pg xs) = xs"
  "map (\<lambda>r. balance_toEntity (returned BALANCE_COLUMNS (migrated ''restaurant_balances'' rows) r)) (map balance_pg bs) = bs"
  by (rule stored_item.read_all stored_outbox.read_all stored_balance.read_all; simp add: list_all_iff)+

lemma items_by_sql:
  assumes "ids_ok (shards w c)" and "ns \<noteq> []"
  shows "bulkInsertItems ns c w = stmt c (items_sql ns) w"
  unfolding bulkInsertItems_def if_not_P [OF assms(2)]
proof (rule stmt_cong_at)
  fix t
  let ?sh = "shards w c" and ?fit = "list_all (\<lambda>n. int4 (ni_quantity n) \<and> int4 (ni_unitPriceSnapshot n) \<and> int4 (ni_lineTotal n)) ns"
  have ids: "\<forall>e\<in>set (order_items (tabs ?sh)). i_id e \<le> q_items (sqs ?sh)"
    using assms(1) by (auto simp: ids_ok_def numbered_def)
  have fit: "list_all (\<lambda>v. params_fit v (migrated ''order_items'' rows)) (map item_values ns) \<longleftrightarrow> ?fit" for rows
    by (simp add: list_all_iff item_params)
  show "(if \<not> ?fit then Inl int4_error
        else if \<not> list_all (\<lambda>n. 0 < ni_quantity n) ns then Inl check_error
        else let q = q_items (sqs ?sh); rows = item_rows q t ns
             in Inr (rows, ?sh\<lparr>tabs := (tabs ?sh)\<lparr>order_items := order_items (tabs ?sh) @ rows\<rparr>,
                           sqs := (sqs ?sh)\<lparr>q_items := q + int (length ns)\<rparr>\<rparr>)) = items_sql ns t ?sh"
    using items_inserted [OF ids]
    by (simp add: items_sql_def pg_insert_many_def fit read_back Let_def del: map_append map_map)
qed

lemma outbox_by_sql:
  assumes "ids_ok (shards w c)"
  shows "insert_outbox_rows us c w = stmt c (outbox_sql us) w"
  unfolding insert_outbox_rows_def
proof (rule stmt_cong_at)
  fix t
  let ?sh = "shards w c"
  have ids: "\<forall>e\<in>set (outbox (tabs ?sh)). x_id e \<le> q_outbox (sqs ?sh)"
    using assms by (auto simp: ids_ok_def numbered_def)
  have fit: "list_all (\<lambda>v. params_fit v (migrated ''events_outbox'' rows)) (map (\<lambda>(u, n). outbox_values u n) us)" for rows
    by (auto simp: list_all_iff params_fit_def outbox_values_def tables_migrated column_defs)
  have events: "map x_eventId (outbox_rows q t us) = map fst us" for q
    by (induction us arbitrary: q) (auto simp: outbox_new_row_def)
  have clash: "(\<not> distinct (map x_eventId (outbox_rows q t us)) \<or> (\<exists>e\<in>set (map x_eventId (outbox_rows q t us)). e \<in> X)) \<longleftrightarrow>
      \<not> (distinct (map fst us) \<and> set (map fst us) \<inter> X = {})" for q and X :: "string set"
    unfolding events by auto
  show "(let q = q_outbox (sqs ?sh); rows = outbox_rows q t us
     in if \<not> distinct (map x_eventId rows) \<or>
           (\<exists>e\<in>set (map x_eventId rows). e \<in> x_eventId ` set (outbox (tabs ?sh)))
        then Inl unique_error
        else Inr ((), (set_outbox (outbox (tabs ?sh) @ rows) ?sh)\<lparr>sqs := (sqs ?sh)\<lparr>q_outbox := q + int (length us)\<rparr>\<rparr>)) =
      outbox_sql us t ?sh"
    unfolding Let_def clash using outbox_inserted [OF ids, of t us]
    by (simp add: outbox_sql_def pg_insert_many_def fit read_back Let_def del: map_append map_map set_map)
qed

lemma balance_by_sql: "upsertIncrement r g cur d c w = stmt c (balance_sql r g cur d) w"
  unfolding upsertIncrement_def
  by (rule stmt_cong_at)
    (auto simp: balance_sql_def balance_upsert read_back stored_balance.read Let_def simp del: map_append map_map
      split: option.splits)

subsection \<open>Property\<close>

text \<open>C35: Each inserting function of the repositories is one \<open>INSERT\<close> into the table the migrations create. This covers
  orders, order items (several rows), payment sessions, transactions (with and without \<open>ON CONFLICT DO NOTHING\<close>),
  webhook events, agent earnings, outbox events (several rows) and the increment of a balance
  (\<open>ON CONFLICT DO UPDATE\<close>): the row or rows that come back, the table after, the skip or the update on a conflict
  and every refusal (integer out of range, quantity not positive, unique key) are what the column types, defaults, checks and unique
  constraints of the migrations give. It needs ids from the sequence, inputs whose provider ids and coordinates
  fit their columns, and, for the payment sessions, that no stored session has the JSON value \<open>null\<close> as its last
  payload, which the driver does not tell from no payload.\<close>

theorem inserts_refine_schema:
  assumes "ids_ok (shards w c)" and "coordinates_fit o'" and "int4 (ns_providerId n)"
    and "list_all (\<lambda>s. s_rawLastPayload s \<noteq> Some JNull) (payment_sessions (tabs (shards w c)))"
    and "pred_option int4 (nt_providerId x)" and "int4 (nw_providerId v)"
  shows "createOrder o' c w = stmt c (order_sql o') w \<and>
    bulkInsertItems ns c w = (if ns = [] then returnE [] else stmt c (items_sql ns)) w \<and>
    createSession n c w = stmt c (session_sql n) w \<and>
    createTransaction x c w = stmt c (\<lambda>t sh. map_sum id (map_prod the id) (transaction_sql None x t sh)) w \<and>
    createTransactionIdempotent x c w = stmt c (transaction_sql (Some [''idempotency_key'']) x) w \<and>
    recordWebhookOrSkip v c w = stmt c (webhook_sql v) w \<and>
    insertEarning region agentId orderId amount currency c w = stmt c (earning_sql region agentId orderId amount currency) w \<and>
    insert_outbox_rows us c w = stmt c (outbox_sql us) w \<and>
    upsertIncrement restaurantId region currency delta c w = stmt c (balance_sql restaurantId region currency delta) w"
  using assms items_by_sql [of w c ns]
  by (intro conjI order_by_sql session_by_sql transaction_by_sql transaction_or_skip_by_sql webhook_by_sql earning_by_sql
      outbox_by_sql balance_by_sql) (auto simp: bulkInsertItems_def)

definition sample_order_input :: create_order_input where
  "sample_order_input =
     \<lparr>n_region = ''eg'', n_publicId = ''p1'', n_countryCode = ''eg'', n_restaurantId = 3, n_restaurantOwnerId = 9,
      n_branchId = 7, n_customerId = 5, n_customerAddressId = 4, n_deliveryLat = 301, n_deliveryLng = - 311,
      n_deliveryAddressTextSnapshot = ''A'', n_branchLat = 300, n_branchLng = 310, n_status = PLACED, n_subtotal = 5000,
      n_deliveryFee = 500, n_serviceFee = 1000, n_total = 6500, n_currency = ''EGP'', n_paymentMethod = COD\<rparr>"

definition sample_session_input :: create_session_input where
  "sample_session_input =
     \<lparr>ns_region = ''eg'', ns_orderId = 1, ns_providerId = KASHIER_PROVIDER_ID, ns_providerSessionId = ''k1'',
      ns_redirectUrl = ''u'', ns_amount = 6500, ns_currency = ''EGP'', ns_status = PENDING, ns_rawInitPayload = JNull\<rparr>"

definition sample_transaction_input :: create_transaction_input where
  "sample_transaction_input =
     \<lparr>nt_region = ''eg'', nt_orderId = Some 1, nt_transactionType = CHARGE, nt_method = TX_ONLINE,
      nt_providerId = Some KASHIER_PROVIDER_ID, nt_providerReferenceId = None, nt_status = TX_PENDING, nt_amount = 6500,
      nt_currency = ''EGP'', nt_srcAccId = None, nt_dstAccId = None, nt_idempotencyKey = Some ''i''\<rparr>"

definition sample_webhook_input :: record_webhook_input where
  "sample_webhook_input =
     \<lparr>nw_region = ''eg'', nw_providerId = KASHIER_PROVIDER_ID, nw_providerEventId = ''k1:t'', nw_signature = ''0f'',
      nw_payload = JNull\<rparr>"

definition sample_item_inputs :: "insert_item_input list" where
  "sample_item_inputs =
     [\<lparr>ni_region = ''eg'', ni_orderId = 1, ni_productId = 21, ni_quantity = 2, ni_unitPriceSnapshot = 2500,
       ni_nameSnapshot = ''Tea'', ni_imageUrlSnapshot = None, ni_lineTotal = 5000\<rparr>,
      \<lparr>ni_region = ''eg'', ni_orderId = 1, ni_productId = 22, ni_quantity = 0, ni_unitPriceSnapshot = 100,
       ni_nameSnapshot = ''Cup'', ni_imageUrlSnapshot = None, ni_lineTotal = 0\<rparr>]"

text \<open>The second item is refused by the \<open>CHECK\<close> on the quantity, and with it the statement.\<close>

theorem inserts_refine_schema_witness:
  "createOrder sample_order_input (Hot, ''eg'') sample_world = stmt (Hot, ''eg'') (order_sql sample_order_input) sample_world \<and>
   createSession sample_session_input (Hot, ''eg'') sample_world =
     stmt (Hot, ''eg'') (session_sql sample_session_input) sample_world \<and>
   createTransactionIdempotent sample_transaction_input (Hot, ''eg'') sample_world =
     stmt (Hot, ''eg'') (transaction_sql (Some [''idempotency_key'']) sample_transaction_input) sample_world \<and>
   recordWebhookOrSkip sample_webhook_input (Hot, ''eg'') sample_world =
     stmt (Hot, ''eg'') (webhook_sql sample_webhook_input) sample_world \<and>
   fst (stmt (Hot, ''eg'') (items_sql sample_item_inputs) sample_world) = Inl check_error"
proof -
  have "ids_ok (shards sample_world (Hot, ''eg''))" "payment_sessions (tabs (shards sample_world (Hot, ''eg''))) = []"
    by (simp_all add: sample_world_def empty_shard_def ids_ok_def numbered_def)
  moreover have "int4 (ns_providerId sample_session_input)" "pred_option int4 (nt_providerId sample_transaction_input)"
    "int4 (nw_providerId sample_webhook_input)" "coordinates_fit sample_order_input"
    by (simp_all add: coordinates_fit_def sample_order_input_def sample_session_input_def sample_transaction_input_def sample_webhook_input_def KASHIER_PROVIDER_ID_def int4_def)
  moreover have "fst (bulkInsertItems sample_item_inputs (Hot, ''eg'') sample_world) = Inl check_error"
    by (simp add: bulkInsertItems_def sample_item_inputs_def stmt_def sample_world_def sample_outside_def int4_def)
  moreover have "sample_item_inputs \<noteq> []" by (simp add: sample_item_inputs_def)
  ultimately show ?thesis
    using inserts_refine_schema [of sample_world "(Hot, ''eg'')" sample_order_input sample_session_input
        sample_transaction_input sample_webhook_input sample_item_inputs "''eg''" 1 1 0 "''EGP''" "[]" 3 500] by simp
qed

end
