(* ===== verification/Partitions.thy ===== *)
theory Partitions
  imports World Digits
begin

section \<open>The monthly partitions of the orders\<close>

text \<open>
  \<open>scripts/create-partitions.ts\<close>: the months from now on, as names and date literals, and the statements that
  create a partition for each. Of Postgres the model has what it does with \<open>CREATE TABLE IF NOT EXISTS .. PARTITION OF
  .. FOR VALUES FROM .. TO ..\<close>: a name that exists is skipped, overlapping bounds are refused, and so are bounds
  that a row of the default partition falls into.
\<close>

subsection \<open>Months\<close>

definition month_start :: "int \<Rightarrow> int \<Rightarrow> int" where
  "month_start y m = ms_per_day * (day_from_year y + sum_list (take (nat m) (month_lengths y)))"

text \<open>\<open>getUTCMonth\<close>; \<open>Date.UTC(y, m, 1)\<close> and \<open>setUTCMonth\<close> of the first of a month, where \<open>m\<close> may be 12.\<close>

definition utcMonth :: "int \<Rightarrow> int" where
  "utcMonth t = fst (month_day (month_lengths (utcFullYear t)) 0 (t div ms_per_day - day_from_year (utcFullYear t)))"

definition first_of_month :: "int \<Rightarrow> int \<Rightarrow> int" where
  "first_of_month y m = month_start (y + m div 12) (m mod 12)"

definition dateUTC :: "int \<Rightarrow> int \<Rightarrow> int" where
  "dateUTC y m = first_of_month (if 0 \<le> y \<and> y \<le> 99 then 1900 + y else y) m"

subsection \<open>create-partitions.ts\<close>

record month_range =
  mr_name :: string
  mr_fromIso :: string
  mr_toIso :: string

definition iso_month :: "int \<Rightarrow> string" where
  "iso_month t = string_of_int (utcFullYear t) @ ''-'' @ pad 2 (utcMonth t + 1) @ ''-01''"

fun ranges_from :: "nat \<Rightarrow> int \<Rightarrow> month_range list" where
  "ranges_from 0 cursor = []"
| "ranges_from (Suc n) cursor =
     (let nxt = dateUTC (utcFullYear cursor) (utcMonth cursor + 1)
      in \<lparr>mr_name = ''orders_'' @ string_of_int (utcFullYear cursor) @ ''_'' @ pad 2 (utcMonth cursor + 1),
          mr_fromIso = iso_month cursor, mr_toIso = iso_month nxt\<rparr> #
         ranges_from n (first_of_month (utcFullYear cursor) (utcMonth cursor + 1)))"

definition monthRanges :: "int \<Rightarrow> nat \<Rightarrow> month_range list" where
  "monthRanges start count = ranges_from count (dateUTC (utcFullYear start) (utcMonth start))"

definition lower_letter :: "char \<Rightarrow> bool" where
  "lower_letter c \<longleftrightarrow> 97 \<le> (of_char c :: nat) \<and> (of_char c :: nat) \<le> 122 \<or> c = CHR ''_''"

definition isSafeIdentifier :: "string \<Rightarrow> bool" where
  "isSafeIdentifier name \<longleftrightarrow>
     (case name of [] \<Rightarrow> False
      | c # cs \<Rightarrow> lower_letter c \<and> length cs \<le> 62 \<and> list_all (\<lambda>x. lower_letter x \<or> char_digit x \<noteq> None) cs)"

definition isSafeDate :: "string \<Rightarrow> bool" where
  "isSafeDate d \<longleftrightarrow>
     length d = 10 \<and> d ! 4 = CHR ''-'' \<and> d ! 7 = CHR ''-'' \<and>
     list_all (\<lambda>i. char_digit (d ! i) \<noteq> None) [0, 1, 2, 3, 5, 6, 8, 9]"

text \<open>A date literal as Postgres reads it for a \<open>TIMESTAMP\<close> column.\<close>

definition pg_date :: "string \<Rightarrow> int" where
  "pg_date d =
     (case (nat_of_digits 0 (take 4 d), nat_of_digits 0 (take 2 (drop 5 d)), nat_of_digits 0 (drop 8 d)) of
        (Some y, Some m, Some k) \<Rightarrow> month_start (int y) (int m - 1) + ms_per_day * (int k - 1)
      | _ \<Rightarrow> 0)"

text \<open>The partitions of \<open>orders\<close> besides the default one, and the \<open>created_at\<close> of its rows.\<close>

record orders_table =
  ot_partitions :: "(string \<times> int \<times> int) list"
  ot_created :: "int list"

definition holds :: "string \<times> int \<times> int \<Rightarrow> int \<Rightarrow> bool" where
  "holds p t \<longleftrightarrow> fst (snd p) \<le> t \<and> t < snd (snd p)"

definition in_default :: "orders_table \<Rightarrow> int \<Rightarrow> bool" where
  "in_default ot t \<longleftrightarrow> t \<in> set (ot_created ot) \<and> \<not> list_ex (\<lambda>p. holds p t) (ot_partitions ot)"

definition overlap :: "string \<times> int \<times> int \<Rightarrow> string \<times> int \<times> int \<Rightarrow> bool" where
  "overlap p q \<longleftrightarrow> fst (snd p) < snd (snd q) \<and> fst (snd q) < snd (snd p)"

definition createPartition :: "string \<times> int \<times> int \<Rightarrow> (orders_table, exn, unit) prog" where
  "createPartition p ot =
     (if fst p \<in> fst ` set (ot_partitions ot) then (Inr (), ot)
      else if list_ex (overlap p) (ot_partitions ot) then (Inl (JsError ''partition would overlap''), ot)
      else if list_ex (\<lambda>t. in_default ot t \<and> holds p t) (ot_created ot)
      then (Inl (JsError ''partition constraint for default partition would be violated''), ot)
      else (Inr (), ot\<lparr>ot_partitions := ot_partitions ot @ [p]\<rparr>))"

definition ensurePartition :: "month_range \<Rightarrow> (orders_table, exn, unit) prog" where
  "ensurePartition r =
     (if \<not> isSafeIdentifier (mr_name r) \<or> \<not> isSafeDate (mr_fromIso r) \<or> \<not> isSafeDate (mr_toIso r)
      then throwE (JsError ''Refusing to inline unsafe partition spec'')
      else createPartition (mr_name r, pg_date (mr_fromIso r), pg_date (mr_toIso r)))"

definition ensurePartitions :: "month_range list \<Rightarrow> (orders_table, exn, unit) prog" where
  "ensurePartitions ranges = forE ranges ensurePartition"

text \<open>\<open>main\<close>: every region in turn; the first error ends the process with status 1.\<close>

definition create_partitions :: "string list \<Rightarrow> int \<Rightarrow> nat \<Rightarrow> (string \<Rightarrow> orders_table, exn, unit) prog" where
  "create_partitions gs today monthsAhead =
     forE gs (\<lambda>g db. case ensurePartitions (monthRanges today monthsAhead) (db g) of (r, ot) \<Rightarrow> (r, db(g := ot)))"

subsection \<open>The calendar\<close>

lemma div_succ: "0 < (c::int) \<Longrightarrow> (x + 1) div c = x div c + (if (x + 1) mod c = 0 then 1 else 0)"
proof -
  assume c: "0 < c"
  define q r where "q = x div c" and "r = x mod c"
  have x: "x = c * q + r" "0 \<le> r" "r < c" using c by (simp_all add: q_def r_def)
  show ?thesis
  proof (cases "r + 1 = c")
    case True
    then have "x + 1 = c * (q + 1)" using x(1) by (simp add: algebra_simps)
    then show ?thesis using c by (simp add: q_def [symmetric])
  next
    case False
    with x have "x + 1 = c * q + (r + 1)" "0 \<le> r + 1" "r + 1 < c" by simp_all
    then have "(x + 1) div c = q" "(x + 1) mod c = r + 1" by (rule int_div_pos_eq, rule int_mod_pos_eq)
    then show ?thesis using x(2) by (simp add: q_def)
  qed
qed

lemma year_length: "day_from_year (y + 1) = day_from_year y + sum_list (month_lengths y)"
proof -
  have mods: "(y - 1968) mod 4 = y mod 4" "(y - 1900) mod 100 = y mod 100" "(y - 1600) mod 400 = y mod 400"
    using mod_mult_self2 [of "y - 1968" 4 492] mod_mult_self2 [of "y - 1900" 100 19] mod_mult_self2 [of "y - 1600" 400 4]
    by simp_all
  have "400 dvd y \<Longrightarrow> 100 dvd y" by (rule dvd_trans [of 100 400]) simp_all
  moreover have "100 dvd y \<Longrightarrow> 4 dvd y" by (rule dvd_trans [of 4 100]) simp_all
  ultimately have nested: "y mod 400 = 0 \<Longrightarrow> y mod 100 = 0" "y mod 100 = 0 \<Longrightarrow> y mod 4 = 0"
    by (simp_all only: dvd_eq_mod_eq_0)
  define a b c where "a = (y - 1969) div 4" and "b = (y - 1901) div 100" and "c = (y - 1601) div 400"
  have e: "y + 1 - 1970 = y - 1969" "y + 1 - 1969 = y - 1968" "y + 1 - 1901 = y - 1900" "y + 1 - 1601 = y - 1600" by simp_all
  have "y - 1969 + 1 = y - 1968" "y - 1901 + 1 = y - 1900" "y - 1601 + 1 = y - 1600" by simp_all
  then have "(y - 1968) div 4 = a + (if y mod 4 = 0 then 1 else 0)"
    and "(y - 1900) div 100 = b + (if y mod 100 = 0 then 1 else 0)"
    and "(y - 1600) div 400 = c + (if y mod 400 = 0 then 1 else 0)"
    using div_succ [of 4 "y - 1969"] div_succ [of 100 "y - 1901"] div_succ [of 400 "y - 1601"]
    by (simp_all only: mods a_def b_def c_def zero_less_numeral simp_thms)
  moreover have "day_from_year (y + 1) = 365 * (y - 1969) + (y - 1968) div 4 - (y - 1900) div 100 + (y - 1600) div 400"
    unfolding day_from_year_def by (simp only: e)
  moreover have "day_from_year y = 365 * (y - 1970) + a - b + c" by (simp only: day_from_year_def a_def b_def c_def)
  moreover have "sum_list (month_lengths y) = 365 + (if leap_year y then 1 else 0)" by (simp add: month_lengths_def)
  moreover have "(if y mod 4 = 0 then 1 else 0) - (if y mod 100 = 0 then 1 else 0) + (if y mod 400 = 0 then 1 else 0) =
      (if leap_year y then 1 else (0 :: int))"
    using nested by (auto simp: leap_year_def)
  moreover have "365 * (y - 1969) + (a + i) - (b + k) + (c + l) = 365 * (y - 1970) + a - b + c + (365 + v)"
    if "i - k + l = v" for i k l v :: int
    using that by simp
  ultimately show ?thesis by (simp only:)
qed

lemma month_lengths_simps [simp]: "length (month_lengths y) = 12" "l \<in> set (month_lengths y) \<Longrightarrow> 0 < l"
  by (auto simp: month_lengths_def split: if_splits)

text \<open>Months counted from year 0.\<close>

definition month_at :: "int \<Rightarrow> int" where
  "month_at j = month_start (j div 12) (j mod 12)"

lemma first_of_month_at: "first_of_month y m = month_at (12 * y + m)"
proof -
  have "(12 * y + m) div 12 = y + m div 12" "(12 * y + m) mod 12 = m mod 12" by simp_all
  then show ?thesis by (simp add: first_of_month_def month_at_def)
qed

lemma month_at_Suc: "month_at j < month_at (j + 1)"
proof -
  define y k where "y = j div 12" and "k = nat (j mod 12)"
  have k: "k < 12" "j mod 12 = int k" by (simp_all add: k_def nat_less_iff)
  have j: "j = 12 * y + j mod 12" by (simp add: y_def)
  have pos: "0 < month_lengths y ! k" using k(1) by (intro month_lengths_simps(2) [of _ y]) (simp add: nth_mem)
  have sum: "sum_list (take (Suc k) (month_lengths y)) = sum_list (take k (month_lengths y)) + month_lengths y ! k"
    using k by (simp add: take_Suc_conv_app_nth)
  show ?thesis
  proof (cases "k = 11")
    case True
    then have next_year: "j + 1 = 12 * (y + 1) + 0" using k j by simp
    have "(j + 1) div 12 = y + 1" "(j + 1) mod 12 = 0"
      by (rule int_div_pos_eq [OF next_year], simp_all) (rule int_mod_pos_eq [OF next_year], simp_all)
    then show ?thesis using sum pos True k
      by (simp add: month_at_def month_start_def y_def [symmetric] year_length ms_per_day_def)
  next
    case False
    then have "j + 1 = 12 * y + int (Suc k)" "int (Suc k) < 12" using k j by simp_all
    then have "(j + 1) div 12 = y" "(j + 1) mod 12 = int (Suc k)" by (auto intro: int_div_pos_eq int_mod_pos_eq)
    then show ?thesis using sum pos k
      by (simp add: month_at_def month_start_def y_def [symmetric] ms_per_day_def nat_add_distrib)
  qed
qed

lemma month_at_mono: "j \<le> l \<Longrightarrow> month_at j \<le> month_at l"
proof (induction "nat (l - j)" arbitrary: l)
  case (Suc n)
  then have "month_at j \<le> month_at (l - 1)" by (intro Suc.hyps(1)) simp_all
  with month_at_Suc [of "l - 1"] show ?case by simp
qed simp

lemma month_at_year: "month_at (12 * y) = year_start y"
  by (simp add: month_at_def month_start_def year_start_def)

lemma month_at_less_iff: "month_at i < month_at j \<longleftrightarrow> i < j"
proof
  assume less: "month_at i < month_at j"
  show "i < j" using month_at_mono [of j i] less by (cases "i < j") simp_all
next
  assume "i < j"
  then have "month_at (i + 1) \<le> month_at j" by (intro month_at_mono) simp
  with month_at_Suc [of i] show "month_at i < month_at j" by simp
qed

text \<open>The month of an instant.\<close>

definition month_index :: "int \<Rightarrow> int" where
  "month_index t = 12 * utcFullYear t + utcMonth t"

lemma month_day_locate:
  "0 \<le> d \<Longrightarrow> d < sum_list ls \<Longrightarrow>
   \<exists>k<length ls. fst (month_day ls m d) = m + int k \<and> sum_list (take k ls) \<le> d \<and> d < sum_list (take (Suc k) ls)"
proof (induction ls arbitrary: m d)
  case (Cons l ls)
  show ?case
  proof (cases "d < l")
    case False
    with Cons.prems Cons.IH [of "d - l" "m + 1"] obtain k where "k < length ls" "fst (month_day ls (m + 1) (d - l)) = m + 1 + int k"
      "sum_list (take k ls) \<le> d - l" "d - l < sum_list (take (Suc k) ls)" by auto
    with False show ?thesis by (intro exI [of _ "Suc k"]) auto
  qed (use Cons.prems in \<open>auto intro!: exI [of _ 0]\<close>)
qed simp

lemma day_bounds: "ms_per_day * a \<le> t \<longleftrightarrow> a \<le> t div ms_per_day" "t < ms_per_day * a \<longleftrightarrow> t div ms_per_day < a"
proof -
  have "t = ms_per_day * (t div ms_per_day) + t mod ms_per_day" "0 \<le> t mod ms_per_day" "t mod ms_per_day < ms_per_day"
    by (simp_all add: ms_per_day_def)
  then show "ms_per_day * a \<le> t \<longleftrightarrow> a \<le> t div ms_per_day" "t < ms_per_day * a \<longleftrightarrow> t div ms_per_day < a"
    unfolding ms_per_day_def by linarith+
qed

lemma month_index_contains: "month_at (month_index t) \<le> t \<and> t < month_at (month_index t + 1)" "0 \<le> utcMonth t \<and> utcMonth t < 12"
proof -
  define y where "y = utcFullYear t"
  define d where "d = t div ms_per_day - day_from_year y"
  have "year_start y \<le> t" "t < year_start (y + 1)" using utcFullYear_contains [of t] by (simp_all add: y_def)
  then have "0 \<le> d" "d < sum_list (month_lengths y)" by (simp_all add: year_start_def day_bounds d_def year_length)
  then obtain k where k: "k < 12" "fst (month_day (month_lengths y) 0 d) = int k" "sum_list (take k (month_lengths y)) \<le> d"
    "d < sum_list (take (Suc k) (month_lengths y))"
    using month_day_locate [of d "month_lengths y" 0] by auto
  have month: "utcMonth t = int k" using k(2) by (simp add: utcMonth_def y_def d_def)
  then show "0 \<le> utcMonth t \<and> utcMonth t < 12" using k(1) by simp
  have "month_at (12 * y + int k) = month_start y (int k)" using k(1) by (simp add: month_at_def)
  then have "month_at (month_index t) \<le> t" using k(3) by (simp add: month_index_def month y_def [symmetric] month_start_def day_bounds d_def)
  moreover have "t < month_at (12 * y + int k + 1)"
  proof (cases "k = 11")
    case True
    then have "month_at (12 * y + int k + 1) = year_start (y + 1)" using month_at_year [of "y + 1"] by (simp add: add.commute)
    then show ?thesis using \<open>t < year_start (y + 1)\<close> by simp
  next
    case False
    then have next_month: "12 * y + int k + 1 = 12 * y + int (Suc k)" "int (Suc k) < 12" using k(1) by simp_all
    have "(12 * y + int (Suc k)) div 12 = y" "(12 * y + int (Suc k)) mod 12 = int (Suc k)" using next_month(2) by simp_all
    then show ?thesis using k(4) unfolding next_month(1)
      by (simp add: month_at_def month_start_def day_bounds d_def del: of_nat_Suc)
  qed
  ultimately show "month_at (month_index t) \<le> t \<and> t < month_at (month_index t + 1)"
    by (simp add: month_index_def month y_def [symmetric])
qed

lemma month_index_unique: "month_at j \<le> t \<Longrightarrow> t < month_at (j + 1) \<Longrightarrow> month_index t = j"
  using month_index_contains(1) [of t] month_at_less_iff [of j "month_index t + 1"] month_at_less_iff [of "month_index t" "j + 1"]
  by linarith

lemma month_index_month_at [simp]: "month_index (month_at j) = j"
  by (intro month_index_unique month_at_Suc) simp

lemma month_index_parts: "utcFullYear t = month_index t div 12" "utcMonth t = month_index t mod 12"
  using month_index_contains(2) [of t] by (simp_all add: month_index_def)

lemma holds_month: "month_at i \<le> t \<and> t < month_at j \<longleftrightarrow> i \<le> month_index t \<and> month_index t < j"
proof -
  have "month_at i \<le> t \<longleftrightarrow> i \<le> month_index t"
    using month_index_contains(1) [of t] month_at_mono [of i "month_index t"] month_at_mono [of "month_index t + 1" i] by linarith
  moreover have "t < month_at j \<longleftrightarrow> month_index t < j"
    using month_index_contains(1) [of t] month_at_mono [of "month_index t + 1" j] month_at_mono [of j "month_index t"] by linarith
  ultimately show ?thesis by simp
qed

subsection \<open>Names and dates of a month\<close>

definition range_of :: "int \<Rightarrow> month_range" where
  "range_of j =
     \<lparr>mr_name = ''orders_'' @ string_of_int (j div 12) @ ''_'' @ pad 2 (j mod 12 + 1),
      mr_fromIso = iso_month (month_at j), mr_toIso = iso_month (month_at (j + 1))\<rparr>"

text \<open>The years of four digits.\<close>

definition in_calendar :: "int \<Rightarrow> bool" where
  "in_calendar j \<longleftrightarrow> 1000 \<le> j div 12 \<and> j div 12 \<le> 9999"

lemma dateUTC_month_at:
  assumes "in_calendar j"
  shows "dateUTC (j div 12) (j mod 12 + d) = month_at (j + d)" "first_of_month (j div 12) (j mod 12 + d) = month_at (j + d)"
proof -
  have "12 * (j div 12) + (j mod 12 + d) = j + d" by simp
  then show "first_of_month (j div 12) (j mod 12 + d) = month_at (j + d)" by (simp only: first_of_month_at)
  then show "dateUTC (j div 12) (j mod 12 + d) = month_at (j + d)" using assms by (simp add: dateUTC_def in_calendar_def)
qed

lemma in_calendar_between: "in_calendar i \<Longrightarrow> in_calendar k \<Longrightarrow> i \<le> j \<Longrightarrow> j \<le> k \<Longrightarrow> in_calendar j"
  using zdiv_mono1 [of i j 12] zdiv_mono1 [of j k 12] by (simp add: in_calendar_def)

lemma ranges_from_eq:
  "in_calendar j \<Longrightarrow> in_calendar (j + int n) \<Longrightarrow> ranges_from n (month_at j) = map (\<lambda>i. range_of (j + int i)) [0..<n]"
proof (induction n arbitrary: j)
  case (Suc n)
  have j1: "in_calendar (j + 1)" by (rule in_calendar_between [OF Suc.prems]) simp_all
  have "ranges_from (Suc n) (month_at j) = range_of j # ranges_from n (month_at (j + 1))"
    using dateUTC_month_at [OF Suc.prems(1), of 1] by (simp add: range_of_def month_index_parts)
  also have "ranges_from n (month_at (j + 1)) = map (\<lambda>i. range_of (j + 1 + int i)) [0..<n]"
    using Suc.prems j1 by (intro Suc.IH) (simp_all add: add.assoc)
  also have "range_of j # \<dots> = map (\<lambda>i. range_of (j + int i)) [0..<Suc n]"
    by (simp add: map_upt_Suc add.assoc del: upt_Suc)
  finally show ?case .
qed simp

lemma monthRanges_eq:
  assumes "in_calendar (month_index start)" "in_calendar (month_index start + int n)"
  shows "monthRanges start n = map (\<lambda>i. range_of (month_index start + int i)) [0..<n]"
  using ranges_from_eq [OF assms] dateUTC_month_at(1) [OF assms(1), of 0] by (simp add: monthRanges_def month_index_parts)

lemma year_text:
  assumes "in_calendar j"
  shows "length (string_of_int (j div 12)) = 4" "nat_of_digits 0 (string_of_int (j div 12)) = Some (nat (j div 12))"
    "c \<in> set (string_of_int (j div 12)) \<Longrightarrow> char_digit c \<noteq> None"
proof -
  have y: "\<not> j div 12 < 0" "10 ^ 3 \<le> nat (j div 12)" "nat (j div 12) < 10 ^ Suc 3" using assms by (simp_all add: in_calendar_def le_nat_iff nat_less_iff)
  show "length (string_of_int (j div 12)) = 4" using string_of_nat_length [OF y(2,3)] y(1) by (simp add: string_of_int_def)
  show "nat_of_digits 0 (string_of_int (j div 12)) = Some (nat (j div 12))"
    using y(1) by (simp add: string_of_int_def nat_of_digits_string_of_nat)
  show "c \<in> set (string_of_int (j div 12)) \<Longrightarrow> char_digit c \<noteq> None" using y(1) digit_chars [of c] by (simp add: string_of_int_def)
qed

lemma month_text:
  "length (pad 2 (j mod 12 + 1)) = 2" "nat_of_digits 0 (pad 2 (j mod 12 + 1)) = Some (nat (j mod 12 + 1))"
  "c \<in> set (pad 2 (j mod 12 + 1)) \<Longrightarrow> char_digit c \<noteq> None"
proof -
  have m: "0 \<le> j mod 12" "j mod 12 < 12" by simp_all
  then have "\<not> j mod 12 + 1 < 0" "nat (j mod 12 + 1) < 10 ^ 2" by simp_all
  with padStart_digits(1) [of "nat (j mod 12 + 1)" 2] padStart_digits(2) [of "nat (j mod 12 + 1)" 2 0] padStart_chars [of c 2 "nat (j mod 12 + 1)"]
  show "length (pad 2 (j mod 12 + 1)) = 2" "nat_of_digits 0 (pad 2 (j mod 12 + 1)) = Some (nat (j mod 12 + 1))"
    "c \<in> set (pad 2 (j mod 12 + 1)) \<Longrightarrow> char_digit c \<noteq> None"
    by (simp_all add: pad_def string_of_int_def)
qed

lemma iso_month_at:
  "iso_month (month_at j) = string_of_int (j div 12) @ ''-'' @ pad 2 (j mod 12 + 1) @ ''-01''"
  by (simp add: iso_month_def month_index_parts)

lemma iso_month_safe: "in_calendar j \<Longrightarrow> isSafeDate (iso_month (month_at j))"
  using year_text(1) [of j] year_text(3) [of j] month_text(1) [of j] month_text(3) [of _ j]
  by (auto simp: isSafeDate_def iso_month_at nth_append char_digit_def [of "CHR ''0''"] char_digit_def [of "CHR ''1''"])

lemma iso_month_read:
  assumes "in_calendar j"
  shows "pg_date (iso_month (month_at j)) = month_at j"
proof -
  let ?s = "iso_month (month_at j)"
  have "take 4 ?s = string_of_int (j div 12)" "take 2 (drop 5 ?s) = pad 2 (j mod 12 + 1)" "drop 8 ?s = ''01''"
    using year_text(1) [OF assms] month_text(1) [of j] by (simp_all add: iso_month_at)
  moreover have "nat_of_digits 0 ''01'' = Some 1" by (simp add: char_digit_def)
  ultimately have "pg_date ?s = month_start (int (nat (j div 12))) (int (nat (j mod 12 + 1)) - 1)"
    using year_text(2) [OF assms] month_text(2) [of j] by (simp add: pg_date_def)
  with assms show ?thesis by (simp add: month_at_def in_calendar_def)
qed

lemma name_safe: "in_calendar j \<Longrightarrow> isSafeIdentifier (mr_name (range_of j))"
  using year_text(1) [of j] year_text(3) [of j] month_text(1) [of j] month_text(3) [of _ j]
  by (auto simp: isSafeIdentifier_def range_of_def lower_letter_def list_all_iff)

lemma name_inj:
  assumes "in_calendar i" "in_calendar j" "mr_name (range_of i) = mr_name (range_of j)"
  shows "i = j"
proof -
  let ?y = "\<lambda>i :: int. string_of_int (i div 12)" and ?m = "\<lambda>i :: int. pad 2 (i mod 12 + 1)"
  have "?y i @ ''_'' @ ?m i = ?y j @ ''_'' @ ?m j" using assms(3) by (simp add: range_of_def)
  then have "?y i = ?y j" "?m i = ?m j" using year_text(1) assms(1,2) by (simp_all add: append_eq_append_conv)
  then have "nat (i div 12) = nat (j div 12)" "nat (i mod 12 + 1) = nat (j mod 12 + 1)"
    using year_text(2) [OF assms(1)] year_text(2) [OF assms(2)] month_text(2) [of i] month_text(2) [of j] by simp_all
  moreover have "0 \<le> i div 12" "0 \<le> j div 12" using assms(1,2) by (simp_all add: in_calendar_def)
  moreover have "0 \<le> i mod 12 + 1" "0 \<le> j mod 12 + 1" by (simp_all add: add_nonneg_nonneg)
  ultimately have "i div 12 = j div 12" "i mod 12 + 1 = j mod 12 + 1" by (simp_all only: eq_nat_nat_iff)
  then show ?thesis by (metis add_right_cancel div_mult_mod_eq)
qed

subsection \<open>The partitions after a run\<close>

definition part :: "int \<Rightarrow> string \<times> int \<times> int" where
  "part j = (mr_name (range_of j), month_at j, month_at (j + 1))"

text \<open>Every partition is one the script makes.\<close>

definition monthly :: "orders_table \<Rightarrow> bool" where
  "monthly ot \<longleftrightarrow> (\<forall>p\<in>set (ot_partitions ot). \<exists>j. in_calendar j \<and> p = part j)"

lemma holds_part [simp]: "holds (part j) t \<longleftrightarrow> month_index t = j"
  using holds_month [of j t "j + 1"] by (auto simp: holds_def part_def)

lemma overlap_part [simp]: "overlap (part i) (part j) \<longleftrightarrow> i = j"
  by (auto simp: overlap_def part_def month_at_less_iff)

lemma in_default_month: "monthly ot \<Longrightarrow> in_default ot t \<longleftrightarrow> t \<in> set (ot_created ot) \<and> part (month_index t) \<notin> set (ot_partitions ot)"
  by (auto simp: in_default_def list_ex_iff monthly_def)

lemma createPartition_month:
  assumes "monthly ot" "in_calendar j"
  shows "createPartition (part j) ot =
     (if part j \<in> set (ot_partitions ot) then (Inr (), ot)
      else if \<exists>t. in_default ot t \<and> month_index t = j
      then (Inl (JsError ''partition constraint for default partition would be violated''), ot)
      else (Inr (), ot\<lparr>ot_partitions := ot_partitions ot @ [part j]\<rparr>))"
proof -
  have name: "fst (part j) \<in> fst ` set (ot_partitions ot) \<longleftrightarrow> part j \<in> set (ot_partitions ot)"
    using assms by (force simp: monthly_def part_def dest: name_inj)
  have "list_ex (overlap (part j)) (ot_partitions ot) \<longleftrightarrow> part j \<in> set (ot_partitions ot)"
    using assms(1) by (auto simp: list_ex_iff monthly_def intro!: bexI [of _ "part j"])
  moreover have "list_ex (\<lambda>t. in_default ot t \<and> holds (part j) t) (ot_created ot) \<longleftrightarrow> (\<exists>t. in_default ot t \<and> month_index t = j)"
    by (auto simp: list_ex_iff in_default_def)
  ultimately show ?thesis by (simp add: createPartition_def name)
qed

lemma ensurePartition_month:
  "in_calendar j \<Longrightarrow> in_calendar (j + 1) \<Longrightarrow> ensurePartition (range_of j) = createPartition (part j)"
  using name_safe [of j] iso_month_safe [of j] iso_month_safe [of "j + 1"]
  by (simp add: ensurePartition_def part_def iso_month_read range_of_def)

lemma ensure_months:
  assumes "monthly ot" "\<forall>j\<in>set js. in_calendar j \<and> in_calendar (j + 1)" "ensurePartitions (map range_of js) ot = (r, ot')"
  shows "monthly ot' \<and> ot_created ot' = ot_created ot \<and> set (ot_partitions ot) \<subseteq> set (ot_partitions ot') \<and>
     (r = Inr () \<longrightarrow> part ` set js \<subseteq> set (ot_partitions ot')) \<and>
     (r = Inr () \<longleftrightarrow> (\<forall>t. in_default ot t \<longrightarrow> month_index t \<notin> set js))"
  using assms
proof (induction js arbitrary: ot)
  case Nil
  then show ?case by (simp add: ensurePartitions_def)
next
  case (Cons j js)
  let ?p = "createPartition (part j) ot"
  have step: "ensurePartition (range_of j) ot = ?p" using Cons.prems(2) by (simp add: ensurePartition_month)
  consider (there) "part j \<in> set (ot_partitions ot)" "?p = (Inr (), ot)"
    | (stuck) t e where "in_default ot t" "month_index t = j" "?p = (Inl e, ot)"
    | (new) "?p = (Inr (), ot\<lparr>ot_partitions := ot_partitions ot @ [part j]\<rparr>)" "\<forall>t. in_default ot t \<longrightarrow> month_index t \<noteq> j"
  proof -
    note eq = createPartition_month [OF Cons.prems(1), of j]
    show thesis
    proof (cases "part j \<in> set (ot_partitions ot)")
      case True
      with eq Cons.prems(2) that(1) show thesis by simp
    next
      case False
      with eq Cons.prems(2) that(2,3) show thesis by (cases "\<exists>t. in_default ot t \<and> month_index t = j") auto
    qed
  qed
  then show ?case
  proof cases
    case there
    then have "ensurePartitions (map range_of js) ot = (r, ot')"
      using Cons.prems(3) step by (simp add: ensurePartitions_def seqE_def bindE_def)
    with Cons.IH [OF Cons.prems(1) _ this] Cons.prems(1,2) there(1) show ?thesis by (auto simp: in_default_month)
  next
    case stuck
    then have "r = Inl e" "ot' = ot" using Cons.prems(3) step by (simp_all add: ensurePartitions_def seqE_def bindE_def)
    with stuck Cons.prems(1) show ?thesis by auto
  next
    case new
    let ?ot = "ot\<lparr>ot_partitions := ot_partitions ot @ [part j]\<rparr>"
    have m: "monthly ?ot" using Cons.prems(1,2) by (auto simp: monthly_def)
    have "ensurePartitions (map range_of js) ?ot = (r, ot')"
      using Cons.prems(3) step new(1) by (simp add: ensurePartitions_def seqE_def bindE_def)
    moreover have "in_default ?ot t \<longleftrightarrow> in_default ot t \<and> month_index t \<noteq> j" for t by (auto simp: in_default_def)
    with new(2) have "in_default ?ot t \<longleftrightarrow> in_default ot t" for t by blast
    ultimately show ?thesis using Cons.IH [OF m] Cons.prems(2) new(2) by auto
  qed
qed

text \<open>C40: A run of \<open>create-partitions\<close> on a region tiles its window: it succeeds exactly when no order of the window lies
  in the default partition, and then every instant from the first of this month to the first of the month
  \<open>MONTHS_AHEAD\<close> later is in exactly one partition. It keeps the partitions and rows it finds, also when it fails.\<close>

theorem partitions_tile_the_window:
  assumes "monthly ot" and years: "1000 \<le> utcFullYear today" "in_calendar (month_index today + int n)"
    and run: "ensurePartitions (monthRanges today n) ot = (r, ot')"
  defines "lo \<equiv> dateUTC (utcFullYear today) (utcMonth today)" and "hi \<equiv> dateUTC (utcFullYear today) (utcMonth today + int n)"
  shows "(r = Inr () \<longleftrightarrow> (\<forall>t. in_default ot t \<longrightarrow> \<not> (lo \<le> t \<and> t < hi))) \<and>
     (r = Inr () \<longrightarrow> (\<forall>t. lo \<le> t \<and> t < hi \<longrightarrow> (\<exists>!p. p \<in> set (ot_partitions ot') \<and> holds p t))) \<and>
     monthly ot' \<and> set (ot_partitions ot) \<subseteq> set (ot_partitions ot') \<and> ot_created ot' = ot_created ot"
proof -
  let ?j = "month_index today"
  let ?js = "map (\<lambda>i. ?j + int i) [0..<n]"
  have "?j div 12 \<le> (?j + int n) div 12" by (rule zdiv_mono1) simp_all
  then have cal: "in_calendar ?j" using years by (simp add: in_calendar_def month_index_parts(1) [symmetric])
  have ranges: "monthRanges today n = map range_of ?js" using monthRanges_eq [OF cal years(2)] by simp
  have "in_calendar (?j + int i) \<and> in_calendar (?j + int i + 1)" if "i < n" for i
    by (intro conjI in_calendar_between [OF cal years(2)]) (use that in simp_all)
  then have js: "\<forall>j\<in>set ?js. in_calendar j \<and> in_calendar (j + 1)" by simp
  have "lo = month_at ?j" "hi = month_at (?j + int n)"
    using dateUTC_month_at(1) [OF cal, of 0] dateUTC_month_at(1) [OF cal, of "int n"] by (simp_all add: lo_def hi_def month_index_parts)
  moreover have "month_index t \<in> set ?js \<longleftrightarrow> ?j \<le> month_index t \<and> month_index t < ?j + int n" for t
  proof -
    have "month_index t = ?j + int (nat (month_index t - ?j))" if "?j \<le> month_index t" using that by simp
    then show ?thesis by (auto simp: image_iff intro!: bexI [of _ "nat (month_index t - ?j)"])
  qed
  ultimately have window: "lo \<le> t \<and> t < hi \<longleftrightarrow> month_index t \<in> set ?js" for t by (simp only: holds_month)
  have all: "monthly ot' \<and> ot_created ot' = ot_created ot \<and> set (ot_partitions ot) \<subseteq> set (ot_partitions ot') \<and>
     (r = Inr () \<longrightarrow> part ` set ?js \<subseteq> set (ot_partitions ot')) \<and>
     (r = Inr () \<longleftrightarrow> (\<forall>t. in_default ot t \<longrightarrow> month_index t \<notin> set ?js))"
    by (rule ensure_months [OF assms(1) js]) (use run ranges in simp)
  moreover have "r = Inr () \<longrightarrow> (\<forall>t. month_index t \<in> set ?js \<longrightarrow> (\<exists>!p. p \<in> set (ot_partitions ot') \<and> holds p t))"
  proof (intro impI allI)
    fix t
    assume "r = Inr ()" "month_index t \<in> set ?js"
    then have "part (month_index t) \<in> set (ot_partitions ot')" using all by blast
    then show "\<exists>!p. p \<in> set (ot_partitions ot') \<and> holds p t"
      using all by (intro ex1I [of _ "part (month_index t)"]) (auto simp: monthly_def)
  qed
  ultimately show ?thesis unfolding window by (elim conjE) (intro conjI; assumption)
qed

theorem partitions_tile_the_window_witness:
  "\<exists>ot. ensurePartitions (monthRanges 1750000000000 12) \<lparr>ot_partitions = [], ot_created = []\<rparr> = (Inr (), ot) \<and>
     (\<exists>!p. p \<in> set (ot_partitions ot) \<and> holds p 1750000000000)"
proof -
  let ?ot = "\<lparr>ot_partitions = [], ot_created = []\<rparr>"
  obtain r ot where run: "ensurePartitions (monthRanges 1750000000000 12) ?ot = (r, ot)" by fastforce
  have "1000 \<le> utcFullYear 1750000000000" "in_calendar (month_index 1750000000000 + int 12)"
    "dateUTC (utcFullYear 1750000000000) (utcMonth 1750000000000) \<le> 1750000000000"
    "1750000000000 < dateUTC (utcFullYear 1750000000000) (utcMonth 1750000000000 + int 12)"
    by code_simp+
  moreover have "monthly ?ot" "\<forall>t. \<not> in_default ?ot t" by (simp_all add: monthly_def in_default_def)
  ultimately have "r = Inr ()" "\<exists>!p. p \<in> set (ot_partitions ot) \<and> holds p 1750000000000"
    using partitions_tile_the_window [OF _ _ _ run] by blast+
  with run show ?thesis by blast
qed

text \<open>
  One order in the default partition is enough to stop the window for good: from then on every run whose window
  contains its month fails, and creates no later partition.
\<close>

lemma default_row_blocks_later_months:
  assumes "monthly ot" "in_default ot t" "\<forall>j\<in>set js. in_calendar j \<and> in_calendar (j + 1)" "month_index t = j0"
    and "ensurePartitions (map range_of (j0 # js)) ot = (r, ot')" and "in_calendar j0" "in_calendar (j0 + 1)"
  shows "r \<noteq> Inr () \<and> ot' = ot"
proof -
  have "part j0 \<notin> set (ot_partitions ot)" using assms(1,2,4) by (auto simp: in_default_month)
  then have "createPartition (part j0) ot = (Inl (JsError ''partition constraint for default partition would be violated''), ot)"
    using createPartition_month [OF assms(1,6)] assms(2,4) by auto
  with assms(5-7) show ?thesis by (auto simp: ensurePartitions_def seqE_def bindE_def ensurePartition_month)
qed

end
