(* ===== verification/Processes.thy ===== *)
theory Processes
  imports Jobs
begin

section \<open>The processes\<close>

text \<open>
  \<open>src/server.ts\<close> and \<open>src/worker.ts\<close>: how the two processes boot and shut down. What an awaited call of a library
  does is a parameter: it is fulfilled or rejected after some milliseconds, or it stays pending. The timers of
  \<open>shutdown\<close> are \<open>unref\<close>ed: they end a process that is still up. A shutdown is an exit status with its time.
\<close>

subsection \<open>Waiting for a promise\<close>

datatype promise = Fulfilled nat | Rejected nat | Pending

text \<open>When control goes on after \<open>try { await p } catch {}\<close>.\<close>

fun settles :: "promise \<Rightarrow> nat option" where
  "settles (Fulfilled t) = Some t"
| "settles (Rejected t) = Some t"
| "settles Pending = None"

text \<open>One after the other: when the last one has settled.\<close>

fun settle_all :: "promise list \<Rightarrow> nat option" where
  "settle_all [] = Some 0"
| "settle_all (p # ps) =
     (case settles p of None \<Rightarrow> None | Some t \<Rightarrow> map_option (\<lambda>t'. t + t') (settle_all ps))"

text \<open>\<open>setTimeout(() => process.exit(1), ms)\<close> set at time \<open>t0\<close> against \<open>process.exit(0)\<close> after a closing.\<close>

definition race_exit :: "nat \<Rightarrow> nat \<Rightarrow> nat option \<Rightarrow> int \<times> nat" where
  "race_exit t0 ms close_time =
     (case close_time of
        Some t \<Rightarrow> if t < ms then (0, t0 + t) else (1, t0 + ms)
      | None \<Rightarrow> (1, t0 + ms))"

subsection \<open>server.ts\<close>

text \<open>
  \<open>server.close\<close> calls back once the open connections have ended; then the websocket server, the broker and the
  pools are closed. The timer is set at once.
\<close>

definition server_shutdown :: "promise \<Rightarrow> promise \<Rightarrow> promise \<Rightarrow> promise \<Rightarrow> int \<times> nat" where
  "server_shutdown connections io broker pools = race_exit 0 10000 (settle_all [connections, io, broker, pools])"

subsection \<open>worker.ts\<close>

text \<open>\<open>stopAll\<close> stops the cron tasks one by one; every closing is awaited before the timer is set.\<close>

definition worker_shutdown ::
  "promise list \<Rightarrow> promise \<Rightarrow> promise \<Rightarrow> promise \<Rightarrow> promise \<Rightarrow> (int \<times> nat) option" where
  "worker_shutdown tasks io broker pools noopServer =
     map_option (\<lambda>t0. race_exit t0 5000 (settles noopServer)) (settle_all (tasks @ [io, broker, pools]))"

text \<open>
  The boot of the worker: a registration that throws ends the process while the module loads, an error of \<open>main\<close> exits
  with status 1. Neither a shard that does not answer nor a broker that is down stops it.
\<close>

datatype boot = Exits int | Runs "job list" scheduler

definition worker_boot :: "(string \<Rightarrow> bool) \<Rightarrow> job_settings \<Rightarrow> boot" where
  "worker_boot valid s =
     (case worker_jobs s of
        Inl _ \<Rightarrow> Exits 1
      | Inr js \<Rightarrow> (case startAll valid js of Inl _ \<Rightarrow> Exits 1 | Inr sched \<Rightarrow> Runs js sched))"

subsection \<open>Shutdown\<close>

lemma settle_all_None: "settle_all ps = None \<longleftrightarrow> Pending \<in> set ps"
proof (induction ps)
  case (Cons p ps)
  then show ?case by (cases p) (auto split: option.splits)
qed simp

lemma settle_all_append: "settle_all (ps @ qs) = (case settle_all ps of None \<Rightarrow> None | Some t \<Rightarrow> map_option (\<lambda>t'. t + t') (settle_all qs))"
proof (induction ps)
  case Nil
  then show ?case by (cases "settle_all qs") simp_all
next
  case (Cons p ps)
  then show ?case by (cases "settles p"; cases "settle_all ps"; cases "settle_all qs") (simp_all add: add.assoc)
qed

lemma race_exit_bound: "t0 \<le> snd (race_exit t0 ms close_time) \<and> snd (race_exit t0 ms close_time) \<le> t0 + ms"
  by (auto simp: race_exit_def split: option.splits)

text \<open>The server exits within ten seconds whatever its libraries do, with status 0 exactly if everything was closed by then.\<close>

lemma server_exits:
  "snd (server_shutdown connections io broker pools) \<le> 10000 \<and>
   (fst (server_shutdown connections io broker pools) = 0 \<longleftrightarrow>
      (\<exists>t<10000. settle_all [connections, io, broker, pools] = Some t))"
  using race_exit_bound [of 0 10000 "settle_all [connections, io, broker, pools]"]
  unfolding server_shutdown_def by (auto simp: race_exit_def split: option.splits)

text \<open>A closing that fails does not keep the later ones from being begun.\<close>

lemma failed_closing_goes_on: "settle_all (map (\<lambda>p. case p of Rejected t \<Rightarrow> Fulfilled t | q \<Rightarrow> q) ps) = settle_all ps"
proof (induction ps)
  case (Cons p ps)
  then show ?case by (cases p) simp_all
qed simp

text \<open>
  The worker's timer guards only the last closing: one call that stays pending keeps the process up for good, and else it
  exits within five seconds of the last closing.
\<close>

lemma worker_exits_iff:
  "(\<exists>r. worker_shutdown tasks io broker pools noopServer = Some r) \<longleftrightarrow> Pending \<notin> set tasks \<union> {io, broker, pools}"
proof -
  have "settle_all (tasks @ [io, broker, pools]) = None \<longleftrightarrow> Pending \<in> set (tasks @ [io, broker, pools])"
    by (rule settle_all_None)
  then show ?thesis unfolding worker_shutdown_def
    by (cases "settle_all (tasks @ [io, broker, pools])") auto
qed

lemma worker_exits_in_time:
  "worker_shutdown tasks io broker pools noopServer = Some (status, t) \<Longrightarrow>
   \<exists>u. settle_all (tasks @ [io, broker, pools]) = Some u \<and> u \<le> t \<and> t \<le> u + 5000"
  using race_exit_bound [of _ 5000 "settles noopServer"] by (auto simp: worker_shutdown_def) (metis snd_conv)+

text \<open>A hanging broker: the server still exits, the worker does not.\<close>

lemma hanging_broker:
  "server_shutdown (Fulfilled 20) (Fulfilled 5) Pending (Fulfilled 1) = (1, 10000)"
  "worker_shutdown [Fulfilled 0] (Fulfilled 5) Pending (Fulfilled 1) (Fulfilled 0) = None"
  by (simp_all add: server_shutdown_def worker_shutdown_def race_exit_def)

subsection \<open>Boot\<close>

lemma startAll_Inr: "(\<exists>sched. startAll valid js = Inr sched) \<longleftrightarrow> (\<forall>j\<in>set js. valid (j_cron j))"
proof (cases "find (\<lambda>j. \<not> valid (j_cron j)) js")
  case None
  then have "\<forall>j\<in>set js. valid (j_cron j)" by (simp add: find_None_iff)
  with None show ?thesis by (simp add: startAll_def)
next
  case (Some j)
  then have "j \<in> set js \<and> \<not> valid (j_cron j)" by (auto simp: find_Some_iff)
  with Some show ?thesis by (auto simp: startAll_def)
qed

text \<open>The worker runs exactly if no region is listed twice and every cron expression is valid; then every region has its jobs.\<close>

lemma worker_runs_iff:
  "(\<exists>js sched. worker_boot valid s = Runs js sched) \<longleftrightarrow>
     distinct (jb_regions s) \<and>
     (\<forall>g\<in>set (jb_regions s). list_all (\<lambda>j. valid (j_cron j)) [assignment_job s g, drain_job s g, archival_job s g])"
proof (cases "distinct (jb_regions s)")
  case True
  let ?js = "map (assignment_job s) (jb_regions s) @ map (drain_job s) (jb_regions s) @ map (archival_job s) (jb_regions s)"
  have "worker_jobs s = Inr ?js" using True by (simp add: worker_jobs_Inr)
  moreover have "(\<exists>sched. startAll valid ?js = Inr sched) \<longleftrightarrow>
      (\<forall>g\<in>set (jb_regions s). list_all (\<lambda>j. valid (j_cron j)) [assignment_job s g, drain_job s g, archival_job s g])"
    unfolding startAll_Inr by auto
  ultimately show ?thesis using True by (cases "startAll valid ?js") (auto simp: worker_boot_def)
next
  case False
  then have "worker_jobs s \<noteq> Inr js" for js by (simp add: worker_jobs_Inr)
  with False show ?thesis by (cases "worker_jobs s") (auto simp: worker_boot_def)
qed

end
