(* ===== verification/Spec2Isabelle.thy ===== *)
theory Spec2Isabelle
  imports Stock Webhook Settlement Finance Drain Archival Realtime CoreEvents Routes Jobs Config Broker Filters Rows Inserts
    Partitions Processes
begin

text \<open>
  The order service of QuickBite: a model of \<open>src/\<close> and what can be proved of it.

  \<^bold>\<open>The program.\<close> Customers place orders and pay online or in cash; restaurants accept and prepare them; couriers
  claim and deliver them; on delivery the order is settled into a ledger and restaurants are paid out. Each region has
  a hot Postgres cluster and an archive; Redis holds locks, offers, presence and caches; events leave through an
  outbox to RabbitMQ; product and branch data come from core-service; Kashier collects payments. Two processes run the
  code: the API (\<open>server.ts\<close>) and the worker (\<open>worker.ts\<close>).

  \<^bold>\<open>How it is modelled.\<close> \<open>Prelude\<close> has programs: a program takes a state to an exception or a result and a new state,
  with \<open>bindE\<close>, \<open>seqE\<close>, \<open>tryCatch\<close>, \<open>forE\<close>; \<open>moves R m\<close> says that \<open>m\<close> takes every state to one related by \<open>R\<close>,
  however it ends, and the rules in \<open>moves_intro\<close> derive it along the syntax of \<open>m\<close>. The state of the service is the
  record \<open>world\<close> (\<open>World\<close>): the shards, the Redis key space, the permission cache of the process, a clock, a counter of
  effects and the trace of messages sent. Everything outside the repository - database and broker faults,
  answers of core-service and Kashier, HMAC, UUIDs - is a field of \<open>outside\<close>, a function of the counter or of the
  request, and theorems hold for all of them. A transaction runs on one connection and a rollback puts its tables back but not
  its sequences; concurrency is the interleaving of the steps a program makes between its reads and its writes.

  \<^bold>\<open>Theories and sources.\<close>
  \<^item> \<open>Errors\<close>, \<open>Util\<close>, \<open>Digits\<close>: \<open>lib/error\<close>, \<open>pkg/utils\<close> (money, time, retry) and decimal texts.
  \<^item> \<open>OrderStatus\<close>: the table of transitions of \<open>order-status.service.ts\<close>.
  \<^item> \<open>Schema\<close>, \<open>World\<close>, \<open>Sample\<close>: entities, tables, shards, effects, a sample deployment for the witnesses.
  \<^item> \<open>Cache\<close>, \<open>Pagination\<close>, \<open>Filters\<close>, \<open>CoreClient\<close>, \<open>Access\<close>, \<open>Http\<close>: \<open>pkg/cache\<close>, \<open>lib/http\<close>, \<open>lib/core-client\<close>,
    \<open>lib/auth\<close> and \<open>lib/rbac\<close>, and the middleware.
  \<^item> \<open>OrderRepo\<close>, \<open>LedgerRepo\<close>, \<open>OutboxRepo\<close>: every function of the repositories, on entities.
  \<^item> \<open>Migrations\<close>, \<open>Rows\<close>, \<open>Inserts\<close>, \<open>Partitions\<close>: \<open>src/migrations\<close> as statements on a catalogue; the column lists, insert
    maps and \<open>toEntity\<close> functions of the repositories against those tables; their inserts of several rows and the
    upsert; \<open>scripts/create-partitions.ts\<close>.
  \<^item> \<open>OrderDtos\<close>, \<open>Orders\<close>, \<open>OrderLaws\<close>, \<open>Placement\<close>, \<open>Stock\<close>: \<open>app/order\<close>.
  \<^item> \<open>Payment\<close>, \<open>Webhook\<close>: \<open>app/payment\<close> and \<open>pkg/payments/kashier\<close>.
  \<^item> \<open>Presence\<close>, \<open>Assignment\<close>, \<open>Settlement\<close>, \<open>Finance\<close>: \<open>app/agent\<close>, \<open>app/assignment\<close>, \<open>app/finance\<close>.
  \<^item> \<open>Drain\<close>, \<open>CoreEvents\<close>, \<open>Broker\<close>, \<open>Realtime\<close>: \<open>lib/events\<close>, \<open>lib/core-events\<close>, \<open>pkg/messaging\<close>, \<open>lib/websocket\<close>.
  \<^item> \<open>Archival\<close>, \<open>Jobs\<close>, \<open>Processes\<close>: \<open>lib/jobs\<close>, the registrations of jobs, boot and shutdown.
  \<^item> \<open>Controllers\<close>, \<open>Routes\<close>, \<open>Config\<close>: controllers and request DTOs, the routes with their middleware, \<open>env.ts\<close>.
  \<^item> \<open>Service\<close>, \<open>Constraints\<close>, \<open>Numbering\<close>, \<open>Runs\<close>: the service as a whole. They translate no code of their own: a
    step is a request, a core event or a job, and a reachable state is any sequence of them from empty databases.

  \<^bold>\<open>Interfaces.\<close> \<open>step_relation\<close> and its extensions (\<open>World\<close>) are the frames of programs; \<open>write_contract\<close> (\<open>Service\<close>)
  asks for the few functions that write tables and gives the frame of every request, event and job, and is
  interpreted for the constraints, the numbering and the append-only relation. \<open>unique_table\<close> (\<open>LedgerRepo\<close>) is
  \<open>INSERT .. ON CONFLICT DO NOTHING\<close>, \<open>cache_provider\<close> (\<open>Cache\<close>) the locks on Redis, \<open>archivable\<close> (\<open>Archival\<close>) what the
  archival needs of a table, \<open>stored_entity\<close> (\<open>Rows\<close>) that a repository reads what was stored.

  \<^bold>\<open>What is shown.\<close> Orders: only transitions of the table, by its actors, are made; a placed order has the amounts of
  the quoted products, where a quote is the cached row or the answer of core-service in the state the request found; stock reserved
  for an order whose transaction fails is released, unless the \<open>BEGIN\<close> or the \<open>ROLLBACK\<close> itself fails. Couriers: a claim is exclusive, a settlement books
  once and its entries add up. Payments: an unsigned webhook changes nothing, a signed success captures the
  session and places the order; payouts never take a balance below zero and conserve money. Messages: every outbox row is
  delivered if passes go on, marks are sound, the declared topology is the one of the options,
  rejected core events are kept. Archival loses no row's key and ends; that it can keep an older copy is a lemma of its own. HTTP: who is admitted where, one region per request, replay of idempotency keys. The whole: in every reachable state the
  constraints of the schema and the sums of the orders hold, ids are unique, no request rewrites or deletes a row's
  identity, and a dispatched row was published. Schema: all inserts of the repositories are \<open>INSERT\<close>s into the tables of the
  migrations with all their refusals, entities survive the round trip through the driver, migrations can be taken
  back, and the partition script tiles its window.

  \<^bold>\<open>Bounds and fuel.\<close> Loops over lists are structural. The batch loop of the archival gets one more step than the table
  has rows: each round moves at least one row or is the last. Retries count the attempts that are left. \<open>INT\<close> columns hold 32-bit
  integers and an insert beyond them is an error; ids are unbounded. A JavaScript \<open>Number\<close> is read from decimal
  integers; coordinates are fixed-point with seven decimals. The texts of dates are for years of four digits.

  \<^bold>\<open>Not modelled.\<close> Express, socket.io, knex's query building, the AMQP sockets, \<open>jsonwebtoken\<close>, \<open>zod\<close> and
  \<open>class-validator\<close> are parameters or left out, since their code is not in the repository. The dependency container, the
  logger, the Swagger documents, the Docker files and \<open>migrate-all.ts\<close> (one command line per region) are wiring. Isolation
  of concurrent transactions in Postgres is only there as interleavings of statements, and the time a program takes only as the
  steps between which a clock may move.
\<close>

end
